(* ===== verification/Hub_Prelude.thy ===== *)
theory Hub_Prelude
  imports Main
begin

text \<open>
  Shared vocabulary of the development.

  The theory collects what the component theories have in common: association lists that
  behave like the own properties of a JavaScript object (an update keeps the position of an
  existing key, a new key goes to the end), joining and splitting of strings, decimal printing
  of numbers, and the collections of facts (\<open>named_theorems\<close>) that the component proofs use.
\<close>

named_theorems io_simps "evaluation rules of the effectful computations"
named_theorems client_defs "definitions of the methods of the API client"
named_theorems tool_defs "definitions of the tools of the MCP server"
named_theorems store_defs "definitions of the store mutations"

section \<open>Association lists as object properties\<close>

type_synonym 'v props = "(string \<times> 'v) list"

fun aset :: "string \<Rightarrow> 'v \<Rightarrow> 'v props \<Rightarrow> 'v props" where
  "aset k v [] = [(k, v)]"
| "aset k v ((k', v') # ps) = (if k' = k then (k, v) # ps else (k', v') # aset k v ps)"

definition adel :: "string \<Rightarrow> 'v props \<Rightarrow> 'v props" where
  "adel k ps = filter (\<lambda>p. fst p \<noteq> k) ps"

definition amerge :: "'v props \<Rightarrow> 'v props \<Rightarrow> 'v props" where
  "amerge ps qs = fold (\<lambda>(k, v) acc. aset k v acc) qs ps"

lemma map_of_aset [simp]: "map_of (aset k v ps) = (map_of ps)(k \<mapsto> v)"
  by (induction ps) (auto simp: fun_eq_iff)

lemma keys_aset: "set (map fst (aset k v ps)) = insert k (set (map fst ps))"
  by (induction k v ps rule: aset.induct) (simp_all add: insert_commute)

lemma distinct_aset [simp]: "distinct (map fst (aset k v ps)) = distinct (map fst ps)"
proof (induction ps)
  case (Cons p ps)
  then show ?case
    using keys_aset [of k v ps] by (cases p) auto
qed simp

lemma aset_new [simp]: "k \<notin> set (map fst ps) \<Longrightarrow> aset k v ps = ps @ [(k, v)]"
  by (induction ps) auto

lemma aset_idem [simp]: "aset k v (aset k u ps) = aset k v ps"
  by (induction ps) auto

lemma map_of_adel [simp]: "map_of (adel k ps) = (map_of ps)(k := None)"
  by (induction ps) (auto simp: adel_def fun_eq_iff)

lemma adel_absent: "k \<notin> set (map fst ps) \<Longrightarrow> adel k ps = ps"
  by (induction ps) (auto simp: adel_def)

lemma amerge_Nil [simp]: "amerge ps [] = ps"
  by (simp add: amerge_def)

lemma amerge_Cons [simp]: "amerge ps ((k, v) # qs) = amerge (aset k v ps) qs"
  by (simp add: amerge_def)

lemma map_of_amerge:
  "distinct (map fst qs) \<Longrightarrow> map_of (amerge ps qs) = map_of ps ++ map_of qs"
proof (induction qs arbitrary: ps)
  case (Cons q qs)
  obtain k v where q: "q = (k, v)" by (cases q)
  have "k \<notin> dom (map_of qs)"
    using Cons.prems by (simp add: q dom_map_of_conv_image_fst)
  then have "(map_of ps)(k \<mapsto> v) ++ map_of qs = map_of ps ++ (map_of qs)(k \<mapsto> v)"
    by (auto simp: map_add_def fun_eq_iff domIff split: option.split)
  moreover have "map_of (amerge (aset k v ps) qs) = (map_of ps)(k \<mapsto> v) ++ map_of qs"
    using Cons.IH [of "aset k v ps"] Cons.prems by (simp add: q fun_upd_def)
  ultimately show ?case by (simp add: q fun_upd_def)
qed simp

lemma distinct_amerge:
  "distinct (map fst ps) \<Longrightarrow> distinct (map fst (amerge ps qs))"
  by (induction qs arbitrary: ps) auto

section \<open>Joining strings\<close>

fun join :: "string \<Rightarrow> string list \<Rightarrow> string" where
  "join sep [] = []"
| "join sep [x] = x"
| "join sep (x # xs) = x @ sep @ join sep xs"

lemma join_Cons: "join sep (x # xs) = x @ (if xs = [] then [] else sep @ join sep xs)"
  by (cases xs) auto

section \<open>Decimal digits\<close>

definition digit_char :: "nat \<Rightarrow> char" where
  "digit_char d = char_of (48 + d)"

definition is_digit :: "char \<Rightarrow> bool" where
  "is_digit ch \<longleftrightarrow> 48 \<le> (of_char ch :: nat) \<and> (of_char ch :: nat) \<le> 57"

definition digit_val :: "char \<Rightarrow> nat" where
  "digit_val ch = of_char ch - 48"

fun dec_nat :: "nat \<Rightarrow> string" where
  "dec_nat n = (if n < 10 then [digit_char n] else dec_nat (n div 10) @ [digit_char (n mod 10)])"

declare dec_nat.simps [simp del]

definition dec_int :: "int \<Rightarrow> string" where
  "dec_int i = (if i < 0 then ''-'' @ dec_nat (nat (- i)) else dec_nat (nat i))"

definition read_dec :: "nat \<Rightarrow> string \<Rightarrow> nat" where
  "read_dec acc cs = foldl (\<lambda>a ch. 10 * a + digit_val ch) acc cs"

lemma digit_char_digit [simp]: "d < 10 \<Longrightarrow> is_digit (digit_char d)"
  by (simp add: is_digit_def digit_char_def)

lemma digit_val_char [simp]: "d < 10 \<Longrightarrow> digit_val (digit_char d) = d"
  by (simp add: digit_val_def digit_char_def)

lemma dec_nat_digits: "\<forall>ch \<in> set (dec_nat n). is_digit ch"
proof (induction n rule: dec_nat.induct)
  case (1 n)
  then show ?case by (subst dec_nat.simps) auto
qed

lemma dec_nat_nonempty [simp]: "dec_nat n \<noteq> []"
  by (subst dec_nat.simps) simp

lemma read_dec_append: "read_dec acc (xs @ ys) = read_dec (read_dec acc xs) ys"
  by (simp add: read_dec_def)

lemma read_dec_dec_nat: "read_dec 0 (dec_nat n) = n"
proof (induction n rule: dec_nat.induct)
  case (1 n)
  show ?case
  proof (cases "n < 10")
    case True
    then show ?thesis by (subst dec_nat.simps) (simp add: read_dec_def)
  next
    case False
    with 1 have "read_dec 0 (dec_nat (n div 10)) = n div 10" by simp
    with False show ?thesis
      by (subst dec_nat.simps) (simp add: read_dec_append, simp add: read_dec_def)
  qed
qed

lemma dec_nat_inject: "dec_nat m = dec_nat n \<longleftrightarrow> m = n"
  by (metis read_dec_dec_nat)

section \<open>Lists\<close>

lemma takeWhile_all_then:
  "\<forall>x \<in> set xs. P x \<Longrightarrow> (ys = [] \<or> \<not> P (hd ys)) \<Longrightarrow> takeWhile P (xs @ ys) = xs"
  by (cases ys) (auto simp: takeWhile_tail)

lemma dropWhile_all_then:
  "\<forall>x \<in> set xs. P x \<Longrightarrow> (ys = [] \<or> \<not> P (hd ys)) \<Longrightarrow> dropWhile P (xs @ ys) = ys"
  by (cases ys) (auto simp: dropWhile_append)

text \<open>\<open>xs.findIndex(p)\<close>, with \<open>None\<close> for -1.\<close>

fun find_index :: "('a \<Rightarrow> bool) \<Rightarrow> 'a list \<Rightarrow> nat option" where
  "find_index p [] = None"
| "find_index p (x # xs) = (if p x then Some 0 else map_option Suc (find_index p xs))"

lemma find_index_Some:
  "find_index p xs = Some i \<Longrightarrow> i < length xs \<and> p (xs ! i) \<and> (\<forall>j < i. \<not> p (xs ! j))"
proof (induction xs arbitrary: i)
  case (Cons x xs)
  show ?case
  proof (cases "p x")
    case False
    then obtain i' where "find_index p xs = Some i'" "i = Suc i'" using Cons.prems by auto
    with Cons.IH False show ?thesis by (auto simp: less_Suc_eq_0_disj)
  qed (use Cons.prems in simp)
qed simp

lemma find_index_None: "find_index p xs = None \<longleftrightarrow> (\<forall>x \<in> set xs. \<not> p x)"
  by (induction xs) auto

section \<open>Sorting\<close>

text \<open>\<open>xs.sort(cmp)\<close>: elements that compare as equal keep their order.\<close>

fun insert_by :: "('a \<Rightarrow> 'a \<Rightarrow> int) \<Rightarrow> 'a \<Rightarrow> 'a list \<Rightarrow> 'a list" where
  "insert_by cmp x [] = [x]"
| "insert_by cmp x (y # ys) = (if cmp x y \<le> 0 then x # y # ys else y # insert_by cmp x ys)"

definition sort_by :: "('a \<Rightarrow> 'a \<Rightarrow> int) \<Rightarrow> 'a list \<Rightarrow> 'a list" where
  "sort_by cmp xs = foldr (insert_by cmp) xs []"

lemma set_insert_by [simp]: "set (insert_by cmp x xs) = insert x (set xs)"
  by (induction xs) auto

lemma set_sort_by [simp]: "set (sort_by cmp xs) = set xs"
  unfolding sort_by_def by (induction xs) simp_all

lemma sort_by_Nil [simp]: "sort_by cmp [] = []"
  by (simp add: sort_by_def)

lemma length_insert_by [simp]: "length (insert_by cmp x xs) = Suc (length xs)"
  by (induction xs) auto

lemma length_sort_by [simp]: "length (sort_by cmp xs) = length xs"
  unfolding sort_by_def by (induction xs) simp_all

lemma sort_by_ne [simp]: "sort_by cmp xs = [] \<longleftrightarrow> xs = []"
  by (metis length_0_conv length_sort_by)

end
