(* ===== verification/Hub_JS.thy ===== *)
theory Hub_JS
  imports Hub_Prelude
begin

text \<open>
  The JavaScript values the program handles, and the operators of the language it applies to
  them.

  \<open>js\<close> has the values that occur in requests, responses, tool arguments and stored state.
  Objects are association lists in insertion order. Numbers are integers: page numbers, ports,
  priorities, counts and durations in milliseconds are; a fraction such as a sampling
  temperature has no value in the model. Strings are lists of characters below U+0100.
  Properties that objects inherit from their prototype are not modelled, and keys that look like
  array indices, which JavaScript enumerates first, keep their place among the others.
\<close>

datatype js =
    Undef
  | Null
  | Bool bool
  | Num int
  | Str string
  | Arr "js list"
  | Obj "(string \<times> js) list"

type_synonym jobj = "(string \<times> js) list"

text \<open>What a \<open>throw\<close> throws: an \<open>Error\<close> with its message, or any other value.\<close>

datatype thrown = ErrorObj string | OtherThrown js

section \<open>Conversions and operators\<close>

text \<open>\<open>Boolean(v)\<close>, the test of \<open>if\<close>, \<open>&&\<close>, \<open>||\<close> and \<open>?:\<close>.\<close>

fun truthy :: "js \<Rightarrow> bool" where
  "truthy Undef = False"
| "truthy Null = False"
| "truthy (Bool b) = b"
| "truthy (Num n) = (n \<noteq> 0)"
| "truthy (Str s) = (s \<noteq> [])"
| "truthy (Arr xs) = True"
| "truthy (Obj ps) = True"

definition nullish :: "js \<Rightarrow> bool" where
  "nullish v \<longleftrightarrow> v = Undef \<or> v = Null"

definition js_or :: "js \<Rightarrow> js \<Rightarrow> js" where
  "js_or a b = (if truthy a then a else b)"

definition js_coalesce :: "js \<Rightarrow> js \<Rightarrow> js" where
  "js_coalesce a b = (if nullish a then b else a)"

text \<open>\<open>String(v)\<close>, and what \<open>${v}\<close> inserts into a template.\<close>

fun js_str :: "js \<Rightarrow> string" where
  "js_str Undef = ''undefined''"
| "js_str Null = ''null''"
| "js_str (Bool b) = (if b then ''true'' else ''false'')"
| "js_str (Num n) = dec_int n"
| "js_str (Str s) = s"
| "js_str (Arr xs) = join '','' (map (\<lambda>x. if nullish x then [] else js_str x) xs)"
| "js_str (Obj ps) = ''[object Object]''"

text \<open>\<open>xs.join(sep)\<close>.\<close>

definition js_join :: "string \<Rightarrow> js list \<Rightarrow> string" where
  "js_join sep xs = join sep (map (\<lambda>x. if nullish x then [] else js_str x) xs)"

text \<open>Own properties, and the property access \<open>v.k\<close>, which throws on \<open>undefined\<close> and \<open>null\<close>.\<close>

definition oget :: "jobj \<Rightarrow> string \<Rightarrow> js" where
  "oget ps k = (case map_of ps k of None \<Rightarrow> Undef | Some v \<Rightarrow> v)"

definition type_error :: "string \<Rightarrow> string \<Rightarrow> thrown" where
  "type_error what k =
     ErrorObj (''Cannot read properties of '' @ what @ '' (reading '' @ [CHR 0x27] @ k @ [CHR 0x27] @ '')'')"

text \<open>Assigning a property to a string, a number or a boolean throws.\<close>

definition type_name :: "js \<Rightarrow> string" where
  "type_name v = (case v of Str _ \<Rightarrow> ''string'' | Num _ \<Rightarrow> ''number'' | Bool _ \<Rightarrow> ''boolean''
     | Undef \<Rightarrow> ''undefined'' | _ \<Rightarrow> ''object'')"

definition create_property_error :: "string \<Rightarrow> js \<Rightarrow> thrown" where
  "create_property_error k v =
     ErrorObj (''Cannot create property '' @ [CHR 0x27] @ k @ [CHR 0x27] @ '' on '' @ type_name v @ '' ''
       @ [CHR 0x27] @ js_str v @ [CHR 0x27])"

fun js_get :: "js \<Rightarrow> string \<Rightarrow> thrown + js" where
  "js_get Undef k = Inl (type_error ''undefined'' k)"
| "js_get Null k = Inl (type_error ''null'' k)"
| "js_get (Obj ps) k = Inr (oget ps k)"
| "js_get (Arr xs) k = Inr (if k = ''length'' then Num (int (length xs)) else Undef)"
| "js_get (Str s) k = Inr (if k = ''length'' then Num (int (length s)) else Undef)"
| "js_get (Bool b) k = Inr Undef"
| "js_get (Num n) k = Inr Undef"

text \<open>Optional chaining \<open>v?.k\<close>.\<close>

definition js_get_opt :: "js \<Rightarrow> string \<Rightarrow> js" where
  "js_get_opt v k = (case js_get v k of Inl _ \<Rightarrow> Undef | Inr u \<Rightarrow> u)"

lemma js_get_opt_nullish [simp]: "js_get_opt Undef k = Undef" "js_get_opt Null k = Undef"
  by (simp_all add: js_get_opt_def)

lemma js_get_opt_Obj [simp]: "js_get_opt (Obj ps) k = oget ps k"
  by (simp add: js_get_opt_def)

lemma oget_Nil [simp]: "oget [] k = Undef"
  by (simp add: oget_def)

lemma oget_Cons [simp]: "oget ((k', v) # ps) k = (if k' = k then v else oget ps k)"
  by (simp add: oget_def)

lemma oget_aset [simp]: "oget (aset k v ps) k' = (if k' = k then v else oget ps k')"
  by (simp add: oget_def)

text \<open>\<open>...v\<close> in an object literal: the own properties of \<open>v\<close>, if it has any.\<close>

fun spread_js :: "js \<Rightarrow> jobj" where
  "spread_js (Obj ps) = ps"
| "spread_js (Arr xs) = zip (map dec_nat [0..<length xs]) xs"
| "spread_js (Str s) = zip (map dec_nat [0..<length s]) (map (\<lambda>ch. Str [ch]) s)"
| "spread_js _ = []"

text \<open>\<open>...(v && { k: v })\<close> in an object literal contributes the property when \<open>v\<close> is truthy.\<close>

definition spread_if :: "string \<Rightarrow> js \<Rightarrow> jobj" where
  "spread_if k v = (if truthy v then [(k, v)] else [])"

text \<open>\<open>...(v !== undefined && { k: v })\<close>.\<close>

definition spread_defined :: "string \<Rightarrow> js \<Rightarrow> jobj" where
  "spread_defined k v = (if v \<noteq> Undef then [(k, v)] else [])"

lemma spread_if_simps [simp]:
  "truthy v \<Longrightarrow> spread_if k v = [(k, v)]"
  "\<not> truthy v \<Longrightarrow> spread_if k v = []"
  by (simp_all add: spread_if_def)

text \<open>\<open>error instanceof Error ? error.message : String(error)\<close>.\<close>

fun error_text :: "thrown \<Rightarrow> string" where
  "error_text (ErrorObj m) = m"
| "error_text (OtherThrown v) = js_str v"

section \<open>Well-formed and plain values\<close>

text \<open>
  An object has each own property once. A value is plain when it also has no
  \<open>undefined\<close> anywhere: these are the values that JSON can express.
\<close>

fun wf_js :: "js \<Rightarrow> bool" where
  "wf_js (Arr xs) = list_all wf_js xs"
| "wf_js (Obj ps) = (distinct (map fst ps) \<and> list_all (\<lambda>p. wf_js (snd p)) ps)"
| "wf_js _ = True"

fun plain :: "js \<Rightarrow> bool" where
  "plain Undef = False"
| "plain (Arr xs) = list_all plain xs"
| "plain (Obj ps) = (distinct (map fst ps) \<and> list_all (\<lambda>p. plain (snd p)) ps)"
| "plain _ = True"

lemma plain_not_Undef [simp]: "plain v \<Longrightarrow> v \<noteq> Undef"
  by auto

text \<open>\<open>toLowerCase\<close> and \<open>toUpperCase\<close> on the ASCII letters.\<close>

definition lower_char :: "char \<Rightarrow> char" where
  "lower_char ch = (let n = of_char ch :: nat in if 65 \<le> n \<and> n \<le> 90 then char_of (n + 32) else ch)"

definition upper_char :: "char \<Rightarrow> char" where
  "upper_char ch = (let n = of_char ch :: nat in if 97 \<le> n \<and> n \<le> 122 then char_of (n - 32) else ch)"

definition lower :: "string \<Rightarrow> string" where
  "lower = map lower_char"

text \<open>White space as \<open>String.prototype.trim\<close> sees it, below U+0100.\<close>

definition is_space :: "char \<Rightarrow> bool" where
  "is_space ch \<longleftrightarrow> (of_char ch :: nat) \<in> {9, 10, 11, 12, 13, 32, 160}"

definition trim :: "string \<Rightarrow> string" where
  "trim s = rev (dropWhile is_space (rev (dropWhile is_space s)))"

lemma trim_Nil [simp]: "trim [] = []"
  by (simp add: trim_def)

lemma trim_no_space: "\<forall>ch \<in> set s. \<not> is_space ch \<Longrightarrow> trim s = s"
proof -
  assume a: "\<forall>ch \<in> set s. \<not> is_space ch"
  have drop: "dropWhile is_space t = t" if "\<forall>ch \<in> set t. \<not> is_space ch" for t
    using that by (cases t) auto
  from a show ?thesis by (simp add: trim_def drop)
qed

text \<open>\<open>s.startsWith(p)\<close>.\<close>

definition starts_with :: "string \<Rightarrow> string \<Rightarrow> bool" where
  "starts_with p s \<longleftrightarrow> take (length p) s = p"

text \<open>\<open>s.includes(p)\<close>.\<close>

fun str_includes :: "string \<Rightarrow> string \<Rightarrow> bool" where
  "str_includes p [] = (p = [])"
| "str_includes p (ch # s) = (starts_with p (ch # s) \<or> str_includes p s)"

lemma starts_with_append [simp]: "starts_with p (p @ s)"
  by (simp add: starts_with_def)

text \<open>\<open>===\<close>; two objects that are not the same one are different.\<close>

definition strict_eq :: "js \<Rightarrow> js \<Rightarrow> bool" where
  "strict_eq a b \<longleftrightarrow> a = b \<and> (case a of Arr _ \<Rightarrow> False | Obj _ \<Rightarrow> False | _ \<Rightarrow> True)"

text \<open>\<open>v.k = x\<close>, which throws on \<open>undefined\<close>, \<open>null\<close> and primitive values.\<close>

definition set_error :: "string \<Rightarrow> string \<Rightarrow> thrown" where
  "set_error what k =
     ErrorObj (''Cannot set properties of '' @ what @ '' (setting '' @ [CHR 0x27] @ k @ [CHR 0x27] @ '')'')"

definition set_property :: "string \<Rightarrow> js \<Rightarrow> js \<Rightarrow> thrown + js" where
  "set_property k x v =
     (case v of
        Obj ps \<Rightarrow> Inr (Obj (aset k x ps))
      | Arr xs \<Rightarrow> Inr v
      | Undef \<Rightarrow> Inl (set_error ''undefined'' k)
      | Null \<Rightarrow> Inl (set_error ''null'' k)
      | _ \<Rightarrow> Inl (create_property_error k v))"

text \<open>\<open>s.endsWith(p)\<close>.\<close>

definition ends_with :: "string \<Rightarrow> string \<Rightarrow> bool" where
  "ends_with p s \<longleftrightarrow> starts_with (rev p) (rev s)"

text \<open>\<open>s.split(c)\<close> by a character.\<close>

fun split_on :: "char \<Rightarrow> string \<Rightarrow> string list" where
  "split_on c [] = [[]]"
| "split_on c (x # xs) =
     (if x = c then [] # split_on c xs
      else (case split_on c xs of [] \<Rightarrow> [[x]] | p # ps \<Rightarrow> (x # p) # ps))"

lemma split_on_ne [simp]: "split_on c s \<noteq> []"
  by (induction s) (auto split: list.split)

lemma split_on_none: "c \<notin> set s \<Longrightarrow> split_on c s = [s]"
  by (induction s) auto

lemma split_on_append: "split_on c (s @ c # t) = split_on c s @ split_on c t"
  by (induction s) (auto split: list.split)

lemma join_split_on: "join [c] (split_on c s) = s"
proof (induction s)
  case (Cons x xs)
  then show ?case by (cases "split_on c xs") (auto simp: join_Cons split: list.splits)
qed simp

end
