(* ===== verification/Hub_IO.thy ===== *)
theory Hub_IO
  imports Hub_JS
begin

text \<open>
  The asynchronous computations of the MCP server, and the HTTP exchange with the API server.

  A computation takes the world and returns what it resolves to or throws, together with the
  new world. The world holds the API server's own state, of any type, and the log of requests
  that left the process. The API server and the clock are not part of the repository's code:
  they are the parameter \<open>env\<close>. \<open>await\<close> is \<open>bind_io\<close>, \<open>try/catch\<close> is \<open>catch_io\<close>.

  The locale \<open>effects\<close> is the interface to that world that the higher layers rely on: a
  preorder between worlds that every request obeys. Whatever holds of one request is lifted,
  once, to every computation built from requests; the client and the tools are proved against
  this interface and the instances below and in \<^verbatim>\<open>Mcp_Client\<close> reuse those proofs.
\<close>

record request =
  req_method :: string
  req_base :: string
  req_url :: string
  req_params :: js
  req_data :: js
  req_headers :: "(string \<times> string) list"

text \<open>What the transport reports: a response, or an error with \<open>response.data\<close> (if any) and a message.\<close>

datatype outcome = Response nat js | Failure "js option" string

record 's world =
  server :: 's
  log :: "request list"

record 's env =
  transport :: "'s \<Rightarrow> request \<Rightarrow> 's \<times> outcome"
  clock :: "'s \<Rightarrow> string"

type_synonym ('s, 'a) io = "'s world \<Rightarrow> (thrown + 'a) \<times> 's world"

definition return_io :: "'a \<Rightarrow> ('s, 'a) io" where
  "return_io a w = (Inr a, w)"

definition throw_io :: "thrown \<Rightarrow> ('s, 'a) io" where
  "throw_io e w = (Inl e, w)"

definition bind_io :: "('s, 'a) io \<Rightarrow> ('a \<Rightarrow> ('s, 'b) io) \<Rightarrow> ('s, 'b) io" where
  "bind_io m f w = (case m w of (Inl e, w') \<Rightarrow> (Inl e, w') | (Inr a, w') \<Rightarrow> f a w')"

definition catch_io :: "('s, 'a) io \<Rightarrow> (thrown \<Rightarrow> ('s, 'a) io) \<Rightarrow> ('s, 'a) io" where
  "catch_io m h w = (case m w of (Inl e, w') \<Rightarrow> h e w' | (Inr a, w') \<Rightarrow> (Inr a, w'))"

definition lift_io :: "thrown + 'a \<Rightarrow> ('s, 'a) io" where
  "lift_io r w = (r, w)"

text \<open>\<open>new Date().toISOString()\<close>.\<close>

definition now_io :: "'s env \<Rightarrow> ('s, string) io" where
  "now_io env w = (Inr (clock env (server w)), w)"

text \<open>The request leaves the process: it is logged and the API server answers.\<close>

definition dispatch_io :: "'s env \<Rightarrow> request \<Rightarrow> ('s, outcome) io" where
  "dispatch_io env r w =
     (let (s', out) = transport env (server w) r in (Inr out, \<lparr>server = s', log = log w @ [r]\<rparr>))"

text \<open>
  \<open>Promise.all\<close> of a list of requests: all are sent, in order, before it settles; it rejects
  with the first rejection, answers arriving in the order of the requests.
\<close>

fun all_io :: "('s, 'a) io list \<Rightarrow> ('s, 'a list) io" where
  "all_io [] w = (Inr [], w)"
| "all_io (m # ms) w =
     (case m w of (r, w') \<Rightarrow>
       (case all_io ms w' of (rs, w'') \<Rightarrow>
         (case r of Inl e \<Rightarrow> Inl e
          | Inr a \<Rightarrow> (case rs of Inl e \<Rightarrow> Inl e | Inr as \<Rightarrow> Inr (a # as)), w'')))"

section \<open>Evaluation\<close>

lemma io_eval [io_simps]:
  "return_io a w = (Inr a, w)"
  "throw_io e w = (Inl e, w)"
  "lift_io r w = (r, w)"
  "now_io env w = (Inr (clock env (server w)), w)"
  by (simp_all add: return_io_def throw_io_def lift_io_def now_io_def)

lemma bind_io_Inr [io_simps]: "m w = (Inr a, w') \<Longrightarrow> bind_io m f w = f a w'"
  by (simp add: bind_io_def)

lemma bind_io_Inl [io_simps]: "m w = (Inl e, w') \<Longrightarrow> bind_io m f w = (Inl e, w')"
  by (simp add: bind_io_def)

lemma catch_io_Inr [io_simps]: "m w = (Inr a, w') \<Longrightarrow> catch_io m h w = (Inr a, w')"
  by (simp add: catch_io_def)

lemma catch_io_Inl [io_simps]: "m w = (Inl e, w') \<Longrightarrow> catch_io m h w = h e w'"
  by (simp add: catch_io_def)

lemma bind_return [simp]: "bind_io (return_io a) f = f a"
  by (simp add: bind_io_def return_io_def fun_eq_iff)

lemma bind_throw [simp]: "bind_io (throw_io e) f = throw_io e"
  by (simp add: bind_io_def throw_io_def fun_eq_iff)

lemma bind_lift_Inr [simp]: "bind_io (lift_io (Inr a)) f = f a"
  by (simp add: bind_io_def lift_io_def fun_eq_iff)

lemma bind_lift_Inl [simp]: "bind_io (lift_io (Inl e)) f = throw_io e"
  by (simp add: bind_io_def lift_io_def throw_io_def fun_eq_iff)

lemma bind_assoc: "bind_io (bind_io m f) g = bind_io m (\<lambda>a. bind_io (f a) g)"
  by (auto simp: bind_io_def fun_eq_iff split: prod.split sum.split)

lemma catch_return [simp]: "catch_io (return_io a) h = return_io a"
  by (simp add: catch_io_def return_io_def fun_eq_iff)

lemma catch_throw [simp]: "catch_io (throw_io e) h = h e"
  by (simp add: catch_io_def throw_io_def fun_eq_iff)

section \<open>Relations that computations respect\<close>

definition obeys :: "('s world \<Rightarrow> 's world \<Rightarrow> bool) \<Rightarrow> ('s, 'a) io \<Rightarrow> bool" where
  "obeys R m \<longleftrightarrow> (\<forall>w. R w (snd (m w)))"

lemma obeysD: "obeys R m \<Longrightarrow> R w (snd (m w))"
  by (simp add: obeys_def)

locale effects =
  fixes R :: "'s world \<Rightarrow> 's world \<Rightarrow> bool"
  assumes R_refl: "R w w"
    and R_trans: "R u v \<Longrightarrow> R v w \<Longrightarrow> R u w"
begin

lemma obeys_pure [intro, simp]:
  "obeys R (return_io a)" "obeys R (throw_io e)" "obeys R (lift_io r)" "obeys R (now_io env)"
  by (simp_all add: obeys_def io_eval R_refl)

lemma obeys_bind [intro]:
  assumes "obeys R m" and "\<And>a. obeys R (f a)"
  shows "obeys R (bind_io m f)"
  unfolding obeys_def
proof
  fix w
  have 1: "R w (snd (m w))" using assms(1) by (rule obeysD)
  show "R w (snd (bind_io m f w))"
  proof (cases "m w")
    case (Pair r w')
    with 1 obeysD [OF assms(2), of w'] show ?thesis
      by (cases r) (auto simp: bind_io_def intro: R_trans)
  qed
qed

lemma obeys_catch [intro]:
  assumes "obeys R m" and "\<And>e. obeys R (h e)"
  shows "obeys R (catch_io m h)"
  unfolding obeys_def
proof
  fix w
  have 1: "R w (snd (m w))" using assms(1) by (rule obeysD)
  show "R w (snd (catch_io m h w))"
  proof (cases "m w")
    case (Pair r w')
    with 1 obeysD [OF assms(2), of w'] show ?thesis
      by (cases r) (auto simp: catch_io_def intro: R_trans)
  qed
qed

lemma obeys_all [intro]:
  assumes "\<And>m. m \<in> set ms \<Longrightarrow> obeys R m"
  shows "obeys R (all_io ms)"
  unfolding obeys_def
proof
  fix w
  show "R w (snd (all_io ms w))"
    using assms
  proof (induction ms arbitrary: w)
    case (Cons m ms)
    obtain r w' where m: "m w = (r, w')" by fastforce
    obtain rs w'' where ms: "all_io ms w' = (rs, w'')" by fastforce
    have "R w w'" using Cons.prems [of m] obeysD [of R m w] m by simp
    moreover have "R w' w''" using Cons.IH [of w'] Cons.prems ms by simp
    ultimately show ?case using m ms by (simp add: R_trans)
  qed (simp add: R_refl)
qed

end

section \<open>Computations that throw nothing\<close>

definition total_io :: "('s, 'a) io \<Rightarrow> bool" where
  "total_io m \<longleftrightarrow> (\<forall>w. \<exists>a w'. m w = (Inr a, w'))"

lemma total_return [intro, simp]: "total_io (return_io a)"
  by (simp add: total_io_def io_eval)

lemma total_catch [intro]: "(\<And>e. total_io (h e)) \<Longrightarrow> total_io (catch_io m h)"
  unfolding total_io_def catch_io_def by (auto split: prod.split sum.split)

section \<open>The log as a history\<close>

text \<open>\<open>grows P w w'\<close>: the log of \<open>w'\<close> continues that of \<open>w\<close> by requests that satisfy \<open>P\<close>.\<close>

definition grows :: "(request \<Rightarrow> bool) \<Rightarrow> 's world \<Rightarrow> 's world \<Rightarrow> bool" where
  "grows P w w' \<longleftrightarrow> (\<exists>ext. log w' = log w @ ext \<and> list_all P ext)"

lemma grows_refl [intro, simp]: "grows P w w"
  by (simp add: grows_def)

lemma grows_trans: "grows P u v \<Longrightarrow> grows P v w \<Longrightarrow> grows P u w"
  by (auto simp: grows_def)

lemma grows_mono: "grows P u v \<Longrightarrow> (\<And>r. P r \<Longrightarrow> Q r) \<Longrightarrow> grows Q u v"
  by (auto simp: grows_def list_all_iff)

lemma grows_dispatch: "P r \<Longrightarrow> grows P w (snd (dispatch_io env r w))"
  by (simp add: grows_def dispatch_io_def Let_def split: prod.split)

interpretation history: effects "grows P" for P
  by unfold_locales (auto intro: grows_trans)

end
