(* ===== verification/Mcp_Config.thy ===== *)
theory Mcp_Config
  imports Hub_JS "HOL-Library.Word"
begin

unbundle bit_operations_syntax

text \<open>
  \<^verbatim>\<open>mcp/src/security.ts\<close> and \<^verbatim>\<open>mcp/src/config.ts\<close>: which HTTP methods are read-only, the
  confirmation a destructive tool asks for, and how the server reads its configuration from the
  command line, the environment and the secret file.

  The file system and the platform name are given by a \<open>host\<close> record; a file's mode is the
  32-bit integer that the bitwise operators of JavaScript work on.
\<close>

section \<open>Security controls\<close>

definition SAFE_HTTP_METHODS :: "string list" where
  "SAFE_HTTP_METHODS = [''get'', ''head'', ''options'']"

definition mutationsAreEnabled :: "string option \<Rightarrow> bool" where
  "mutationsAreEnabled value \<longleftrightarrow> value = Some ''true''"

definition isReadOnlyMethod :: "string option \<Rightarrow> bool" where
  "isReadOnlyMethod method \<longleftrightarrow>
     lower (case method of None \<Rightarrow> ''get'' | Some m \<Rightarrow> m) \<in> set SAFE_HTTP_METHODS"

definition expected_confirmation :: "string \<Rightarrow> js \<Rightarrow> string" where
  "expected_confirmation action resourceID = action @ '':'' @ js_str resourceID"

definition requireDestructiveConfirmation :: "js \<Rightarrow> string \<Rightarrow> js \<Rightarrow> thrown + unit" where
  "requireDestructiveConfirmation confirmation action resourceID =
     (let expected = expected_confirmation action resourceID in
      if confirmation \<noteq> Str expected
      then Inl (ErrorObj (''Confirmation required. Set confirmation to '' @ [CHR 0x22] @ expected @ [CHR 0x22] @ ''.''))
      else Inr ())"

lemma requireDestructiveConfirmation_ok_iff:
  "requireDestructiveConfirmation v action i = Inr () \<longleftrightarrow> v = Str (expected_confirmation action i)"
  by (simp add: requireDestructiveConfirmation_def Let_def)

lemma read_only_simps [simp]:
  "isReadOnlyMethod (Some ''get'')" "\<not> isReadOnlyMethod (Some ''post'')"
  "\<not> isReadOnlyMethod (Some ''put'')" "\<not> isReadOnlyMethod (Some ''patch'')"
  "\<not> isReadOnlyMethod (Some ''delete'')" "isReadOnlyMethod None"
  by (simp_all add: isReadOnlyMethod_def SAFE_HTTP_METHODS_def lower_def lower_char_def)

section \<open>Configuration\<close>

record file_stat =
  isFile :: bool
  mode :: "32 word"

record host =
  platform :: string
  statSync :: "string \<Rightarrow> thrown + file_stat"
  readFileSync :: "string \<Rightarrow> thrown + string"

record mcp_configuration =
  apiEndpoint :: string
  apiToken :: string
  allowMutations :: bool

type_synonym environment = "string \<Rightarrow> string option"

definition readSecretFile :: "host \<Rightarrow> string \<Rightarrow> thrown + string" where
  "readSecretFile h secretFile =
     (case statSync h secretFile of
        Inl e \<Rightarrow> Inl e
      | Inr stat \<Rightarrow>
          if \<not> isFile stat then Inl (ErrorObj ''ASTIANGO_API_TOKEN_FILE must point to a regular file.'')
          else if platform h \<noteq> ''win32'' \<and> mode stat AND 63 \<noteq> 0
          then Inl (ErrorObj ''ASTIANGO_API_TOKEN_FILE must not be readable by group or others.'')
          else (case readFileSync h secretFile of
                  Inl e \<Rightarrow> Inl e
                | Inr content \<Rightarrow>
                    (let token = trim content in
                     if token = [] then Inl (ErrorObj ''ASTIANGO_API_TOKEN_FILE is empty.'')
                     else Inr token)))"

definition first_defined :: "string option list \<Rightarrow> string option" where
  "first_defined vs = (case filter (\<lambda>v. v \<noteq> None) vs of [] \<Rightarrow> None | v # _ \<Rightarrow> v)"

definition loadMcpConfiguration :: "host \<Rightarrow> string list \<Rightarrow> environment \<Rightarrow> thrown + mcp_configuration" where
  "loadMcpConfiguration h args environment =
     (if 1 < length args
      then Inl (ErrorObj ''API tokens must be supplied through ASTIANGO_API_TOKEN_FILE, never as a command argument.'')
      else
       (let endpoint = first_defined [if args = [] then None else Some (args ! 0),
                                      environment ''ASTIANGO_API_URL'',
                                      environment ''ASTIANGO_API_ENDPOINT''];
            secretFile = environment ''ASTIANGO_API_TOKEN_FILE''
        in if endpoint = None \<or> endpoint = Some []
           then Inl (ErrorObj ''AstianGO Hub API URL is required. Use one command argument or ASTIANGO_API_ENDPOINT.'')
           else if secretFile = None \<or> secretFile = Some []
           then Inl (ErrorObj ''ASTIANGO_API_TOKEN_FILE is required. Mount the API token as a private secret file.'')
           else (case readSecretFile h (the secretFile) of
                   Inl e \<Rightarrow> Inl e
                 | Inr token \<Rightarrow>
                     Inr \<lparr>apiEndpoint = the endpoint, apiToken = token,
                          allowMutations = mutationsAreEnabled (environment ''ASTIANGO_MCP_ALLOW_MUTATIONS'')\<rparr>)))"

definition startupStatusMessages :: "mcp_configuration \<Rightarrow> string list" where
  "startupStatusMessages configuration =
     [''AstianGO Hub API endpoint: '' @ apiEndpoint configuration,
      ''Mutating MCP operations: '' @
        (if allowMutations configuration then ''enabled'' else ''disabled (default)'')]"

section \<open>Lemmas\<close>

lemma dropWhile_hd: "dropWhile P xs \<noteq> [] \<Longrightarrow> \<not> P (hd (dropWhile P xs))"
  by (induction xs) auto

lemma trim_ends:
  assumes "trim s \<noteq> []"
  shows "\<not> is_space (hd (trim s))" and "\<not> is_space (last (trim s))"
proof -
  let ?d = "dropWhile is_space s" and ?t = "dropWhile is_space (rev (dropWhile is_space s))"
  have t: "?t \<noteq> []" using assms by (simp add: trim_def)
  then show "\<not> is_space (last (trim s))"
    using dropWhile_hd [of is_space "rev ?d"] by (simp add: trim_def last_rev)
  have d: "?d \<noteq> []" using t by (auto dest: set_dropWhileD)
  obtain w where w: "rev ?d = w @ ?t"
    by (metis takeWhile_dropWhile_id)
  then have eq: "?d = rev ?t @ rev w" by (metis rev_append rev_rev_ident)
  with t have "hd ?d = hd (rev ?t)" by (metis hd_append2 rev_is_Nil_conv)
  with dropWhile_hd [OF d] show "\<not> is_space (hd (trim s))" by (simp add: trim_def)
qed

lemma readSecretFile_ok:
  assumes "readSecretFile h f = Inr token"
  obtains stat content where "statSync h f = Inr stat" and "isFile stat"
    and "platform h = ''win32'' \<or> mode stat AND 63 = 0"
    and "readFileSync h f = Inr content" and "token = trim content" and "token \<noteq> []"
  using assms by (auto simp: readSecretFile_def Let_def split: sum.splits if_splits)

lemma loadMcpConfiguration_ok:
  assumes "loadMcpConfiguration h args environment = Inr conf"
  obtains f where "length args \<le> 1" and "environment ''ASTIANGO_API_TOKEN_FILE'' = Some f" and "f \<noteq> []"
    and "readSecretFile h f = Inr (apiToken conf)" and "apiEndpoint conf \<noteq> []"
    and "allowMutations conf \<longleftrightarrow> environment ''ASTIANGO_MCP_ALLOW_MUTATIONS'' = Some ''true''"
  using assms
  by (auto simp: loadMcpConfiguration_def mutationsAreEnabled_def Let_def
      split: sum.splits if_splits option.splits)

text \<open>The mode test of \<open>readSecretFile\<close>, bit by bit: no permission for group or others.\<close>

lemma mode_private_iff: "(m :: 32 word) AND 63 = 0 \<longleftrightarrow> (\<forall>i < 6. \<not> bit m i)"
proof -
  have "(63 :: 32 word) = mask 6" by (simp add: mask_eq_exp_minus_1)
  then have "m AND 63 = take_bit 6 m" by (simp add: take_bit_eq_mask)
  then show ?thesis by (auto simp: bit_eq_iff bit_take_bit_iff)
qed

text \<open>
  C19: The server accepts a configuration exactly when it gets at most one argument, an API
  URL that is not empty (the argument first, then \<open>ASTIANGO_API_URL\<close>, then
  \<open>ASTIANGO_API_ENDPOINT\<close>), and the path of a regular file that, outside Windows, gives no
  permission bit to group or others and whose content is not blank. The token is that content
  without surrounding white space, and mutations are allowed only by the exact value \<open>true\<close>.
\<close>

theorem configuration_accepted_iff:
  "loadMcpConfiguration h args environment = Inr conf \<longleftrightarrow>
     length args \<le> 1 \<and>
     (\<exists>endpoint f stat content.
        first_defined [if args = [] then None else Some (args ! 0),
          environment ''ASTIANGO_API_URL'', environment ''ASTIANGO_API_ENDPOINT''] = Some endpoint \<and>
        endpoint \<noteq> [] \<and>
        environment ''ASTIANGO_API_TOKEN_FILE'' = Some f \<and> f \<noteq> [] \<and>
        statSync h f = Inr stat \<and> isFile stat \<and>
        (platform h = ''win32'' \<or> (\<forall>i < 6. \<not> bit (mode stat) i)) \<and>
        readFileSync h f = Inr content \<and> trim content \<noteq> [] \<and>
        conf = \<lparr>apiEndpoint = endpoint, apiToken = trim content,
          allowMutations = (environment ''ASTIANGO_MCP_ALLOW_MUTATIONS'' = Some ''true'')\<rparr>)"
  (is "?load \<longleftrightarrow> ?ok")
proof
  assume ?load
  then obtain endpoint f where l: "length args \<le> 1"
    and e: "first_defined [if args = [] then None else Some (args ! 0),
          environment ''ASTIANGO_API_URL'', environment ''ASTIANGO_API_ENDPOINT''] = Some endpoint" "endpoint \<noteq> []"
    and f: "environment ''ASTIANGO_API_TOKEN_FILE'' = Some f" "f \<noteq> []"
    and r: "readSecretFile h f = Inr (apiToken conf)"
    and c: "conf = \<lparr>apiEndpoint = endpoint, apiToken = apiToken conf,
          allowMutations = (environment ''ASTIANGO_MCP_ALLOW_MUTATIONS'' = Some ''true'')\<rparr>"
    by (auto simp: loadMcpConfiguration_def mutationsAreEnabled_def Let_def
        split: sum.splits if_splits)
  from r obtain stat content where "statSync h f = Inr stat" "isFile stat"
    "platform h = ''win32'' \<or> mode stat AND 63 = 0" "readFileSync h f = Inr content"
    "apiToken conf = trim content" "apiToken conf \<noteq> []"
    by (rule readSecretFile_ok)
  with l e f c show ?ok by (metis mode_private_iff)
next
  assume ?ok
  then obtain endpoint f stat content where
    "length args \<le> 1" and
    e: "first_defined [if args = [] then None else Some (args ! 0),
          environment ''ASTIANGO_API_URL'', environment ''ASTIANGO_API_ENDPOINT''] = Some endpoint" and
    r: "endpoint \<noteq> []" "environment ''ASTIANGO_API_TOKEN_FILE'' = Some f" "f \<noteq> []"
    "statSync h f = Inr stat" "isFile stat" "platform h = ''win32'' \<or> (\<forall>i < 6. \<not> bit (mode stat) i)"
    "readFileSync h f = Inr content" "trim content \<noteq> []"
    and c: "conf = \<lparr>apiEndpoint = endpoint, apiToken = trim content,
          allowMutations = (environment ''ASTIANGO_MCP_ALLOW_MUTATIONS'' = Some ''true'')\<rparr>"
    by blast
  have "readSecretFile h f = Inr (trim content)"
    using r by (auto simp: readSecretFile_def mode_private_iff Let_def)
  with \<open>length args \<le> 1\<close> e r c show ?load
    unfolding loadMcpConfiguration_def Let_def e by (simp add: mutationsAreEnabled_def)
qed

definition secret_host :: "32 word \<Rightarrow> host" where
  "secret_host m =
     \<lparr>platform = ''linux'', statSync = (\<lambda>f. Inr \<lparr>isFile = True, mode = m\<rparr>),
      readFileSync = (\<lambda>f. Inr '' token-1'')\<rparr>"

theorem configuration_accepted_iff_witness:
  "loadMcpConfiguration (secret_host 0x8180) [''http://hub''] [''ASTIANGO_API_TOKEN_FILE'' \<mapsto> ''/run/token''] =
     Inr \<lparr>apiEndpoint = ''http://hub'', apiToken = ''token-1'', allowMutations = False\<rparr>"
proof -
  have "\<forall>i < 6. \<not> bit (0x8180 :: 32 word) i"
    unfolding mode_private_iff [symmetric] by simp
  moreover have "trim '' token-1'' = ''token-1''" by (simp add: trim_def is_space_def)
  ultimately show ?thesis
    unfolding configuration_accepted_iff by (simp add: secret_host_def first_defined_def)
qed

end
