(* ===== verification/Mcp_Client.thy ===== *)
theory Mcp_Client
  imports Hub_IO Mcp_Config
begin

text \<open>
  \<^verbatim>\<open>mcp/src/client.ts\<close>: the client of the AstianGO Hub API that all MCP tools share.

  \<open>new_client\<close> is the constructor. \<open>http\<close> is one call of the underlying \<^verbatim>\<open>axios\<close> instance
  with the two interceptors of the constructor: the request interceptor refuses a method that is
  not read-only unless mutations are allowed, and every rejection, that one included, passes the
  response interceptor, which rewrites its message. The rest is one definition per method of the
  class. Arguments are JavaScript values, because nothing checks the declared types at run time.

  Two locales state what the tools rely on: \<open>read_effects\<close>, a preorder on worlds that every GET
  of the client respects, and \<open>http_effects\<close>, one that every request respects and that is
  therefore also an instance of the first. Both are interpreted here on the log of the requests:
  whatever the client sends carries its base URL and headers and has a method it lets through,
  and its reading methods send GET only.
\<close>

section \<open>The HTTP client and its interceptors\<close>

record client =
  base_url :: string
  timeout_ms :: nat
  headers :: "(string \<times> string) list"
  allow_mutations :: bool

definition strip_trailing_slash :: "string \<Rightarrow> string" where
  "strip_trailing_slash apiUrl = (if apiUrl \<noteq> [] \<and> last apiUrl = CHR ''/'' then butlast apiUrl else apiUrl)"

definition new_client :: "string \<Rightarrow> string option \<Rightarrow> nat \<Rightarrow> bool \<Rightarrow> client" where
  "new_client apiUrl api_token timeout allowMuts =
     \<lparr>base_url = strip_trailing_slash apiUrl,
      timeout_ms = timeout,
      headers = (''Content-Type'', ''application/json'') #
        (case api_token of
           None \<Rightarrow> []
         | Some t \<Rightarrow> if t = [] then [] else [(''Authorization'', ''Bearer '' @ t)]),
      allow_mutations = allowMuts\<rparr>"

definition read_only_message :: string where
  "read_only_message =
     ''MCP is read-only. Set ASTIANGO_MCP_ALLOW_MUTATIONS=true to allow write operations.''"

definition request_interceptor :: "client \<Rightarrow> string \<Rightarrow> (js option \<times> string) + unit" where
  "request_interceptor c meth =
     (if \<not> allow_mutations c \<and> \<not> isReadOnlyMethod (Some meth)
      then Inl (None, read_only_message) else Inr ())"

definition response_error_interceptor :: "js option \<times> string \<Rightarrow> thrown" where
  "response_error_interceptor err =
     (let message = js_or (js_get_opt (case fst err of None \<Rightarrow> Undef | Some d \<Rightarrow> d) ''error'') (Str (snd err))
      in ErrorObj (''AstianGO Hub API Error: '' @ js_str message))"

record reply =
  rep_status :: nat
  rep_data :: js

definition mk_request :: "client \<Rightarrow> string \<Rightarrow> string \<Rightarrow> js \<Rightarrow> js \<Rightarrow> request" where
  "mk_request c meth url params data =
     \<lparr>req_method = meth, req_base = base_url c, req_url = url, req_params = params,
      req_data = data, req_headers = headers c\<rparr>"

definition http :: "'s env \<Rightarrow> client \<Rightarrow> string \<Rightarrow> string \<Rightarrow> js \<Rightarrow> js \<Rightarrow> ('s, reply) io" where
  "http env c meth url params data =
     (case request_interceptor c meth of
        Inl err \<Rightarrow> throw_io (response_error_interceptor err)
      | Inr _ \<Rightarrow>
          bind_io (dispatch_io env (mk_request c meth url params data)) (\<lambda>out.
            case out of
              Response st body \<Rightarrow> return_io \<lparr>rep_status = st, rep_data = body\<rparr>
            | Failure d msg \<Rightarrow> throw_io (response_error_interceptor (d, msg))))"

definition http_get :: "'s env \<Rightarrow> client \<Rightarrow> string \<Rightarrow> js \<Rightarrow> ('s, reply) io" where
  "http_get env c url params = http env c ''get'' url params Undef"

definition http_post :: "'s env \<Rightarrow> client \<Rightarrow> string \<Rightarrow> js \<Rightarrow> ('s, reply) io" where
  "http_post env c url data = http env c ''post'' url Undef data"

definition http_put :: "'s env \<Rightarrow> client \<Rightarrow> string \<Rightarrow> js \<Rightarrow> ('s, reply) io" where
  "http_put env c url data = http env c ''put'' url Undef data"

definition http_patch :: "'s env \<Rightarrow> client \<Rightarrow> string \<Rightarrow> js \<Rightarrow> ('s, reply) io" where
  "http_patch env c url data = http env c ''patch'' url Undef data"

definition http_delete :: "'s env \<Rightarrow> client \<Rightarrow> string \<Rightarrow> ('s, reply) io" where
  "http_delete env c url = http env c ''delete'' url Undef Undef"

lemmas http_verbs = http_get_def http_post_def http_put_def http_patch_def http_delete_def

definition response_data :: "('s, reply) io \<Rightarrow> ('s, js) io" where
  "response_data m = bind_io m (\<lambda>response. return_io (rep_data response))"

section \<open>The methods of the client\<close>

definition getSpiders :: "'s env \<Rightarrow> client \<Rightarrow> js \<Rightarrow> ('s, js) io" where
  [client_defs]: "getSpiders env c params = response_data (http_get env c ''/spiders'' params)"

definition getSpider :: "'s env \<Rightarrow> client \<Rightarrow> js \<Rightarrow> ('s, js) io" where
  [client_defs]: "getSpider env c ident = response_data (http_get env c (''/spiders/'' @ js_str ident) Undef)"

definition createSpider :: "'s env \<Rightarrow> client \<Rightarrow> js \<Rightarrow> ('s, js) io" where
  [client_defs]: "createSpider env c spider = response_data (http_post env c ''/spiders'' spider)"

definition updateSpider :: "'s env \<Rightarrow> client \<Rightarrow> js \<Rightarrow> js \<Rightarrow> ('s, js) io" where
  [client_defs]: "updateSpider env c ident spider = response_data (http_put env c (''/spiders/'' @ js_str ident) spider)"

definition deleteSpider :: "'s env \<Rightarrow> client \<Rightarrow> js \<Rightarrow> ('s, js) io" where
  [client_defs]: "deleteSpider env c ident = response_data (http_delete env c (''/spiders/'' @ js_str ident))"

definition runSpider :: "'s env \<Rightarrow> client \<Rightarrow> js \<Rightarrow> js \<Rightarrow> ('s, js) io" where
  [client_defs]: "runSpider env c ident params = response_data (http_post env c (''/spiders/'' @ js_str ident @ ''/run'') params)"

definition getSpiderFiles :: "'s env \<Rightarrow> client \<Rightarrow> js \<Rightarrow> js \<Rightarrow> ('s, js) io" where
  [client_defs]: "getSpiderFiles env c ident path = response_data (http_get env c (''/spiders/'' @ js_str ident @ ''/files'') (if truthy path then Obj [(''path'', path)] else Obj []))"

definition getSpiderFileContent :: "'s env \<Rightarrow> client \<Rightarrow> js \<Rightarrow> js \<Rightarrow> ('s, js) io" where
  [client_defs]: "getSpiderFileContent env c ident path = response_data (http_get env c (''/spiders/'' @ js_str ident @ ''/files/content'') (Obj [(''path'', path)]))"

definition saveSpiderFile :: "'s env \<Rightarrow> client \<Rightarrow> js \<Rightarrow> js \<Rightarrow> js \<Rightarrow> ('s, js) io" where
  [client_defs]: "saveSpiderFile env c ident path content = response_data (http_post env c (''/spiders/'' @ js_str ident @ ''/files/save'') (Obj [(''path'', path), (''content'', content)]))"

definition getTasks :: "'s env \<Rightarrow> client \<Rightarrow> js \<Rightarrow> ('s, js) io" where
  [client_defs]: "getTasks env c params = response_data (http_get env c ''/tasks'' params)"

definition getTask :: "'s env \<Rightarrow> client \<Rightarrow> js \<Rightarrow> ('s, js) io" where
  [client_defs]: "getTask env c ident = response_data (http_get env c (''/tasks/'' @ js_str ident) Undef)"

definition cancelTask :: "'s env \<Rightarrow> client \<Rightarrow> js \<Rightarrow> ('s, js) io" where
  [client_defs]: "cancelTask env c ident = response_data (http_post env c (''/tasks/'' @ js_str ident @ ''/cancel'') Undef)"

definition restartTask :: "'s env \<Rightarrow> client \<Rightarrow> js \<Rightarrow> ('s, js) io" where
  [client_defs]: "restartTask env c ident = response_data (http_post env c (''/tasks/'' @ js_str ident @ ''/restart'') Undef)"

definition deleteTask :: "'s env \<Rightarrow> client \<Rightarrow> js \<Rightarrow> ('s, js) io" where
  [client_defs]: "deleteTask env c ident = response_data (http_delete env c (''/tasks/'' @ js_str ident))"

definition getTaskLogs :: "'s env \<Rightarrow> client \<Rightarrow> js \<Rightarrow> js \<Rightarrow> ('s, js) io" where
  [client_defs]: "getTaskLogs env c ident params = response_data (http_get env c (''/tasks/'' @ js_str ident @ ''/logs'') params)"

definition getTaskResults :: "'s env \<Rightarrow> client \<Rightarrow> js \<Rightarrow> js \<Rightarrow> ('s, js) io" where
  [client_defs]: "getTaskResults env c ident params = response_data (http_get env c (''/tasks/'' @ js_str ident @ ''/results'') params)"

definition getNodes :: "'s env \<Rightarrow> client \<Rightarrow> js \<Rightarrow> ('s, js) io" where
  [client_defs]: "getNodes env c params = response_data (http_get env c ''/nodes'' params)"

definition getNode :: "'s env \<Rightarrow> client \<Rightarrow> js \<Rightarrow> ('s, js) io" where
  [client_defs]: "getNode env c ident = response_data (http_get env c (''/nodes/'' @ js_str ident) Undef)"

definition updateNode :: "'s env \<Rightarrow> client \<Rightarrow> js \<Rightarrow> js \<Rightarrow> ('s, js) io" where
  [client_defs]: "updateNode env c ident node = response_data (http_put env c (''/nodes/'' @ js_str ident) node)"

definition enableNode :: "'s env \<Rightarrow> client \<Rightarrow> js \<Rightarrow> ('s, js) io" where
  [client_defs]: "enableNode env c ident = response_data (http_post env c (''/nodes/'' @ js_str ident @ ''/enable'') Undef)"

definition disableNode :: "'s env \<Rightarrow> client \<Rightarrow> js \<Rightarrow> ('s, js) io" where
  [client_defs]: "disableNode env c ident = response_data (http_post env c (''/nodes/'' @ js_str ident @ ''/disable'') Undef)"

definition getSchedules :: "'s env \<Rightarrow> client \<Rightarrow> js \<Rightarrow> ('s, js) io" where
  [client_defs]: "getSchedules env c params = response_data (http_get env c ''/schedules'' params)"

definition getSchedule :: "'s env \<Rightarrow> client \<Rightarrow> js \<Rightarrow> ('s, js) io" where
  [client_defs]: "getSchedule env c ident = response_data (http_get env c (''/schedules/'' @ js_str ident) Undef)"

definition createSchedule :: "'s env \<Rightarrow> client \<Rightarrow> js \<Rightarrow> ('s, js) io" where
  [client_defs]: "createSchedule env c schedule = response_data (http_post env c ''/schedules'' schedule)"

definition updateSchedule :: "'s env \<Rightarrow> client \<Rightarrow> js \<Rightarrow> js \<Rightarrow> ('s, js) io" where
  [client_defs]: "updateSchedule env c ident schedule = response_data (http_put env c (''/schedules/'' @ js_str ident) schedule)"

definition deleteSchedule :: "'s env \<Rightarrow> client \<Rightarrow> js \<Rightarrow> ('s, js) io" where
  [client_defs]: "deleteSchedule env c ident = response_data (http_delete env c (''/schedules/'' @ js_str ident))"

definition enableSchedule :: "'s env \<Rightarrow> client \<Rightarrow> js \<Rightarrow> ('s, js) io" where
  [client_defs]: "enableSchedule env c ident = response_data (http_post env c (''/schedules/'' @ js_str ident @ ''/enable'') Undef)"

definition disableSchedule :: "'s env \<Rightarrow> client \<Rightarrow> js \<Rightarrow> ('s, js) io" where
  [client_defs]: "disableSchedule env c ident = response_data (http_post env c (''/schedules/'' @ js_str ident @ ''/disable'') Undef)"

definition getProjects :: "'s env \<Rightarrow> client \<Rightarrow> js \<Rightarrow> ('s, js) io" where
  [client_defs]: "getProjects env c params = response_data (http_get env c ''/projects'' params)"

definition getProject :: "'s env \<Rightarrow> client \<Rightarrow> js \<Rightarrow> ('s, js) io" where
  [client_defs]: "getProject env c ident = response_data (http_get env c (''/projects/'' @ js_str ident) Undef)"

definition createProject :: "'s env \<Rightarrow> client \<Rightarrow> js \<Rightarrow> ('s, js) io" where
  [client_defs]: "createProject env c project = response_data (http_post env c ''/projects'' project)"

definition updateProject :: "'s env \<Rightarrow> client \<Rightarrow> js \<Rightarrow> js \<Rightarrow> ('s, js) io" where
  [client_defs]: "updateProject env c ident project = response_data (http_put env c (''/projects/'' @ js_str ident) project)"

definition deleteProject :: "'s env \<Rightarrow> client \<Rightarrow> js \<Rightarrow> ('s, js) io" where
  [client_defs]: "deleteProject env c ident = response_data (http_delete env c (''/projects/'' @ js_str ident))"

definition getDatabases :: "'s env \<Rightarrow> client \<Rightarrow> js \<Rightarrow> ('s, js) io" where
  [client_defs]: "getDatabases env c params = response_data (http_get env c ''/databases'' params)"

definition getDatabase :: "'s env \<Rightarrow> client \<Rightarrow> js \<Rightarrow> ('s, js) io" where
  [client_defs]: "getDatabase env c ident = response_data (http_get env c (''/databases/'' @ js_str ident) Undef)"

definition createDatabase :: "'s env \<Rightarrow> client \<Rightarrow> js \<Rightarrow> ('s, js) io" where
  [client_defs]: "createDatabase env c database = response_data (http_post env c ''/databases'' database)"

definition updateDatabase :: "'s env \<Rightarrow> client \<Rightarrow> js \<Rightarrow> js \<Rightarrow> ('s, js) io" where
  [client_defs]: "updateDatabase env c ident database = response_data (http_put env c (''/databases/'' @ js_str ident) database)"

definition deleteDatabase :: "'s env \<Rightarrow> client \<Rightarrow> js \<Rightarrow> ('s, js) io" where
  [client_defs]: "deleteDatabase env c ident = response_data (http_delete env c (''/databases/'' @ js_str ident))"

definition testDatabaseConnection :: "'s env \<Rightarrow> client \<Rightarrow> js \<Rightarrow> ('s, js) io" where
  [client_defs]: "testDatabaseConnection env c ident = response_data (http_post env c (''/databases/'' @ js_str ident @ ''/test'') Undef)"

definition getGitRepos :: "'s env \<Rightarrow> client \<Rightarrow> js \<Rightarrow> ('s, js) io" where
  [client_defs]: "getGitRepos env c params = response_data (http_get env c ''/gits'' params)"

definition getGitRepo :: "'s env \<Rightarrow> client \<Rightarrow> js \<Rightarrow> ('s, js) io" where
  [client_defs]: "getGitRepo env c ident = response_data (http_get env c (''/gits/'' @ js_str ident) Undef)"

definition createGitRepo :: "'s env \<Rightarrow> client \<Rightarrow> js \<Rightarrow> ('s, js) io" where
  [client_defs]: "createGitRepo env c git = response_data (http_post env c ''/gits'' git)"

definition updateGitRepo :: "'s env \<Rightarrow> client \<Rightarrow> js \<Rightarrow> js \<Rightarrow> ('s, js) io" where
  [client_defs]: "updateGitRepo env c ident git = response_data (http_put env c (''/gits/'' @ js_str ident) git)"

definition deleteGitRepo :: "'s env \<Rightarrow> client \<Rightarrow> js \<Rightarrow> ('s, js) io" where
  [client_defs]: "deleteGitRepo env c ident = response_data (http_delete env c (''/gits/'' @ js_str ident))"

definition pullGitRepo :: "'s env \<Rightarrow> client \<Rightarrow> js \<Rightarrow> ('s, js) io" where
  [client_defs]: "pullGitRepo env c ident = response_data (http_post env c (''/gits/'' @ js_str ident @ ''/pull'') Undef)"

definition cloneGitRepo :: "'s env \<Rightarrow> client \<Rightarrow> js \<Rightarrow> ('s, js) io" where
  [client_defs]: "cloneGitRepo env c ident = response_data (http_post env c (''/gits/'' @ js_str ident @ ''/clone'') Undef)"

definition getSpiderStats :: "'s env \<Rightarrow> client \<Rightarrow> js \<Rightarrow> ('s, js) io" where
  [client_defs]: "getSpiderStats env c ident = response_data (http_get env c (''/spiders/'' @ js_str ident @ ''/stats'') Undef)"

definition getTaskStats :: "'s env \<Rightarrow> client \<Rightarrow> js \<Rightarrow> ('s, js) io" where
  [client_defs]: "getTaskStats env c ident = response_data (http_get env c (''/tasks/'' @ js_str ident @ ''/stats'') Undef)"

definition healthCheck :: "'s env \<Rightarrow> client \<Rightarrow> ('s, bool) io" where
  [client_defs]: "healthCheck env c =
     catch_io (bind_io (http_get env c ''/health'' Undef) (\<lambda>response. return_io (rep_status response = 200)))
       (\<lambda>_. return_io False)"

definition getLLMProviders :: "'s env \<Rightarrow> client \<Rightarrow> js \<Rightarrow> ('s, js) io" where
  [client_defs]: "getLLMProviders env c params = response_data (http_get env c ''/ai/llm/providers'' params)"

definition getLLMProvider :: "'s env \<Rightarrow> client \<Rightarrow> js \<Rightarrow> ('s, js) io" where
  [client_defs]: "getLLMProvider env c ident = response_data (http_get env c (''/ai/llm/providers/'' @ js_str ident) Undef)"

definition createLLMProvider :: "'s env \<Rightarrow> client \<Rightarrow> js \<Rightarrow> ('s, js) io" where
  [client_defs]: "createLLMProvider env c provider = response_data (http_post env c ''/ai/llm/providers'' (Obj [(''data'', provider)]))"

definition updateLLMProvider :: "'s env \<Rightarrow> client \<Rightarrow> js \<Rightarrow> js \<Rightarrow> ('s, js) io" where
  [client_defs]: "updateLLMProvider env c ident provider = response_data (http_put env c (''/ai/llm/providers/'' @ js_str ident) (Obj [(''data'', provider)]))"

definition deleteLLMProvider :: "'s env \<Rightarrow> client \<Rightarrow> js \<Rightarrow> ('s, js) io" where
  [client_defs]: "deleteLLMProvider env c ident = response_data (http_delete env c (''/ai/llm/providers/'' @ js_str ident))"

definition getConversations :: "'s env \<Rightarrow> client \<Rightarrow> js \<Rightarrow> ('s, js) io" where
  [client_defs]: "getConversations env c params = response_data (http_get env c ''/ai/conversations'' params)"

definition getConversation :: "'s env \<Rightarrow> client \<Rightarrow> js \<Rightarrow> ('s, js) io" where
  [client_defs]: "getConversation env c ident = response_data (http_get env c (''/ai/conversations/'' @ js_str ident) Undef)"

definition createConversation :: "'s env \<Rightarrow> client \<Rightarrow> js \<Rightarrow> ('s, js) io" where
  [client_defs]: "createConversation env c conversation = response_data (http_post env c ''/ai/conversations'' (Obj [(''data'', conversation)]))"

definition updateConversation :: "'s env \<Rightarrow> client \<Rightarrow> js \<Rightarrow> js \<Rightarrow> ('s, js) io" where
  [client_defs]: "updateConversation env c ident conversation = response_data (http_put env c (''/ai/conversations/'' @ js_str ident) (Obj [(''data'', conversation)]))"

definition deleteConversation :: "'s env \<Rightarrow> client \<Rightarrow> js \<Rightarrow> ('s, js) io" where
  [client_defs]: "deleteConversation env c ident = response_data (http_delete env c (''/ai/conversations/'' @ js_str ident))"

definition getConversationMessages :: "'s env \<Rightarrow> client \<Rightarrow> js \<Rightarrow> ('s, js) io" where
  [client_defs]: "getConversationMessages env c ident = response_data (http_get env c (''/ai/conversations/'' @ js_str ident @ ''/messages'') Undef)"

definition getChatMessage :: "'s env \<Rightarrow> client \<Rightarrow> js \<Rightarrow> js \<Rightarrow> ('s, js) io" where
  [client_defs]: "getChatMessage env c conversationId messageId = response_data (http_get env c (''/ai/conversations/'' @ js_str conversationId @ ''/messages/'' @ js_str messageId) Undef)"

definition getAutoProbesV2 :: "'s env \<Rightarrow> client \<Rightarrow> js \<Rightarrow> ('s, js) io" where
  [client_defs]: "getAutoProbesV2 env c params = response_data (http_get env c ''/ai/autoprobes'' params)"

definition getAutoProbeV2 :: "'s env \<Rightarrow> client \<Rightarrow> js \<Rightarrow> ('s, js) io" where
  [client_defs]: "getAutoProbeV2 env c ident = response_data (http_get env c (''/ai/autoprobes/'' @ js_str ident) Undef)"

definition createAutoProbeV2 :: "'s env \<Rightarrow> client \<Rightarrow> js \<Rightarrow> ('s, js) io" where
  [client_defs]: "createAutoProbeV2 env c autoprobe = response_data (http_post env c ''/ai/autoprobes'' (Obj [(''data'', autoprobe)]))"

definition updateAutoProbeV2 :: "'s env \<Rightarrow> client \<Rightarrow> js \<Rightarrow> js \<Rightarrow> ('s, js) io" where
  [client_defs]: "updateAutoProbeV2 env c ident autoprobe = response_data (http_patch env c (''/ai/autoprobes/'' @ js_str ident) (Obj [(''data'', autoprobe)]))"

definition deleteAutoProbeV2 :: "'s env \<Rightarrow> client \<Rightarrow> js \<Rightarrow> ('s, js) io" where
  [client_defs]: "deleteAutoProbeV2 env c ident = response_data (http_delete env c (''/ai/autoprobes/'' @ js_str ident))"

definition runAutoProbeV2Task :: "'s env \<Rightarrow> client \<Rightarrow> js \<Rightarrow> js \<Rightarrow> ('s, js) io" where
  [client_defs]: "runAutoProbeV2Task env c ident params = response_data (http_post env c (''/ai/autoprobes/'' @ js_str ident @ ''/tasks'') params)"

definition getAutoProbeV2Tasks :: "'s env \<Rightarrow> client \<Rightarrow> js \<Rightarrow> js \<Rightarrow> ('s, js) io" where
  [client_defs]: "getAutoProbeV2Tasks env c ident params = response_data (http_get env c (''/ai/autoprobes/'' @ js_str ident @ ''/tasks'') params)"

definition getAutoProbeV2Preview :: "'s env \<Rightarrow> client \<Rightarrow> js \<Rightarrow> ('s, js) io" where
  [client_defs]: "getAutoProbeV2Preview env c ident = response_data (http_get env c (''/ai/autoprobes/'' @ js_str ident @ ''/preview'') Undef)"

definition getAutoProbeV2Pattern :: "'s env \<Rightarrow> client \<Rightarrow> js \<Rightarrow> ('s, js) io" where
  [client_defs]: "getAutoProbeV2Pattern env c ident = response_data (http_get env c (''/ai/autoprobes/'' @ js_str ident @ ''/pattern'') Undef)"

definition getAutoProbeV2PatternResults :: "'s env \<Rightarrow> client \<Rightarrow> js \<Rightarrow> ('s, js) io" where
  [client_defs]: "getAutoProbeV2PatternResults env c ident = response_data (http_get env c (''/ai/autoprobes/'' @ js_str ident @ ''/pattern/results'') Undef)"

definition getAutoProbes :: "'s env \<Rightarrow> client \<Rightarrow> js \<Rightarrow> ('s, js) io" where
  [client_defs]: "getAutoProbes env c params = response_data (http_get env c ''/ai/autoprobes/v1'' params)"

definition getAutoProbe :: "'s env \<Rightarrow> client \<Rightarrow> js \<Rightarrow> ('s, js) io" where
  [client_defs]: "getAutoProbe env c ident = response_data (http_get env c (''/ai/autoprobes/v1/'' @ js_str ident) Undef)"

definition createAutoProbe :: "'s env \<Rightarrow> client \<Rightarrow> js \<Rightarrow> ('s, js) io" where
  [client_defs]: "createAutoProbe env c autoprobe = response_data (http_post env c ''/ai/autoprobes/v1'' (Obj [(''data'', autoprobe)]))"

definition runAutoProbeTask :: "'s env \<Rightarrow> client \<Rightarrow> js \<Rightarrow> js \<Rightarrow> ('s, js) io" where
  [client_defs]: "runAutoProbeTask env c ident params = response_data (http_post env c (''/ai/autoprobes/v1/'' @ js_str ident @ ''/tasks'') params)"

definition getAutoProbePreview :: "'s env \<Rightarrow> client \<Rightarrow> js \<Rightarrow> ('s, js) io" where
  [client_defs]: "getAutoProbePreview env c ident = response_data (http_get env c (''/ai/autoprobes/v1/'' @ js_str ident @ ''/preview'') Undef)"

section \<open>What every request of a client does to the world\<close>

locale read_effects = effects R
  for R :: "'s world \<Rightarrow> 's world \<Rightarrow> bool" +
  fixes env :: "'s env" and c :: client
  assumes R_get: "obeys R (http_get env c url params)"
begin

lemma obeys_get [simp, intro]: "obeys R (http_get env c url params)"
  by (rule R_get)

lemma obeys_response_data [simp, intro]: "obeys R m \<Longrightarrow> obeys R (response_data m)"
  unfolding response_data_def by (intro obeys_bind obeys_pure)

lemma obeys_health [simp, intro]: "obeys R (healthCheck env c)"
  unfolding client_defs by (intro obeys_catch obeys_bind obeys_pure obeys_get)

lemma client_reads_obey [simp, intro]:
  "obeys R (getSpiders env c a0)"
  "obeys R (getSpider env c a0)"
  "obeys R (getSpiderFiles env c a0 a1)"
  "obeys R (getSpiderFileContent env c a0 a1)"
  "obeys R (getTasks env c a0)"
  "obeys R (getTask env c a0)"
  "obeys R (getTaskLogs env c a0 a1)"
  "obeys R (getTaskResults env c a0 a1)"
  "obeys R (getNodes env c a0)"
  "obeys R (getNode env c a0)"
  "obeys R (getSchedules env c a0)"
  "obeys R (getSchedule env c a0)"
  "obeys R (getProjects env c a0)"
  "obeys R (getProject env c a0)"
  "obeys R (getDatabases env c a0)"
  "obeys R (getDatabase env c a0)"
  "obeys R (getGitRepos env c a0)"
  "obeys R (getGitRepo env c a0)"
  "obeys R (getSpiderStats env c a0)"
  "obeys R (getTaskStats env c a0)"
  "obeys R (getLLMProviders env c a0)"
  "obeys R (getLLMProvider env c a0)"
  "obeys R (getConversations env c a0)"
  "obeys R (getConversation env c a0)"
  "obeys R (getConversationMessages env c a0)"
  "obeys R (getChatMessage env c a0 a1)"
  "obeys R (getAutoProbesV2 env c a0)"
  "obeys R (getAutoProbeV2 env c a0)"
  "obeys R (getAutoProbeV2Tasks env c a0 a1)"
  "obeys R (getAutoProbeV2Preview env c a0)"
  "obeys R (getAutoProbeV2Pattern env c a0)"
  "obeys R (getAutoProbeV2PatternResults env c a0)"
  "obeys R (getAutoProbes env c a0)"
  "obeys R (getAutoProbe env c a0)"
  "obeys R (getAutoProbePreview env c a0)"
  unfolding client_defs by (intro obeys_response_data obeys_get)+

end

locale http_effects = effects R
  for R :: "'s world \<Rightarrow> 's world \<Rightarrow> bool" +
  fixes env :: "'s env" and c :: client
  assumes R_http: "obeys R (http env c meth url params data)"
begin

lemma obeys_verbs [simp, intro]:
  "obeys R (http_post env c url data)"
  "obeys R (http_put env c url data)"
  "obeys R (http_patch env c url data)"
  "obeys R (http_delete env c url)"
  by (simp_all add: http_verbs R_http)

end

sublocale http_effects \<subseteq> read_effects R env c
  by unfold_locales (simp add: http_get_def R_http)

context http_effects
begin

lemma client_writes_obey [simp, intro]:
  "obeys R (createSpider env c a0)"
  "obeys R (updateSpider env c a0 a1)"
  "obeys R (deleteSpider env c a0)"
  "obeys R (runSpider env c a0 a1)"
  "obeys R (saveSpiderFile env c a0 a1 a2)"
  "obeys R (cancelTask env c a0)"
  "obeys R (restartTask env c a0)"
  "obeys R (deleteTask env c a0)"
  "obeys R (updateNode env c a0 a1)"
  "obeys R (enableNode env c a0)"
  "obeys R (disableNode env c a0)"
  "obeys R (createSchedule env c a0)"
  "obeys R (updateSchedule env c a0 a1)"
  "obeys R (deleteSchedule env c a0)"
  "obeys R (enableSchedule env c a0)"
  "obeys R (disableSchedule env c a0)"
  "obeys R (createProject env c a0)"
  "obeys R (updateProject env c a0 a1)"
  "obeys R (deleteProject env c a0)"
  "obeys R (createDatabase env c a0)"
  "obeys R (updateDatabase env c a0 a1)"
  "obeys R (deleteDatabase env c a0)"
  "obeys R (testDatabaseConnection env c a0)"
  "obeys R (createGitRepo env c a0)"
  "obeys R (updateGitRepo env c a0 a1)"
  "obeys R (deleteGitRepo env c a0)"
  "obeys R (pullGitRepo env c a0)"
  "obeys R (cloneGitRepo env c a0)"
  "obeys R (createLLMProvider env c a0)"
  "obeys R (updateLLMProvider env c a0 a1)"
  "obeys R (deleteLLMProvider env c a0)"
  "obeys R (createConversation env c a0)"
  "obeys R (updateConversation env c a0 a1)"
  "obeys R (deleteConversation env c a0)"
  "obeys R (createAutoProbeV2 env c a0)"
  "obeys R (updateAutoProbeV2 env c a0 a1)"
  "obeys R (deleteAutoProbeV2 env c a0)"
  "obeys R (runAutoProbeV2Task env c a0 a1)"
  "obeys R (createAutoProbe env c a0)"
  "obeys R (runAutoProbeTask env c a0 a1)"
  unfolding client_defs by (intro obeys_response_data obeys_verbs)+

end

subsection \<open>Requests of one client\<close>

text \<open>
  \<open>sent_by c r\<close>: the request carries the client's base URL and headers, and its method is one
  that the client lets through.
\<close>

definition sent_by :: "client \<Rightarrow> request \<Rightarrow> bool" where
  "sent_by c r \<longleftrightarrow> req_base r = base_url c \<and> req_headers r = headers c \<and>
     (allow_mutations c \<or> isReadOnlyMethod (Some (req_method r)))"

lemma http_grows: "grows (sent_by c) w (snd (http env c meth url params data w))"
proof (cases "request_interceptor c meth")
  case (Inl err)
  then show ?thesis by (simp add: http_def io_eval)
next
  case (Inr u)
  let ?r = "mk_request c meth url params data"
  have "sent_by c ?r"
    using Inr by (auto simp: sent_by_def mk_request_def request_interceptor_def split: if_splits)
  then have g: "grows (sent_by c) w (snd (dispatch_io env ?r w))" by (rule grows_dispatch)
  obtain s' out where "transport env (server w) ?r = (s', out)" by fastforce
  then have d: "dispatch_io env ?r w = (Inr out, \<lparr>server = s', log = log w @ [?r]\<rparr>)"
    by (simp add: dispatch_io_def)
  with g Inr show ?thesis by (cases out) (simp_all add: http_def io_eval bind_io_Inr)
qed

interpretation sent: http_effects "grows (sent_by c)" env c for env c
  by unfold_locales (simp add: obeys_def http_grows)

definition get_by :: "client \<Rightarrow> request \<Rightarrow> bool" where
  "get_by c r \<longleftrightarrow> sent_by c r \<and> req_method r = ''get''"

lemma get_grows: "grows (get_by c) w (snd (http_get env c url params w))"
proof -
  let ?r = "mk_request c ''get'' url params Undef"
  obtain s' out where t: "transport env (server w) ?r = (s', out)" by fastforce
  have i: "request_interceptor c ''get'' = Inr ()" by (simp add: request_interceptor_def)
  have "dispatch_io env ?r w = (Inr out, \<lparr>server = s', log = log w @ [?r]\<rparr>)"
    using t by (simp add: dispatch_io_def)
  moreover have "get_by c ?r" by (simp add: get_by_def sent_by_def mk_request_def)
  ultimately show ?thesis
    by (cases out) (simp_all add: http_get_def http_def i bind_io_Inr io_eval grows_def)
qed

interpretation reads: read_effects "grows (get_by c)" env c for env c
  by unfold_locales (simp add: obeys_def get_grows)

lemma read_only_sent: "\<not> allow_mutations c \<Longrightarrow> sent_by c r \<Longrightarrow> isReadOnlyMethod (Some (req_method r))"
  by (simp add: sent_by_def)

subsection \<open>A refused request\<close>

lemma http_refused:
  "\<not> allow_mutations c \<Longrightarrow> \<not> isReadOnlyMethod (Some meth) \<Longrightarrow>
     http env c meth url params data
       = throw_io (ErrorObj (''AstianGO Hub API Error: '' @ read_only_message))"
  by (simp add: http_def request_interceptor_def response_error_interceptor_def js_or_def Let_def)

lemma mutations_refused:
  assumes "\<not> allow_mutations c"
  shows "http_post env c url data = throw_io (ErrorObj (''AstianGO Hub API Error: '' @ read_only_message))"
    and "http_put env c url data = throw_io (ErrorObj (''AstianGO Hub API Error: '' @ read_only_message))"
    and "http_patch env c url data = throw_io (ErrorObj (''AstianGO Hub API Error: '' @ read_only_message))"
    and "http_delete env c url = throw_io (ErrorObj (''AstianGO Hub API Error: '' @ read_only_message))"
  using assms by (simp_all add: http_verbs http_refused)

lemma response_data_throw [simp]: "response_data (throw_io e) = throw_io e"
  by (simp add: response_data_def)

subsection \<open>A request that is sent\<close>

definition passes :: "client \<Rightarrow> string \<Rightarrow> bool" where
  "passes c meth \<longleftrightarrow> allow_mutations c \<or> isReadOnlyMethod (Some meth)"

lemma http_sent:
  assumes "passes c meth" and "transport env (server w) (mk_request c meth url params data) = (s', out)"
  shows "http env c meth url params data w =
    ((case out of Response st body \<Rightarrow> Inr \<lparr>rep_status = st, rep_data = body\<rparr>
                | Failure d msg \<Rightarrow> Inl (response_error_interceptor (d, msg))),
     \<lparr>server = s', log = log w @ [mk_request c meth url params data]\<rparr>)"
proof -
  have "request_interceptor c meth = Inr ()"
    using assms(1) by (auto simp: passes_def request_interceptor_def)
  moreover have "dispatch_io env (mk_request c meth url params data) w =
      (Inr out, \<lparr>server = s', log = log w @ [mk_request c meth url params data]\<rparr>)"
    using assms(2) by (simp add: dispatch_io_def)
  ultimately show ?thesis by (cases out) (simp_all add: http_def bind_io_Inr io_eval)
qed

lemma response_data_sent:
  assumes "passes c meth" and "transport env (server w) (mk_request c meth url params data) = (s', out)"
  shows "response_data (http env c meth url params data) w =
    ((case out of Response st body \<Rightarrow> Inr body
                | Failure d msg \<Rightarrow> Inl (response_error_interceptor (d, msg))),
     \<lparr>server = s', log = log w @ [mk_request c meth url params data]\<rparr>)"
  using http_sent [OF assms]
  by (cases out) (simp_all add: response_data_def bind_io_Inr bind_io_Inl io_eval)

end
