(* ===== verification/Hub_JSON.thy ===== *)
theory Hub_JSON
  imports Hub_JS
begin

text \<open>
  \<open>JSON.stringify\<close> and \<open>JSON.parse\<close>, which the program uses to answer tool calls, to persist
  state in the local storage, to clone values and to compare them.

  \<open>ser\<close> is the standard's serialisation with a gap and the current indentation;
  \<open>json_stringify\<close> has the empty gap and \<open>json_pretty\<close> the gap of two spaces of
  \<open>JSON.stringify(v, null, 2)\<close>. \<open>json_parse\<close> is a recursive descent over the characters; its
  fuel is the length of the text, which is enough for every text the printer makes
  (\<open>pval_ser\<close>). The result: parsing what was printed gives back the value without its
  \<open>undefined\<close> properties, and the same value when it has none.
\<close>

section \<open>Printing\<close>

definition hex_char :: "nat \<Rightarrow> char" where
  "hex_char d = (if d < 10 then char_of (48 + d) else char_of (87 + d))"

definition esc :: "char \<Rightarrow> string" where
  "esc ch = (let n = of_char ch :: nat in
     if n = 34 then [CHR 0x5C, CHR 0x22]
     else if n = 92 then [CHR 0x5C, CHR 0x5C]
     else if n = 8 then [CHR 0x5C, CHR ''b'']
     else if n = 9 then [CHR 0x5C, CHR ''t'']
     else if n = 10 then [CHR 0x5C, CHR ''n'']
     else if n = 12 then [CHR 0x5C, CHR ''f'']
     else if n = 13 then [CHR 0x5C, CHR ''r'']
     else if n < 32 then [CHR 0x5C, CHR ''u'', CHR ''0'', CHR ''0'', hex_char (n div 16), hex_char (n mod 16)]
     else [ch])"

definition quote :: "string \<Rightarrow> string" where
  "quote s = CHR 0x22 # concat (map esc s) @ [CHR 0x22]"

definition line_break :: "string \<Rightarrow> string \<Rightarrow> string" where
  "line_break gap ind = (if gap = [] then [] else CHR 0x0A # ind)"

definition colon :: "string \<Rightarrow> string" where
  "colon gap = (if gap = [] then '':'' else '': '')"

fun ser :: "string \<Rightarrow> string \<Rightarrow> js \<Rightarrow> string" where
  "ser gap ind Undef = ''null''"
| "ser gap ind Null = ''null''"
| "ser gap ind (Bool b) = (if b then ''true'' else ''false'')"
| "ser gap ind (Num n) = dec_int n"
| "ser gap ind (Str s) = quote s"
| "ser gap ind (Arr xs) =
     (if xs = [] then ''[]''
      else ''['' @ line_break gap (ind @ gap)
           @ join ('','' @ line_break gap (ind @ gap)) (map (ser gap (ind @ gap)) xs)
           @ line_break gap ind @ '']'')"
| "ser gap ind (Obj ps) =
     (let ms = concat (map (\<lambda>(k, v). if v = Undef then []
                                     else [quote k @ colon gap @ ser gap (ind @ gap) v]) ps)
      in if ms = [] then ''{}''
         else ''{'' @ line_break gap (ind @ gap)
              @ join ('','' @ line_break gap (ind @ gap)) ms
              @ line_break gap ind @ ''}'')"

text \<open>\<open>JSON.stringify(v)\<close> is \<open>undefined\<close> for \<open>undefined\<close>, and a string for every other value.\<close>

definition json_stringify :: "js \<Rightarrow> js" where
  "json_stringify v = (if v = Undef then Undef else Str (ser [] [] v))"

definition json_pretty :: "js \<Rightarrow> js" where
  "json_pretty v = (if v = Undef then Undef else Str (ser ''  '' [] v))"

text \<open>What survives printing: no \<open>undefined\<close> properties, and \<open>null\<close> for \<open>undefined\<close> elements.\<close>

fun jnorm :: "js \<Rightarrow> js" where
  "jnorm Undef = Null"
| "jnorm (Arr xs) = Arr (map jnorm xs)"
| "jnorm (Obj ps) = Obj (concat (map (\<lambda>(k, v). if v = Undef then [] else [(k, jnorm v)]) ps))"
| "jnorm v = v"

section \<open>Parsing\<close>

definition is_ws :: "char \<Rightarrow> bool" where
  "is_ws ch \<longleftrightarrow> (of_char ch :: nat) \<in> {9, 10, 13, 32}"

definition skip_ws :: "string \<Rightarrow> string" where
  "skip_ws = dropWhile is_ws"

definition hex_val :: "char \<Rightarrow> nat option" where
  "hex_val ch = (let n = of_char ch :: nat in
     if 48 \<le> n \<and> n \<le> 57 then Some (n - 48)
     else if 97 \<le> n \<and> n \<le> 102 then Some (n - 87)
     else if 65 \<le> n \<and> n \<le> 70 then Some (n - 55)
     else None)"

definition unesc :: "char \<Rightarrow> char option" where
  "unesc e =
     (if e = CHR 0x22 \<or> e = CHR 0x5C \<or> e = CHR ''/'' then Some e
      else if e = CHR ''b'' then Some (CHR 0x08)
      else if e = CHR ''t'' then Some (CHR 0x09)
      else if e = CHR ''n'' then Some (CHR 0x0A)
      else if e = CHR ''f'' then Some (CHR 0x0C)
      else if e = CHR ''r'' then Some (CHR 0x0D)
      else None)"

definition hex4 :: "string \<Rightarrow> nat option" where
  "hex4 cs = (case map hex_val cs of
     [Some a, Some b, Some c, Some d] \<Rightarrow> Some (4096 * a + 256 * b + 16 * c + d)
   | _ \<Rightarrow> None)"

text \<open>The rest of a string literal, after its opening quote.\<close>

fun pstr :: "string \<Rightarrow> (string \<times> string) option" where
  "pstr [] = None"
| "pstr (ch # cs) =
     (if ch = CHR 0x22 then Some ([], cs)
      else if ch = CHR 0x5C then
        (case cs of
           [] \<Rightarrow> None
         | e # cs' \<Rightarrow>
             (if e = CHR ''u'' then
                (case hex4 (take 4 cs') of
                   None \<Rightarrow> None
                 | Some n \<Rightarrow> (if 256 \<le> n then None
                             else map_option (\<lambda>(s, r). (char_of n # s, r)) (pstr (drop 4 cs'))))
              else
                (case unesc e of
                   None \<Rightarrow> None
                 | Some ch' \<Rightarrow> map_option (\<lambda>(s, r). (ch' # s, r)) (pstr cs'))))
      else if (of_char ch :: nat) < 32 then None
      else map_option (\<lambda>(s, r). (ch # s, r)) (pstr cs))"

text \<open>A number. A fraction or an exponent has no value in the model.\<close>

definition pnat :: "string \<Rightarrow> (nat \<times> string) option" where
  "pnat s =
     (let ds = takeWhile is_digit s; r = dropWhile is_digit s in
      if ds = [] then None
      else if 1 < length ds \<and> hd ds = CHR ''0'' then None
      else if r \<noteq> [] \<and> hd r \<in> {CHR ''.'', CHR ''e'', CHR ''E''} then None
      else Some (read_dec 0 ds, r))"

definition pnum :: "string \<Rightarrow> (js \<times> string) option" where
  "pnum s =
     (if s \<noteq> [] \<and> hd s = CHR ''-''
      then map_option (\<lambda>(n, r). (Num (- int n), r)) (pnat (tl s))
      else map_option (\<lambda>(n, r). (Num (int n), r)) (pnat s))"

definition plit :: "string \<Rightarrow> js \<Rightarrow> string \<Rightarrow> (js \<times> string) option" where
  "plit w v s = (if take (length w) s = w then Some (v, drop (length w) s) else None)"

text \<open>\<open>expect ch s\<close>: after white space the next character is \<open>ch\<close>; the text behind it.\<close>

definition expect :: "char \<Rightarrow> string \<Rightarrow> string option" where
  "expect ch s = (case skip_ws s of [] \<Rightarrow> None | c # r \<Rightarrow> if c = ch then Some r else None)"

fun pval :: "nat \<Rightarrow> string \<Rightarrow> (js \<times> string) option"
and pelems :: "nat \<Rightarrow> string \<Rightarrow> (js list \<times> string) option"
and pmembers :: "nat \<Rightarrow> string \<Rightarrow> (jobj \<times> string) option" where
  "pval 0 s = None"
| "pval (Suc f) s =
     (case skip_ws s of
        [] \<Rightarrow> None
      | ch # cs \<Rightarrow>
          if ch = CHR 0x22 then map_option (\<lambda>(t, r). (Str t, r)) (pstr cs)
          else if ch = CHR ''['' then
            (case expect (CHR '']'') cs of
               Some r \<Rightarrow> Some (Arr [], r)
             | None \<Rightarrow> map_option (\<lambda>(vs, r). (Arr vs, r)) (pelems f cs))
          else if ch = CHR ''{'' then
            (case expect (CHR ''}'') cs of
               Some r \<Rightarrow> Some (Obj [], r)
             | None \<Rightarrow> map_option (\<lambda>(ms, r). (Obj (amerge [] ms), r)) (pmembers f cs))
          else if ch = CHR ''t'' then plit ''true'' (Bool True) (ch # cs)
          else if ch = CHR ''f'' then plit ''false'' (Bool False) (ch # cs)
          else if ch = CHR ''n'' then plit ''null'' Null (ch # cs)
          else pnum (ch # cs))"
| "pelems 0 s = None"
| "pelems (Suc f) s =
     (case pval f s of
        None \<Rightarrow> None
      | Some (v, r) \<Rightarrow>
          (case expect (CHR '','') r of
             Some r' \<Rightarrow> map_option (\<lambda>(vs, r2). (v # vs, r2)) (pelems f r')
           | None \<Rightarrow> map_option (\<lambda>r'. ([v], r')) (expect (CHR '']'') r)))"
| "pmembers 0 s = None"
| "pmembers (Suc f) s =
     (case Option.bind (expect (CHR 0x22) s) pstr of
        None \<Rightarrow> None
      | Some (k, r) \<Rightarrow>
          (case Option.bind (expect (CHR '':'') r) (pval f) of
             None \<Rightarrow> None
           | Some (v, r2) \<Rightarrow>
               (case expect (CHR '','') r2 of
                  Some r3 \<Rightarrow> map_option (\<lambda>(ms, r4). ((k, v) # ms, r4)) (pmembers f r3)
                | None \<Rightarrow> map_option (\<lambda>r3. ([(k, v)], r3)) (expect (CHR ''}'') r2))))"

definition json_parse :: "string \<Rightarrow> thrown + js" where
  "json_parse s = (case pval (Suc (length s)) s of
     Some (v, r) \<Rightarrow> (if skip_ws r = [] then Inr v else Inl (ErrorObj ''SyntaxError''))
   | None \<Rightarrow> Inl (ErrorObj ''SyntaxError''))"

section \<open>Printed text parses back\<close>

subsection \<open>Strings\<close>

lemma hex_val_hex_char: "d < 16 \<Longrightarrow> hex_val (hex_char d) = Some d"
  by (auto simp: hex_val_def hex_char_def Let_def)

lemma pstr_esc_u:
  assumes "n < 32"
  shows "pstr (CHR 0x5C # CHR ''u'' # CHR ''0'' # CHR ''0'' # hex_char (n div 16) # hex_char (n mod 16) # X)
           = map_option (\<lambda>(s, r). (char_of n # s, r)) (pstr X)"
proof -
  have "hex_val (CHR ''0'') = Some 0" by (simp add: hex_val_def Let_def)
  moreover have "hex_val (hex_char (n div 16)) = Some (n div 16)"
    using assms by (intro hex_val_hex_char) simp
  moreover have "hex_val (hex_char (n mod 16)) = Some (n mod 16)"
    by (intro hex_val_hex_char) simp
  ultimately have "hex4 [CHR ''0'', CHR ''0'', hex_char (n div 16), hex_char (n mod 16)] = Some n"
    by (simp add: hex4_def)
  with assms show ?thesis by simp
qed

lemma pstr_simple_esc:
  "e \<noteq> CHR ''u'' \<Longrightarrow> unesc e = Some ch \<Longrightarrow>
     pstr (CHR 0x5C # e # X) = map_option (\<lambda>(s, r). (ch # s, r)) (pstr X)"
  by simp

lemma pstr_raw:
  "ch \<noteq> CHR 0x22 \<Longrightarrow> ch \<noteq> CHR 0x5C \<Longrightarrow> \<not> (of_char ch :: nat) < 32 \<Longrightarrow>
     pstr (ch # X) = map_option (\<lambda>(s, r). (ch # s, r)) (pstr X)"
  by simp

lemma char_code_iff: "(of_char ch :: nat) = of_char c \<longleftrightarrow> ch = c"
  by simp

lemmas special_codes =
  char_code_iff [of _ "CHR 0x22", simplified] char_code_iff [of _ "CHR 0x5C", simplified]
  char_code_iff [of _ "CHR 0x08", simplified] char_code_iff [of _ "CHR 0x09", simplified]
  char_code_iff [of _ "CHR 0x0A", simplified] char_code_iff [of _ "CHR 0x0C", simplified]
  char_code_iff [of _ "CHR 0x0D", simplified]

lemma esc_cases:
  obtains (simple) e where "esc ch = [CHR 0x5C, e]" "e \<noteq> CHR ''u''" "unesc e = Some ch"
  | (hex) "(of_char ch :: nat) < 32"
      "esc ch = [CHR 0x5C, CHR ''u'', CHR ''0'', CHR ''0'', hex_char (of_char ch div 16), hex_char (of_char ch mod 16)]"
  | (raw) "esc ch = [ch]" "ch \<noteq> CHR 0x22" "ch \<noteq> CHR 0x5C" "\<not> (of_char ch :: nat) < 32"
proof -
  consider (a) "ch \<in> {CHR 0x22, CHR 0x5C, CHR 0x08, CHR 0x09, CHR 0x0A, CHR 0x0C, CHR 0x0D}"
    | (b) "ch \<notin> {CHR 0x22, CHR 0x5C, CHR 0x08, CHR 0x09, CHR 0x0A, CHR 0x0C, CHR 0x0D}"
        "(of_char ch :: nat) < 32"
    | (c) "ch \<notin> {CHR 0x22, CHR 0x5C, CHR 0x08, CHR 0x09, CHR 0x0A, CHR 0x0C, CHR 0x0D}"
        "\<not> (of_char ch :: nat) < 32"
    by blast
  then show thesis
  proof cases
    case a
    then show ?thesis
      using simple [of "CHR 0x22"] simple [of "CHR 0x5C"] simple [of "CHR ''b''"]
        simple [of "CHR ''t''"] simple [of "CHR ''n''"] simple [of "CHR ''f''"]
        simple [of "CHR ''r''"]
      by (elim insertE) (simp_all add: esc_def unesc_def)
  next
    case b
    then show ?thesis by (intro hex) (simp_all add: esc_def Let_def special_codes)
  next
    case c
    then show ?thesis by (intro raw) (simp_all add: esc_def Let_def special_codes)
  qed
qed

lemma pstr_esc: "pstr (esc ch @ X) = map_option (\<lambda>(s, r). (ch # s, r)) (pstr X)"
proof (cases ch rule: esc_cases)
  case (simple e)
  then show ?thesis using pstr_simple_esc [of e ch X] by (simp del: pstr.simps)
next
  case hex
  then show ?thesis using pstr_esc_u [of "of_char ch" X] by (simp del: pstr.simps)
next
  case raw
  then show ?thesis using pstr_raw [of ch X] by (simp del: pstr.simps)
qed

lemma pstr_quote: "pstr (concat (map esc s) @ CHR 0x22 # rest) = Some (s, rest)"
proof (induction s)
  case (Cons ch s)
  then show ?case by (simp add: pstr_esc del: pstr.simps)
qed simp

text \<open>A serialised value starts with a visible character and is followed by one that ends it.\<close>

definition ends_value :: "string \<Rightarrow> bool" where
  "ends_value r \<longleftrightarrow> r = [] \<or> \<not> is_digit (hd r) \<and> hd r \<notin> {CHR ''.'', CHR ''e'', CHR ''E''}"

definition all_ws :: "string \<Rightarrow> bool" where
  "all_ws s \<longleftrightarrow> (\<forall>ch \<in> set s. is_ws ch)"

lemma all_ws_append [simp]: "all_ws (a @ b) \<longleftrightarrow> all_ws a \<and> all_ws b"
  by (auto simp: all_ws_def)

lemma all_ws_line_break [simp]: "all_ws ind \<Longrightarrow> all_ws (line_break gap ind)"
  by (simp add: all_ws_def line_break_def is_ws_def)

lemma skip_ws_all [simp]: "all_ws w \<Longrightarrow> skip_ws (w @ s) = skip_ws s"
  by (induction w) (simp_all add: all_ws_def skip_ws_def)

lemma skip_ws_Cons [simp]: "\<not> is_ws ch \<Longrightarrow> skip_ws (ch # s) = ch # s"
  by (simp add: skip_ws_def)

lemma expect_ws [simp]: "all_ws w \<Longrightarrow> expect ch (w @ s) = expect ch s"
  by (simp add: expect_def)

lemma expect_Cons [simp]: "\<not> is_ws c \<Longrightarrow> expect ch (c # s) = (if c = ch then Some s else None)"
  by (simp add: expect_def)

lemma not_ws [simp]:
  "\<not> is_ws (CHR '','')" "\<not> is_ws (CHR '']'')" "\<not> is_ws (CHR ''}'')" "\<not> is_ws (CHR '':'')"
  "\<not> is_ws (CHR 0x22)" "\<not> is_ws (CHR ''['')" "\<not> is_ws (CHR ''{'')" "\<not> is_ws (CHR ''-'')"
  "\<not> is_ws (CHR ''t'')" "\<not> is_ws (CHR ''f'')" "\<not> is_ws (CHR ''n'')"
  by (simp_all add: is_ws_def)

lemma not_ws_digit [simp]: "is_digit ch \<Longrightarrow> \<not> is_ws ch"
  by (auto simp: is_ws_def is_digit_def)

lemma ends_value_punct [simp]:
  "ends_value (CHR '','' # r)" "ends_value (CHR '']'' # r)" "ends_value (CHR ''}'' # r)"
  by (simp_all add: ends_value_def is_digit_def)

lemma ends_value_ws:
  assumes "all_ws w" and "ends_value r"
  shows "ends_value (w @ r)"
proof (cases w)
  case (Cons ch w')
  then have "is_ws ch" using assms(1) by (simp add: all_ws_def)
  then show ?thesis using Cons by (auto simp: ends_value_def is_ws_def is_digit_def)
qed (simp add: assms)

subsection \<open>Numbers\<close>

lemma dec_nat_hd: "10 \<le> n \<Longrightarrow> hd (dec_nat n) \<noteq> CHR ''0''"
proof (induction n rule: dec_nat.induct)
  case (1 n)
  have "hd (dec_nat (n div 10)) \<noteq> CHR ''0''"
  proof (cases "n div 10 < 10")
    case True
    then have "dec_nat (n div 10) = [digit_char (n div 10)]" by (subst dec_nat.simps) simp
    moreover have "digit_char (n div 10) \<noteq> CHR ''0''"
    proof
      assume "digit_char (n div 10) = CHR ''0''"
      then have "digit_val (digit_char (n div 10)) = 0" by (simp add: digit_val_def)
      with True 1 show False by simp
    qed
    ultimately show ?thesis by simp
  next
    case False
    with 1 show ?thesis by simp
  qed
  with 1 show ?case by (subst dec_nat.simps) simp
qed

lemma length_dec_nat_small: "n < 10 \<Longrightarrow> length (dec_nat n) = 1"
  by (subst dec_nat.simps) simp

lemma pnat_dec: "ends_value r \<Longrightarrow> pnat (dec_nat n @ r) = Some (n, r)"
proof -
  assume r: "ends_value r"
  have "takeWhile is_digit (dec_nat n @ r) = dec_nat n"
    using r dec_nat_digits by (intro takeWhile_all_then) (auto simp: ends_value_def)
  moreover have "dropWhile is_digit (dec_nat n @ r) = r"
    using r dec_nat_digits by (intro dropWhile_all_then) (auto simp: ends_value_def)
  moreover have "\<not> (1 < length (dec_nat n) \<and> hd (dec_nat n) = CHR ''0'')"
    using dec_nat_hd [of n] length_dec_nat_small [of n] by (cases "n < 10") auto
  ultimately show ?thesis
    using r by (auto simp: pnat_def read_dec_dec_nat ends_value_def)
qed

lemma hd_dec_nat_digit: "is_digit (hd (dec_nat n))"
  using dec_nat_digits [of n] by (cases "dec_nat n") auto

lemma pnum_dec: "ends_value r \<Longrightarrow> pnum (dec_int n @ r) = Some (Num n, r)"
proof -
  assume r: "ends_value r"
  have "hd (dec_nat m) \<noteq> CHR ''-''" for m
    using hd_dec_nat_digit [of m] by (auto simp: is_digit_def)
  then show ?thesis using r by (simp add: pnum_def dec_int_def pnat_dec)
qed

subsection \<open>Values\<close>

fun jneed :: "js \<Rightarrow> nat" where
  "jneed (Arr xs) = Suc (sum_list (map (\<lambda>x. Suc (jneed x)) xs))"
| "jneed (Obj ps) = Suc (sum_list (map (\<lambda>p. Suc (jneed (snd p))) ps))"
| "jneed _ = 0"

definition starts_value :: "string \<Rightarrow> bool" where
  "starts_value s \<longleftrightarrow> s \<noteq> [] \<and> \<not> is_ws (hd s) \<and> hd s \<notin> {CHR '']'', CHR ''}''}"

lemma starts_value_append: "starts_value s \<Longrightarrow> starts_value (s @ r)"
  by (auto simp: starts_value_def)

lemma starts_value_ser: "starts_value (ser gap ind v)"
proof (cases v)
  case (Num n)
  have "c \<noteq> CHR '']'' \<and> c \<noteq> CHR ''}''" if "is_digit c" for c
    using that by (auto simp: is_digit_def)
  with hd_dec_nat_digit have "hd (dec_nat m) \<noteq> CHR '']'' \<and> hd (dec_nat m) \<noteq> CHR ''}''" for m
    by blast
  then show ?thesis using Num hd_dec_nat_digit [of "nat n"]
    by (simp add: starts_value_def dec_int_def)
qed (auto simp: starts_value_def is_ws_def quote_def Let_def)

lemma expect_starts:
  "starts_value s \<Longrightarrow> all_ws w \<Longrightarrow> expect (CHR '']'') (w @ s) = None"
  "starts_value s \<Longrightarrow> all_ws w \<Longrightarrow> expect (CHR ''}'') (w @ s) = None"
  by (cases s; simp add: starts_value_def)+

lemma skip_ws_starts: "starts_value s \<Longrightarrow> all_ws w \<Longrightarrow> skip_ws (w @ s) = s"
  by (cases s) (simp_all add: starts_value_def)

lemma join_hd: "xs \<noteq> [] \<Longrightarrow> starts_value (hd xs) \<Longrightarrow> starts_value (join sep xs)"
  by (cases xs) (auto simp: join_Cons starts_value_def)

lemma pelems_ser:
  assumes elem: "\<And>x f w r. x \<in> set xs \<Longrightarrow> jneed x < f \<Longrightarrow> all_ws w \<Longrightarrow> ends_value r
                   \<Longrightarrow> pval f (w @ p x @ r) = Some (x, r)"
    and "xs \<noteq> []" and "all_ws w" and "all_ws sp" and "all_ws w2"
    and "sum_list (map (\<lambda>x. Suc (jneed x)) xs) < f"
  shows "pelems f (w @ join ('','' @ sp) (map p xs) @ w2 @ CHR '']'' # r) = Some (xs, r)"
  using assms
proof (induction xs arbitrary: f w)
  case (Cons x xs)
  then obtain f' where f: "f = Suc f'" by (cases f) auto
  have x: "pval f' (w @ p x @ r') = Some (x, r')" if "ends_value r'" for r'
    using Cons.prems(1) [of x f' w r'] Cons.prems(3,6) that f by simp
  show ?case
  proof (cases "xs = []")
    case True
    have "ends_value (w2 @ CHR '']'' # r)" using Cons.prems(5) by (intro ends_value_ws) simp_all
    then show ?thesis using True x Cons.prems(5) f by simp
  next
    case False
    have "pelems f' (sp @ join ('','' @ sp) (map p xs) @ w2 @ CHR '']'' # r) = Some (xs, r)"
      using Cons.prems False f by (intro Cons.IH) auto
    then show ?thesis using False x f by (simp add: join_Cons)
  qed
qed simp

lemma pmembers_ser:
  assumes elem: "\<And>m f w r. m \<in> set ps \<Longrightarrow> jneed (snd m) < f \<Longrightarrow> all_ws w \<Longrightarrow> ends_value r
                   \<Longrightarrow> pval f (w @ p (snd m) @ r) = Some (snd m, r)"
    and "ps \<noteq> []" and "all_ws w" and "all_ws sp" and "all_ws w2" and "all_ws cw"
    and "sum_list (map (\<lambda>m. Suc (jneed (snd m))) ps) < f"
  shows "pmembers f (w @ join ('','' @ sp) (map (\<lambda>m. quote (fst m) @ CHR '':'' # cw @ p (snd m)) ps)
           @ w2 @ CHR ''}'' # r) = Some (ps, r)"
  using assms
proof (induction ps arbitrary: f w)
  case (Cons m ps)
  then obtain f' where f: "f = Suc f'" by (cases f) auto
  have m: "pval f' (cw @ p (snd m) @ r') = Some (snd m, r')" if "ends_value r'" for r'
    using Cons.prems(1) [of m f' cw r'] Cons.prems(6,7) that f by simp
  have key: "Option.bind (expect (CHR 0x22) (w @ quote (fst m) @ r')) pstr = Some (fst m, r')" for r'
    using Cons.prems(3) by (simp add: quote_def pstr_quote)
  show ?case
  proof (cases "ps = []")
    case True
    have "ends_value (w2 @ CHR ''}'' # r)" using Cons.prems(5) by (intro ends_value_ws) simp_all
    then show ?thesis using True m key Cons.prems(5) f by simp
  next
    case False
    have "pmembers f' (sp @ join ('','' @ sp) (map (\<lambda>m. quote (fst m) @ CHR '':'' # cw @ p (snd m)) ps)
             @ w2 @ CHR ''}'' # r) = Some (ps, r)"
      using Cons.prems False f by (intro Cons.IH) auto
    then show ?thesis using False m key f by (simp add: join_Cons)
  qed
qed simp

lemma members_defined:
  "list_all (\<lambda>p. snd p \<noteq> Undef) ps \<Longrightarrow>
     concat (map (\<lambda>(k, v). if v = Undef then [] else [g k v]) ps) = map (\<lambda>m. g (fst m) (snd m)) ps"
  by (induction ps) auto

lemma plain_defined: "list_all (\<lambda>p. plain (snd p)) ps \<Longrightarrow> list_all (\<lambda>p. snd p \<noteq> Undef) ps"
  by (auto simp: list_all_iff)

lemma amerge_distinct: "distinct (map fst (qs @ ps)) \<Longrightarrow> amerge qs ps = qs @ ps"
  by (induction ps arbitrary: qs) auto

lemma pval_ser:
  "plain v \<Longrightarrow> all_ws gap \<Longrightarrow> all_ws ind \<Longrightarrow> all_ws w \<Longrightarrow> ends_value r \<Longrightarrow> jneed v < f
     \<Longrightarrow> pval f (w @ ser gap ind v @ r) = Some (v, r)"
proof (induction v arbitrary: ind w r f)
  case (Num n)
  then obtain f' where "f = Suc f'" by (cases f) auto
  moreover obtain ch cs where c: "dec_int n @ r = ch # cs" "ch = CHR ''-'' \<or> is_digit ch"
    using hd_dec_nat_digit by (cases "dec_int n") (auto simp: dec_int_def split: if_splits, metis list.sel(1))
  moreover from c(2) have "\<not> is_ws ch" by auto
  moreover from c(2) have "ch \<notin> {CHR 0x22, CHR ''['', CHR ''{'', CHR ''t'', CHR ''f'', CHR ''n''}"
    by (auto simp: is_digit_def)
  ultimately show ?case using Num pnum_dec [of r n] by simp
next
  case (Str s)
  then show ?case by (cases f) (simp_all add: quote_def pstr_quote)
next
  case (Arr xs)
  then obtain f' where f: "f = Suc f'" by (cases f) auto
  let ?ind = "ind @ gap" and ?lb = "line_break gap (ind @ gap)"
  show ?case
  proof (cases "xs = []")
    case True
    then show ?thesis using Arr.prems f by simp
  next
    case False
    have "pelems f' (?lb @ join ('','' @ ?lb) (map (ser gap ?ind) xs) @ line_break gap ind @ CHR '']'' # r)
            = Some (xs, r)"
      using Arr.prems False f
      by (intro pelems_ser) (auto simp: list_all_iff intro!: Arr.IH)
    moreover have "expect (CHR '']'') (?lb @ join ('','' @ ?lb) (map (ser gap ?ind) xs) @ s) = None" for s
      using False Arr.prems
      by (intro expect_starts starts_value_append join_hd) (auto simp: hd_map starts_value_ser)
    ultimately show ?thesis using Arr.prems False f by simp
  qed
next
  case (Obj ps)
  then obtain f' where f: "f = Suc f'" by (cases f) auto
  let ?ind = "ind @ gap" and ?lb = "line_break gap (ind @ gap)"
  let ?cw = "if gap = [] then [] else '' ''"
  let ?ms = "map (\<lambda>m. quote (fst m) @ CHR '':'' # ?cw @ ser gap ?ind (snd m)) ps"
  have ms: "concat (map (\<lambda>(k, v). if v = Undef then [] else [quote k @ colon gap @ ser gap ?ind v]) ps) = ?ms"
    using Obj.prems plain_defined [of ps]
    by (subst members_defined) (auto simp: colon_def)
  show ?case
  proof (cases "ps = []")
    case True
    then show ?thesis using Obj.prems f by simp
  next
    case False
    have cw: "all_ws ?cw" by (simp add: all_ws_def is_ws_def)
    have "pmembers f' (?lb @ join ('','' @ ?lb) ?ms @ line_break gap ind @ CHR ''}'' # r) = Some (ps, r)"
      using Obj.prems False f cw
      by (intro pmembers_ser) (auto simp: list_all_iff intro!: Obj.IH)
    moreover have "expect (CHR ''}'') (?lb @ join ('','' @ ?lb) ?ms @ s) = None" for s
      using False Obj.prems
      by (intro expect_starts starts_value_append join_hd)
        (auto simp: hd_map starts_value_def quote_def)
    moreover have "amerge [] ps = ps" using Obj.prems amerge_distinct [of "[]" ps] by simp
    ultimately show ?thesis using Obj.prems False f ms by simp
  qed
qed (case_tac f; simp add: plit_def)+

lemma length_join_ge: "sum_list (map length xs) \<le> length (join sep xs)"
  by (induction xs) (auto simp: join_Cons)

lemma length_ser_pos: "0 < length (ser gap ind v)"
  using starts_value_ser [of gap ind v] by (simp add: starts_value_def)

lemma sum_list_Suc_le:
  fixes g :: "'a \<Rightarrow> nat"
  assumes "\<And>x. x \<in> set xs \<Longrightarrow> g x \<le> h x" and "xs \<noteq> []"
  shows "sum_list (map (\<lambda>x. Suc (g x)) xs) \<le> length xs + sum_list (map h xs)"
  using assms(1) by (induction xs) fastforce+

lemma length_join_sep: "sum_list (map length xs) + (length xs - 1) * length sep \<le> length (join sep xs)"
proof (induction xs)
  case (Cons x xs)
  then show ?case by (cases xs) (auto simp: join_Cons)
qed simp

lemma jneed_le_length: "plain v \<Longrightarrow> jneed v \<le> length (ser gap ind v)"
proof (induction v arbitrary: ind)
  case (Arr xs)
  show ?case
  proof (cases "xs = []")
    case False
    let ?p = "ser gap (ind @ gap)" and ?sep = "'','' @ line_break gap (ind @ gap)"
    have "sum_list (map (\<lambda>x. Suc (jneed x)) xs) \<le> length xs + sum_list (map (\<lambda>x. length (?p x)) xs)"
      using Arr False by (intro sum_list_Suc_le) (auto simp: list_all_iff)
    moreover have "sum_list (map (\<lambda>x. length (?p x)) xs) + (length xs - 1) * length ?sep
        \<le> length (join ?sep (map ?p xs))"
      using length_join_sep [of "map ?p xs" ?sep] by (simp add: comp_def)
    moreover have "length xs \<le> (length xs - 1) * length ?sep + 1" using False by (cases xs) auto
    ultimately have "Suc (sum_list (map (\<lambda>x. Suc (jneed x)) xs)) \<le> 2 + length (join ?sep (map ?p xs))"
      by linarith
    with False show ?thesis by simp
  qed simp
next
  case (Obj ps)
  show ?case
  proof (cases "ps = []")
    case False
    let ?p = "\<lambda>m. quote (fst m) @ colon gap @ ser gap (ind @ gap) (snd m)"
      and ?sep = "'','' @ line_break gap (ind @ gap)"
    have ms: "concat (map (\<lambda>(k, v). if v = Undef then []
        else [quote k @ colon gap @ ser gap (ind @ gap) v]) ps) = map ?p ps"
      using Obj.prems plain_defined [of ps] by (subst members_defined) auto
    have "jneed (snd m) \<le> length (?p m)" if "m \<in> set ps" for m
    proof -
      have "jneed (snd m) \<le> length (ser gap (ind @ gap) (snd m))"
        using that Obj by (intro Obj.IH) (auto simp: list_all_iff snds.simps)
      then show ?thesis by simp
    qed
    then have "sum_list (map (\<lambda>m. Suc (jneed (snd m))) ps) \<le> length ps + sum_list (map (\<lambda>m. length (?p m)) ps)"
      using False by (intro sum_list_Suc_le) auto
    moreover have "sum_list (map (\<lambda>m. length (?p m)) ps) + (length ps - 1) * length ?sep
        \<le> length (join ?sep (map ?p ps))"
      using length_join_sep [of "map ?p ps" ?sep] by (simp add: comp_def)
    moreover have "length ps \<le> (length ps - 1) * length ?sep + 1" using False by (cases ps) auto
    ultimately have "Suc (sum_list (map (\<lambda>m. Suc (jneed (snd m))) ps)) \<le> 2 + length (join ?sep (map ?p ps))"
      by linarith
    with False ms show ?thesis by simp
  qed simp
qed simp_all

lemma jnorm_plain: "wf_js v \<Longrightarrow> plain (jnorm v)"
proof (induction v)
  case (Arr xs)
  then show ?case by (simp add: list_all_iff)
next
  case (Obj ps)
  let ?qs = "concat (map (\<lambda>(k, v). if v = Undef then [] else [(k, jnorm v)]) ps)"
  have "distinct (map fst (concat (map (\<lambda>(k, v). if v = Undef then [] else [(k, jnorm v)]) ps)))"
    using Obj.prems by (simp, induction ps) (auto split: if_splits, force+)
  moreover have "plain (snd q)" if "q \<in> set ?qs" for q
    using that Obj by (fastforce simp: list_all_iff split: if_splits)
  ultimately show ?case by (simp add: list_all_iff)
qed simp_all

lemma jnorm_id: "plain v \<Longrightarrow> jnorm v = v"
proof (induction v)
  case (Arr xs)
  then show ?case by (simp add: list_all_iff map_idI)
next
  case (Obj ps)
  have "concat (map (\<lambda>(k, v). if v = Undef then [] else [(k, jnorm v)]) ps) = ps"
    using Obj by (subst members_defined [of ps "\<lambda>k v. (k, jnorm v)"])
      (auto simp: plain_defined list_all_iff snds.simps intro!: map_idI)
  then show ?case by simp
qed simp_all

lemma ser_jnorm: "ser gap ind (jnorm v) = ser gap ind v"
proof (induction v arbitrary: ind)
  case (Arr xs)
  then have "map (ser gap (ind @ gap)) (map jnorm xs) = map (ser gap (ind @ gap)) xs" by simp
  then show ?case by (simp del: map_map)
next
  case (Obj ps)
  have nu: "jnorm v \<noteq> Undef" for v by (cases v) auto
  have "concat (map (\<lambda>(k, v). if v = Undef then [] else [quote k @ colon gap @ ser gap (ind @ gap) v])
           (concat (map (\<lambda>(k, v). if v = Undef then [] else [(k, jnorm v)]) ps)))
      = concat (map (\<lambda>(k, v). if v = Undef then [] else [quote k @ colon gap @ ser gap (ind @ gap) v]) ps)"
    (is "?L ps = ?R ps")
  proof -
    have "\<forall>(k, w) \<in> set ps. ser gap (ind @ gap) (jnorm w) = ser gap (ind @ gap) w"
      by (auto intro!: Obj.IH simp: snds.simps)
    then show ?thesis by (induction ps) (auto simp: nu)
  qed
  then show ?case by simp
qed simp_all

lemma json_parse_ser:
  assumes "wf_js v" and "all_ws gap" and "all_ws ind"
  shows "json_parse (ser gap ind v) = Inr (jnorm v)"
proof -
  have p: "plain (jnorm v)" using assms(1) by (rule jnorm_plain)
  have "pval (Suc (length (ser gap ind v))) ([] @ ser gap ind (jnorm v) @ []) = Some (jnorm v, [])"
    using p assms jneed_le_length [OF p, of gap ind]
    by (intro pval_ser) (simp_all add: all_ws_def ends_value_def ser_jnorm)
  then show ?thesis by (simp add: json_parse_def ser_jnorm skip_ws_def)
qed

lemma json_parse_stringify:
  "wf_js v \<Longrightarrow> v \<noteq> Undef \<Longrightarrow> json_stringify v = Str s \<Longrightarrow> json_parse s = Inr (jnorm v)"
  by (auto simp: json_stringify_def json_parse_ser all_ws_def)

lemma plain_wf: "plain v \<Longrightarrow> wf_js v"
  by (induction v rule: plain.induct) (auto simp: list_all_iff)

section \<open>Parsed values are plain\<close>

lemma plain_pairs_aset:
  "list_all (\<lambda>p. plain (snd p)) ps \<Longrightarrow> plain v \<Longrightarrow> list_all (\<lambda>p. plain (snd p)) (aset k v ps)"
  by (induction k v ps rule: aset.induct) auto

lemma plain_pairs_amerge:
  "list_all (\<lambda>p. plain (snd p)) ps \<Longrightarrow> list_all (\<lambda>p. plain (snd p)) qs \<Longrightarrow>
     list_all (\<lambda>p. plain (snd p)) (amerge ps qs)"
  by (induction qs arbitrary: ps) (auto simp: plain_pairs_aset)

lemma pval_plain:
  "pval f s = Some (v, r) \<Longrightarrow> plain v"
  "pelems f s = Some (vs, r) \<Longrightarrow> list_all plain vs"
  "pmembers f s = Some (ms, r) \<Longrightarrow> list_all (\<lambda>p. plain (snd p)) ms"
proof (induction f s and f s and f s arbitrary: v r and vs r and ms r rule: pval_pelems_pmembers.induct)
  case (2 f s)
  then show ?case
    by (auto simp: plit_def pnum_def plain_pairs_amerge distinct_amerge
        split: list.splits if_splits option.splits)
next
  case (4 f s)
  then show ?case by (fastforce split: option.splits)
next
  case (6 f s)
  then show ?case
    by (auto simp: Option.bind_eq_Some_conv split: option.splits if_splits) 
qed simp_all

lemma json_parse_plain: "json_parse s = Inr v \<Longrightarrow> plain v"
  by (auto simp: json_parse_def simp del: pval.simps dest: pval_plain(1) split: option.splits if_splits)

section \<open>Cloning\<close>

text \<open>\<open>plainClone\<close> of \<^verbatim>\<open>utils/object.ts\<close>.\<close>

definition plainClone :: "js \<Rightarrow> thrown + js" where
  "plainClone obj =
     (if obj = Undef \<or> obj = Null then Inr obj
      else (case json_stringify obj of Str s \<Rightarrow> json_parse s | _ \<Rightarrow> Inl (ErrorObj ''SyntaxError'')))"

lemma plainClone_eq: "wf_js v \<Longrightarrow> plainClone v = Inr (if v = Undef then Undef else jnorm v)"
  by (auto simp: plainClone_def json_stringify_def json_parse_ser all_ws_def)

lemma jnorm_not_Undef [simp]: "jnorm v \<noteq> Undef"
  by (cases v) auto

text \<open>
  Cloning through JSON yields, for every value whose objects have distinct keys, the value
  without its \<open>undefined\<close> properties and with \<open>null\<close> for \<open>undefined\<close> elements. A value that JSON
  can express is cloned exactly, and cloning a clone changes nothing.
\<close>

theorem plainClone_normalises:
  assumes "wf_js v" and "v \<noteq> Undef"
  shows "plainClone v = Inr (jnorm v) \<and> plainClone (jnorm v) = Inr (jnorm v) \<and> (plain v \<longrightarrow> plainClone v = Inr v)"
  using assms plain_wf [OF jnorm_plain [OF assms(1)]] jnorm_id [OF jnorm_plain [OF assms(1)]]
  by (simp add: plainClone_eq jnorm_id)

theorem plainClone_normalises_witness:
  "plainClone (Obj [(''a'', Undef), (''b'', Arr [Undef, Num (-7)])]) = Inr (Obj [(''b'', Arr [Null, Num (-7)])])"
  using plainClone_normalises [of "Obj [(''a'', Undef), (''b'', Arr [Undef, Num (-7)])]"] by simp

text \<open>Different values have different texts.\<close>

lemma json_stringify_inj:
  assumes "v = Undef \<or> plain v" "w = Undef \<or> plain w" "json_stringify v = json_stringify w"
  shows "v = w"
proof (cases "v = Undef \<or> w = Undef")
  case True
  then show ?thesis using assms(3) by (auto simp: json_stringify_def split: if_splits)
next
  case False
  then obtain s where "json_stringify v = Str s" by (simp add: json_stringify_def)
  then have "json_parse s = Inr (jnorm v)" "json_parse s = Inr (jnorm w)"
    using False assms by (metis json_parse_stringify plain_wf)+
  then show ?thesis using False assms(1,2) by (simp add: jnorm_id)
qed

end
