(* ===== verification/Mcp_Tool.thy ===== *)
theory Mcp_Tool
  imports Mcp_Client Hub_JSON
begin

text \<open>
  What the tool files under \<^verbatim>\<open>mcp/src/tools/\<close> share: the arguments of \<open>server.tool(name,
  description, schema, handler)\<close> as a record, the schemas as data, the two shapes of a tool's
  answer, and the \<open>try/catch\<close> around every handler.

  The MCP SDK validates the arguments of a call against the schema before it runs the handler.
  It is not part of the repository: \<^verbatim>\<open>Mcp_Server\<close> takes the validation as a parameter. A handler
  here is a function of the argument object, for any arguments.
\<close>

section \<open>Tools\<close>

datatype zod =
    ZNumber "int option" "int option"
  | ZString
  | ZBoolean
  | ZEnum "string list"
  | ZArray zod
  | ZObject

record zfield =
  zkey :: string
  zoptional :: bool
  ztype :: zod
  zdescribe :: string

definition zreq :: "string \<Rightarrow> zod \<Rightarrow> string \<Rightarrow> zfield" where
  "zreq k t d = \<lparr>zkey = k, zoptional = False, ztype = t, zdescribe = d\<rparr>"

definition zopt :: "string \<Rightarrow> zod \<Rightarrow> string \<Rightarrow> zfield" where
  "zopt k t d = \<lparr>zkey = k, zoptional = True, ztype = t, zdescribe = d\<rparr>"

datatype content = TextContent js

record tool_result =
  tr_content :: "content list"
  isError :: bool

record 's tool =
  tool_name :: string
  tool_description :: string
  tool_schema :: "zfield list"
  tool_handler :: "jobj \<Rightarrow> ('s, tool_result) io"

definition text_result :: "js \<Rightarrow> tool_result" where
  "text_result text = \<lparr>tr_content = [TextContent text], isError = False\<rparr>"

definition error_result :: "string \<Rightarrow> tool_result" where
  "error_result text = \<lparr>tr_content = [TextContent (Str text)], isError = True\<rparr>"

text \<open>\<open>try { body } catch (error) { return { ...`prefix${message}`, isError: true } }\<close>.\<close>

definition try_tool :: "string \<Rightarrow> ('s, tool_result) io \<Rightarrow> ('s, tool_result) io" where
  "try_tool prefix body =
     catch_io body (\<lambda>error. return_io (error_result (prefix @ error_text error)))"

text \<open>The answer with the response as indented JSON.\<close>

definition answer_json :: "('s, js) io \<Rightarrow> ('s, tool_result) io" where
  "answer_json m = bind_io m (\<lambda>response. return_io (text_result (json_pretty response)))"

text \<open>The answer with a fixed text, after a call whose response is not used.\<close>

definition answer_text :: "('s, js) io \<Rightarrow> string \<Rightarrow> ('s, tool_result) io" where
  "answer_text m text = bind_io m (\<lambda>_. return_io (text_result (Str text)))"

text \<open>\<open>requireDestructiveConfirmation\<close> before the rest of the handler.\<close>

definition confirmed :: "js \<Rightarrow> string \<Rightarrow> js \<Rightarrow> ('s, tool_result) io \<Rightarrow> ('s, tool_result) io" where
  "confirmed confirmation action resourceID rest =
     bind_io (lift_io (requireDestructiveConfirmation confirmation action resourceID)) (\<lambda>_. rest)"

text \<open>The properties \<open>a, b, c\<close> of an object literal, and the rest \<open>...r\<close> of a destructuring.\<close>

definition named :: "jobj \<Rightarrow> string list \<Rightarrow> jobj" where
  "named args ks = map (\<lambda>k. (k, oget args k)) ks"

definition rest_without :: "jobj \<Rightarrow> string list \<Rightarrow> jobj" where
  "rest_without args ks = filter (\<lambda>p. fst p \<notin> set ks) args"

text \<open>The default of a parameter, \<open>{ enabled = true }\<close>.\<close>

definition js_default :: "js \<Rightarrow> js \<Rightarrow> js" where
  "js_default v d = (if v = Undef then d else v)"

text \<open>\<open>{ ...(a && { a }), ...(b && { b }) }\<close>.\<close>

definition truthy_fields :: "jobj \<Rightarrow> string list \<Rightarrow> jobj" where
  "truthy_fields args ks = concat (map (\<lambda>k. spread_if k (oget args k)) ks)"

section \<open>Lemmas\<close>

lemma try_tool_total [simp, intro]: "total_io (try_tool prefix body)"
  unfolding try_tool_def by (intro total_catch total_return)

lemma try_tool_return [simp]: "try_tool prefix (return_io r) = return_io r"
  by (simp add: try_tool_def)

lemma try_tool_throw [simp]:
  "try_tool prefix (throw_io e) = return_io (error_result (prefix @ error_text e))"
  by (simp add: try_tool_def)

lemma answer_throw [simp]:
  "answer_json (throw_io e) = throw_io e" "answer_text (throw_io e) t = throw_io e"
  by (simp_all add: answer_json_def answer_text_def)

lemma isError_simps [simp]: "isError (error_result t)" "\<not> isError (text_result v)"
  by (simp_all add: error_result_def text_result_def)

lemma confirmed_ok [simp]:
  "confirmed (Str (expected_confirmation action i)) action i rest = rest"
  by (simp add: confirmed_def requireDestructiveConfirmation_def)

definition confirmation_error :: "string \<Rightarrow> js \<Rightarrow> string" where
  "confirmation_error action i =
     ''Confirmation required. Set confirmation to '' @ [CHR 0x22] @ expected_confirmation action i @ [CHR 0x22] @ ''.''"

lemma confirmed_refused:
  "v \<noteq> Str (expected_confirmation action i) \<Longrightarrow>
     confirmed v action i rest = throw_io (ErrorObj (confirmation_error action i))"
  by (simp add: confirmed_def requireDestructiveConfirmation_def confirmation_error_def Let_def)

lemma keys_truthy_fields:
  "set (map fst (truthy_fields args ks)) = {k \<in> set ks. truthy (oget args k)}"
  by (induction ks) (auto simp: truthy_fields_def spread_if_def)

lemma distinct_truthy_fields: "distinct ks \<Longrightarrow> distinct (map fst (truthy_fields args ks))"
  using keys_truthy_fields by (induction ks) (auto simp: truthy_fields_def spread_if_def)

lemma map_of_truthy_fields:
  "map_of (truthy_fields args ks) k = (if k \<in> set ks \<and> truthy (oget args k) then Some (oget args k) else None)"
  by (induction ks) (auto simp: truthy_fields_def spread_if_def)

context effects
begin

lemma obeys_try_tool [simp, intro]: "obeys R m \<Longrightarrow> obeys R (try_tool prefix m)"
  unfolding try_tool_def by (intro obeys_catch obeys_pure)

lemma obeys_answers [simp, intro]:
  "obeys R m \<Longrightarrow> obeys R (answer_json m)"
  "obeys R m \<Longrightarrow> obeys R (answer_text m t)"
  unfolding answer_json_def answer_text_def by (intro obeys_bind obeys_pure; assumption)+

lemma obeys_confirmed [simp, intro]: "obeys R m \<Longrightarrow> obeys R (confirmed v action i m)"
  unfolding confirmed_def by (intro obeys_bind obeys_pure)

end

lemma try_confirmed_wrong:
  "v \<noteq> Str (expected_confirmation action i) \<Longrightarrow>
     \<exists>prefix'. try_tool prefix (confirmed v action i rest) =
       return_io (error_result (prefix' @ confirmation_error action i))"
  by (auto simp: confirmed_refused)

text \<open>The tools whose schema asks for a confirmation.\<close>

definition confirms :: "'s tool \<Rightarrow> bool" where
  "confirms t \<longleftrightarrow> ''confirmation'' \<in> zkey ` set (tool_schema t)"

section \<open>The request of a tool\<close>

text \<open>
  \<open>sends c m meth url params data\<close>: the computation sends exactly this request, once, and nothing
  else, whatever the server answers.
\<close>

definition sends :: "client \<Rightarrow> ('s, 'a) io \<Rightarrow> string \<Rightarrow> string \<Rightarrow> js \<Rightarrow> js \<Rightarrow> bool" where
  "sends c m meth url params data \<longleftrightarrow>
     (\<forall>w. log (snd (m w)) = log w @ [mk_request c meth url params data])"

definition silent :: "('s, 'a) io \<Rightarrow> bool" where
  "silent m \<longleftrightarrow> (\<forall>w. snd (m w) = w)"

lemma silent_pure [simp, intro]: "silent (return_io a)" "silent (throw_io e)" "silent (lift_io r)" "silent (now_io env)"
  by (simp_all add: silent_def io_eval)

lemma silent_bind: "silent m \<Longrightarrow> (\<And>a. silent (f a)) \<Longrightarrow> silent (bind_io m f)"
  by (simp add: silent_def bind_io_def split: prod.split sum.split) (metis snd_conv)

lemma sends_http: "passes c meth \<Longrightarrow> sends c (http env c meth url params data) meth url params data"
  unfolding sends_def
proof
  fix w :: "'a world"
  assume p: "passes c meth"
  obtain s' out where t: "transport env (server w) (mk_request c meth url params data) = (s', out)"
    by fastforce
  show "log (snd (http env c meth url params data w)) = log w @ [mk_request c meth url params data]"
    by (simp add: http_sent [OF p t])
qed

lemma sends_bind:
  "sends c m meth url params data \<Longrightarrow> (\<And>a. silent (f a)) \<Longrightarrow> sends c (bind_io m f) meth url params data"
  unfolding sends_def silent_def bind_io_def
  by (auto split: prod.split sum.split) (metis snd_conv)+

lemma sends_catch:
  "sends c m meth url params data \<Longrightarrow> (\<And>e. silent (h e)) \<Longrightarrow> sends c (catch_io m h) meth url params data"
  unfolding sends_def silent_def catch_io_def
  by (auto split: prod.split sum.split) (metis snd_conv)+

lemma sends_response_data [intro]:
  "sends c m meth url params data \<Longrightarrow> sends c (response_data m) meth url params data"
  unfolding response_data_def by (rule sends_bind) auto

lemma sends_answers [intro]:
  "sends c m meth url params data \<Longrightarrow> sends c (answer_json m) meth url params data"
  "sends c m meth url params data \<Longrightarrow> sends c (answer_text m t) meth url params data"
  unfolding answer_json_def answer_text_def by (rule sends_bind; auto)+

lemma sends_try [intro]:
  "sends c m meth url params data \<Longrightarrow> sends c (try_tool prefix m) meth url params data"
  unfolding try_tool_def by (rule sends_catch) auto

lemma sends_verbs [intro]:
  "passes c ''get'' \<Longrightarrow> sends c (http_get env c url params) ''get'' url params Undef"
  "passes c ''post'' \<Longrightarrow> sends c (http_post env c url data) ''post'' url Undef data"
  "passes c ''put'' \<Longrightarrow> sends c (http_put env c url data) ''put'' url Undef data"
  "passes c ''patch'' \<Longrightarrow> sends c (http_patch env c url data) ''patch'' url Undef data"
  "passes c ''delete'' \<Longrightarrow> sends c (http_delete env c url) ''delete'' url Undef Undef"
  by (simp_all add: http_verbs sends_http)

lemma passes_get [simp, intro]: "passes c ''get''"
  by (simp add: passes_def read_only_simps)

lemma passes_mutations [simp, intro]: "allow_mutations c \<Longrightarrow> passes c meth"
  by (simp add: passes_def)

lemmas sends_rules = sends_try sends_answers sends_response_data sends_verbs passes_get passes_mutations

text \<open>What a tool that answers with the response returns, in the two outcomes of its request.\<close>

lemma try_answer_json_run:
  assumes "passes c meth" and "transport env (server w) (mk_request c meth url params data) = (s', out)"
  shows "try_tool prefix (answer_json (response_data (http env c meth url params data))) w =
    (Inr (case out of
        Response st body \<Rightarrow> text_result (json_pretty body)
      | Failure d msg \<Rightarrow> error_result (prefix @ error_text (response_error_interceptor (d, msg)))),
     \<lparr>server = s', log = log w @ [mk_request c meth url params data]\<rparr>)"
  using response_data_sent [OF assms]
  by (cases out) (simp_all add: try_tool_def answer_json_def bind_io_def catch_io_def io_eval)

text \<open>
  A tool whose answer is the response of its one request, printed as JSON: the tool, the start of
  its error message, and the method, path, parameters and body of the request.
\<close>

type_synonym 's request_row = "'s tool \<times> string \<times> string \<times> string \<times> js \<times> js"

definition answers_with :: "'s env \<Rightarrow> client \<Rightarrow> jobj \<Rightarrow> 's request_row \<Rightarrow> bool" where
  "answers_with env c args row \<longleftrightarrow>
     (case row of (t, prefix, meth, url, params, data) \<Rightarrow>
        tool_handler t args =
          try_tool prefix (answer_json (response_data (http env c meth url params data))))"

lemma json_pretty_parses:
  "plain v \<Longrightarrow> \<exists>text. json_pretty v = Str text \<and> json_parse text = Inr v"
proof -
  assume v: "plain v"
  then have "json_parse (ser ''  '' [] v) = Inr (jnorm v)"
    by (intro json_parse_ser plain_wf) (simp_all add: all_ws_def is_ws_def)
  with v show ?thesis by (auto simp: json_pretty_def jnorm_id)
qed

lemma answers_with_run:
  assumes "answers_with env c args (t, prefix, meth, url, params, data)" and "passes c meth"
    and "transport env (server w) (mk_request c meth url params data) = (s', out)"
  shows "tool_handler t args w =
    (Inr (case out of
        Response st body \<Rightarrow> text_result (json_pretty body)
      | Failure d msg \<Rightarrow> error_result (prefix @ error_text (response_error_interceptor (d, msg)))),
     \<lparr>server = s', log = log w @ [mk_request c meth url params data]\<rparr>)"
  using assms(1) try_answer_json_run [OF assms(2,3)] by (simp add: answers_with_def)

lemma answers_with_refused:
  assumes "answers_with env c args (t, prefix, meth, url, params, data)" and "\<not> passes c meth"
  shows "tool_handler t args w =
    (Inr (error_result (prefix @ ''AstianGO Hub API Error: '' @ read_only_message)), w)"
  using assms by (simp add: answers_with_def passes_def http_refused io_eval)

section \<open>Refusals\<close>

text \<open>A tool that answers with an error and leaves the world alone, whatever its arguments.\<close>

definition refuses :: "'s tool \<Rightarrow> bool" where
  "refuses t \<longleftrightarrow> (\<forall>args w. \<exists>msg. tool_handler t args w = (Inr (error_result msg), w))"

lemma confirmed_throw: "\<exists>e'. confirmed v action i (throw_io e) = throw_io e'"
  by (cases "v = Str (expected_confirmation action i)") (auto simp: confirmed_refused)

lemma try_refused: "m = throw_io e \<Longrightarrow> \<exists>msg. try_tool prefix m w = (Inr (error_result msg), w)"
  by (auto simp: io_eval)

lemma try_confirmed_refused:
  "m = throw_io e \<Longrightarrow> \<exists>msg. try_tool prefix (confirmed v action i m) w = (Inr (error_result msg), w)"
  using confirmed_throw [of v action i e] try_refused by metis

section \<open>Lists of tools\<close>

text \<open>
  The tools obey every relation that the client's requests obey. \<open>tools_obey\<close> is the property
  of a list of tools that the theories of the tools prove in \<open>http_effects\<close>.
\<close>

definition tools_obey :: "('s world \<Rightarrow> 's world \<Rightarrow> bool) \<Rightarrow> 's tool list \<Rightarrow> bool" where
  "tools_obey R ts \<longleftrightarrow> (\<forall>t \<in> set ts. \<forall>args. obeys R (tool_handler t args))"

definition tools_total :: "'s tool list \<Rightarrow> bool" where
  "tools_total ts \<longleftrightarrow> (\<forall>t \<in> set ts. \<forall>args. total_io (tool_handler t args))"

lemma tools_append [simp]:
  "tools_obey R (ts @ us) \<longleftrightarrow> tools_obey R ts \<and> tools_obey R us"
  "tools_total (ts @ us) \<longleftrightarrow> tools_total ts \<and> tools_total us"
  by (auto simp: tools_obey_def tools_total_def)

lemma tools_Cons:
  "tools_obey R (t # ts) \<longleftrightarrow> (\<forall>args. obeys R (tool_handler t args)) \<and> tools_obey R ts"
  "tools_total (t # ts) \<longleftrightarrow> (\<forall>args. total_io (tool_handler t args)) \<and> tools_total ts"
  by (auto simp: tools_obey_def tools_total_def)

lemma tools_Nil [simp]: "tools_obey R []" "tools_total []"
  by (simp_all add: tools_obey_def tools_total_def)

end
