(* ===== verification/Mcp_Prompts.thy ===== *)
theory Mcp_Prompts
  imports Mcp_Tool
begin

text \<open>
  \<^verbatim>\<open>mcp/src/prompts.ts\<close>: the prompts of the MCP server. A handler is a pure function of the
  arguments; the one that parses a URL throws when the URL is invalid. The URL parser of the
  platform is the parameter \<open>url_hostname\<close>, the reading of \<open>new URL(s).hostname\<close>.
\<close>

record prompt_result =
  pr_description :: string
  pr_messages :: "(string \<times> content) list"

record prompt =
  prompt_name :: string
  prompt_description :: string
  prompt_schema :: "zfield list"
  prompt_handler :: "jobj \<Rightarrow> thrown + prompt_result"

definition prompt_answer :: "string \<Rightarrow> string \<Rightarrow> prompt_result" where
  "prompt_answer d t = \<lparr>pr_description = d, pr_messages = [(''user'', TextContent (Str t))]\<rparr>"

definition text_lines :: "string list \<Rightarrow> string" where
  "text_lines = join [CHR 0x0A]"

text \<open>\<open>s.charAt(0).toUpperCase() + s.slice(1)\<close>.\<close>

definition upper_first :: "string \<Rightarrow> string" where
  "upper_first s = map upper_char (take 1 s) @ drop 1 s"

definition spider_analysis_prompt :: prompt where
  "spider_analysis_prompt =
     \<lparr>prompt_name = ''spider-analysis'',
      prompt_description = ''Analyze spider performance and provide insights'',
      prompt_schema = [zreq ''spider_id'' ZString ''ID of the spider to analyze'',
        zopt ''time_range'' ZString (''Time range for analysis (e.g., '' @ [CHR 0x27] @ ''7d'' @ [CHR 0x27] @ '', '' @ [CHR 0x27] @ ''30d'' @ [CHR 0x27] @ '', '' @ [CHR 0x27] @ ''90d'' @ [CHR 0x27] @ '')'')],
      prompt_handler = (\<lambda>args.
         let spiderId = oget args ''spider_id'' in
         let timeRange = js_or (oget args ''time_range'') (Str ''7d'') in
         Inr (prompt_answer (''Spider Performance Analysis for Spider '' @ js_str spiderId)
            (text_lines
              [''Please analyze the performance of spider '' @ [CHR 0x22] @ js_str spiderId @ [CHR 0x22] @ '' over the last '' @ js_str timeRange @ ''. '',
               '''',
               ''I would like to understand:'',
               ''1. Task success/failure rates'',
               ''2. Average execution time'',
               ''3. Data collection patterns'',
               ''4. Any errors or issues'',
               ''5. Recommendations for optimization'',
               '''',
               ''Please use the available AstianGO Hub tools to gather task data, logs, and results for this analysis.''])))\<rparr>"

definition task_debugging_prompt :: prompt where
  "task_debugging_prompt =
     \<lparr>prompt_name = ''task-debugging'',
      prompt_description = ''Help debug a failed task'',
      prompt_schema = [zreq ''task_id'' ZString ''ID of the failed task to debug''],
      prompt_handler = (\<lambda>args.
         let taskId = oget args ''task_id'' in
         Inr (prompt_answer (''Task Debugging Assistant for Task '' @ js_str taskId)
            (text_lines
              [''I have a failed task with ID '' @ [CHR 0x22] @ js_str taskId @ [CHR 0x22] @ '' that needs debugging. '',
               '''',
               ''Please help me:'',
               ''1. Get the task details and status'',
               ''2. Retrieve and analyze the task logs'',
               ''3. Identify the root cause of the failure'',
               ''4. Suggest specific fixes or improvements'',
               ''5. Provide guidance on preventing similar issues'',
               '''',
               ''Use the AstianGO Hub tools to gather all relevant information about this task.''])))\<rparr>"

definition spider_setup_prompt :: prompt where
  "spider_setup_prompt =
     \<lparr>prompt_name = ''spider-setup'',
      prompt_description = ''Guide for setting up a new spider'',
      prompt_schema = [zreq ''spider_name'' ZString ''Name for the new spider'',
        zopt ''target_website'' ZString ''Target website or data source'',
        zopt ''spider_type'' ZString ''Type of spider (scrapy, selenium, custom, etc.)''],
      prompt_handler = (\<lambda>args.
         let spiderName = oget args ''spider_name'' in
         let targetWebsite = oget args ''target_website'' in
         let spiderType = js_or (oget args ''spider_type'') (Str ''scrapy'') in
         Inr (prompt_answer (''Spider Setup Guide for '' @ [CHR 0x22] @ js_str spiderName @ [CHR 0x22])
            (text_lines
              [''I want to create a new '' @ js_str spiderType @ '' spider named '' @ [CHR 0x22] @ js_str spiderName @ [CHR 0x22] @ (if truthy targetWebsite then '' to scrape '' @ js_str targetWebsite else []) @ ''.'',
               '''',
               ''Please help me:'',
               ''1. Create the spider configuration'',
               ''2. Set up the basic file structure'',
               ''3. Configure appropriate settings'',
               ''4. Create a simple test to verify the setup'',
               ''5. Set up a schedule if needed'',
               '''',
               ''Guide me through the process step by step using the available AstianGO Hub tools.''])))\<rparr>"

definition system_monitoring_prompt :: prompt where
  "system_monitoring_prompt =
     \<lparr>prompt_name = ''system-monitoring'',
      prompt_description = ''Monitor AstianGO Hub system health and performance'',
      prompt_schema = [zopt ''focus_area'' ZString ''Specific area to focus on (nodes, tasks, storage, overall)''],
      prompt_handler = (\<lambda>args.
         let focusArea = js_or (oget args ''focus_area'') (Str ''overall'') in
         Inr (prompt_answer (''AstianGO Hub System Monitoring - '' @ js_str focusArea)
            (text_lines
              [''Please perform a system health check focusing on '' @ js_str focusArea @ ''.'',
               '''',
               ''I need you to:'',
               ''1. Check node status and availability'',
               ''2. Review recent task performance'',
               ''3. Identify any system bottlenecks'',
               ''4. Check for error patterns'',
               ''5. Provide recommendations for optimization'',
               '''',
               ''Use the AstianGO Hub monitoring tools to gather comprehensive system information.''])))\<rparr>"

definition ai_autoprobe_setup_prompt :: "(string \<Rightarrow> thrown + string) \<Rightarrow> prompt" where
  "ai_autoprobe_setup_prompt url_hostname =
     \<lparr>prompt_name = ''ai-autoprobe-setup'',
      prompt_description = ''Guide for setting up AI-powered web scraping with AutoProbe'',
      prompt_schema = [zreq ''target_url'' ZString ''Target URL to scrape'',
        zreq ''data_description'' ZString ''Description of the data you want to extract'',
        zopt ''autoprobe_name'' ZString ''Name for the AutoProbe configuration''],
      prompt_handler = (\<lambda>args.
         let targetUrl = oget args ''target_url'' in
         let dataDescription = oget args ''data_description'' in
         case (if truthy (oget args ''autoprobe_name'') then Inr (oget args ''autoprobe_name'')
           else map_sum (\<lambda>e. e) (\<lambda>h. Str (''AutoProbe for '' @ h)) (url_hostname (js_str targetUrl))) of
             Inl e \<Rightarrow> Inl e
           | Inr autoprobeName \<Rightarrow> Inr (prompt_answer (''AI AutoProbe Setup Guide for '' @ js_str targetUrl)
            (text_lines
              [''I want to set up an AI-powered AutoProbe to scrape data from '' @ [CHR 0x22] @ js_str targetUrl @ [CHR 0x22] @ ''.'',
               '''',
               ''Target URL: '' @ js_str targetUrl,
               ''Data to extract: '' @ js_str dataDescription,
               ''AutoProbe name: '' @ js_str autoprobeName,
               '''',
               ''Please help me:'',
               ''1. Check if there are existing LLM providers configured'',
               ''2. Create a new AutoProbe V2 configuration with the specified parameters'',
               ''3. Run a preview to see what data would be extracted'',
               ''4. Test the AutoProbe with a sample run'',
               ''5. Provide guidance on optimizing the extraction pattern'',
               '''',
               ''Use the AI and AutoProbe tools to guide me through this process.''])))\<rparr>"

definition llm_provider_setup_prompt :: prompt where
  "llm_provider_setup_prompt =
     \<lparr>prompt_name = ''llm-provider-setup'',
      prompt_description = ''Configure LLM providers for AI features'',
      prompt_schema = [zreq ''provider_type'' ZString ''Type of LLM provider (openai, azure-openai, anthropic, gemini)'',
        zopt ''provider_name'' ZString ''Display name for the provider''],
      prompt_handler = (\<lambda>args.
         let providerType = oget args ''provider_type'' in
         let providerName = js_or (oget args ''provider_name'') (Str (upper_first (js_str providerType) @ '' Provider'')) in
         Inr (prompt_answer (''LLM Provider Setup Guide for '' @ js_str providerType)
            (text_lines
              [''I want to set up a '' @ js_str providerType @ '' LLM provider named '' @ [CHR 0x22] @ js_str providerName @ [CHR 0x22] @ '' for AstianGO Hub'' @ [CHR 0x27] @ ''s AI features.'',
               '''',
               ''Please help me:'',
               ''1. List existing LLM providers to avoid conflicts'',
               ''2. Guide me through the configuration process for '' @ js_str providerType,
               ''3. Explain what API credentials and settings are needed'',
               ''4. Test the provider connection'',
               ''5. Show me how to use this provider with AutoProbe and other AI features'',
               '''',
               ''Use the LLM provider tools to assist with the setup.''])))\<rparr>"

definition ai_data_extraction_prompt :: prompt where
  "ai_data_extraction_prompt =
     \<lparr>prompt_name = ''ai-data-extraction'',
      prompt_description = ''Optimize AI-powered data extraction'',
      prompt_schema = [zreq ''autoprobe_id'' ZString ''ID of the AutoProbe to optimize'',
        zopt ''extraction_issues'' ZString ''Specific issues with current extraction''],
      prompt_handler = (\<lambda>args.
         let autoprobeId = oget args ''autoprobe_id'' in
         let extractionIssues = oget args ''extraction_issues'' in
         Inr (prompt_answer (''AI Data Extraction Optimization for AutoProbe '' @ js_str autoprobeId)
            (text_lines
              [''I need help optimizing the AI data extraction for AutoProbe '' @ [CHR 0x22] @ js_str autoprobeId @ [CHR 0x22] @ ''.'',
               '''',
               (if truthy extractionIssues then ''Current issues: '' @ js_str extractionIssues else []),
               '''',
               ''Please help me:'',
               ''1. Review the current AutoProbe configuration'',
               ''2. Check the extraction pattern and recent results'',
               ''3. Analyze any failed or incomplete extractions'',
               ''4. Suggest improvements to the query or settings'',
               ''5. Test the optimized configuration'',
               '''',
               ''Use the AutoProbe tools to analyze and improve the extraction process.''])))\<rparr>"

definition configurePrompts :: "(string \<Rightarrow> thrown + string) \<Rightarrow> prompt list" where
  "configurePrompts url_hostname =
    [spider_analysis_prompt,
     task_debugging_prompt,
     spider_setup_prompt,
     system_monitoring_prompt,
     ai_autoprobe_setup_prompt url_hostname,
     llm_provider_setup_prompt,
     ai_data_extraction_prompt]"

section \<open>Lemmas\<close>

lemmas prompt_defs = spider_analysis_prompt_def task_debugging_prompt_def spider_setup_prompt_def system_monitoring_prompt_def ai_autoprobe_setup_prompt_def llm_provider_setup_prompt_def ai_data_extraction_prompt_def

lemma prompt_names:
  "map prompt_name (configurePrompts url_hostname) =
    [''spider-analysis'', ''task-debugging'', ''spider-setup'', ''system-monitoring'', ''ai-autoprobe-setup'', ''llm-provider-setup'', ''ai-data-extraction'']"
  by (simp add: configurePrompts_def prompt_defs)

lemma prompt_names_distinct: "distinct (map prompt_name (configurePrompts url_hostname))"
  by (simp add: prompt_names)

text \<open>A prompt fails only when the URL it has to parse is invalid.\<close>

lemma prompt_total:
  assumes "p \<in> set (configurePrompts url_hostname)" and "\<And>s. \<exists>h. url_hostname s = Inr h"
  shows "\<exists>r. prompt_handler p args = Inr r \<and> length (pr_messages r) = 1"
proof -
  obtain h where h: "url_hostname (js_str (oget args ''target_url'')) = Inr h"
    using assms(2) by blast
  show ?thesis
    using assms(1)
    by (auto simp: configurePrompts_def prompt_defs prompt_answer_def Let_def h split: sum.split)
qed

end
