(* ===== verification/Mcp_Spiders.thy ===== *)
theory Mcp_Spiders
  imports Mcp_Tool
begin

text \<open>
  \<^verbatim>\<open>mcp/src/tools/spiders.ts\<close>: the tools for spiders and their files. One definition per \<open>server.tool\<close> call, with
  its schema and handler, and the list of them in the order of registration.
\<close>

definition SPIDER_TOOLS :: "(string \<times> string) list" where
  "SPIDER_TOOLS =
    [(''list_spiders'', ''astiango_hub_list_spiders''),
     (''get_spider'', ''astiango_hub_get_spider''),
     (''create_spider'', ''astiango_hub_create_spider''),
     (''update_spider'', ''astiango_hub_update_spider''),
     (''delete_spider'', ''astiango_hub_delete_spider''),
     (''run_spider'', ''astiango_hub_run_spider''),
     (''list_spider_files'', ''astiango_hub_list_spider_files''),
     (''get_spider_file_content'', ''astiango_hub_get_spider_file_content''),
     (''save_spider_file'', ''astiango_hub_save_spider_file'')]"

definition list_spiders :: "'s env \<Rightarrow> client \<Rightarrow> 's tool" where
  [tool_defs]: "list_spiders env c =
     \<lparr>tool_name = ''astiango_hub_list_spiders'',
      tool_description = ''List all spiders in AstianGO Hub'',
      tool_schema = [zopt ''page'' (ZNumber None None) ''Page number for pagination (default: 1)'',
        zopt ''size'' (ZNumber None None) ''Number of spiders per page (default: 10)''],
      tool_handler = (\<lambda>args.
        try_tool ''Error listing spiders: ''
          (answer_json (getSpiders env c (Obj (named args [''page'', ''size''])))))\<rparr>"

definition get_spider :: "'s env \<Rightarrow> client \<Rightarrow> 's tool" where
  [tool_defs]: "get_spider env c =
     \<lparr>tool_name = ''astiango_hub_get_spider'',
      tool_description = ''Get details of a specific spider'',
      tool_schema = [zreq ''spider_id'' ZString ''The ID of the spider to retrieve''],
      tool_handler = (\<lambda>args.
        try_tool ''Error getting spider: ''
          (answer_json (getSpider env c (oget args ''spider_id''))))\<rparr>"

definition create_spider :: "'s env \<Rightarrow> client \<Rightarrow> 's tool" where
  [tool_defs]: "create_spider env c =
     \<lparr>tool_name = ''astiango_hub_create_spider'',
      tool_description = ''Create a new spider'',
      tool_schema = [zreq ''name'' ZString ''Name of the spider'',
        zopt ''description'' ZString ''Description of the spider'',
        zreq ''cmd'' ZString ''Command to execute the spider'',
        zopt ''param'' ZString ''Parameters for the spider command'',
        zopt ''project_id'' ZString ''Project ID to associate with the spider'',
        zopt ''database_id'' ZString ''Database ID for data storage'',
        zopt ''col_name'' ZString ''Collection/table name for results'',
        zopt ''db_name'' ZString ''Database name for results'',
        zopt ''mode'' (ZEnum [''random'', ''all'', ''selected-nodes'']) ''Task execution mode'',
        zopt ''node_ids'' (ZArray ZString) ''Node IDs for selected-nodes mode'',
        zopt ''git_id'' ZString ''Git repository ID'',
        zopt ''git_root_path'' ZString ''Git root path'',
        zopt ''template'' ZString ''Spider template'',
        zopt ''priority'' (ZNumber (Some 1) (Some 10)) ''Priority (1-10, default: 5)''],
      tool_handler = (\<lambda>args.
        try_tool ''Error creating spider: ''
          (answer_json (createSpider env c (Obj (named args [''name'', ''description'', ''cmd'', ''param'', ''project_id'', ''database_id'', ''col_name'', ''db_name'', ''mode'', ''node_ids'', ''git_id'', ''git_root_path'', ''template''] @ [(''priority'', js_or (oget args ''priority'') (Num 5))])))))\<rparr>"

definition update_spider :: "'s env \<Rightarrow> client \<Rightarrow> 's tool" where
  [tool_defs]: "update_spider env c =
     \<lparr>tool_name = ''astiango_hub_update_spider'',
      tool_description = ''Update an existing spider'',
      tool_schema = [zreq ''spider_id'' ZString ''The ID of the spider to update'',
        zopt ''name'' ZString ''New name for the spider'',
        zopt ''description'' ZString ''New description for the spider'',
        zopt ''cmd'' ZString ''New command to execute the spider'',
        zopt ''param'' ZString ''New parameters for the spider command'',
        zopt ''project_id'' ZString ''New project ID to associate with the spider'',
        zopt ''database_id'' ZString ''New database ID for data storage'',
        zopt ''col_name'' ZString ''New collection/table name for results'',
        zopt ''db_name'' ZString ''New database name for results'',
        zopt ''mode'' (ZEnum [''random'', ''all'', ''selected-nodes'']) ''New task execution mode'',
        zopt ''node_ids'' (ZArray ZString) ''New node IDs for selected-nodes mode'',
        zopt ''git_id'' ZString ''New git repository ID'',
        zopt ''git_root_path'' ZString ''New git root path'',
        zopt ''template'' ZString ''New spider template'',
        zopt ''priority'' (ZNumber (Some 1) (Some 10)) ''New priority (1-10)''],
      tool_handler = (\<lambda>args.
        try_tool ''Error updating spider: ''
          (answer_json (updateSpider env c (oget args ''spider_id'')
            (Obj (truthy_fields args [''name'', ''description'', ''cmd'', ''param'', ''project_id'', ''database_id'', ''col_name'', ''db_name'', ''mode'', ''node_ids'', ''git_id'', ''git_root_path'', ''template'', ''priority''])))))\<rparr>"

definition delete_spider :: "'s env \<Rightarrow> client \<Rightarrow> 's tool" where
  [tool_defs]: "delete_spider env c =
     \<lparr>tool_name = ''astiango_hub_delete_spider'',
      tool_description = ''Delete a spider'',
      tool_schema = [zreq ''spider_id'' ZString ''The ID of the spider to delete'',
        zreq ''confirmation'' ZString ''Required: DELETE:<spider_id>''],
      tool_handler = (\<lambda>args.
        try_tool ''Error deleting spider: ''
          (confirmed (oget args ''confirmation'') ''DELETE'' (oget args ''spider_id'')
            (answer_text (deleteSpider env c (oget args ''spider_id''))
            (''Spider '' @ js_str (oget args ''spider_id'') @ '' deleted successfully.''))))\<rparr>"

definition run_spider :: "'s env \<Rightarrow> client \<Rightarrow> 's tool" where
  [tool_defs]: "run_spider env c =
     \<lparr>tool_name = ''astiango_hub_run_spider'',
      tool_description = ''Run a spider'',
      tool_schema = [zreq ''spider_id'' ZString ''The ID of the spider to run'',
        zopt ''cmd'' ZString ''Override command for this run'',
        zopt ''param'' ZString ''Override parameters for this run'',
        zopt ''priority'' (ZNumber (Some 1) (Some 10)) ''Task priority (1-10)'',
        zopt ''mode'' (ZEnum [''random'', ''all'', ''selected-nodes'']) ''Task execution mode'',
        zopt ''node_ids'' (ZArray ZString) ''Node IDs for selected-nodes mode''],
      tool_handler = (\<lambda>args.
        try_tool ''Error running spider: ''
          (answer_json (runSpider env c (oget args ''spider_id'')
            (Obj (truthy_fields args [''cmd'', ''param'', ''priority'', ''mode'', ''node_ids''])))))\<rparr>"

definition list_spider_files :: "'s env \<Rightarrow> client \<Rightarrow> 's tool" where
  [tool_defs]: "list_spider_files env c =
     \<lparr>tool_name = ''astiango_hub_list_spider_files'',
      tool_description = ''List files in a spider directory'',
      tool_schema = [zreq ''spider_id'' ZString ''The ID of the spider'',
        zopt ''path'' ZString ''Path within the spider directory (default: root)''],
      tool_handler = (\<lambda>args.
        try_tool ''Error listing spider files: ''
          (answer_json (getSpiderFiles env c (oget args ''spider_id'')
            (oget args ''path''))))\<rparr>"

definition get_spider_file_content :: "'s env \<Rightarrow> client \<Rightarrow> 's tool" where
  [tool_defs]: "get_spider_file_content env c =
     \<lparr>tool_name = ''astiango_hub_get_spider_file_content'',
      tool_description = ''Get the content of a spider file'',
      tool_schema = [zreq ''spider_id'' ZString ''The ID of the spider'',
        zreq ''file_path'' ZString ''Path to the file within the spider directory''],
      tool_handler = (\<lambda>args.
        try_tool ''Error getting file content: ''
          (bind_io (getSpiderFileContent env c (oget args ''spider_id'')
            (oget args ''file_path'')) (\<lambda>response.
            bind_io (lift_io (js_get response ''data'')) (\<lambda>data.
              return_io (text_result (js_or data (Str ''File is empty'')))))))\<rparr>"

definition save_spider_file :: "'s env \<Rightarrow> client \<Rightarrow> 's tool" where
  [tool_defs]: "save_spider_file env c =
     \<lparr>tool_name = ''astiango_hub_save_spider_file'',
      tool_description = ''Save content to a spider file'',
      tool_schema = [zreq ''spider_id'' ZString ''The ID of the spider'',
        zreq ''file_path'' ZString ''Path to the file within the spider directory'',
        zreq ''content'' ZString ''Content to save to the file''],
      tool_handler = (\<lambda>args.
        try_tool ''Error saving file: ''
          (answer_text (saveSpiderFile env c (oget args ''spider_id'')
            (oget args ''file_path'')
            (oget args ''content''))
            (''File '' @ js_str (oget args ''file_path'') @ '' saved successfully for spider '' @ js_str (oget args ''spider_id'') @ ''.'')))\<rparr>"

definition configureSpiderTools :: "'s env \<Rightarrow> client \<Rightarrow> 's tool list" where
  "configureSpiderTools env c =
    [list_spiders env c,
     get_spider env c,
     create_spider env c,
     update_spider env c,
     delete_spider env c,
     run_spider env c,
     list_spider_files env c,
     get_spider_file_content env c,
     save_spider_file env c]"

section \<open>Lemmas\<close>

lemma spider_tools_total: "tools_total (configureSpiderTools env c)"
  by (simp add: configureSpiderTools_def tools_Cons tool_defs)

lemma spider_tool_names: "map tool_name (configureSpiderTools env c) = [''astiango_hub_list_spiders'', ''astiango_hub_get_spider'', ''astiango_hub_create_spider'', ''astiango_hub_update_spider'', ''astiango_hub_delete_spider'', ''astiango_hub_run_spider'', ''astiango_hub_list_spider_files'', ''astiango_hub_get_spider_file_content'', ''astiango_hub_save_spider_file'']"
  by (simp add: configureSpiderTools_def tool_defs)

lemma spider_confirms [simp]:
  "\<not> confirms (list_spiders env c)"
  "\<not> confirms (get_spider env c)"
  "\<not> confirms (create_spider env c)"
  "\<not> confirms (update_spider env c)"
  "confirms (delete_spider env c)"
  "\<not> confirms (run_spider env c)"
  "\<not> confirms (list_spider_files env c)"
  "\<not> confirms (get_spider_file_content env c)"
  "\<not> confirms (save_spider_file env c)"
  by (simp_all add: confirms_def tool_defs zreq_def zopt_def)

text \<open>The tools that only read, and those that change something at the API server.\<close>

definition spider_readers :: "'s env \<Rightarrow> client \<Rightarrow> 's tool list" where
  "spider_readers env c =
    [list_spiders env c,
     get_spider env c,
     list_spider_files env c,
     get_spider_file_content env c]"

definition spider_writers :: "'s env \<Rightarrow> client \<Rightarrow> 's tool list" where
  "spider_writers env c =
    [create_spider env c,
     update_spider env c,
     delete_spider env c,
     run_spider env c,
     save_spider_file env c]"

lemma spider_tools_split: "set (configureSpiderTools env c) = set (spider_readers env c) \<union> set (spider_writers env c)"
  by (auto simp: configureSpiderTools_def spider_readers_def spider_writers_def)

text \<open>
  The tools that answer with the response: the start of their error message, and the method, path,
  parameters and body of their request.
\<close>

definition spider_requests :: "'s env \<Rightarrow> client \<Rightarrow> jobj \<Rightarrow> 's request_row list" where
  "spider_requests env c args =
    [(list_spiders env c, ''Error listing spiders: '', ''get'',
       ''/spiders'',
       Obj (named args [''page'', ''size'']), Undef),
     (get_spider env c, ''Error getting spider: '', ''get'',
       ''/spiders/'' @ js_str (oget args ''spider_id''),
       Undef, Undef),
     (create_spider env c, ''Error creating spider: '', ''post'',
       ''/spiders'',
       Undef, Obj (named args [''name'', ''description'', ''cmd'', ''param'', ''project_id'',
         ''database_id'', ''col_name'', ''db_name'', ''mode'', ''node_ids'', ''git_id'',
         ''git_root_path'', ''template''] @ [(''priority'', js_or (oget args ''priority'') (Num 5))])),
     (update_spider env c, ''Error updating spider: '', ''put'',
       ''/spiders/'' @ js_str (oget args ''spider_id''),
       Undef, Obj (truthy_fields args [''name'', ''description'', ''cmd'', ''param'', ''project_id'',
         ''database_id'', ''col_name'', ''db_name'', ''mode'', ''node_ids'', ''git_id'',
         ''git_root_path'', ''template'', ''priority''])),
     (run_spider env c, ''Error running spider: '', ''post'',
       ''/spiders/'' @ js_str (oget args ''spider_id'') @ ''/run'',
       Undef, Obj (truthy_fields args [''cmd'', ''param'', ''priority'', ''mode'', ''node_ids''])),
     (list_spider_files env c, ''Error listing spider files: '', ''get'',
       ''/spiders/'' @ js_str (oget args ''spider_id'') @ ''/files'',
       (if truthy (oget args ''path'') then Obj [(''path'', oget args ''path'')] else Obj []), Undef)]"

lemma spider_requests_answer: "list_all (answers_with env c args) (spider_requests env c args)"
  by (simp add: answers_with_def spider_requests_def tool_defs client_defs http_verbs)

context read_effects
begin

lemma spider_readers_obey: "tools_obey R (spider_readers env c)"
  unfolding spider_readers_def tools_Cons tool_defs
  by (auto intro!: obeys_try_tool obeys_bind obeys_all obeys_pure split: js.split)

end

context http_effects
begin

lemma spider_writers_obey: "tools_obey R (spider_writers env c)"
  unfolding spider_writers_def tools_Cons tool_defs
  by (auto intro!: obeys_try_tool obeys_bind obeys_pure)

lemma spider_tools_obey: "tools_obey R (configureSpiderTools env c)"
  using spider_readers_obey spider_writers_obey by (auto simp: tools_obey_def spider_tools_split)

end

lemma spider_writers_refuse: "\<not> allow_mutations c \<Longrightarrow> list_all refuses (spider_writers env c)"
  unfolding spider_writers_def tool_defs refuses_def
  by (auto simp: client_defs mutations_refused io_eval intro: try_refused try_confirmed_refused)

end
