(* ===== verification/Mcp_Tasks.thy ===== *)
theory Mcp_Tasks
  imports Mcp_Tool
begin

text \<open>
  \<^verbatim>\<open>mcp/src/tools/tasks.ts\<close>: the tools for tasks, their logs and results. One definition per \<open>server.tool\<close> call, with
  its schema and handler, and the list of them in the order of registration.
\<close>

definition TASK_TOOLS :: "(string \<times> string) list" where
  "TASK_TOOLS =
    [(''list_tasks'', ''astiango_hub_list_tasks''),
     (''get_task'', ''astiango_hub_get_task''),
     (''cancel_task'', ''astiango_hub_cancel_task''),
     (''restart_task'', ''astiango_hub_restart_task''),
     (''delete_task'', ''astiango_hub_delete_task''),
     (''get_task_logs'', ''astiango_hub_get_task_logs''),
     (''get_task_results'', ''astiango_hub_get_task_results'')]"

definition list_tasks :: "'s env \<Rightarrow> client \<Rightarrow> 's tool" where
  [tool_defs]: "list_tasks env c =
     \<lparr>tool_name = ''astiango_hub_list_tasks'',
      tool_description = ''List tasks in AstianGO Hub'',
      tool_schema = [zopt ''page'' (ZNumber None None) ''Page number for pagination (default: 1)'',
        zopt ''size'' (ZNumber None None) ''Number of tasks per page (default: 10)'',
        zopt ''spider_id'' ZString ''Filter by spider ID'',
        zopt ''status'' ZString ''Filter by task status (pending, assigned, running, finished, error, cancelled, abnormal)''],
      tool_handler = (\<lambda>args.
        try_tool ''Error listing tasks: ''
          (answer_json (getTasks env c (Obj (named args [''page'', ''size'', ''spider_id'', ''status''])))))\<rparr>"

definition get_task :: "'s env \<Rightarrow> client \<Rightarrow> 's tool" where
  [tool_defs]: "get_task env c =
     \<lparr>tool_name = ''astiango_hub_get_task'',
      tool_description = ''Get details of a specific task'',
      tool_schema = [zreq ''task_id'' ZString ''The ID of the task to retrieve''],
      tool_handler = (\<lambda>args.
        try_tool ''Error getting task: ''
          (answer_json (getTask env c (oget args ''task_id''))))\<rparr>"

definition cancel_task :: "'s env \<Rightarrow> client \<Rightarrow> 's tool" where
  [tool_defs]: "cancel_task env c =
     \<lparr>tool_name = ''astiango_hub_cancel_task'',
      tool_description = ''Cancel a running task'',
      tool_schema = [zreq ''task_id'' ZString ''The ID of the task to cancel'',
        zreq ''confirmation'' ZString ''Required: CANCEL:<task_id>''],
      tool_handler = (\<lambda>args.
        try_tool ''Error cancelling task: ''
          (confirmed (oget args ''confirmation'') ''CANCEL'' (oget args ''task_id'')
            (answer_text (cancelTask env c (oget args ''task_id''))
            (''Task '' @ js_str (oget args ''task_id'') @ '' cancelled successfully.''))))\<rparr>"

definition restart_task :: "'s env \<Rightarrow> client \<Rightarrow> 's tool" where
  [tool_defs]: "restart_task env c =
     \<lparr>tool_name = ''astiango_hub_restart_task'',
      tool_description = ''Restart a task'',
      tool_schema = [zreq ''task_id'' ZString ''The ID of the task to restart''],
      tool_handler = (\<lambda>args.
        try_tool ''Error restarting task: ''
          (answer_json (restartTask env c (oget args ''task_id''))))\<rparr>"

definition delete_task :: "'s env \<Rightarrow> client \<Rightarrow> 's tool" where
  [tool_defs]: "delete_task env c =
     \<lparr>tool_name = ''astiango_hub_delete_task'',
      tool_description = ''Delete a task'',
      tool_schema = [zreq ''task_id'' ZString ''The ID of the task to delete'',
        zreq ''confirmation'' ZString ''Required: DELETE:<task_id>''],
      tool_handler = (\<lambda>args.
        try_tool ''Error deleting task: ''
          (confirmed (oget args ''confirmation'') ''DELETE'' (oget args ''task_id'')
            (answer_text (deleteTask env c (oget args ''task_id''))
            (''Task '' @ js_str (oget args ''task_id'') @ '' deleted successfully.''))))\<rparr>"

definition get_task_logs :: "'s env \<Rightarrow> client \<Rightarrow> 's tool" where
  [tool_defs]: "get_task_logs env c =
     \<lparr>tool_name = ''astiango_hub_get_task_logs'',
      tool_description = ''Get logs from a task'',
      tool_schema = [zreq ''task_id'' ZString ''The ID of the task'',
        zopt ''page'' (ZNumber None None) ''Page number for pagination (default: 1)'',
        zopt ''size'' (ZNumber None None) ''Number of log lines per page (default: 100)''],
      tool_handler = (\<lambda>args.
        try_tool ''Error getting task logs: ''
          (bind_io (getTaskLogs env c (oget args ''task_id'')
            (Obj (named args [''page'', ''size'']))) (\<lambda>response.
            bind_io (lift_io (js_get response ''data'')) (\<lambda>data.
              return_io (text_result (case data of
                  Arr xs \<Rightarrow> Str (js_join [CHR 0x0A] xs)
                | _ \<Rightarrow> json_pretty response))))))\<rparr>"

definition get_task_results :: "'s env \<Rightarrow> client \<Rightarrow> 's tool" where
  [tool_defs]: "get_task_results env c =
     \<lparr>tool_name = ''astiango_hub_get_task_results'',
      tool_description = ''Get results data from a task'',
      tool_schema = [zreq ''task_id'' ZString ''The ID of the task'',
        zopt ''page'' (ZNumber None None) ''Page number for pagination (default: 1)'',
        zopt ''size'' (ZNumber None None) ''Number of results per page (default: 10)''],
      tool_handler = (\<lambda>args.
        try_tool ''Error getting task results: ''
          (answer_json (getTaskResults env c (oget args ''task_id'')
            (Obj (named args [''page'', ''size''])))))\<rparr>"

definition configureTaskTools :: "'s env \<Rightarrow> client \<Rightarrow> 's tool list" where
  "configureTaskTools env c =
    [list_tasks env c,
     get_task env c,
     cancel_task env c,
     restart_task env c,
     delete_task env c,
     get_task_logs env c,
     get_task_results env c]"

section \<open>Lemmas\<close>

lemma task_tools_total: "tools_total (configureTaskTools env c)"
  by (simp add: configureTaskTools_def tools_Cons tool_defs)

lemma task_tool_names: "map tool_name (configureTaskTools env c) = [''astiango_hub_list_tasks'', ''astiango_hub_get_task'', ''astiango_hub_cancel_task'', ''astiango_hub_restart_task'', ''astiango_hub_delete_task'', ''astiango_hub_get_task_logs'', ''astiango_hub_get_task_results'']"
  by (simp add: configureTaskTools_def tool_defs)

lemma task_confirms [simp]:
  "\<not> confirms (list_tasks env c)"
  "\<not> confirms (get_task env c)"
  "confirms (cancel_task env c)"
  "\<not> confirms (restart_task env c)"
  "confirms (delete_task env c)"
  "\<not> confirms (get_task_logs env c)"
  "\<not> confirms (get_task_results env c)"
  by (simp_all add: confirms_def tool_defs zreq_def zopt_def)

text \<open>The tools that only read, and those that change something at the API server.\<close>

definition task_readers :: "'s env \<Rightarrow> client \<Rightarrow> 's tool list" where
  "task_readers env c =
    [list_tasks env c,
     get_task env c,
     get_task_logs env c,
     get_task_results env c]"

definition task_writers :: "'s env \<Rightarrow> client \<Rightarrow> 's tool list" where
  "task_writers env c =
    [cancel_task env c,
     restart_task env c,
     delete_task env c]"

lemma task_tools_split: "set (configureTaskTools env c) = set (task_readers env c) \<union> set (task_writers env c)"
  by (auto simp: configureTaskTools_def task_readers_def task_writers_def)

text \<open>
  The tools that answer with the response: the start of their error message, and the method, path,
  parameters and body of their request.
\<close>

definition task_requests :: "'s env \<Rightarrow> client \<Rightarrow> jobj \<Rightarrow> 's request_row list" where
  "task_requests env c args =
    [(list_tasks env c, ''Error listing tasks: '', ''get'',
       ''/tasks'',
       Obj (named args [''page'', ''size'', ''spider_id'', ''status'']), Undef),
     (get_task env c, ''Error getting task: '', ''get'',
       ''/tasks/'' @ js_str (oget args ''task_id''),
       Undef, Undef),
     (restart_task env c, ''Error restarting task: '', ''post'',
       ''/tasks/'' @ js_str (oget args ''task_id'') @ ''/restart'',
       Undef, Undef),
     (get_task_results env c, ''Error getting task results: '', ''get'',
       ''/tasks/'' @ js_str (oget args ''task_id'') @ ''/results'',
       Obj (named args [''page'', ''size'']), Undef)]"

lemma task_requests_answer: "list_all (answers_with env c args) (task_requests env c args)"
  by (simp add: answers_with_def task_requests_def tool_defs client_defs http_verbs)

context read_effects
begin

lemma task_readers_obey: "tools_obey R (task_readers env c)"
  unfolding task_readers_def tools_Cons tool_defs
  by (auto intro!: obeys_try_tool obeys_bind obeys_all obeys_pure split: js.split)

end

context http_effects
begin

lemma task_writers_obey: "tools_obey R (task_writers env c)"
  unfolding task_writers_def tools_Cons tool_defs
  by (auto intro!: obeys_try_tool obeys_bind obeys_pure)

lemma task_tools_obey: "tools_obey R (configureTaskTools env c)"
  using task_readers_obey task_writers_obey by (auto simp: tools_obey_def task_tools_split)

end

lemma task_writers_refuse: "\<not> allow_mutations c \<Longrightarrow> list_all refuses (task_writers env c)"
  unfolding task_writers_def tool_defs refuses_def
  by (auto simp: client_defs mutations_refused io_eval intro: try_refused try_confirmed_refused)

end
