(* ===== verification/Mcp_Nodes.thy ===== *)
theory Mcp_Nodes
  imports Mcp_Tool
begin

text \<open>
  \<^verbatim>\<open>mcp/src/tools/nodes.ts\<close>: the tools for the nodes of the cluster. One definition per \<open>server.tool\<close> call, with
  its schema and handler, and the list of them in the order of registration.
\<close>

definition NODE_TOOLS :: "(string \<times> string) list" where
  "NODE_TOOLS =
    [(''list_nodes'', ''astiango_hub_list_nodes''),
     (''get_node'', ''astiango_hub_get_node''),
     (''update_node'', ''astiango_hub_update_node''),
     (''enable_node'', ''astiango_hub_enable_node''),
     (''disable_node'', ''astiango_hub_disable_node'')]"

definition list_nodes :: "'s env \<Rightarrow> client \<Rightarrow> 's tool" where
  [tool_defs]: "list_nodes env c =
     \<lparr>tool_name = ''astiango_hub_list_nodes'',
      tool_description = ''List all nodes in AstianGO Hub cluster'',
      tool_schema = [zopt ''page'' (ZNumber None None) ''Page number for pagination (default: 1)'',
        zopt ''size'' (ZNumber None None) ''Number of nodes per page (default: 10)''],
      tool_handler = (\<lambda>args.
        try_tool ''Error listing nodes: ''
          (answer_json (getNodes env c (Obj (named args [''page'', ''size''])))))\<rparr>"

definition get_node :: "'s env \<Rightarrow> client \<Rightarrow> 's tool" where
  [tool_defs]: "get_node env c =
     \<lparr>tool_name = ''astiango_hub_get_node'',
      tool_description = ''Get details of a specific node'',
      tool_schema = [zreq ''node_id'' ZString ''The ID of the node to retrieve''],
      tool_handler = (\<lambda>args.
        try_tool ''Error getting node: ''
          (answer_json (getNode env c (oget args ''node_id''))))\<rparr>"

definition update_node :: "'s env \<Rightarrow> client \<Rightarrow> 's tool" where
  [tool_defs]: "update_node env c =
     \<lparr>tool_name = ''astiango_hub_update_node'',
      tool_description = ''Update a node configuration'',
      tool_schema = [zreq ''node_id'' ZString ''The ID of the node to update'',
        zopt ''name'' ZString ''New name for the node'',
        zopt ''description'' ZString ''New description for the node'',
        zopt ''max_runners'' (ZNumber None None) ''New maximum number of concurrent runners'',
        zopt ''enabled'' ZBoolean ''Whether the node is enabled''],
      tool_handler = (\<lambda>args.
        try_tool ''Error updating node: ''
          (answer_json (updateNode env c (oget args ''node_id'')
            (Obj (truthy_fields args [''name'', ''description'', ''max_runners''] @ spread_defined ''enabled'' (oget args ''enabled''))))))\<rparr>"

definition enable_node :: "'s env \<Rightarrow> client \<Rightarrow> 's tool" where
  [tool_defs]: "enable_node env c =
     \<lparr>tool_name = ''astiango_hub_enable_node'',
      tool_description = ''Enable a node'',
      tool_schema = [zreq ''node_id'' ZString ''The ID of the node to enable''],
      tool_handler = (\<lambda>args.
        try_tool ''Error enabling node: ''
          (answer_text (enableNode env c (oget args ''node_id''))
            (''Node '' @ js_str (oget args ''node_id'') @ '' enabled successfully.'')))\<rparr>"

definition disable_node :: "'s env \<Rightarrow> client \<Rightarrow> 's tool" where
  [tool_defs]: "disable_node env c =
     \<lparr>tool_name = ''astiango_hub_disable_node'',
      tool_description = ''Disable a node'',
      tool_schema = [zreq ''node_id'' ZString ''The ID of the node to disable'',
        zreq ''confirmation'' ZString ''Required: DISABLE:<node_id>''],
      tool_handler = (\<lambda>args.
        try_tool ''Error disabling node: ''
          (confirmed (oget args ''confirmation'') ''DISABLE'' (oget args ''node_id'')
            (answer_text (disableNode env c (oget args ''node_id''))
            (''Node '' @ js_str (oget args ''node_id'') @ '' disabled successfully.''))))\<rparr>"

definition configureNodeTools :: "'s env \<Rightarrow> client \<Rightarrow> 's tool list" where
  "configureNodeTools env c =
    [list_nodes env c,
     get_node env c,
     update_node env c,
     enable_node env c,
     disable_node env c]"

section \<open>Lemmas\<close>

lemma node_tools_total: "tools_total (configureNodeTools env c)"
  by (simp add: configureNodeTools_def tools_Cons tool_defs)

lemma node_tool_names: "map tool_name (configureNodeTools env c) = [''astiango_hub_list_nodes'', ''astiango_hub_get_node'', ''astiango_hub_update_node'', ''astiango_hub_enable_node'', ''astiango_hub_disable_node'']"
  by (simp add: configureNodeTools_def tool_defs)

lemma node_confirms [simp]:
  "\<not> confirms (list_nodes env c)"
  "\<not> confirms (get_node env c)"
  "\<not> confirms (update_node env c)"
  "\<not> confirms (enable_node env c)"
  "confirms (disable_node env c)"
  by (simp_all add: confirms_def tool_defs zreq_def zopt_def)

text \<open>The tools that only read, and those that change something at the API server.\<close>

definition node_readers :: "'s env \<Rightarrow> client \<Rightarrow> 's tool list" where
  "node_readers env c =
    [list_nodes env c,
     get_node env c]"

definition node_writers :: "'s env \<Rightarrow> client \<Rightarrow> 's tool list" where
  "node_writers env c =
    [update_node env c,
     enable_node env c,
     disable_node env c]"

lemma node_tools_split: "set (configureNodeTools env c) = set (node_readers env c) \<union> set (node_writers env c)"
  by (auto simp: configureNodeTools_def node_readers_def node_writers_def)

text \<open>
  The tools that answer with the response: the start of their error message, and the method, path,
  parameters and body of their request.
\<close>

definition node_requests :: "'s env \<Rightarrow> client \<Rightarrow> jobj \<Rightarrow> 's request_row list" where
  "node_requests env c args =
    [(list_nodes env c, ''Error listing nodes: '', ''get'',
       ''/nodes'',
       Obj (named args [''page'', ''size'']), Undef),
     (get_node env c, ''Error getting node: '', ''get'',
       ''/nodes/'' @ js_str (oget args ''node_id''),
       Undef, Undef),
     (update_node env c, ''Error updating node: '', ''put'',
       ''/nodes/'' @ js_str (oget args ''node_id''),
       Undef, Obj (truthy_fields args [''name'', ''description'',
         ''max_runners''] @ spread_defined ''enabled'' (oget args ''enabled'')))]"

lemma node_requests_answer: "list_all (answers_with env c args) (node_requests env c args)"
  by (simp add: answers_with_def node_requests_def tool_defs client_defs http_verbs)

context read_effects
begin

lemma node_readers_obey: "tools_obey R (node_readers env c)"
  unfolding node_readers_def tools_Cons tool_defs
  by (auto intro!: obeys_try_tool obeys_bind obeys_all obeys_pure split: js.split)

end

context http_effects
begin

lemma node_writers_obey: "tools_obey R (node_writers env c)"
  unfolding node_writers_def tools_Cons tool_defs
  by (auto intro!: obeys_try_tool obeys_bind obeys_pure)

lemma node_tools_obey: "tools_obey R (configureNodeTools env c)"
  using node_readers_obey node_writers_obey by (auto simp: tools_obey_def node_tools_split)

end

lemma node_writers_refuse: "\<not> allow_mutations c \<Longrightarrow> list_all refuses (node_writers env c)"
  unfolding node_writers_def tool_defs refuses_def
  by (auto simp: client_defs mutations_refused io_eval intro: try_refused try_confirmed_refused)

end
