(* ===== verification/Mcp_Schedules.thy ===== *)
theory Mcp_Schedules
  imports Mcp_Tool
begin

text \<open>
  \<^verbatim>\<open>mcp/src/tools/schedules.ts\<close>: the tools for schedules. One definition per \<open>server.tool\<close> call, with
  its schema and handler, and the list of them in the order of registration.
\<close>

definition SCHEDULE_TOOLS :: "(string \<times> string) list" where
  "SCHEDULE_TOOLS =
    [(''list_schedules'', ''astiango_hub_list_schedules''),
     (''get_schedule'', ''astiango_hub_get_schedule''),
     (''create_schedule'', ''astiango_hub_create_schedule''),
     (''update_schedule'', ''astiango_hub_update_schedule''),
     (''delete_schedule'', ''astiango_hub_delete_schedule''),
     (''enable_schedule'', ''astiango_hub_enable_schedule''),
     (''disable_schedule'', ''astiango_hub_disable_schedule'')]"

definition list_schedules :: "'s env \<Rightarrow> client \<Rightarrow> 's tool" where
  [tool_defs]: "list_schedules env c =
     \<lparr>tool_name = ''astiango_hub_list_schedules'',
      tool_description = ''List all schedules in AstianGO Hub'',
      tool_schema = [zopt ''page'' (ZNumber None None) ''Page number for pagination (default: 1)'',
        zopt ''size'' (ZNumber None None) ''Number of schedules per page (default: 10)''],
      tool_handler = (\<lambda>args.
        try_tool ''Error listing schedules: ''
          (answer_json (getSchedules env c (Obj (named args [''page'', ''size''])))))\<rparr>"

definition get_schedule :: "'s env \<Rightarrow> client \<Rightarrow> 's tool" where
  [tool_defs]: "get_schedule env c =
     \<lparr>tool_name = ''astiango_hub_get_schedule'',
      tool_description = ''Get details of a specific schedule'',
      tool_schema = [zreq ''schedule_id'' ZString ''The ID of the schedule to retrieve''],
      tool_handler = (\<lambda>args.
        try_tool ''Error getting schedule: ''
          (answer_json (getSchedule env c (oget args ''schedule_id''))))\<rparr>"

definition create_schedule :: "'s env \<Rightarrow> client \<Rightarrow> 's tool" where
  [tool_defs]: "create_schedule env c =
     \<lparr>tool_name = ''astiango_hub_create_schedule'',
      tool_description = ''Create a new schedule'',
      tool_schema = [zreq ''name'' ZString ''Name of the schedule'',
        zopt ''description'' ZString ''Description of the schedule'',
        zreq ''spider_id'' ZString ''ID of the spider to schedule'',
        zreq ''cron'' ZString (''Cron expression for the schedule (e.g., '' @ [CHR 0x27] @ ''0 0 * * *'' @ [CHR 0x27] @ '' for daily at midnight)''),
        zopt ''cmd'' ZString ''Command to override for scheduled runs'',
        zopt ''param'' ZString ''Parameters to override for scheduled runs'',
        zopt ''mode'' (ZEnum [''random'', ''all'', ''selected-nodes'']) ''Task execution mode'',
        zopt ''node_ids'' (ZArray ZString) ''Node IDs for selected-nodes mode'',
        zopt ''priority'' (ZNumber (Some 1) (Some 10)) ''Task priority (1-10)'',
        zopt ''enabled'' ZBoolean ''Whether the schedule is enabled (default: true)''],
      tool_handler = (\<lambda>args.
        try_tool ''Error creating schedule: ''
          (answer_json (createSchedule env c (Obj (named args [''name'', ''description'', ''spider_id'', ''cron'', ''cmd'', ''param'', ''mode'', ''node_ids'', ''priority''] @ [(''enabled'', js_default (oget args ''enabled'') (Bool True))])))))\<rparr>"

definition update_schedule :: "'s env \<Rightarrow> client \<Rightarrow> 's tool" where
  [tool_defs]: "update_schedule env c =
     \<lparr>tool_name = ''astiango_hub_update_schedule'',
      tool_description = ''Update an existing schedule'',
      tool_schema = [zreq ''schedule_id'' ZString ''The ID of the schedule to update'',
        zopt ''name'' ZString ''New name for the schedule'',
        zopt ''description'' ZString ''New description for the schedule'',
        zopt ''spider_id'' ZString ''New spider ID for the schedule'',
        zopt ''cron'' ZString ''New cron expression for the schedule'',
        zopt ''cmd'' ZString ''New command for the schedule'',
        zopt ''param'' ZString ''New parameters for the schedule'',
        zopt ''mode'' (ZEnum [''random'', ''all'', ''selected-nodes'']) ''New task execution mode'',
        zopt ''node_ids'' (ZArray ZString) ''New node IDs for selected-nodes mode'',
        zopt ''priority'' (ZNumber (Some 1) (Some 10)) ''New task priority (1-10)'',
        zopt ''enabled'' ZBoolean ''Whether the schedule is enabled''],
      tool_handler = (\<lambda>args.
        try_tool ''Error updating schedule: ''
          (answer_json (updateSchedule env c (oget args ''schedule_id'')
            (Obj (truthy_fields args [''name'', ''description'', ''spider_id'', ''cron'', ''cmd'', ''param'', ''mode'', ''node_ids'', ''priority''] @ spread_defined ''enabled'' (oget args ''enabled''))))))\<rparr>"

definition delete_schedule :: "'s env \<Rightarrow> client \<Rightarrow> 's tool" where
  [tool_defs]: "delete_schedule env c =
     \<lparr>tool_name = ''astiango_hub_delete_schedule'',
      tool_description = ''Delete a schedule'',
      tool_schema = [zreq ''schedule_id'' ZString ''The ID of the schedule to delete'',
        zreq ''confirmation'' ZString ''Required: DELETE:<schedule_id>''],
      tool_handler = (\<lambda>args.
        try_tool ''Error deleting schedule: ''
          (confirmed (oget args ''confirmation'') ''DELETE'' (oget args ''schedule_id'')
            (answer_text (deleteSchedule env c (oget args ''schedule_id''))
            (''Schedule '' @ js_str (oget args ''schedule_id'') @ '' deleted successfully.''))))\<rparr>"

definition enable_schedule :: "'s env \<Rightarrow> client \<Rightarrow> 's tool" where
  [tool_defs]: "enable_schedule env c =
     \<lparr>tool_name = ''astiango_hub_enable_schedule'',
      tool_description = ''Enable a schedule'',
      tool_schema = [zreq ''schedule_id'' ZString ''The ID of the schedule to enable''],
      tool_handler = (\<lambda>args.
        try_tool ''Error enabling schedule: ''
          (answer_text (enableSchedule env c (oget args ''schedule_id''))
            (''Schedule '' @ js_str (oget args ''schedule_id'') @ '' enabled successfully.'')))\<rparr>"

definition disable_schedule :: "'s env \<Rightarrow> client \<Rightarrow> 's tool" where
  [tool_defs]: "disable_schedule env c =
     \<lparr>tool_name = ''astiango_hub_disable_schedule'',
      tool_description = ''Disable a schedule'',
      tool_schema = [zreq ''schedule_id'' ZString ''The ID of the schedule to disable'',
        zreq ''confirmation'' ZString ''Required: DISABLE:<schedule_id>''],
      tool_handler = (\<lambda>args.
        try_tool ''Error disabling schedule: ''
          (confirmed (oget args ''confirmation'') ''DISABLE'' (oget args ''schedule_id'')
            (answer_text (disableSchedule env c (oget args ''schedule_id''))
            (''Schedule '' @ js_str (oget args ''schedule_id'') @ '' disabled successfully.''))))\<rparr>"

definition configureScheduleTools :: "'s env \<Rightarrow> client \<Rightarrow> 's tool list" where
  "configureScheduleTools env c =
    [list_schedules env c,
     get_schedule env c,
     create_schedule env c,
     update_schedule env c,
     delete_schedule env c,
     enable_schedule env c,
     disable_schedule env c]"

section \<open>Lemmas\<close>

lemma schedule_tools_total: "tools_total (configureScheduleTools env c)"
  by (simp add: configureScheduleTools_def tools_Cons tool_defs)

lemma schedule_tool_names: "map tool_name (configureScheduleTools env c) = [''astiango_hub_list_schedules'', ''astiango_hub_get_schedule'', ''astiango_hub_create_schedule'', ''astiango_hub_update_schedule'', ''astiango_hub_delete_schedule'', ''astiango_hub_enable_schedule'', ''astiango_hub_disable_schedule'']"
  by (simp add: configureScheduleTools_def tool_defs)

lemma schedule_confirms [simp]:
  "\<not> confirms (list_schedules env c)"
  "\<not> confirms (get_schedule env c)"
  "\<not> confirms (create_schedule env c)"
  "\<not> confirms (update_schedule env c)"
  "confirms (delete_schedule env c)"
  "\<not> confirms (enable_schedule env c)"
  "confirms (disable_schedule env c)"
  by (simp_all add: confirms_def tool_defs zreq_def zopt_def)

text \<open>The tools that only read, and those that change something at the API server.\<close>

definition schedule_readers :: "'s env \<Rightarrow> client \<Rightarrow> 's tool list" where
  "schedule_readers env c =
    [list_schedules env c,
     get_schedule env c]"

definition schedule_writers :: "'s env \<Rightarrow> client \<Rightarrow> 's tool list" where
  "schedule_writers env c =
    [create_schedule env c,
     update_schedule env c,
     delete_schedule env c,
     enable_schedule env c,
     disable_schedule env c]"

lemma schedule_tools_split: "set (configureScheduleTools env c) = set (schedule_readers env c) \<union> set (schedule_writers env c)"
  by (auto simp: configureScheduleTools_def schedule_readers_def schedule_writers_def)

text \<open>
  The tools that answer with the response: the start of their error message, and the method, path,
  parameters and body of their request.
\<close>

definition schedule_requests :: "'s env \<Rightarrow> client \<Rightarrow> jobj \<Rightarrow> 's request_row list" where
  "schedule_requests env c args =
    [(list_schedules env c, ''Error listing schedules: '', ''get'',
       ''/schedules'',
       Obj (named args [''page'', ''size'']), Undef),
     (get_schedule env c, ''Error getting schedule: '', ''get'',
       ''/schedules/'' @ js_str (oget args ''schedule_id''),
       Undef, Undef),
     (create_schedule env c, ''Error creating schedule: '', ''post'',
       ''/schedules'',
       Undef, Obj (named args [''name'', ''description'', ''spider_id'', ''cron'', ''cmd'', ''param'',
         ''mode'', ''node_ids'', ''priority''] @ [(''enabled'',
         js_default (oget args ''enabled'') (Bool True))])),
     (update_schedule env c, ''Error updating schedule: '', ''put'',
       ''/schedules/'' @ js_str (oget args ''schedule_id''),
       Undef, Obj (truthy_fields args [''name'', ''description'', ''spider_id'', ''cron'', ''cmd'',
         ''param'', ''mode'', ''node_ids'',
         ''priority''] @ spread_defined ''enabled'' (oget args ''enabled'')))]"

lemma schedule_requests_answer: "list_all (answers_with env c args) (schedule_requests env c args)"
  by (simp add: answers_with_def schedule_requests_def tool_defs client_defs http_verbs)

context read_effects
begin

lemma schedule_readers_obey: "tools_obey R (schedule_readers env c)"
  unfolding schedule_readers_def tools_Cons tool_defs
  by (auto intro!: obeys_try_tool obeys_bind obeys_all obeys_pure split: js.split)

end

context http_effects
begin

lemma schedule_writers_obey: "tools_obey R (schedule_writers env c)"
  unfolding schedule_writers_def tools_Cons tool_defs
  by (auto intro!: obeys_try_tool obeys_bind obeys_pure)

lemma schedule_tools_obey: "tools_obey R (configureScheduleTools env c)"
  using schedule_readers_obey schedule_writers_obey by (auto simp: tools_obey_def schedule_tools_split)

end

lemma schedule_writers_refuse: "\<not> allow_mutations c \<Longrightarrow> list_all refuses (schedule_writers env c)"
  unfolding schedule_writers_def tool_defs refuses_def
  by (auto simp: client_defs mutations_refused io_eval intro: try_refused try_confirmed_refused)

end
