(* ===== verification/Mcp_System.thy ===== *)
theory Mcp_System
  imports Mcp_Tool
begin

text \<open>
  \<^verbatim>\<open>mcp/src/tools/system.ts\<close>: the tools for health and status summaries. One definition per \<open>server.tool\<close> call, with
  its schema and handler, and the list of them in the order of registration.
\<close>

definition SYSTEM_TOOLS :: "(string \<times> string) list" where
  "SYSTEM_TOOLS =
    [(''health_check'', ''astiango_hub_health_check''),
     (''system_status'', ''astiango_hub_system_status''),
     (''get_system_overview'', ''astiango_hub_get_system_overview'')]"

section \<open>Counting\<close>

text \<open>
  \<open>xs.filter(p)\<close> with a callback that may throw, and \<open>response.data?.filter(p).length || 0\<close>.
\<close>

fun filter_js :: "(js \<Rightarrow> thrown + bool) \<Rightarrow> js list \<Rightarrow> thrown + js list" where
  "filter_js p [] = Inr []"
| "filter_js p (x # xs) =
     (case p x of
        Inl e \<Rightarrow> Inl e
      | Inr b \<Rightarrow> (case filter_js p xs of Inl e \<Rightarrow> Inl e | Inr ys \<Rightarrow> Inr (if b then x # ys else ys)))"

definition count_where :: "string \<Rightarrow> js \<Rightarrow> (js \<Rightarrow> thrown + bool) \<Rightarrow> thrown + js" where
  "count_where what response p =
     (case js_get response ''data'' of
        Inl e \<Rightarrow> Inl e
      | Inr data \<Rightarrow>
          if nullish data then Inr (Num 0)
          else (case data of
              Arr xs \<Rightarrow> (case filter_js p xs of Inl e \<Rightarrow> Inl e | Inr ys \<Rightarrow> Inr (Num (int (length ys))))
            | _ \<Rightarrow> Inl (ErrorObj (what @ ''.data?.filter is not a function''))))"

definition status_is :: "string \<Rightarrow> js \<Rightarrow> thrown + bool" where
  "status_is s v = (case js_get v ''status'' of Inl e \<Rightarrow> Inl e | Inr u \<Rightarrow> Inr (u = Str s))"

definition flag_is :: "string \<Rightarrow> bool \<Rightarrow> js \<Rightarrow> thrown + bool" where
  "flag_is k b v = (case js_get v k of Inl e \<Rightarrow> Inl e | Inr u \<Rightarrow> Inr (truthy u = b))"

text \<open>\<open>response.total || 0\<close>.\<close>

definition total_of :: "js \<Rightarrow> thrown + js" where
  "total_of response =
     (case js_get response ''total'' of Inl e \<Rightarrow> Inl e | Inr v \<Rightarrow> Inr (js_or v (Num 0)))"

text \<open>An object literal: its values are evaluated in order and the first throw ends it.\<close>

fun literal :: "(string \<times> (thrown + js)) list \<Rightarrow> thrown + jobj" where
  "literal [] = Inr []"
| "literal ((k, r) # ps) =
     (case r of Inl e \<Rightarrow> Inl e
      | Inr v \<Rightarrow> (case literal ps of Inl e \<Rightarrow> Inl e | Inr qs \<Rightarrow> Inr ((k, v) # qs)))"

definition nested :: "(string \<times> (thrown + js)) list \<Rightarrow> thrown + js" where
  "nested ps = map_sum (\<lambda>e. e) Obj (literal ps)"

definition page_of :: "int \<Rightarrow> int \<Rightarrow> js" where
  "page_of p n = Obj [(''page'', Num p), (''size'', Num n)]"

definition count_statuses :: "string \<Rightarrow> js \<Rightarrow> string list \<Rightarrow> (string \<times> (thrown + js)) list" where
  "count_statuses what response ss = map (\<lambda>s. (s, count_where what response (status_is s))) ss"

definition schedule_counts :: "js \<Rightarrow> thrown + js" where
  "schedule_counts schedulesResponse =
     nested
       [(''total'', total_of schedulesResponse),
        (''enabled'', count_where ''schedulesResponse'' schedulesResponse (flag_is ''enabled'' True)),
        (''disabled'', count_where ''schedulesResponse'' schedulesResponse (flag_is ''enabled'' False))]"

definition status_counts :: "js \<Rightarrow> js \<Rightarrow> js \<Rightarrow> thrown + jobj" where
  "status_counts nodesResponse tasksResponse schedulesResponse =
     literal
       [(''nodes'', nested ((''total'', total_of nodesResponse)
           # count_statuses ''nodesResponse'' nodesResponse [''online'', ''offline''])),
        (''tasks'', nested ((''total_recent'', total_of tasksResponse)
           # count_statuses ''tasksResponse'' tasksResponse
               [''running'', ''pending'', ''assigned'', ''finished'', ''error'', ''cancelled'', ''abnormal''])),
        (''schedules'', schedule_counts schedulesResponse)]"

definition overview_counts :: "js \<Rightarrow> js \<Rightarrow> js \<Rightarrow> js \<Rightarrow> js \<Rightarrow> thrown + jobj" where
  "overview_counts projectsResponse spidersResponse nodesResponse tasksResponse schedulesResponse =
     literal
       [(''summary'', nested
          [(''projects'', total_of projectsResponse),
           (''spiders'', total_of spidersResponse),
           (''nodes'', total_of nodesResponse),
           (''recent_tasks'', total_of tasksResponse),
           (''schedules'', total_of schedulesResponse)]),
        (''nodes_detail'', nested
          [(''total'', total_of nodesResponse),
           (''master_nodes'', count_where ''nodesResponse'' nodesResponse (flag_is ''is_master'' True)),
           (''worker_nodes'', count_where ''nodesResponse'' nodesResponse (flag_is ''is_master'' False)),
           (''active'', count_where ''nodesResponse'' nodesResponse (flag_is ''active'' True)),
           (''enabled'', count_where ''nodesResponse'' nodesResponse (flag_is ''enabled'' True))]),
        (''tasks_detail'', nested
          [(''by_status'', nested (count_statuses ''tasksResponse'' tasksResponse
             [''pending'', ''assigned'', ''running'', ''finished'', ''error'', ''cancelled'', ''abnormal'']))]),
        (''schedules_detail'', schedule_counts schedulesResponse)]"

section \<open>Tools\<close>


definition health_check :: "'s env \<Rightarrow> client \<Rightarrow> 's tool" where
  [tool_defs]: "health_check env c =
     \<lparr>tool_name = ''astiango_hub_health_check'',
      tool_description = ''Check if AstianGO Hub system is healthy and reachable'',
      tool_schema = [],
      tool_handler = (\<lambda>args.
        try_tool ''Error checking system health: ''
          (bind_io (healthCheck env c) (\<lambda>isHealthy.
            bind_io (now_io env) (\<lambda>now.
              return_io (text_result (json_pretty (Obj
                [(''healthy'', Bool isHealthy),
                 (''status'', Str (if isHealthy then ''System is healthy and reachable'' else ''System is not reachable'')),
                 (''timestamp'', Str now)])))))))\<rparr>"

definition system_status :: "'s env \<Rightarrow> client \<Rightarrow> 's tool" where
  [tool_defs]: "system_status env c =
     \<lparr>tool_name = ''astiango_hub_system_status'',
      tool_description = ''Get comprehensive system status including nodes, recent tasks, and schedules'',
      tool_schema = [],
      tool_handler = (\<lambda>args.
        try_tool ''Error getting system status: ''
          (bind_io (all_io
              [getNodes env c (page_of 1 50), getTasks env c (page_of 1 20), getSchedules env c (page_of 1 50)])
            (\<lambda>responses.
              bind_io (now_io env) (\<lambda>now.
              bind_io (lift_io (status_counts (responses ! 0) (responses ! 1) (responses ! 2))) (\<lambda>counts.
              bind_io (healthCheck env c) (\<lambda>healthy.
                return_io (text_result (json_pretty (Obj
                  ((''timestamp'', Str now) # counts @ [(''health'', Bool healthy)]))))))))))\<rparr>"

definition get_system_overview :: "'s env \<Rightarrow> client \<Rightarrow> 's tool" where
  [tool_defs]: "get_system_overview env c =
     \<lparr>tool_name = ''astiango_hub_get_system_overview'',
      tool_description = ''Get a high-level overview of the AstianGO Hub system including projects, spiders, nodes, and activity'',
      tool_schema = [],
      tool_handler = (\<lambda>args.
        try_tool ''Error getting system overview: ''
          (bind_io (all_io
              [getProjects env c (page_of 1 100), getSpiders env c (page_of 1 100), getNodes env c (page_of 1 50),
               getTasks env c (page_of 1 50), getSchedules env c (page_of 1 100)])
            (\<lambda>responses.
              bind_io (now_io env) (\<lambda>now.
              bind_io (healthCheck env c) (\<lambda>healthy.
              bind_io (lift_io (overview_counts (responses ! 0) (responses ! 1) (responses ! 2) (responses ! 3) (responses ! 4)))
                (\<lambda>counts.
                return_io (text_result (json_pretty (Obj
                  ((''timestamp'', Str now) # (''system_health'', Bool healthy) # counts))))))))))\<rparr>"

definition configureSystemTools :: "'s env \<Rightarrow> client \<Rightarrow> 's tool list" where
  "configureSystemTools env c =
    [health_check env c,
     system_status env c,
     get_system_overview env c]"

section \<open>Lemmas\<close>

lemma system_tools_total: "tools_total (configureSystemTools env c)"
  by (simp add: configureSystemTools_def tools_Cons tool_defs)

lemma system_tool_names: "map tool_name (configureSystemTools env c) = [''astiango_hub_health_check'', ''astiango_hub_system_status'', ''astiango_hub_get_system_overview'']"
  by (simp add: configureSystemTools_def tool_defs)

lemma system_confirms [simp]:
  "\<not> confirms (health_check env c)"
  "\<not> confirms (system_status env c)"
  "\<not> confirms (get_system_overview env c)"
  by (simp_all add: confirms_def tool_defs zreq_def zopt_def)

text \<open>The tools that only read, and those that change something at the API server.\<close>

definition system_readers :: "'s env \<Rightarrow> client \<Rightarrow> 's tool list" where
  "system_readers env c =
    [health_check env c,
     system_status env c,
     get_system_overview env c]"

definition system_writers :: "'s env \<Rightarrow> client \<Rightarrow> 's tool list" where
  "system_writers env c =
    []"

lemma system_tools_split: "set (configureSystemTools env c) = set (system_readers env c) \<union> set (system_writers env c)"
  by (auto simp: configureSystemTools_def system_readers_def system_writers_def)

context read_effects
begin

lemma system_readers_obey: "tools_obey R (system_readers env c)"
  unfolding system_readers_def tools_Cons tool_defs
  by (auto intro!: obeys_try_tool obeys_bind obeys_all obeys_pure split: js.split)

end

context http_effects
begin

lemma system_writers_obey: "tools_obey R (system_writers env c)"
  unfolding system_writers_def tools_Cons tool_defs
  by (auto intro!: obeys_try_tool obeys_bind obeys_pure)

lemma system_tools_obey: "tools_obey R (configureSystemTools env c)"
  using system_readers_obey system_writers_obey by (auto simp: tools_obey_def system_tools_split)

end

lemma system_writers_refuse: "\<not> allow_mutations c \<Longrightarrow> list_all refuses (system_writers env c)"
  unfolding system_writers_def tool_defs refuses_def
  by (auto simp: client_defs mutations_refused io_eval intro: try_refused try_confirmed_refused)

section \<open>What the counts mean\<close>

lemma filter_js_ok:
  "filter_js p xs = Inr ys \<Longrightarrow> ys = filter (\<lambda>x. p x = Inr True) xs \<and> (\<forall>x \<in> set xs. \<exists>b. p x = Inr b)"
proof (induction xs arbitrary: ys)
  case (Cons x xs)
  then show ?case by (auto split: sum.splits if_splits)
qed simp

lemma filter_js_total:
  "(\<And>x. x \<in> set xs \<Longrightarrow> \<exists>b. p x = Inr b) \<Longrightarrow> filter_js p xs = Inr (filter (\<lambda>x. p x = Inr True) xs)"
proof (induction xs)
  case (Cons x xs)
  obtain b where "p x = Inr b" using Cons.prems by fastforce
  with Cons show ?case by simp
qed simp

lemma count_where_Arr:
  assumes "js_get response ''data'' = Inr (Arr xs)"
  shows "count_where what response p = Inr v \<longleftrightarrow>
    v = Num (int (length (filter (\<lambda>x. p x = Inr True) xs))) \<and> (\<forall>x \<in> set xs. \<exists>b. p x = Inr b)"
proof (cases "filter_js p xs")
  case (Inl e)
  then have "\<not> (\<forall>x \<in> set xs. \<exists>b. p x = Inr b)"
    using filter_js_total [of xs p] by fastforce
  with Inl assms show ?thesis by (auto simp: count_where_def nullish_def)
next
  case (Inr ys)
  with assms filter_js_ok [OF Inr] show ?thesis by (auto simp: count_where_def nullish_def)
qed

lemma flag_counts_partition:
  assumes "js_get response ''data'' = Inr (Arr xs)"
    and "count_where what response (flag_is k True) = Inr (Num e)"
    and "count_where what response (flag_is k False) = Inr (Num d)"
  shows "e + d = int (length xs)"
proof -
  have b: "\<forall>x \<in> set xs. \<exists>b. flag_is k True x = Inr b"
    using assms by (simp add: count_where_Arr)
  have "filter (\<lambda>x. flag_is k False x = Inr True) xs = filter (\<lambda>x. \<not> flag_is k True x = Inr True) xs"
    using b by (intro filter_cong) (auto simp: flag_is_def split: sum.splits)
  moreover have "length (filter (\<lambda>x. flag_is k True x = Inr True) xs)
      + length (filter (\<lambda>x. \<not> flag_is k True x = Inr True) xs) = length xs"
    by (rule sum_length_filter_compl)
  ultimately show ?thesis
    using assms by (simp add: count_where_Arr flip: of_nat_add)
qed

text \<open>Different statuses are counted on disjoint sets of tasks.\<close>

lemma sum_filters_le:
  "distinct ss \<Longrightarrow> inj g \<Longrightarrow>
     sum_list (map (\<lambda>s. length (filter (\<lambda>x. f x = g s) xs)) ss) \<le> length xs"
proof (induction xs)
  case (Cons x xs)
  have step: "sum_list (map (\<lambda>s. length (filter (\<lambda>y. f y = g s) (x # xs))) ss) =
      length (filter (\<lambda>s. f x = g s) ss) + sum_list (map (\<lambda>s. length (filter (\<lambda>y. f y = g s) xs)) ss)"
    by (induction ss) auto
  have "length (filter (\<lambda>s. f x = g s) ss) \<le> 1"
    using Cons.prems
  proof (induction ss)
    case (Cons s ss)
    have "f x = g s \<Longrightarrow> filter (\<lambda>s. f x = g s) ss = []"
      using Cons.prems by (auto simp: filter_empty_conv dest: injD)
    with Cons show ?case by auto
  qed simp
  with step Cons show ?case by simp
qed (induction ss; simp)

lemma sum_list_int: "sum_list (map (\<lambda>s. int (f s)) ss) = int (sum_list (map f ss)) "
  by (induction ss) auto

lemma sum_list_int_le: "sum_list (map (\<lambda>s. int (f s)) ss) \<le> int n \<longleftrightarrow> sum_list (map f ss) \<le> n"
  by (simp add: sum_list_int)

lemma status_counts_bounded:
  assumes "js_get response ''data'' = Inr (Arr xs)" and "distinct ss"
    and "literal (count_statuses what response ss) = Inr counts"
  shows "map fst counts = ss \<and> (\<exists>ns. map snd counts = map Num ns \<and> sum_list ns \<le> int (length xs) \<and> (\<forall>n \<in> set ns. 0 \<le> n))"
proof -
  let ?n = "\<lambda>s. length (filter (\<lambda>x. js_get x ''status'' = Inr (Str s)) xs)"
  have one: "v = Num (int (?n s))" if "count_where what response (status_is s) = Inr v" for s v
  proof -
    have "filter (\<lambda>x. status_is s x = Inr True) xs = filter (\<lambda>x. js_get x ''status'' = Inr (Str s)) xs"
      by (intro filter_cong) (auto simp: status_is_def split: sum.splits)
    with that show ?thesis by (simp add: count_where_Arr [OF assms(1)])
  qed
  have "literal (count_statuses what response ss) = Inr counts \<Longrightarrow>
      counts = map (\<lambda>s. (s, Num (int (?n s)))) ss" for ss counts
    by (induction ss arbitrary: counts) (auto simp: count_statuses_def dest: one split: sum.splits)
  with assms(3) have c: "counts = map (\<lambda>s. (s, Num (int (?n s)))) ss" by blast
  have "sum_list (map ?n ss) \<le> length xs"
    using assms(2) by (intro sum_filters_le) (auto simp: inj_def)
  then have "sum_list (map (\<lambda>s. int (?n s)) ss) \<le> int (length xs)"
    by (simp only: sum_list_int_le)
  with c show ?thesis
    by (intro conjI exI [of _ "map (\<lambda>s. int (?n s)) ss"]) (simp_all add: comp_def)
qed

text \<open>
  The system overview counts every node and every schedule once: master and worker nodes add
  up to the nodes of the response, enabled and disabled schedules to its schedules, and the
  tasks counted by status are at most those of the response, whatever fields the entries have.
\<close>

theorem overview_counts_consistent:
  assumes "overview_counts p sp n t s = Inr out"
    and "js_get n ''data'' = Inr (Arr ns)" and "js_get t ''data'' = Inr (Arr ts)"
    and "js_get s ''data'' = Inr (Arr ss)"
  shows "\<exists>m w e d by_status cs.
    js_get_opt (oget out ''nodes_detail'') ''master_nodes'' = Num m \<and>
    js_get_opt (oget out ''nodes_detail'') ''worker_nodes'' = Num w \<and> m + w = int (length ns) \<and>
    js_get_opt (oget out ''schedules_detail'') ''enabled'' = Num e \<and>
    js_get_opt (oget out ''schedules_detail'') ''disabled'' = Num d \<and> e + d = int (length ss) \<and>
    js_get_opt (oget out ''tasks_detail'') ''by_status'' = Obj by_status \<and>
    map snd by_status = map Num cs \<and> sum_list cs \<le> int (length ts)"
proof -
  let ?sts = "[''pending'', ''assigned'', ''running'', ''finished'', ''error'', ''cancelled'', ''abnormal'']"
  obtain summary m w a en sm by_status sched where
    f: "out = [(''summary'', summary),
        (''nodes_detail'', Obj [(''total'', sm), (''master_nodes'', m), (''worker_nodes'', w), (''active'', a), (''enabled'', en)]),
        (''tasks_detail'', Obj [(''by_status'', Obj by_status)]), (''schedules_detail'', sched)]"
    and m: "count_where ''nodesResponse'' n (flag_is ''is_master'' True) = Inr m"
    and w: "count_where ''nodesResponse'' n (flag_is ''is_master'' False) = Inr w"
    and b: "literal (count_statuses ''tasksResponse'' t ?sts) = Inr by_status"
    and sched: "schedule_counts s = Inr sched"
    using assms(1) unfolding overview_counts_def
    by (auto simp: nested_def map_sum_def split: sum.splits)
  obtain e d st where
    s: "sched = Obj [(''total'', st), (''enabled'', e), (''disabled'', d)]"
    and e: "count_where ''schedulesResponse'' s (flag_is ''enabled'' True) = Inr e"
    and d: "count_where ''schedulesResponse'' s (flag_is ''enabled'' False) = Inr d"
    using sched unfolding schedule_counts_def by (auto simp: nested_def split: sum.splits)
  have num: "\<exists>i. v = Num i" if "count_where what r q = Inr v" and "js_get r ''data'' = Inr (Arr xs)"
    for what r q v xs
    using that by (auto simp: count_where_Arr)
  obtain m' w' e' d' where n: "m = Num m'" "w = Num w'" "e = Num e'" "d = Num d'"
    using num [OF m assms(2)] num [OF w assms(2)] num [OF e assms(4)] num [OF d assms(4)] by blast
  have mw: "m' + w' = int (length ns)"
    using flag_counts_partition [OF assms(2)] m w n by blast
  have ed: "e' + d' = int (length ss)"
    using flag_counts_partition [OF assms(4)] e d n by blast
  obtain cs where "map snd by_status = map Num cs" and "sum_list cs \<le> int (length ts)"
    using status_counts_bounded [OF assms(3) _ b] by auto
  with mw ed n f s show ?thesis by auto
qed

definition example_list :: "jobj list \<Rightarrow> js" where
  "example_list rows = Obj [(''data'', Arr (map Obj rows)), (''total'', Num (int (length rows)))]"

theorem overview_counts_consistent_witness:
  "\<exists>out. overview_counts (example_list []) (example_list [])
      (example_list [[(''is_master'', Bool True)], [(''is_master'', Bool False)], []])
      (example_list [[(''status'', Str ''running'')], [(''status'', Str ''lost'')]])
      (example_list [[(''enabled'', Bool False)]]) = Inr out \<and>
    (\<exists>m w e d by_status cs.
    js_get_opt (oget out ''nodes_detail'') ''master_nodes'' = Num m \<and>
    js_get_opt (oget out ''nodes_detail'') ''worker_nodes'' = Num w \<and> m + w = 3 \<and>
    js_get_opt (oget out ''schedules_detail'') ''enabled'' = Num e \<and>
    js_get_opt (oget out ''schedules_detail'') ''disabled'' = Num d \<and> e + d = 1 \<and>
    js_get_opt (oget out ''tasks_detail'') ''by_status'' = Obj by_status \<and>
    map snd by_status = map Num cs \<and> sum_list cs \<le> 2)"
proof -
  have e: "\<exists>out. overview_counts (example_list []) (example_list [])
      (example_list [[(''is_master'', Bool True)], [(''is_master'', Bool False)], []])
      (example_list [[(''status'', Str ''running'')], [(''status'', Str ''lost'')]])
      (example_list [[(''enabled'', Bool False)]]) = Inr out"
    by (simp add: overview_counts_def schedule_counts_def nested_def count_statuses_def count_where_def
        total_of_def example_list_def flag_is_def status_is_def nullish_def)
  then show ?thesis
    using overview_counts_consistent [where n = "example_list [[(''is_master'', Bool True)], [(''is_master'', Bool False)], []]"
        and t = "example_list [[(''status'', Str ''running'')], [(''status'', Str ''lost'')]]"
        and s = "example_list [[(''enabled'', Bool False)]]"]
    by (fastforce simp: example_list_def)
qed

end
