(* ===== verification/Mcp_Projects.thy ===== *)
theory Mcp_Projects
  imports Mcp_Tool
begin

text \<open>
  \<^verbatim>\<open>mcp/src/tools/projects.ts\<close>: the tools for projects. One definition per \<open>server.tool\<close> call, with
  its schema and handler, and the list of them in the order of registration.
\<close>

definition PROJECT_TOOLS :: "(string \<times> string) list" where
  "PROJECT_TOOLS =
    [(''list_projects'', ''astiango_hub_list_projects''),
     (''get_project'', ''astiango_hub_get_project''),
     (''create_project'', ''astiango_hub_create_project''),
     (''update_project'', ''astiango_hub_update_project''),
     (''delete_project'', ''astiango_hub_delete_project'')]"

definition list_projects :: "'s env \<Rightarrow> client \<Rightarrow> 's tool" where
  [tool_defs]: "list_projects env c =
     \<lparr>tool_name = ''astiango_hub_list_projects'',
      tool_description = ''List all projects in AstianGO Hub'',
      tool_schema = [zopt ''page'' (ZNumber None None) ''Page number for pagination (default: 1)'',
        zopt ''size'' (ZNumber None None) ''Number of projects per page (default: 10)''],
      tool_handler = (\<lambda>args.
        try_tool ''Error listing projects: ''
          (answer_json (getProjects env c (Obj (named args [''page'', ''size''])))))\<rparr>"

definition get_project :: "'s env \<Rightarrow> client \<Rightarrow> 's tool" where
  [tool_defs]: "get_project env c =
     \<lparr>tool_name = ''astiango_hub_get_project'',
      tool_description = ''Get details of a specific project'',
      tool_schema = [zreq ''project_id'' ZString ''The ID of the project to retrieve''],
      tool_handler = (\<lambda>args.
        try_tool ''Error getting project: ''
          (answer_json (getProject env c (oget args ''project_id''))))\<rparr>"

definition create_project :: "'s env \<Rightarrow> client \<Rightarrow> 's tool" where
  [tool_defs]: "create_project env c =
     \<lparr>tool_name = ''astiango_hub_create_project'',
      tool_description = ''Create a new project'',
      tool_schema = [zreq ''name'' ZString ''Name of the project'',
        zopt ''description'' ZString ''Description of the project''],
      tool_handler = (\<lambda>args.
        try_tool ''Error creating project: ''
          (answer_json (createProject env c (Obj (named args [''name'', ''description''])))))\<rparr>"

definition update_project :: "'s env \<Rightarrow> client \<Rightarrow> 's tool" where
  [tool_defs]: "update_project env c =
     \<lparr>tool_name = ''astiango_hub_update_project'',
      tool_description = ''Update an existing project'',
      tool_schema = [zreq ''project_id'' ZString ''The ID of the project to update'',
        zopt ''name'' ZString ''New name for the project'',
        zopt ''description'' ZString ''New description for the project''],
      tool_handler = (\<lambda>args.
        try_tool ''Error updating project: ''
          (answer_json (updateProject env c (oget args ''project_id'')
            (Obj (truthy_fields args [''name'', ''description''])))))\<rparr>"

definition delete_project :: "'s env \<Rightarrow> client \<Rightarrow> 's tool" where
  [tool_defs]: "delete_project env c =
     \<lparr>tool_name = ''astiango_hub_delete_project'',
      tool_description = ''Delete a project'',
      tool_schema = [zreq ''project_id'' ZString ''The ID of the project to delete'',
        zreq ''confirmation'' ZString ''Required: DELETE:<project_id>''],
      tool_handler = (\<lambda>args.
        try_tool ''Error deleting project: ''
          (confirmed (oget args ''confirmation'') ''DELETE'' (oget args ''project_id'')
            (answer_text (deleteProject env c (oget args ''project_id''))
            (''Project '' @ js_str (oget args ''project_id'') @ '' deleted successfully.''))))\<rparr>"

definition configureProjectTools :: "'s env \<Rightarrow> client \<Rightarrow> 's tool list" where
  "configureProjectTools env c =
    [list_projects env c,
     get_project env c,
     create_project env c,
     update_project env c,
     delete_project env c]"

section \<open>Lemmas\<close>

lemma project_tools_total: "tools_total (configureProjectTools env c)"
  by (simp add: configureProjectTools_def tools_Cons tool_defs)

lemma project_tool_names: "map tool_name (configureProjectTools env c) = [''astiango_hub_list_projects'', ''astiango_hub_get_project'', ''astiango_hub_create_project'', ''astiango_hub_update_project'', ''astiango_hub_delete_project'']"
  by (simp add: configureProjectTools_def tool_defs)

lemma project_confirms [simp]:
  "\<not> confirms (list_projects env c)"
  "\<not> confirms (get_project env c)"
  "\<not> confirms (create_project env c)"
  "\<not> confirms (update_project env c)"
  "confirms (delete_project env c)"
  by (simp_all add: confirms_def tool_defs zreq_def zopt_def)

text \<open>The tools that only read, and those that change something at the API server.\<close>

definition project_readers :: "'s env \<Rightarrow> client \<Rightarrow> 's tool list" where
  "project_readers env c =
    [list_projects env c,
     get_project env c]"

definition project_writers :: "'s env \<Rightarrow> client \<Rightarrow> 's tool list" where
  "project_writers env c =
    [create_project env c,
     update_project env c,
     delete_project env c]"

lemma project_tools_split: "set (configureProjectTools env c) = set (project_readers env c) \<union> set (project_writers env c)"
  by (auto simp: configureProjectTools_def project_readers_def project_writers_def)

text \<open>
  The tools that answer with the response: the start of their error message, and the method, path,
  parameters and body of their request.
\<close>

definition project_requests :: "'s env \<Rightarrow> client \<Rightarrow> jobj \<Rightarrow> 's request_row list" where
  "project_requests env c args =
    [(list_projects env c, ''Error listing projects: '', ''get'',
       ''/projects'',
       Obj (named args [''page'', ''size'']), Undef),
     (get_project env c, ''Error getting project: '', ''get'',
       ''/projects/'' @ js_str (oget args ''project_id''),
       Undef, Undef),
     (create_project env c, ''Error creating project: '', ''post'',
       ''/projects'',
       Undef, Obj (named args [''name'', ''description''])),
     (update_project env c, ''Error updating project: '', ''put'',
       ''/projects/'' @ js_str (oget args ''project_id''),
       Undef, Obj (truthy_fields args [''name'', ''description'']))]"

lemma project_requests_answer: "list_all (answers_with env c args) (project_requests env c args)"
  by (simp add: answers_with_def project_requests_def tool_defs client_defs http_verbs)

context read_effects
begin

lemma project_readers_obey: "tools_obey R (project_readers env c)"
  unfolding project_readers_def tools_Cons tool_defs
  by (auto intro!: obeys_try_tool obeys_bind obeys_all obeys_pure split: js.split)

end

context http_effects
begin

lemma project_writers_obey: "tools_obey R (project_writers env c)"
  unfolding project_writers_def tools_Cons tool_defs
  by (auto intro!: obeys_try_tool obeys_bind obeys_pure)

lemma project_tools_obey: "tools_obey R (configureProjectTools env c)"
  using project_readers_obey project_writers_obey by (auto simp: tools_obey_def project_tools_split)

end

lemma project_writers_refuse: "\<not> allow_mutations c \<Longrightarrow> list_all refuses (project_writers env c)"
  unfolding project_writers_def tool_defs refuses_def
  by (auto simp: client_defs mutations_refused io_eval intro: try_refused try_confirmed_refused)

end
