(* ===== verification/Mcp_Databases.thy ===== *)
theory Mcp_Databases
  imports Mcp_Tool
begin

text \<open>
  \<^verbatim>\<open>mcp/src/tools/databases.ts\<close>: the tools for database connections. One definition per \<open>server.tool\<close> call, with
  its schema and handler, and the list of them in the order of registration.
\<close>

definition DATABASE_TOOLS :: "(string \<times> string) list" where
  "DATABASE_TOOLS =
    [(''list_databases'', ''astiango_hub_list_databases''),
     (''get_database'', ''astiango_hub_get_database''),
     (''create_database'', ''astiango_hub_create_database''),
     (''update_database'', ''astiango_hub_update_database''),
     (''delete_database'', ''astiango_hub_delete_database''),
     (''test_database_connection'', ''astiango_hub_test_database_connection'')]"

definition list_databases :: "'s env \<Rightarrow> client \<Rightarrow> 's tool" where
  [tool_defs]: "list_databases env c =
     \<lparr>tool_name = ''astiango_hub_list_databases'',
      tool_description = ''List all databases in AstianGO Hub'',
      tool_schema = [zopt ''page'' (ZNumber None None) ''Page number for pagination (default: 1)'',
        zopt ''size'' (ZNumber None None) ''Number of databases per page (default: 10)''],
      tool_handler = (\<lambda>args.
        try_tool ''Error listing databases: ''
          (answer_json (getDatabases env c (Obj (named args [''page'', ''size''])))))\<rparr>"

definition get_database :: "'s env \<Rightarrow> client \<Rightarrow> 's tool" where
  [tool_defs]: "get_database env c =
     \<lparr>tool_name = ''astiango_hub_get_database'',
      tool_description = ''Get details of a specific database'',
      tool_schema = [zreq ''database_id'' ZString ''The ID of the database to retrieve''],
      tool_handler = (\<lambda>args.
        try_tool ''Error getting database: ''
          (answer_json (getDatabase env c (oget args ''database_id''))))\<rparr>"

definition create_database :: "'s env \<Rightarrow> client \<Rightarrow> 's tool" where
  [tool_defs]: "create_database env c =
     \<lparr>tool_name = ''astiango_hub_create_database'',
      tool_description = ''Create a new database connection'',
      tool_schema = [zreq ''name'' ZString ''Name of the database connection'',
        zopt ''description'' ZString ''Description of the database'',
        zreq ''data_source'' ZString ''Data source type (mongo, mysql, postgres, etc.)'',
        zreq ''host'' ZString ''Database host'',
        zreq ''port'' (ZNumber None None) ''Database port'',
        zopt ''database'' ZString ''Database name'',
        zopt ''username'' ZString ''Database username'',
        zopt ''password'' ZString ''Database password'',
        zopt ''uri'' ZString ''Database URI (alternative to individual connection params)''],
      tool_handler = (\<lambda>args.
        try_tool ''Error creating database: ''
          (answer_json (createDatabase env c (Obj (named args [''name'', ''description'', ''data_source'', ''host'', ''port'', ''database'', ''username'', ''password'', ''uri''])))))\<rparr>"

definition update_database :: "'s env \<Rightarrow> client \<Rightarrow> 's tool" where
  [tool_defs]: "update_database env c =
     \<lparr>tool_name = ''astiango_hub_update_database'',
      tool_description = ''Update an existing database connection'',
      tool_schema = [zreq ''database_id'' ZString ''The ID of the database to update'',
        zopt ''name'' ZString ''New name for the database'',
        zopt ''description'' ZString ''New description for the database'',
        zopt ''data_source'' ZString ''New data source type'',
        zopt ''host'' ZString ''New database host'',
        zopt ''port'' (ZNumber None None) ''New database port'',
        zopt ''database'' ZString ''New database name'',
        zopt ''username'' ZString ''New database username'',
        zopt ''password'' ZString ''New database password'',
        zopt ''uri'' ZString ''New database URI''],
      tool_handler = (\<lambda>args.
        try_tool ''Error updating database: ''
          (answer_json (updateDatabase env c (oget args ''database_id'')
            (Obj (truthy_fields args [''name'', ''description'', ''data_source'', ''host'', ''port'', ''database'', ''username'', ''password'', ''uri''])))))\<rparr>"

definition delete_database :: "'s env \<Rightarrow> client \<Rightarrow> 's tool" where
  [tool_defs]: "delete_database env c =
     \<lparr>tool_name = ''astiango_hub_delete_database'',
      tool_description = ''Delete a database connection'',
      tool_schema = [zreq ''database_id'' ZString ''The ID of the database to delete'',
        zreq ''confirmation'' ZString ''Required: DELETE:<database_id>''],
      tool_handler = (\<lambda>args.
        try_tool ''Error deleting database: ''
          (confirmed (oget args ''confirmation'') ''DELETE'' (oget args ''database_id'')
            (answer_text (deleteDatabase env c (oget args ''database_id''))
            (''Database '' @ js_str (oget args ''database_id'') @ '' deleted successfully.''))))\<rparr>"

definition test_database_connection :: "'s env \<Rightarrow> client \<Rightarrow> 's tool" where
  [tool_defs]: "test_database_connection env c =
     \<lparr>tool_name = ''astiango_hub_test_database_connection'',
      tool_description = ''Test a database connection'',
      tool_schema = [zreq ''database_id'' ZString ''The ID of the database to test''],
      tool_handler = (\<lambda>args.
        try_tool ''Error testing database connection: ''
          (bind_io (testDatabaseConnection env c (oget args ''database_id'')) (\<lambda>response.
            return_io (text_result (Str (''Database connection test result: '' @ js_str (json_pretty response)))))))\<rparr>"

definition configureDatabaseTools :: "'s env \<Rightarrow> client \<Rightarrow> 's tool list" where
  "configureDatabaseTools env c =
    [list_databases env c,
     get_database env c,
     create_database env c,
     update_database env c,
     delete_database env c,
     test_database_connection env c]"

section \<open>Lemmas\<close>

lemma database_tools_total: "tools_total (configureDatabaseTools env c)"
  by (simp add: configureDatabaseTools_def tools_Cons tool_defs)

lemma database_tool_names: "map tool_name (configureDatabaseTools env c) = [''astiango_hub_list_databases'', ''astiango_hub_get_database'', ''astiango_hub_create_database'', ''astiango_hub_update_database'', ''astiango_hub_delete_database'', ''astiango_hub_test_database_connection'']"
  by (simp add: configureDatabaseTools_def tool_defs)

lemma database_confirms [simp]:
  "\<not> confirms (list_databases env c)"
  "\<not> confirms (get_database env c)"
  "\<not> confirms (create_database env c)"
  "\<not> confirms (update_database env c)"
  "confirms (delete_database env c)"
  "\<not> confirms (test_database_connection env c)"
  by (simp_all add: confirms_def tool_defs zreq_def zopt_def)

text \<open>The tools that only read, and those that change something at the API server.\<close>

definition database_readers :: "'s env \<Rightarrow> client \<Rightarrow> 's tool list" where
  "database_readers env c =
    [list_databases env c,
     get_database env c]"

definition database_writers :: "'s env \<Rightarrow> client \<Rightarrow> 's tool list" where
  "database_writers env c =
    [create_database env c,
     update_database env c,
     delete_database env c,
     test_database_connection env c]"

lemma database_tools_split: "set (configureDatabaseTools env c) = set (database_readers env c) \<union> set (database_writers env c)"
  by (auto simp: configureDatabaseTools_def database_readers_def database_writers_def)

text \<open>
  The tools that answer with the response: the start of their error message, and the method, path,
  parameters and body of their request.
\<close>

definition database_requests :: "'s env \<Rightarrow> client \<Rightarrow> jobj \<Rightarrow> 's request_row list" where
  "database_requests env c args =
    [(list_databases env c, ''Error listing databases: '', ''get'',
       ''/databases'',
       Obj (named args [''page'', ''size'']), Undef),
     (get_database env c, ''Error getting database: '', ''get'',
       ''/databases/'' @ js_str (oget args ''database_id''),
       Undef, Undef),
     (create_database env c, ''Error creating database: '', ''post'',
       ''/databases'',
       Undef, Obj (named args [''name'', ''description'', ''data_source'', ''host'', ''port'',
         ''database'', ''username'', ''password'', ''uri''])),
     (update_database env c, ''Error updating database: '', ''put'',
       ''/databases/'' @ js_str (oget args ''database_id''),
       Undef, Obj (truthy_fields args [''name'', ''description'', ''data_source'', ''host'', ''port'',
         ''database'', ''username'', ''password'', ''uri'']))]"

lemma database_requests_answer: "list_all (answers_with env c args) (database_requests env c args)"
  by (simp add: answers_with_def database_requests_def tool_defs client_defs http_verbs)

context read_effects
begin

lemma database_readers_obey: "tools_obey R (database_readers env c)"
  unfolding database_readers_def tools_Cons tool_defs
  by (auto intro!: obeys_try_tool obeys_bind obeys_all obeys_pure split: js.split)

end

context http_effects
begin

lemma database_writers_obey: "tools_obey R (database_writers env c)"
  unfolding database_writers_def tools_Cons tool_defs
  by (auto intro!: obeys_try_tool obeys_bind obeys_pure)

lemma database_tools_obey: "tools_obey R (configureDatabaseTools env c)"
  using database_readers_obey database_writers_obey by (auto simp: tools_obey_def database_tools_split)

end

lemma database_writers_refuse: "\<not> allow_mutations c \<Longrightarrow> list_all refuses (database_writers env c)"
  unfolding database_writers_def tool_defs refuses_def
  by (auto simp: client_defs mutations_refused io_eval intro: try_refused try_confirmed_refused)

end
