(* ===== verification/Mcp_Git.thy ===== *)
theory Mcp_Git
  imports Mcp_Tool
begin

text \<open>
  \<^verbatim>\<open>mcp/src/tools/git.ts\<close>: the tools for Git repositories. One definition per \<open>server.tool\<close> call, with
  its schema and handler, and the list of them in the order of registration.
\<close>

definition GIT_TOOLS :: "(string \<times> string) list" where
  "GIT_TOOLS =
    [(''list_git_repos'', ''astiango_hub_list_git_repos''),
     (''get_git_repo'', ''astiango_hub_get_git_repo''),
     (''create_git_repo'', ''astiango_hub_create_git_repo''),
     (''update_git_repo'', ''astiango_hub_update_git_repo''),
     (''delete_git_repo'', ''astiango_hub_delete_git_repo''),
     (''clone_git_repo'', ''astiango_hub_clone_git_repo''),
     (''pull_git_repo'', ''astiango_hub_pull_git_repo'')]"

definition list_git_repos :: "'s env \<Rightarrow> client \<Rightarrow> 's tool" where
  [tool_defs]: "list_git_repos env c =
     \<lparr>tool_name = ''astiango_hub_list_git_repos'',
      tool_description = ''List all Git repositories in AstianGO Hub'',
      tool_schema = [zopt ''page'' (ZNumber None None) ''Page number for pagination (default: 1)'',
        zopt ''size'' (ZNumber None None) ''Number of repositories per page (default: 10)''],
      tool_handler = (\<lambda>args.
        try_tool ''Error listing Git repositories: ''
          (answer_json (getGitRepos env c (Obj (named args [''page'', ''size''])))))\<rparr>"

definition get_git_repo :: "'s env \<Rightarrow> client \<Rightarrow> 's tool" where
  [tool_defs]: "get_git_repo env c =
     \<lparr>tool_name = ''astiango_hub_get_git_repo'',
      tool_description = ''Get details of a specific Git repository'',
      tool_schema = [zreq ''git_id'' ZString ''The ID of the Git repository to retrieve''],
      tool_handler = (\<lambda>args.
        try_tool ''Error getting Git repository: ''
          (answer_json (getGitRepo env c (oget args ''git_id''))))\<rparr>"

definition create_git_repo :: "'s env \<Rightarrow> client \<Rightarrow> 's tool" where
  [tool_defs]: "create_git_repo env c =
     \<lparr>tool_name = ''astiango_hub_create_git_repo'',
      tool_description = ''Create a new Git repository connection'',
      tool_schema = [zreq ''name'' ZString ''Name of the Git repository'',
        zreq ''url'' ZString ''Git repository URL'',
        zopt ''auth_type'' (ZEnum [''public'', ''private'', ''token'']) ''Authentication type'',
        zopt ''username'' ZString ''Git username (for private repos)'',
        zopt ''password'' ZString ''Git password or token''],
      tool_handler = (\<lambda>args.
        try_tool ''Error creating Git repository: ''
          (answer_json (createGitRepo env c (Obj (named args [''name'', ''url'', ''auth_type'', ''username'', ''password''])))))\<rparr>"

definition update_git_repo :: "'s env \<Rightarrow> client \<Rightarrow> 's tool" where
  [tool_defs]: "update_git_repo env c =
     \<lparr>tool_name = ''astiango_hub_update_git_repo'',
      tool_description = ''Update an existing Git repository connection'',
      tool_schema = [zreq ''git_id'' ZString ''The ID of the Git repository to update'',
        zopt ''name'' ZString ''New name for the repository'',
        zopt ''url'' ZString ''New Git repository URL'',
        zopt ''auth_type'' (ZEnum [''public'', ''private'', ''token'']) ''New authentication type'',
        zopt ''username'' ZString ''New Git username'',
        zopt ''password'' ZString ''New Git password or token''],
      tool_handler = (\<lambda>args.
        try_tool ''Error updating Git repository: ''
          (answer_json (updateGitRepo env c (oget args ''git_id'')
            (Obj (truthy_fields args [''name'', ''url'', ''auth_type'', ''username'', ''password''])))))\<rparr>"

definition delete_git_repo :: "'s env \<Rightarrow> client \<Rightarrow> 's tool" where
  [tool_defs]: "delete_git_repo env c =
     \<lparr>tool_name = ''astiango_hub_delete_git_repo'',
      tool_description = ''Delete a Git repository connection'',
      tool_schema = [zreq ''git_id'' ZString ''The ID of the Git repository to delete'',
        zreq ''confirmation'' ZString ''Required: DELETE:<git_id>''],
      tool_handler = (\<lambda>args.
        try_tool ''Error deleting Git repository: ''
          (confirmed (oget args ''confirmation'') ''DELETE'' (oget args ''git_id'')
            (answer_text (deleteGitRepo env c (oget args ''git_id''))
            (''Git repository '' @ js_str (oget args ''git_id'') @ '' deleted successfully.''))))\<rparr>"

definition clone_git_repo :: "'s env \<Rightarrow> client \<Rightarrow> 's tool" where
  [tool_defs]: "clone_git_repo env c =
     \<lparr>tool_name = ''astiango_hub_clone_git_repo'',
      tool_description = ''Clone a Git repository'',
      tool_schema = [zreq ''git_id'' ZString ''The ID of the Git repository to clone''],
      tool_handler = (\<lambda>args.
        try_tool ''Error cloning Git repository: ''
          (answer_text (cloneGitRepo env c (oget args ''git_id''))
            (''Git repository '' @ js_str (oget args ''git_id'') @ '' cloned successfully.'')))\<rparr>"

definition pull_git_repo :: "'s env \<Rightarrow> client \<Rightarrow> 's tool" where
  [tool_defs]: "pull_git_repo env c =
     \<lparr>tool_name = ''astiango_hub_pull_git_repo'',
      tool_description = ''Pull latest changes from a Git repository'',
      tool_schema = [zreq ''git_id'' ZString ''The ID of the Git repository to pull''],
      tool_handler = (\<lambda>args.
        try_tool ''Error pulling Git repository: ''
          (answer_text (pullGitRepo env c (oget args ''git_id''))
            (''Git repository '' @ js_str (oget args ''git_id'') @ '' pulled successfully.'')))\<rparr>"

definition configureGitTools :: "'s env \<Rightarrow> client \<Rightarrow> 's tool list" where
  "configureGitTools env c =
    [list_git_repos env c,
     get_git_repo env c,
     create_git_repo env c,
     update_git_repo env c,
     delete_git_repo env c,
     clone_git_repo env c,
     pull_git_repo env c]"

section \<open>Lemmas\<close>

lemma git_tools_total: "tools_total (configureGitTools env c)"
  by (simp add: configureGitTools_def tools_Cons tool_defs)

lemma git_tool_names: "map tool_name (configureGitTools env c) = [''astiango_hub_list_git_repos'', ''astiango_hub_get_git_repo'', ''astiango_hub_create_git_repo'', ''astiango_hub_update_git_repo'', ''astiango_hub_delete_git_repo'', ''astiango_hub_clone_git_repo'', ''astiango_hub_pull_git_repo'']"
  by (simp add: configureGitTools_def tool_defs)

lemma git_confirms [simp]:
  "\<not> confirms (list_git_repos env c)"
  "\<not> confirms (get_git_repo env c)"
  "\<not> confirms (create_git_repo env c)"
  "\<not> confirms (update_git_repo env c)"
  "confirms (delete_git_repo env c)"
  "\<not> confirms (clone_git_repo env c)"
  "\<not> confirms (pull_git_repo env c)"
  by (simp_all add: confirms_def tool_defs zreq_def zopt_def)

text \<open>The tools that only read, and those that change something at the API server.\<close>

definition git_readers :: "'s env \<Rightarrow> client \<Rightarrow> 's tool list" where
  "git_readers env c =
    [list_git_repos env c,
     get_git_repo env c]"

definition git_writers :: "'s env \<Rightarrow> client \<Rightarrow> 's tool list" where
  "git_writers env c =
    [create_git_repo env c,
     update_git_repo env c,
     delete_git_repo env c,
     clone_git_repo env c,
     pull_git_repo env c]"

lemma git_tools_split: "set (configureGitTools env c) = set (git_readers env c) \<union> set (git_writers env c)"
  by (auto simp: configureGitTools_def git_readers_def git_writers_def)

text \<open>
  The tools that answer with the response: the start of their error message, and the method, path,
  parameters and body of their request.
\<close>

definition git_requests :: "'s env \<Rightarrow> client \<Rightarrow> jobj \<Rightarrow> 's request_row list" where
  "git_requests env c args =
    [(list_git_repos env c, ''Error listing Git repositories: '', ''get'',
       ''/gits'',
       Obj (named args [''page'', ''size'']), Undef),
     (get_git_repo env c, ''Error getting Git repository: '', ''get'',
       ''/gits/'' @ js_str (oget args ''git_id''),
       Undef, Undef),
     (create_git_repo env c, ''Error creating Git repository: '', ''post'',
       ''/gits'',
       Undef, Obj (named args [''name'', ''url'', ''auth_type'', ''username'', ''password''])),
     (update_git_repo env c, ''Error updating Git repository: '', ''put'',
       ''/gits/'' @ js_str (oget args ''git_id''),
       Undef, Obj (truthy_fields args [''name'', ''url'', ''auth_type'', ''username'', ''password'']))]"

lemma git_requests_answer: "list_all (answers_with env c args) (git_requests env c args)"
  by (simp add: answers_with_def git_requests_def tool_defs client_defs http_verbs)

context read_effects
begin

lemma git_readers_obey: "tools_obey R (git_readers env c)"
  unfolding git_readers_def tools_Cons tool_defs
  by (auto intro!: obeys_try_tool obeys_bind obeys_all obeys_pure split: js.split)

end

context http_effects
begin

lemma git_writers_obey: "tools_obey R (git_writers env c)"
  unfolding git_writers_def tools_Cons tool_defs
  by (auto intro!: obeys_try_tool obeys_bind obeys_pure)

lemma git_tools_obey: "tools_obey R (configureGitTools env c)"
  using git_readers_obey git_writers_obey by (auto simp: tools_obey_def git_tools_split)

end

lemma git_writers_refuse: "\<not> allow_mutations c \<Longrightarrow> list_all refuses (git_writers env c)"
  unfolding git_writers_def tool_defs refuses_def
  by (auto simp: client_defs mutations_refused io_eval intro: try_refused try_confirmed_refused)

end
