(* ===== verification/Mcp_Stats.thy ===== *)
theory Mcp_Stats
  imports Mcp_Tool
begin

text \<open>
  \<^verbatim>\<open>mcp/src/tools/stats.ts\<close>: the tools for statistics. One definition per \<open>server.tool\<close> call, with
  its schema and handler, and the list of them in the order of registration.
\<close>

definition STATS_TOOLS :: "(string \<times> string) list" where
  "STATS_TOOLS =
    [(''get_spider_stats'', ''astiango_hub_get_spider_stats''),
     (''get_task_stats'', ''astiango_hub_get_task_stats'')]"

definition get_spider_stats :: "'s env \<Rightarrow> client \<Rightarrow> 's tool" where
  [tool_defs]: "get_spider_stats env c =
     \<lparr>tool_name = ''astiango_hub_get_spider_stats'',
      tool_description = ''Get statistics for a specific spider'',
      tool_schema = [zreq ''spider_id'' ZString ''The ID of the spider to get statistics for''],
      tool_handler = (\<lambda>args.
        try_tool ''Error getting spider statistics: ''
          (answer_json (getSpiderStats env c (oget args ''spider_id''))))\<rparr>"

definition get_task_stats :: "'s env \<Rightarrow> client \<Rightarrow> 's tool" where
  [tool_defs]: "get_task_stats env c =
     \<lparr>tool_name = ''astiango_hub_get_task_stats'',
      tool_description = ''Get statistics for a specific task'',
      tool_schema = [zreq ''task_id'' ZString ''The ID of the task to get statistics for''],
      tool_handler = (\<lambda>args.
        try_tool ''Error getting task statistics: ''
          (answer_json (getTaskStats env c (oget args ''task_id''))))\<rparr>"

definition configureStatsTools :: "'s env \<Rightarrow> client \<Rightarrow> 's tool list" where
  "configureStatsTools env c =
    [get_spider_stats env c,
     get_task_stats env c]"

section \<open>Lemmas\<close>

lemma stats_tools_total: "tools_total (configureStatsTools env c)"
  by (simp add: configureStatsTools_def tools_Cons tool_defs)

lemma stats_tool_names: "map tool_name (configureStatsTools env c) = [''astiango_hub_get_spider_stats'', ''astiango_hub_get_task_stats'']"
  by (simp add: configureStatsTools_def tool_defs)

lemma stats_confirms [simp]:
  "\<not> confirms (get_spider_stats env c)"
  "\<not> confirms (get_task_stats env c)"
  by (simp_all add: confirms_def tool_defs zreq_def zopt_def)

text \<open>The tools that only read, and those that change something at the API server.\<close>

definition stats_readers :: "'s env \<Rightarrow> client \<Rightarrow> 's tool list" where
  "stats_readers env c =
    [get_spider_stats env c,
     get_task_stats env c]"

definition stats_writers :: "'s env \<Rightarrow> client \<Rightarrow> 's tool list" where
  "stats_writers env c =
    []"

lemma stats_tools_split: "set (configureStatsTools env c) = set (stats_readers env c) \<union> set (stats_writers env c)"
  by (auto simp: configureStatsTools_def stats_readers_def stats_writers_def)

text \<open>
  The tools that answer with the response: the start of their error message, and the method, path,
  parameters and body of their request.
\<close>

definition stats_requests :: "'s env \<Rightarrow> client \<Rightarrow> jobj \<Rightarrow> 's request_row list" where
  "stats_requests env c args =
    [(get_spider_stats env c, ''Error getting spider statistics: '', ''get'',
       ''/spiders/'' @ js_str (oget args ''spider_id'') @ ''/stats'',
       Undef, Undef),
     (get_task_stats env c, ''Error getting task statistics: '', ''get'',
       ''/tasks/'' @ js_str (oget args ''task_id'') @ ''/stats'',
       Undef, Undef)]"

lemma stats_requests_answer: "list_all (answers_with env c args) (stats_requests env c args)"
  by (simp add: answers_with_def stats_requests_def tool_defs client_defs http_verbs)

context read_effects
begin

lemma stats_readers_obey: "tools_obey R (stats_readers env c)"
  unfolding stats_readers_def tools_Cons tool_defs
  by (auto intro!: obeys_try_tool obeys_bind obeys_all obeys_pure split: js.split)

end

context http_effects
begin

lemma stats_writers_obey: "tools_obey R (stats_writers env c)"
  unfolding stats_writers_def tools_Cons tool_defs
  by (auto intro!: obeys_try_tool obeys_bind obeys_pure)

lemma stats_tools_obey: "tools_obey R (configureStatsTools env c)"
  using stats_readers_obey stats_writers_obey by (auto simp: tools_obey_def stats_tools_split)

end

lemma stats_writers_refuse: "\<not> allow_mutations c \<Longrightarrow> list_all refuses (stats_writers env c)"
  unfolding stats_writers_def tool_defs refuses_def
  by (auto simp: client_defs mutations_refused io_eval intro: try_refused try_confirmed_refused)

end
