(* ===== verification/Mcp_AI.thy ===== *)
theory Mcp_AI
  imports Mcp_Tool
begin

text \<open>
  \<^verbatim>\<open>mcp/src/tools/ai.ts\<close>: the tools for language model providers, conversations and AutoProbe. One definition per \<open>server.tool\<close> call, with
  its schema and handler, and the list of them in the order of registration.
\<close>

definition AI_TOOLS :: "(string \<times> string) list" where
  "AI_TOOLS =
    [(''list_llm_providers'', ''astiango_hub_list_llm_providers''),
     (''get_llm_provider'', ''astiango_hub_get_llm_provider''),
     (''create_llm_provider'', ''astiango_hub_create_llm_provider''),
     (''update_llm_provider'', ''astiango_hub_update_llm_provider''),
     (''delete_llm_provider'', ''astiango_hub_delete_llm_provider''),
     (''list_conversations'', ''astiango_hub_list_conversations''),
     (''get_conversation'', ''astiango_hub_get_conversation''),
     (''create_conversation'', ''astiango_hub_create_conversation''),
     (''update_conversation'', ''astiango_hub_update_conversation''),
     (''delete_conversation'', ''astiango_hub_delete_conversation''),
     (''get_conversation_messages'', ''astiango_hub_get_conversation_messages''),
     (''get_chat_message'', ''astiango_hub_get_chat_message''),
     (''list_autoprobes'', ''astiango_hub_list_autoprobes''),
     (''get_autoprobe'', ''astiango_hub_get_autoprobe''),
     (''create_autoprobe'', ''astiango_hub_create_autoprobe''),
     (''update_autoprobe'', ''astiango_hub_update_autoprobe''),
     (''delete_autoprobe'', ''astiango_hub_delete_autoprobe''),
     (''run_autoprobe_task'', ''astiango_hub_run_autoprobe_task''),
     (''get_autoprobe_tasks'', ''astiango_hub_get_autoprobe_tasks''),
     (''get_autoprobe_preview'', ''astiango_hub_get_autoprobe_preview''),
     (''get_autoprobe_pattern'', ''astiango_hub_get_autoprobe_pattern''),
     (''list_autoprobes_v2'', ''astiango_hub_list_autoprobes_v2''),
     (''get_autoprobe_v2'', ''astiango_hub_get_autoprobe_v2''),
     (''create_autoprobe_v2'', ''astiango_hub_create_autoprobe_v2''),
     (''update_autoprobe_v2'', ''astiango_hub_update_autoprobe_v2''),
     (''delete_autoprobe_v2'', ''astiango_hub_delete_autoprobe_v2''),
     (''run_autoprobe_v2_task'', ''astiango_hub_run_autoprobe_v2_task''),
     (''get_autoprobe_v2_tasks'', ''astiango_hub_get_autoprobe_v2_tasks''),
     (''get_autoprobe_v2_preview'', ''astiango_hub_get_autoprobe_v2_preview''),
     (''get_autoprobe_v2_pattern'', ''astiango_hub_get_autoprobe_v2_pattern''),
     (''get_autoprobe_v2_pattern_results'', ''astiango_hub_get_autoprobe_v2_pattern_results'')]"

definition list_llm_providers :: "'s env \<Rightarrow> client \<Rightarrow> 's tool" where
  [tool_defs]: "list_llm_providers env c =
     \<lparr>tool_name = ''astiango_hub_list_llm_providers'',
      tool_description = ''List all LLM providers configured in AstianGO Hub'',
      tool_schema = [zopt ''page'' (ZNumber None None) ''Page number for pagination (default: 1)'',
        zopt ''page_size'' (ZNumber None None) ''Number of providers per page (default: 10)'',
        zopt ''filter'' ZString ''Filter providers by name or type''],
      tool_handler = (\<lambda>args.
        try_tool ''Error listing LLM providers: ''
          (answer_json (getLLMProviders env c (Obj args))))\<rparr>"

definition get_llm_provider :: "'s env \<Rightarrow> client \<Rightarrow> 's tool" where
  [tool_defs]: "get_llm_provider env c =
     \<lparr>tool_name = ''astiango_hub_get_llm_provider'',
      tool_description = ''Get details of a specific LLM provider'',
      tool_schema = [zreq ''id'' ZString ''ID of the LLM provider''],
      tool_handler = (\<lambda>args.
        try_tool ''Error getting LLM provider: ''
          (answer_json (getLLMProvider env c (oget args ''id''))))\<rparr>"

definition create_llm_provider :: "'s env \<Rightarrow> client \<Rightarrow> 's tool" where
  [tool_defs]: "create_llm_provider env c =
     \<lparr>tool_name = ''astiango_hub_create_llm_provider'',
      tool_description = ''Create a new LLM provider configuration'',
      tool_schema = [zreq ''name'' ZString ''Display name for the provider'',
        zreq ''type'' ZString (''Provider type (e.g., '' @ [CHR 0x27] @ ''openai'' @ [CHR 0x27] @ '', '' @ [CHR 0x27] @ ''azure-openai'' @ [CHR 0x27] @ '', '' @ [CHR 0x27] @ ''anthropic'' @ [CHR 0x27] @ '', '' @ [CHR 0x27] @ ''gemini'' @ [CHR 0x27] @ '')''),
        zreq ''api_key'' ZString ''API key for the provider'',
        zopt ''api_base_url'' ZString ''Custom API base URL'',
        zopt ''api_version'' ZString ''API version'',
        zopt ''default_model'' ZString ''Default model for this provider'',
        zopt ''models'' (ZArray ZString) ''List of supported models'',
        zopt ''deployment_name'' ZString ''Deployment name (for Azure)''],
      tool_handler = (\<lambda>args.
        try_tool ''Error creating LLM provider: ''
          (answer_json (createLLMProvider env c (Obj args))))\<rparr>"

definition update_llm_provider :: "'s env \<Rightarrow> client \<Rightarrow> 's tool" where
  [tool_defs]: "update_llm_provider env c =
     \<lparr>tool_name = ''astiango_hub_update_llm_provider'',
      tool_description = ''Update an existing LLM provider configuration'',
      tool_schema = [zreq ''id'' ZString ''ID of the LLM provider to update'',
        zopt ''name'' ZString ''Display name for the provider'',
        zopt ''type'' ZString ''Provider type'',
        zopt ''api_key'' ZString ''API key for the provider'',
        zopt ''api_base_url'' ZString ''Custom API base URL'',
        zopt ''api_version'' ZString ''API version'',
        zopt ''default_model'' ZString ''Default model for this provider'',
        zopt ''models'' (ZArray ZString) ''List of supported models'',
        zopt ''deployment_name'' ZString ''Deployment name (for Azure)''],
      tool_handler = (\<lambda>args.
        try_tool ''Error updating LLM provider: ''
          (answer_json (updateLLMProvider env c (oget args ''id'')
            (Obj (rest_without args [''id''])))))\<rparr>"

definition delete_llm_provider :: "'s env \<Rightarrow> client \<Rightarrow> 's tool" where
  [tool_defs]: "delete_llm_provider env c =
     \<lparr>tool_name = ''astiango_hub_delete_llm_provider'',
      tool_description = ''Delete an LLM provider configuration'',
      tool_schema = [zreq ''id'' ZString ''ID of the LLM provider to delete'',
        zreq ''confirmation'' ZString ''Required: DELETE:<id>''],
      tool_handler = (\<lambda>args.
        try_tool ''Error deleting LLM provider: ''
          (confirmed (oget args ''confirmation'') ''DELETE'' (oget args ''id'')
            (answer_text (deleteLLMProvider env c (oget args ''id''))
            (''LLM provider '' @ js_str (oget args ''id'') @ '' deleted successfully''))))\<rparr>"

definition list_conversations :: "'s env \<Rightarrow> client \<Rightarrow> 's tool" where
  [tool_defs]: "list_conversations env c =
     \<lparr>tool_name = ''astiango_hub_list_conversations'',
      tool_description = ''List all AI chat conversations'',
      tool_schema = [zopt ''page'' (ZNumber None None) ''Page number for pagination'',
        zopt ''page_size'' (ZNumber None None) ''Number of conversations per page'',
        zopt ''filter'' ZString ''Filter conversations by title or content''],
      tool_handler = (\<lambda>args.
        try_tool ''Error listing conversations: ''
          (answer_json (getConversations env c (Obj args))))\<rparr>"

definition get_conversation :: "'s env \<Rightarrow> client \<Rightarrow> 's tool" where
  [tool_defs]: "get_conversation env c =
     \<lparr>tool_name = ''astiango_hub_get_conversation'',
      tool_description = ''Get details of a specific conversation'',
      tool_schema = [zreq ''id'' ZString ''ID of the conversation''],
      tool_handler = (\<lambda>args.
        try_tool ''Error getting conversation: ''
          (answer_json (getConversation env c (oget args ''id''))))\<rparr>"

definition get_conversation_messages :: "'s env \<Rightarrow> client \<Rightarrow> 's tool" where
  [tool_defs]: "get_conversation_messages env c =
     \<lparr>tool_name = ''astiango_hub_get_conversation_messages'',
      tool_description = ''Get all messages from a conversation'',
      tool_schema = [zreq ''id'' ZString ''ID of the conversation''],
      tool_handler = (\<lambda>args.
        try_tool ''Error getting conversation messages: ''
          (answer_json (getConversationMessages env c (oget args ''id''))))\<rparr>"

definition list_autoprobes_v2 :: "'s env \<Rightarrow> client \<Rightarrow> 's tool" where
  [tool_defs]: "list_autoprobes_v2 env c =
     \<lparr>tool_name = ''astiango_hub_list_autoprobes_v2'',
      tool_description = ''List all AutoProbe V2 configurations (AI-powered web scraping)'',
      tool_schema = [zopt ''page'' (ZNumber None None) ''Page number for pagination'',
        zopt ''page_size'' (ZNumber None None) ''Number of AutoProbes per page'',
        zopt ''filter'' ZString ''Filter AutoProbes by name or URL''],
      tool_handler = (\<lambda>args.
        try_tool ''Error listing AutoProbes V2: ''
          (answer_json (getAutoProbesV2 env c (Obj args))))\<rparr>"

definition get_autoprobe_v2 :: "'s env \<Rightarrow> client \<Rightarrow> 's tool" where
  [tool_defs]: "get_autoprobe_v2 env c =
     \<lparr>tool_name = ''astiango_hub_get_autoprobe_v2'',
      tool_description = ''Get details of a specific AutoProbe V2 configuration'',
      tool_schema = [zreq ''id'' ZString ''ID of the AutoProbe''],
      tool_handler = (\<lambda>args.
        try_tool ''Error getting AutoProbe V2: ''
          (answer_json (getAutoProbeV2 env c (oget args ''id''))))\<rparr>"

definition create_autoprobe_v2 :: "'s env \<Rightarrow> client \<Rightarrow> 's tool" where
  [tool_defs]: "create_autoprobe_v2 env c =
     \<lparr>tool_name = ''astiango_hub_create_autoprobe_v2'',
      tool_description = ''Create a new AutoProbe V2 configuration for AI-powered web scraping'',
      tool_schema = [zreq ''name'' ZString ''Name of the AutoProbe'',
        zreq ''url'' ZString ''Target URL to scrape'',
        zopt ''description'' ZString ''Description of what to extract'',
        zopt ''query'' ZString ''Natural language query describing the data to extract'',
        zopt ''settings'' ZObject ''Additional configuration settings''],
      tool_handler = (\<lambda>args.
        try_tool ''Error creating AutoProbe V2: ''
          (answer_json (createAutoProbeV2 env c (Obj args))))\<rparr>"

definition run_autoprobe_v2_task :: "'s env \<Rightarrow> client \<Rightarrow> 's tool" where
  [tool_defs]: "run_autoprobe_v2_task env c =
     \<lparr>tool_name = ''astiango_hub_run_autoprobe_v2_task'',
      tool_description = ''Run an AutoProbe V2 scraping task'',
      tool_schema = [zreq ''id'' ZString ''ID of the AutoProbe'',
        zopt ''query'' ZString ''Custom query for this run'',
        zopt ''view_port'' ZObject ''Custom viewport settings''],
      tool_handler = (\<lambda>args.
        try_tool ''Error running AutoProbe V2 task: ''
          (answer_json (runAutoProbeV2Task env c (oget args ''id'')
            (Obj (rest_without args [''id''])))))\<rparr>"

definition get_autoprobe_v2_preview :: "'s env \<Rightarrow> client \<Rightarrow> 's tool" where
  [tool_defs]: "get_autoprobe_v2_preview env c =
     \<lparr>tool_name = ''astiango_hub_get_autoprobe_v2_preview'',
      tool_description = ''Get a preview of what an AutoProbe V2 would extract'',
      tool_schema = [zreq ''id'' ZString ''ID of the AutoProbe''],
      tool_handler = (\<lambda>args.
        try_tool ''Error getting AutoProbe V2 preview: ''
          (answer_json (getAutoProbeV2Preview env c (oget args ''id''))))\<rparr>"

definition get_autoprobe_v2_pattern :: "'s env \<Rightarrow> client \<Rightarrow> 's tool" where
  [tool_defs]: "get_autoprobe_v2_pattern env c =
     \<lparr>tool_name = ''astiango_hub_get_autoprobe_v2_pattern'',
      tool_description = ''Get the extraction pattern for an AutoProbe V2'',
      tool_schema = [zreq ''id'' ZString ''ID of the AutoProbe''],
      tool_handler = (\<lambda>args.
        try_tool ''Error getting AutoProbe V2 pattern: ''
          (answer_json (getAutoProbeV2Pattern env c (oget args ''id''))))\<rparr>"

definition list_autoprobes :: "'s env \<Rightarrow> client \<Rightarrow> 's tool" where
  [tool_defs]: "list_autoprobes env c =
     \<lparr>tool_name = ''astiango_hub_list_autoprobes'',
      tool_description = ''List all AutoProbe V1 configurations (legacy)'',
      tool_schema = [zopt ''page'' (ZNumber None None) ''Page number for pagination'',
        zopt ''page_size'' (ZNumber None None) ''Number of AutoProbes per page'',
        zopt ''filter'' ZString ''Filter AutoProbes by name or URL''],
      tool_handler = (\<lambda>args.
        try_tool ''Error listing AutoProbes V1: ''
          (answer_json (getAutoProbes env c (Obj args))))\<rparr>"

definition get_autoprobe :: "'s env \<Rightarrow> client \<Rightarrow> 's tool" where
  [tool_defs]: "get_autoprobe env c =
     \<lparr>tool_name = ''astiango_hub_get_autoprobe'',
      tool_description = ''Get details of a specific AutoProbe V1 configuration'',
      tool_schema = [zreq ''id'' ZString ''ID of the AutoProbe''],
      tool_handler = (\<lambda>args.
        try_tool ''Error getting AutoProbe V1: ''
          (answer_json (getAutoProbe env c (oget args ''id''))))\<rparr>"

definition create_autoprobe :: "'s env \<Rightarrow> client \<Rightarrow> 's tool" where
  [tool_defs]: "create_autoprobe env c =
     \<lparr>tool_name = ''astiango_hub_create_autoprobe'',
      tool_description = ''Create a new AutoProbe V1 configuration (legacy)'',
      tool_schema = [zreq ''name'' ZString ''Name of the AutoProbe'',
        zreq ''url'' ZString ''Target URL to scrape'',
        zopt ''description'' ZString ''Description of what to extract'',
        zopt ''query'' ZString ''Natural language query describing the data to extract''],
      tool_handler = (\<lambda>args.
        try_tool ''Error creating AutoProbe V1: ''
          (answer_json (createAutoProbe env c (Obj args))))\<rparr>"

definition configureAITools :: "'s env \<Rightarrow> client \<Rightarrow> 's tool list" where
  "configureAITools env c =
    [list_llm_providers env c,
     get_llm_provider env c,
     create_llm_provider env c,
     update_llm_provider env c,
     delete_llm_provider env c,
     list_conversations env c,
     get_conversation env c,
     get_conversation_messages env c,
     list_autoprobes_v2 env c,
     get_autoprobe_v2 env c,
     create_autoprobe_v2 env c,
     run_autoprobe_v2_task env c,
     get_autoprobe_v2_preview env c,
     get_autoprobe_v2_pattern env c,
     list_autoprobes env c,
     get_autoprobe env c,
     create_autoprobe env c]"

section \<open>Lemmas\<close>

lemma ai_tools_total: "tools_total (configureAITools env c)"
  by (simp add: configureAITools_def tools_Cons tool_defs)

lemma ai_tool_names: "map tool_name (configureAITools env c) = [''astiango_hub_list_llm_providers'', ''astiango_hub_get_llm_provider'', ''astiango_hub_create_llm_provider'', ''astiango_hub_update_llm_provider'', ''astiango_hub_delete_llm_provider'', ''astiango_hub_list_conversations'', ''astiango_hub_get_conversation'', ''astiango_hub_get_conversation_messages'', ''astiango_hub_list_autoprobes_v2'', ''astiango_hub_get_autoprobe_v2'', ''astiango_hub_create_autoprobe_v2'', ''astiango_hub_run_autoprobe_v2_task'', ''astiango_hub_get_autoprobe_v2_preview'', ''astiango_hub_get_autoprobe_v2_pattern'', ''astiango_hub_list_autoprobes'', ''astiango_hub_get_autoprobe'', ''astiango_hub_create_autoprobe'']"
  by (simp add: configureAITools_def tool_defs)

lemma ai_confirms [simp]:
  "\<not> confirms (list_llm_providers env c)"
  "\<not> confirms (get_llm_provider env c)"
  "\<not> confirms (create_llm_provider env c)"
  "\<not> confirms (update_llm_provider env c)"
  "confirms (delete_llm_provider env c)"
  "\<not> confirms (list_conversations env c)"
  "\<not> confirms (get_conversation env c)"
  "\<not> confirms (get_conversation_messages env c)"
  "\<not> confirms (list_autoprobes_v2 env c)"
  "\<not> confirms (get_autoprobe_v2 env c)"
  "\<not> confirms (create_autoprobe_v2 env c)"
  "\<not> confirms (run_autoprobe_v2_task env c)"
  "\<not> confirms (get_autoprobe_v2_preview env c)"
  "\<not> confirms (get_autoprobe_v2_pattern env c)"
  "\<not> confirms (list_autoprobes env c)"
  "\<not> confirms (get_autoprobe env c)"
  "\<not> confirms (create_autoprobe env c)"
  by (simp_all add: confirms_def tool_defs zreq_def zopt_def)

text \<open>The tools that only read, and those that change something at the API server.\<close>

definition ai_readers :: "'s env \<Rightarrow> client \<Rightarrow> 's tool list" where
  "ai_readers env c =
    [list_llm_providers env c,
     get_llm_provider env c,
     list_conversations env c,
     get_conversation env c,
     get_conversation_messages env c,
     list_autoprobes_v2 env c,
     get_autoprobe_v2 env c,
     get_autoprobe_v2_preview env c,
     get_autoprobe_v2_pattern env c,
     list_autoprobes env c,
     get_autoprobe env c]"

definition ai_writers :: "'s env \<Rightarrow> client \<Rightarrow> 's tool list" where
  "ai_writers env c =
    [create_llm_provider env c,
     update_llm_provider env c,
     delete_llm_provider env c,
     create_autoprobe_v2 env c,
     run_autoprobe_v2_task env c,
     create_autoprobe env c]"

lemma ai_tools_split: "set (configureAITools env c) = set (ai_readers env c) \<union> set (ai_writers env c)"
  by (auto simp: configureAITools_def ai_readers_def ai_writers_def)

text \<open>
  The tools that answer with the response: the start of their error message, and the method, path,
  parameters and body of their request.
\<close>

definition ai_requests :: "'s env \<Rightarrow> client \<Rightarrow> jobj \<Rightarrow> 's request_row list" where
  "ai_requests env c args =
    [(list_llm_providers env c, ''Error listing LLM providers: '', ''get'',
       ''/ai/llm/providers'',
       Obj args, Undef),
     (get_llm_provider env c, ''Error getting LLM provider: '', ''get'',
       ''/ai/llm/providers/'' @ js_str (oget args ''id''),
       Undef, Undef),
     (create_llm_provider env c, ''Error creating LLM provider: '', ''post'',
       ''/ai/llm/providers'',
       Undef, Obj [(''data'', Obj args)]),
     (update_llm_provider env c, ''Error updating LLM provider: '', ''put'',
       ''/ai/llm/providers/'' @ js_str (oget args ''id''),
       Undef, Obj [(''data'', Obj (rest_without args [''id'']))]),
     (list_conversations env c, ''Error listing conversations: '', ''get'',
       ''/ai/conversations'',
       Obj args, Undef),
     (get_conversation env c, ''Error getting conversation: '', ''get'',
       ''/ai/conversations/'' @ js_str (oget args ''id''),
       Undef, Undef),
     (get_conversation_messages env c, ''Error getting conversation messages: '', ''get'',
       ''/ai/conversations/'' @ js_str (oget args ''id'') @ ''/messages'',
       Undef, Undef),
     (list_autoprobes_v2 env c, ''Error listing AutoProbes V2: '', ''get'',
       ''/ai/autoprobes'',
       Obj args, Undef),
     (get_autoprobe_v2 env c, ''Error getting AutoProbe V2: '', ''get'',
       ''/ai/autoprobes/'' @ js_str (oget args ''id''),
       Undef, Undef),
     (create_autoprobe_v2 env c, ''Error creating AutoProbe V2: '', ''post'',
       ''/ai/autoprobes'',
       Undef, Obj [(''data'', Obj args)]),
     (run_autoprobe_v2_task env c, ''Error running AutoProbe V2 task: '', ''post'',
       ''/ai/autoprobes/'' @ js_str (oget args ''id'') @ ''/tasks'',
       Undef, Obj (rest_without args [''id''])),
     (get_autoprobe_v2_preview env c, ''Error getting AutoProbe V2 preview: '', ''get'',
       ''/ai/autoprobes/'' @ js_str (oget args ''id'') @ ''/preview'',
       Undef, Undef),
     (get_autoprobe_v2_pattern env c, ''Error getting AutoProbe V2 pattern: '', ''get'',
       ''/ai/autoprobes/'' @ js_str (oget args ''id'') @ ''/pattern'',
       Undef, Undef),
     (list_autoprobes env c, ''Error listing AutoProbes V1: '', ''get'',
       ''/ai/autoprobes/v1'',
       Obj args, Undef),
     (get_autoprobe env c, ''Error getting AutoProbe V1: '', ''get'',
       ''/ai/autoprobes/v1/'' @ js_str (oget args ''id''),
       Undef, Undef),
     (create_autoprobe env c, ''Error creating AutoProbe V1: '', ''post'',
       ''/ai/autoprobes/v1'',
       Undef, Obj [(''data'', Obj args)])]"

lemma ai_requests_answer: "list_all (answers_with env c args) (ai_requests env c args)"
  by (simp add: answers_with_def ai_requests_def tool_defs client_defs http_verbs)

context read_effects
begin

lemma ai_readers_obey: "tools_obey R (ai_readers env c)"
  unfolding ai_readers_def tools_Cons tool_defs
  by (auto intro!: obeys_try_tool obeys_bind obeys_all obeys_pure split: js.split)

end

context http_effects
begin

lemma ai_writers_obey: "tools_obey R (ai_writers env c)"
  unfolding ai_writers_def tools_Cons tool_defs
  by (auto intro!: obeys_try_tool obeys_bind obeys_pure)

lemma ai_tools_obey: "tools_obey R (configureAITools env c)"
  using ai_readers_obey ai_writers_obey by (auto simp: tools_obey_def ai_tools_split)

end

lemma ai_writers_refuse: "\<not> allow_mutations c \<Longrightarrow> list_all refuses (ai_writers env c)"
  unfolding ai_writers_def tool_defs refuses_def
  by (auto simp: client_defs mutations_refused io_eval intro: try_refused try_confirmed_refused)

end
