(* ===== verification/Mcp_Server.thy ===== *)
theory Mcp_Server
  imports Mcp_Prompts Mcp_Spiders Mcp_Tasks Mcp_Nodes Mcp_Schedules Mcp_System Mcp_Projects
    Mcp_Databases Mcp_Git Mcp_Stats Mcp_AI
begin

text \<open>
  \<^verbatim>\<open>mcp/src/tools.ts\<close> and \<^verbatim>\<open>mcp/src/index.ts\<close>: all tools, and the start of the server.

  Once started, the MCP SDK calls the registered handlers as the assistant asks it to. Which
  tool, with which arguments, in which order is not under the control of this program, so a
  \<open>session\<close> is any sequence of calls of registered tools with any arguments. Calls run one after
  the other.
\<close>

section \<open>Registration and start\<close>

definition configureAllTools :: "'s env \<Rightarrow> client \<Rightarrow> 's tool list" where
  "configureAllTools env c =
     configureSpiderTools env c @
     configureTaskTools env c @
     configureNodeTools env c @
     configureScheduleTools env c @
     configureSystemTools env c @
     configureProjectTools env c @
     configureDatabaseTools env c @
     configureGitTools env c @
     configureStatsTools env c @
     configureAITools env c"

definition packageVersion :: string where
  "packageVersion = ''0.1.1-dev.6''"

record 's mcp_server =
  server_name :: string
  server_version :: string
  server_prompts :: "prompt list"
  server_tools :: "'s tool list"

datatype 's process =
    Serving "'s mcp_server" "string list"
  | Exited nat thrown

definition main :: "'s env \<Rightarrow> (string \<Rightarrow> thrown + string) \<Rightarrow> host \<Rightarrow> string list \<Rightarrow> environment \<Rightarrow> 's process" where
  "main env url_hostname h argv environment =
     (case loadMcpConfiguration h argv environment of
        Inl error \<Rightarrow> Exited 1 error
      | Inr configuration \<Rightarrow>
          (let c = new_client (apiEndpoint configuration) (Some (apiToken configuration)) 30000
                     (allowMutations configuration)
           in Serving
                \<lparr>server_name = ''AstianGO Hub MCP Server'',
                 server_version = packageVersion,
                 server_prompts = configurePrompts url_hostname,
                 server_tools = configureAllTools env c\<rparr>
                ((''AstianGO Hub MCP Server version: '' @ packageVersion)
                   # startupStatusMessages configuration)))"

inductive session :: "'s tool list \<Rightarrow> 's world \<Rightarrow> 's world \<Rightarrow> bool" for ts where
  idle: "session ts w w"
| call: "session ts w w' \<Longrightarrow> t \<in> set ts \<Longrightarrow> tool_handler t args w' = (r, w'') \<Longrightarrow> session ts w w''"

inductive_cases session_callE: "session ts w w'"

section \<open>Readers and writers\<close>

definition reader_tools :: "'s env \<Rightarrow> client \<Rightarrow> 's tool list" where
  "reader_tools env c =
     spider_readers env c @ task_readers env c @ node_readers env c @ schedule_readers env c @
     system_readers env c @ project_readers env c @ database_readers env c @ git_readers env c @
     stats_readers env c @ ai_readers env c"

definition writer_tools :: "'s env \<Rightarrow> client \<Rightarrow> 's tool list" where
  "writer_tools env c =
     spider_writers env c @ task_writers env c @ node_writers env c @ schedule_writers env c @
     system_writers env c @ project_writers env c @ database_writers env c @ git_writers env c @
     stats_writers env c @ ai_writers env c"

lemmas tools_splits = spider_tools_split task_tools_split node_tools_split schedule_tools_split
  system_tools_split project_tools_split database_tools_split git_tools_split stats_tools_split
  ai_tools_split

lemmas tool_names = spider_tool_names task_tool_names node_tool_names schedule_tool_names system_tool_names project_tool_names database_tool_names git_tool_names stats_tool_names ai_tool_names

lemmas requests_answer = spider_requests_answer task_requests_answer node_requests_answer
  schedule_requests_answer project_requests_answer database_requests_answer
  git_requests_answer stats_requests_answer ai_requests_answer

lemma tools_split: "set (configureAllTools env c) = set (reader_tools env c) \<union> set (writer_tools env c)"
  unfolding configureAllTools_def reader_tools_def writer_tools_def set_append tools_splits by blast

lemma writers_refuse: "\<not> allow_mutations c \<Longrightarrow> list_all refuses (writer_tools env c)"
  unfolding writer_tools_def list_all_append
  by (simp add: spider_writers_refuse task_writers_refuse node_writers_refuse schedule_writers_refuse
      system_writers_refuse project_writers_refuse database_writers_refuse git_writers_refuse
      stats_writers_refuse ai_writers_refuse)

lemma all_tools_total: "tools_total (configureAllTools env c)"
  unfolding configureAllTools_def
  by (simp add: spider_tools_total task_tools_total node_tools_total schedule_tools_total
      system_tools_total project_tools_total database_tools_total git_tools_total
      stats_tools_total ai_tools_total)

context read_effects
begin

lemma readers_obey: "tools_obey R (reader_tools env c)"
  unfolding reader_tools_def
  by (simp add: spider_readers_obey task_readers_obey node_readers_obey schedule_readers_obey
      system_readers_obey project_readers_obey database_readers_obey git_readers_obey
      stats_readers_obey ai_readers_obey)

end

context http_effects
begin

lemma all_tools_obey: "tools_obey R (configureAllTools env c)"
  unfolding configureAllTools_def
  by (simp add: spider_tools_obey task_tools_obey node_tools_obey schedule_tools_obey
      system_tools_obey project_tools_obey database_tools_obey git_tools_obey
      stats_tools_obey ai_tools_obey)

end

context effects
begin

lemma session_obeys:
  assumes "session ts w w'" and "tools_obey R ts"
  shows "R w w'"
  using assms
proof (induction rule: session.induct)
  case (idle w)
  show ?case by (rule R_refl)
next
  case (call w w' t args r w'')
  then have "R w' w''" by (metis tools_obey_def obeysD snd_conv)
  with call show ?case by (blast intro: R_trans)
qed

end

text \<open>A concrete sequence of calls is a session.\<close>

fun run_calls :: "('s tool \<times> jobj) list \<Rightarrow> 's world \<Rightarrow> 's world" where
  "run_calls [] w = w"
| "run_calls ((t, args) # cs) w = run_calls cs (snd (tool_handler t args w))"

lemma session_run_calls:
  "session ts w w' \<Longrightarrow> fst ` set cs \<subseteq> set ts \<Longrightarrow> session ts w (run_calls cs w')"
proof (induction cs arbitrary: w')
  case (Cons p cs)
  obtain t args where p: "p = (t, args)" by (cases p)
  obtain r w'' where r: "tool_handler t args w' = (r, w'')" by fastforce
  have "session ts w w''" using Cons.prems p r by (auto intro: session.call)
  then show ?case using Cons p r by simp
qed simp

text \<open>A started server serves the tools of a client built from its configuration.\<close>

lemma main_serving:
  assumes "main env url_hostname h argv environment = Serving srv msgs"
  obtains conf where "loadMcpConfiguration h argv environment = Inr conf"
    and "server_tools srv = configureAllTools env
          (new_client (apiEndpoint conf) (Some (apiToken conf)) 30000 (allowMutations conf))"
    and "msgs = (''AstianGO Hub MCP Server version: '' @ packageVersion) # startupStatusMessages conf"
  using assms by (auto simp: main_def Let_def split: sum.splits)

lemma new_client_sel [simp]:
  "base_url (new_client u t ms a) = strip_trailing_slash u"
  "allow_mutations (new_client u t ms a) = a"
  by (simp_all add: new_client_def)

lemma new_client_headers [simp]:
  "t \<noteq> [] \<Longrightarrow> headers (new_client u (Some t) ms a) =
     [(''Content-Type'', ''application/json''), (''Authorization'', ''Bearer '' @ t)]"
  by (simp add: new_client_def)

lemma session_sent:
  "session (configureAllTools env c) w w' \<Longrightarrow> grows (sent_by c) w w'"
  by (rule history.session_obeys, assumption, rule sent.all_tools_obey)

section \<open>A concrete API server\<close>

text \<open>
  For the examples: an API server whose state is the number of requests it saw, and that answers
  each one with that number; and a host with a private token file.
\<close>

definition counting_env :: "nat env" where
  "counting_env =
     \<lparr>transport = (\<lambda>n r. (Suc n, Response 200 (Obj [(''count'', Num (int n))]))),
      clock = (\<lambda>n. ''2026-01-01T00:00:00.000Z'')\<rparr>"

definition private_host :: host where
  "private_host =
     \<lparr>platform = ''linux'',
      statSync = (\<lambda>f. Inr \<lparr>isFile = True, mode = 0x8180\<rparr>),
      readFileSync = (\<lambda>f. Inr ''token-1 '')\<rparr>"

definition token_environment :: "string \<Rightarrow> environment" where
  "token_environment allow =
     [''ASTIANGO_API_TOKEN_FILE'' \<mapsto> ''/run/token'', ''ASTIANGO_MCP_ALLOW_MUTATIONS'' \<mapsto> allow]"

definition start_world :: "nat world" where
  "start_world = \<lparr>server = 0, log = []\<rparr>"

lemma private_configuration:
  "loadMcpConfiguration private_host [''http://hub/''] (token_environment allow) =
     Inr \<lparr>apiEndpoint = ''http://hub/'', apiToken = ''token-1'', allowMutations = (allow = ''true'')\<rparr>"
  by (simp add: loadMcpConfiguration_def readSecretFile_def private_host_def token_environment_def
      first_defined_def trim_def is_space_def mutationsAreEnabled_def Let_def)

definition example_client :: "bool \<Rightarrow> client" where
  "example_client allow = new_client ''http://hub/'' (Some ''token-1'') 30000 allow"

definition example_server :: "bool \<Rightarrow> nat mcp_server" where
  "example_server allow =
     \<lparr>server_name = ''AstianGO Hub MCP Server'', server_version = packageVersion,
      server_prompts = configurePrompts Inr,
      server_tools = configureAllTools counting_env (example_client allow)\<rparr>"

definition example_messages :: "bool \<Rightarrow> string list" where
  "example_messages allow =
     [''AstianGO Hub MCP Server version: 0.1.1-dev.6'',
      ''AstianGO Hub API endpoint: http://hub/'',
      ''Mutating MCP operations: '' @ (if allow then ''enabled'' else ''disabled (default)'')]"

definition example_calls :: "bool \<Rightarrow> (nat tool \<times> jobj) list" where
  "example_calls allow =
     [(list_spiders counting_env (example_client allow), [(''page'', Num 1)]),
      (run_spider counting_env (example_client allow), [(''spider_id'', Str ''s1'')]),
      (delete_spider counting_env (example_client allow),
        [(''spider_id'', Str ''s1''), (''confirmation'', Str ''DELETE:s1'')])]"

lemma main_example:
  "main counting_env Inr private_host [''http://hub/''] (token_environment (if allow then ''true'' else ''false'')) =
     Serving (example_server allow) (example_messages allow)"
  by (simp add: main_def private_configuration example_server_def example_messages_def example_client_def
      packageVersion_def startupStatusMessages_def)

lemma example_session:
  "session (server_tools (example_server allow)) start_world (run_calls (example_calls allow) start_world)"
  by (rule session_run_calls [OF session.idle])
    (simp add: example_calls_def example_server_def configureAllTools_def configureSpiderTools_def)

text \<open>With mutations allowed the three calls send a GET, a POST and a DELETE, without only the GET.\<close>

lemma example_log:
  "map req_method (log (run_calls (example_calls allow) start_world)) =
     (if allow then [''get'', ''post'', ''delete''] else [''get''])"
  by (simp add: example_calls_def example_client_def list_spiders_def run_spider_def delete_spider_def
      client_defs http_verbs http_def request_interceptor_def response_error_interceptor_def
      dispatch_io_def counting_env_def try_tool_def answer_json_def answer_text_def response_data_def
      bind_io_def catch_io_def return_io_def throw_io_def start_world_def mk_request_def
      confirmed_def lift_io_def requireDestructiveConfirmation_def expected_confirmation_def)

section \<open>Properties\<close>

text \<open>
  C1: Read-only safety of the whole server. If the server starts and the environment variable
  that allows mutations is not exactly \<open>true\<close>, then whatever tools are called with whatever
  arguments, and whatever the API server answers, every request that leaves the process is a
  GET, HEAD or OPTIONS, and carries the configured base URL and the token from the secret file.
\<close>

theorem read_only_session:
  assumes "main env url_hostname h argv environment = Serving srv msgs"
    and "environment ''ASTIANGO_MCP_ALLOW_MUTATIONS'' \<noteq> Some ''true''"
    and "session (server_tools srv) w w'"
  shows "\<exists>ext conf. log w' = log w @ ext \<and> loadMcpConfiguration h argv environment = Inr conf \<and>
    (\<forall>r \<in> set ext. isReadOnlyMethod (Some (req_method r)) \<and>
       req_base r = strip_trailing_slash (apiEndpoint conf) \<and>
       req_headers r = [(''Content-Type'', ''application/json''),
                        (''Authorization'', ''Bearer '' @ apiToken conf)])"
proof -
  obtain conf where conf: "loadMcpConfiguration h argv environment = Inr conf"
    and tools: "server_tools srv = configureAllTools env
      (new_client (apiEndpoint conf) (Some (apiToken conf)) 30000 (allowMutations conf))"
    using assms(1) by (rule main_serving)
  obtain f where f: "readSecretFile h f = Inr (apiToken conf)" and ro: "\<not> allowMutations conf"
    using conf assms(2) by (auto elim: loadMcpConfiguration_ok)
  have token: "apiToken conf \<noteq> []" using f by (auto elim: readSecretFile_ok)
  let ?c = "new_client (apiEndpoint conf) (Some (apiToken conf)) 30000 (allowMutations conf)"
  have "grows (sent_by ?c) w w'"
    using assms(3) unfolding tools by (rule session_sent)
  then show ?thesis
    using conf ro token by (fastforce simp: grows_def list_all_iff sent_by_def)
qed

theorem read_only_session_witness:
  "\<exists>ext conf. log (run_calls (example_calls False) start_world) = log start_world @ ext \<and>
    loadMcpConfiguration private_host [''http://hub/''] (token_environment ''false'') = Inr conf \<and>
    (\<forall>r \<in> set ext. isReadOnlyMethod (Some (req_method r)) \<and>
       req_base r = strip_trailing_slash (apiEndpoint conf) \<and>
       req_headers r = [(''Content-Type'', ''application/json''),
                        (''Authorization'', ''Bearer '' @ apiToken conf)])"
proof (rule read_only_session [of counting_env Inr])
  show "main counting_env Inr private_host [''http://hub/''] (token_environment ''false'') =
    Serving (example_server False) (example_messages False)"
    using main_example [of False] by simp
  show "session (server_tools (example_server False)) start_world
      (run_calls (example_calls False) start_world)"
    by (rule example_session)
qed (simp add: token_environment_def)

text \<open>
  C5: In read-only mode every tool that writes answers with an error and nothing else happens:
  no request is sent and the API server's state stays as it was, for any arguments, the correct
  confirmation included.
\<close>

theorem writers_refused_read_only:
  assumes "\<not> allow_mutations c" and "t \<in> set (writer_tools env c)"
  shows "\<exists>msg. tool_handler t args w = (Inr (error_result msg), w)"
  using writers_refuse [OF assms(1), of env] assms(2) by (auto simp: list_all_iff refuses_def)

theorem writers_refused_read_only_witness:
  "\<exists>msg. tool_handler (cancel_task counting_env (example_client False))
     [(''task_id'', Str ''t1''), (''confirmation'', Str ''CANCEL:t1'')] start_world =
     (Inr (error_result msg), start_world)"
  by (rule writers_refused_read_only [of "example_client False" _ counting_env])
    (simp_all add: example_client_def writer_tools_def task_writers_def)

text \<open>
  The tools that do not write only read, even when mutations are allowed: each call of one
  extends the log by GET requests of the client. Together with the writers they are all tools.
\<close>

theorem readers_send_get_only:
  "set (configureAllTools env c) = set (reader_tools env c) \<union> set (writer_tools env c) \<and>
   (\<forall>t \<in> set (reader_tools env c). \<forall>args w. \<exists>ext.
      log (snd (tool_handler t args w)) = log w @ ext \<and>
      list_all (\<lambda>r. req_method r = ''get'' \<and> req_base r = base_url c \<and> req_headers r = headers c) ext)"
proof (intro conjI ballI allI)
  fix t :: "'a tool" and args w
  assume "t \<in> set (reader_tools env c)"
  then have "grows (get_by c) w (snd (tool_handler t args w))"
    using reads.readers_obey [where env = env and c = c] by (auto simp: tools_obey_def obeys_def)
  then show "\<exists>ext. log (snd (tool_handler t args w)) = log w @ ext \<and>
      list_all (\<lambda>r. req_method r = ''get'' \<and> req_base r = base_url c \<and> req_headers r = headers c) ext"
    by (auto simp: grows_def get_by_def sent_by_def list_all_iff)
qed (rule tools_split)

theorem readers_send_get_only_witness:
  "\<exists>ext. log (snd (tool_handler (list_nodes counting_env (example_client True)) [] start_world)) =
     log start_world @ ext \<and>
     list_all (\<lambda>r. req_method r = ''get'' \<and> req_base r = base_url (example_client True) \<and>
       req_headers r = headers (example_client True)) ext"
proof -
  have "list_nodes counting_env (example_client True) \<in> set (reader_tools counting_env (example_client True))"
    by (simp add: reader_tools_def node_readers_def)
  then show ?thesis
    using readers_send_get_only [of counting_env "example_client True"] by blast
qed

text \<open>
  The destructive tools, with the action their confirmation names and the argument that names
  the resource.
\<close>

definition destructive_tools :: "'s env \<Rightarrow> client \<Rightarrow> ('s tool \<times> string \<times> string) list" where
  "destructive_tools env c =
    [(delete_spider env c, ''DELETE'', ''spider_id''),
     (cancel_task env c, ''CANCEL'', ''task_id''),
     (delete_task env c, ''DELETE'', ''task_id''),
     (disable_node env c, ''DISABLE'', ''node_id''),
     (delete_schedule env c, ''DELETE'', ''schedule_id''),
     (disable_schedule env c, ''DISABLE'', ''schedule_id''),
     (delete_project env c, ''DELETE'', ''project_id''),
     (delete_database env c, ''DELETE'', ''database_id''),
     (delete_git_repo env c, ''DELETE'', ''git_id''),
     (delete_llm_provider env c, ''DELETE'', ''id'')]"

lemma destructive_refused:
  assumes "(t, action, key) \<in> set (destructive_tools env c)"
    and "oget args ''confirmation'' \<noteq> Str (expected_confirmation action (oget args key))"
  shows "\<exists>prefix. tool_handler t args =
    return_io (error_result (prefix @ confirmation_error action (oget args key)))"
  using assms
  by (auto simp: destructive_tools_def tool_defs intro: try_confirmed_wrong)

text \<open>
  C2: A destructive tool (deletion, cancellation of a task, disabling) called without the
  confirmation that names the action and the resource does nothing but explain which
  confirmation it needs, even when mutations are allowed. And the tools that declare a
  \<open>confirmation\<close> parameter are exactly these ten.
\<close>

theorem destructive_needs_confirmation:
  "(\<forall>(t, action, key) \<in> set (destructive_tools env c). \<forall>args w.
      oget args ''confirmation'' \<noteq> Str (expected_confirmation action (oget args key)) \<longrightarrow>
      (\<exists>prefix. tool_handler t args w =
         (Inr (error_result (prefix @ confirmation_error action (oget args key))), w))) \<and>
   filter confirms (configureAllTools env c) = map fst (destructive_tools env c)"
proof (intro conjI ballI, clarify)
  fix t action key args w
  assume "(t, action, key) \<in> set (destructive_tools env c)"
    and "oget args ''confirmation'' \<noteq> Str (expected_confirmation action (oget args key))"
  from destructive_refused [OF this]
  show "\<exists>prefix. tool_handler t args w =
      (Inr (error_result (prefix @ confirmation_error action (oget args key))), w)"
    by (auto simp: io_eval)
next
  show "filter confirms (configureAllTools env c) = map fst (destructive_tools env c)"
    by (simp add: destructive_tools_def configureAllTools_def configureSpiderTools_def
        configureTaskTools_def configureNodeTools_def configureScheduleTools_def
        configureSystemTools_def configureProjectTools_def configureDatabaseTools_def
        configureGitTools_def configureStatsTools_def configureAITools_def)
qed

theorem destructive_needs_confirmation_witness:
  "\<exists>prefix. tool_handler (delete_spider counting_env (example_client True))
      [(''spider_id'', Str ''s1''), (''confirmation'', Str ''DELETE:s2'')] start_world =
    (Inr (error_result (prefix @ confirmation_error ''DELETE'' (Str ''s1''))), start_world)"
proof -
  let ?args = "[(''spider_id'', Str ''s1''), (''confirmation'', Str ''DELETE:s2'')]"
  have "(delete_spider counting_env (example_client True), ''DELETE'', ''spider_id'')
      \<in> set (destructive_tools counting_env (example_client True))"
    by (simp add: destructive_tools_def)
  moreover have "oget ?args ''confirmation'' \<noteq> Str (expected_confirmation ''DELETE'' (oget ?args ''spider_id''))"
    by (simp add: expected_confirmation_def)
  ultimately have "\<exists>prefix. tool_handler (delete_spider counting_env (example_client True)) ?args start_world =
      (Inr (error_result (prefix @ confirmation_error ''DELETE'' (oget ?args ''spider_id''))), start_world)"
    using destructive_needs_confirmation [THEN conjunct1, of counting_env "example_client True"]
    by blast
  then show ?thesis by simp
qed




section \<open>Answers, totality and requests\<close>

text \<open>
  C20: No tool throws: whatever the arguments, the world and the answers of the API server, a
  handler returns a tool result. The names under which the
  tools are registered are distinct.
\<close>

theorem handlers_total:
  "(\<forall>t \<in> set (configureAllTools env c). \<forall>args w. \<exists>r w'. tool_handler t args w = (Inr r, w')) \<and>
   distinct (map tool_name (configureAllTools env c)) \<and>
   (\<forall>n \<in> set (map tool_name (configureAllTools env c)). starts_with ''astiango_hub_'' n)"
proof (intro conjI)
  show "\<forall>t \<in> set (configureAllTools env c). \<forall>args w. \<exists>r w'. tool_handler t args w = (Inr r, w')"
    using all_tools_total [where env = env and c = c] by (simp add: tools_total_def total_io_def)
  show "distinct (map tool_name (configureAllTools env c))"
    unfolding configureAllTools_def map_append tool_names by code_simp
  show "\<forall>n \<in> set (map tool_name (configureAllTools env c)). starts_with ''astiango_hub_'' n"
    unfolding configureAllTools_def map_append tool_names starts_with_def by simp
qed

theorem handlers_total_witness:
  "\<exists>r w'. tool_handler (get_task_logs counting_env (example_client True)) [] start_world = (Inr r, w')"
proof -
  have "get_task_logs counting_env (example_client True)
      \<in> set (configureAllTools counting_env (example_client True))"
    by (simp add: configureAllTools_def configureTaskTools_def)
  then show ?thesis
    using handlers_total [of counting_env "example_client True"] by blast
qed

text \<open>
  The tools that answer with the response, with their requests, and the eleven tools that do not
  and are not destructive: the first three make a text of their own from the response, the next
  three a summary of several requests, and the last five report a success with a fixed text.
\<close>

definition json_requests :: "'s env \<Rightarrow> client \<Rightarrow> jobj \<Rightarrow> 's request_row list" where
  "json_requests env c args =
     spider_requests env c args @ task_requests env c args @ node_requests env c args @
     schedule_requests env c args @ project_requests env c args @ database_requests env c args @
     git_requests env c args @ stats_requests env c args @ ai_requests env c args"

definition own_answers :: "'s env \<Rightarrow> client \<Rightarrow> 's tool list" where
  "own_answers env c =
    [get_spider_file_content env c,
     get_task_logs env c,
     test_database_connection env c,
     health_check env c,
     system_status env c,
     get_system_overview env c,
     save_spider_file env c,
     enable_node env c,
     enable_schedule env c,
     clone_git_repo env c,
     pull_git_repo env c]"

lemma json_requests_answer: "list_all (answers_with env c args) (json_requests env c args)"
  by (simp add: json_requests_def requests_answer)

lemmas requests_defs = spider_requests_def task_requests_def node_requests_def schedule_requests_def
  project_requests_def database_requests_def git_requests_def stats_requests_def ai_requests_def

lemmas configure_defs = configureSpiderTools_def configureTaskTools_def configureNodeTools_def
  configureScheduleTools_def configureSystemTools_def configureProjectTools_def
  configureDatabaseTools_def configureGitTools_def configureStatsTools_def configureAITools_def

lemma tools_by_answer:
  "set (configureAllTools env c) =
     fst ` set (json_requests env c args) \<union> fst ` set (destructive_tools env c) \<union> set (own_answers env c)"
  unfolding configureAllTools_def configure_defs json_requests_def requests_defs destructive_tools_def
    own_answers_def
  by (simp add: image_Un) blast

text \<open>
  C18: Every tool but the ten destructive ones and eleven that word their answer themselves
  answers with the response of one request exactly. If the request only reads, or mutations are
  allowed, the call sends the request of the table, with its method, path, parameters and body
  made from the arguments, once, and nothing else; the answer is the response as JSON text, from
  which a response that is a JSON value is read back as it was, and if the request fails an error
  with the tool's prefix and the message of the failure. Otherwise the answer is the error that the
  server is read-only, and nothing is sent.
\<close>

theorem json_tools_transparent:
  "set (configureAllTools env c) =
     fst ` set (json_requests env c args) \<union> fst ` set (destructive_tools env c) \<union> set (own_answers env c) \<and>
   (\<forall>(t, prefix, meth, url, params, data) \<in> set (json_requests env c args). \<forall>w s' out.
      transport env (server w) (mk_request c meth url params data) = (s', out) \<longrightarrow>
      (if allow_mutations c \<or> isReadOnlyMethod (Some meth)
       then \<exists>ans. tool_handler t args w =
            (Inr ans, \<lparr>server = s', log = log w @ [mk_request c meth url params data]\<rparr>) \<and>
          (case out of
             Response st body \<Rightarrow> ans = text_result (json_pretty body) \<and>
               (plain body \<longrightarrow> (\<exists>text. json_pretty body = Str text \<and> json_parse text = Inr body))
           | Failure d msg \<Rightarrow>
               ans = error_result (prefix @ error_text (response_error_interceptor (d, msg))))
       else tool_handler t args w =
            (Inr (error_result (prefix @ ''AstianGO Hub API Error: '' @ read_only_message)), w)))"
proof (intro conjI ballI allI impI, rule tools_by_answer, clarify)
  fix t prefix meth url params data and w :: "'a world" and s' out
  assume row: "(t, prefix, meth, url, params, data) \<in> set (json_requests env c args)"
    and sent: "transport env (server w) (mk_request c meth url params data) = (s', out)"
  have answers: "answers_with env c args (t, prefix, meth, url, params, data)"
    using row json_requests_answer [of env c args] by (simp add: list_all_iff)
  show "if allow_mutations c \<or> isReadOnlyMethod (Some meth)
     then \<exists>ans. tool_handler t args w =
          (Inr ans, \<lparr>server = s', log = log w @ [mk_request c meth url params data]\<rparr>) \<and>
        (case out of
           Response st body \<Rightarrow> ans = text_result (json_pretty body) \<and>
             (plain body \<longrightarrow> (\<exists>text. json_pretty body = Str text \<and> json_parse text = Inr body))
         | Failure d msg \<Rightarrow>
             ans = error_result (prefix @ error_text (response_error_interceptor (d, msg))))
     else tool_handler t args w =
          (Inr (error_result (prefix @ ''AstianGO Hub API Error: '' @ read_only_message)), w)"
    using answers_with_run [OF answers _ sent] answers_with_refused [OF answers, of w]
    by (auto simp: passes_def json_pretty_parses split: outcome.split)
qed

theorem json_tools_transparent_witness:
  "\<exists>ans. tool_handler (create_project counting_env (example_client True))
        [(''name'', Str ''crawl'')] start_world =
      (Inr ans, \<lparr>server = 1, log = [mk_request (example_client True) ''post'' ''/projects'' Undef
         (Obj [(''name'', Str ''crawl''), (''description'', Undef)])]\<rparr>) \<and>
    (\<exists>text. ans = text_result (Str text) \<and> json_parse text = Inr (Obj [(''count'', Num 0)]))"
proof -
  let ?c = "example_client True"
  let ?args = "[(''name'', Str ''crawl'')]"
  let ?body = "Obj [(''name'', Str ''crawl''), (''description'', Undef)]"
  have "(create_project counting_env ?c, ''Error creating project: '', ''post'', ''/projects'', Undef, ?body)
      \<in> set (json_requests counting_env ?c ?args)"
    by (simp add: json_requests_def project_requests_def named_def oget_def)
  from bspec [OF json_tools_transparent [THEN conjunct2] this]
  show ?thesis
    by (simp add: counting_env_def start_world_def example_client_def)
      (drule spec [of _ "\<lparr>server = 0, log = []\<rparr>"], auto)
qed

text \<open>
  C6: With the right confirmation and mutations allowed, a destructive tool sends exactly one
  request, whatever the server answers: the method and path of its operation on the resource the
  confirmation named, without a body.
\<close>

definition destructive_requests :: "'s env \<Rightarrow> client \<Rightarrow> ('s tool \<times> string \<times> string \<times> string \<times> string \<times> string) list" where
  "destructive_requests env c =
    [(delete_spider env c, ''DELETE'', ''spider_id'', ''delete'', ''/spiders/'', []),
     (cancel_task env c, ''CANCEL'', ''task_id'', ''post'', ''/tasks/'', ''/cancel''),
     (delete_task env c, ''DELETE'', ''task_id'', ''delete'', ''/tasks/'', []),
     (disable_node env c, ''DISABLE'', ''node_id'', ''post'', ''/nodes/'', ''/disable''),
     (delete_schedule env c, ''DELETE'', ''schedule_id'', ''delete'', ''/schedules/'', []),
     (disable_schedule env c, ''DISABLE'', ''schedule_id'', ''post'', ''/schedules/'', ''/disable''),
     (delete_project env c, ''DELETE'', ''project_id'', ''delete'', ''/projects/'', []),
     (delete_database env c, ''DELETE'', ''database_id'', ''delete'', ''/databases/'', []),
     (delete_git_repo env c, ''DELETE'', ''git_id'', ''delete'', ''/gits/'', []),
     (delete_llm_provider env c, ''DELETE'', ''id'', ''delete'', ''/ai/llm/providers/'', [])]"

theorem destructive_sends_one_request:
  assumes "allow_mutations c"
    and "(t, action, key, meth, path, suffix) \<in> set (destructive_requests env c)"
    and "oget args ''confirmation'' = Str (expected_confirmation action (oget args key))"
  shows "log (snd (tool_handler t args w)) =
    log w @ [mk_request c meth (path @ js_str (oget args key) @ suffix) Undef Undef]"
proof -
  have "sends c (tool_handler t args) meth (path @ js_str (oget args key) @ suffix) Undef Undef"
    using assms
    by (auto simp: destructive_requests_def tool_defs client_defs intro!: sends_rules)
  then show ?thesis by (simp add: sends_def)
qed

theorem destructive_sends_one_request_witness:
  "log (snd (tool_handler (disable_node counting_env (example_client True))
      [(''node_id'', Str ''n7''), (''confirmation'', Str ''DISABLE:n7'')] start_world)) =
    [mk_request (example_client True) ''post'' ''/nodes/n7/disable'' Undef Undef]"
  using destructive_sends_one_request [of "example_client True"
      "disable_node counting_env (example_client True)" "''DISABLE''" "''node_id''" "''post''" "''/nodes/''"
      "''/disable''" counting_env "[(''node_id'', Str ''n7''), (''confirmation'', Str ''DISABLE:n7'')]" start_world]
  by (simp add: destructive_requests_def example_client_def expected_confirmation_def start_world_def)

text \<open>
  C19: An update sends the fields whose arguments are truthy, with their values, and no others:
  an omitted field is not sent, and neither is one set to the empty string, to zero or to
  \<open>null\<close>, so an update cannot clear a field.
\<close>

definition update_tools :: "'s env \<Rightarrow> client \<Rightarrow> ('s tool \<times> string \<times> string \<times> string list) list" where
  "update_tools env c =
    [(update_spider env c, ''spider_id'', ''/spiders/'',
       [''name'', ''description'', ''cmd'', ''param'', ''project_id'', ''database_id'', ''col_name'', ''db_name'',
        ''mode'', ''node_ids'', ''git_id'', ''git_root_path'', ''template'', ''priority'']),
     (update_project env c, ''project_id'', ''/projects/'', [''name'', ''description'']),
     (update_database env c, ''database_id'', ''/databases/'',
       [''name'', ''description'', ''data_source'', ''host'', ''port'', ''database'', ''username'', ''password'', ''uri'']),
     (update_git_repo env c, ''git_id'', ''/gits/'', [''name'', ''url'', ''auth_type'', ''username'', ''password''])]"

theorem update_sends_truthy_fields:
  assumes "allow_mutations c" and "(t, key, path, fs) \<in> set (update_tools env c)"
  shows "\<exists>body. log (snd (tool_handler t args w)) =
      log w @ [mk_request c ''put'' (path @ js_str (oget args key)) Undef (Obj body)] \<and>
    map_of body = (\<lambda>k. if k \<in> set fs \<and> truthy (oget args k) then Some (oget args k) else None)"
proof -
  have "sends c (tool_handler t args) ''put'' (path @ js_str (oget args key)) Undef
      (Obj (truthy_fields args fs))"
    using assms by (auto simp: update_tools_def tool_defs client_defs intro!: sends_rules)
  then show ?thesis
    by (intro exI [of _ "truthy_fields args fs"]) (simp add: sends_def map_of_truthy_fields fun_eq_iff)
qed

theorem update_sends_truthy_fields_witness:
  "\<exists>body. log (snd (tool_handler (update_project counting_env (example_client True))
        [(''project_id'', Str ''p1''), (''name'', Str ''crawl''), (''description'', Str [])] start_world)) =
      [mk_request (example_client True) ''put'' ''/projects/p1'' Undef (Obj body)] \<and>
    map_of body = (\<lambda>k. if k \<in> {''name'', ''description''} \<and>
        truthy (oget [(''project_id'', Str ''p1''), (''name'', Str ''crawl''), (''description'', Str [])] k)
      then Some (oget [(''project_id'', Str ''p1''), (''name'', Str ''crawl''), (''description'', Str [])] k) else None)"
  using update_sends_truthy_fields [of "example_client True"
      "update_project counting_env (example_client True)" "''project_id''" "''/projects/''"
      "[''name'', ''description'']" counting_env
      "[(''project_id'', Str ''p1''), (''name'', Str ''crawl''), (''description'', Str [])]" start_world]
  by (simp add: update_tools_def example_client_def start_world_def del: oget_Cons) (simp add: oget_def)

end
