(* ===== verification/UI_Storage.thy ===== *)
theory UI_Storage
  imports Hub_JSON
begin

text \<open>
  \<^verbatim>\<open>utils/storage.ts\<close> of the user interface: JSON values in the browser's local storage, and the
  settings of the list pages, one object per store namespace under a common key.

  The local storage is a map from keys to strings. The locale \<open>settings_store\<close> is what the
  stores rely on: what was saved under a key is loaded, and saving under another key does not
  change it. It is interpreted on the raw storage, on the JSON values and on the namespaces.
\<close>

type_synonym local_storage = "string \<Rightarrow> string option"

definition getItem :: "string \<Rightarrow> local_storage \<Rightarrow> string option" where
  "getItem key ls = ls key"

definition setItem :: "string \<Rightarrow> string \<Rightarrow> local_storage \<Rightarrow> local_storage" where
  "setItem key data ls = ls(key \<mapsto> data)"

definition removeItem :: "string \<Rightarrow> local_storage \<Rightarrow> local_storage" where
  "removeItem key ls = ls(key := None)"

lemmas item_defs = getItem_def setItem_def removeItem_def

definition loadLocalStorage :: "string \<Rightarrow> local_storage \<Rightarrow> thrown + js" where
  "loadLocalStorage key ls =
     (case getItem key ls of
        None \<Rightarrow> Inr Null
      | Some data \<Rightarrow> if data = [] then Inr Null else json_parse data)"

definition saveLocalStorage :: "string \<Rightarrow> js \<Rightarrow> local_storage \<Rightarrow> local_storage" where
  "saveLocalStorage key data ls = setItem key (js_str (json_stringify data)) ls"

definition loadNamespaceLocalStorage :: "string \<Rightarrow> string \<Rightarrow> local_storage \<Rightarrow> thrown + js" where
  "loadNamespaceLocalStorage ns key ls =
     (case loadLocalStorage key ls of
        Inl e \<Rightarrow> Inl e
      | Inr data \<Rightarrow>
          if \<not> truthy data then Inr (Obj [])
          else (case js_get data ns of Inl e \<Rightarrow> Inl e | Inr v \<Rightarrow> Inr (js_or v (Obj []))))"

text \<open>
  Assigning a property to an array leaves its JSON form unchanged, unless the namespace is an
  index or \<open>length\<close>, which no namespace is; assigning one to a string, number or boolean throws.
\<close>

definition saveNamespaceLocalStorage ::
    "string \<Rightarrow> string \<Rightarrow> jobj \<Rightarrow> local_storage \<Rightarrow> thrown + local_storage" where
  "saveNamespaceLocalStorage ns key values ls =
     (case loadLocalStorage key ls of
        Inl e \<Rightarrow> Inl e
      | Inr data \<Rightarrow>
          (case js_or data (Obj []) of
             Obj ps \<Rightarrow>
               Inr (saveLocalStorage key
                 (Obj (aset ns (Obj (amerge (spread_js (oget ps ns)) values)) ps)) ls)
           | Arr xs \<Rightarrow> Inr (saveLocalStorage key (Arr xs) ls)
           | v \<Rightarrow> Inl (create_property_error ns v)))"

section \<open>The interface\<close>

locale settings_store =
  fixes load :: "'k \<Rightarrow> 's \<Rightarrow> 'v option"
    and save :: "'k \<Rightarrow> 'v \<Rightarrow> 's \<Rightarrow> 's"
    and valid :: "'v \<Rightarrow> bool"
  assumes load_save: "valid v \<Longrightarrow> load k (save k v s) = Some v"
    and load_save_other: "k' \<noteq> k \<Longrightarrow> load k' (save k v s) = load k' s"
begin

lemma load_saves:
  assumes "\<forall>(k, v) \<in> set kvs. valid v"
  shows "load k (fold (\<lambda>(k, v). save k v) kvs s) =
    (case map_of (rev kvs) k of Some v \<Rightarrow> Some v | None \<Rightarrow> load k s)"
  using assms
proof (induction kvs arbitrary: s)
  case (Cons kv kvs)
  obtain k' v' where kv: "kv = (k', v')" by (cases kv)
  show ?case
    using Cons by (cases "k = k'")
      (auto simp: kv load_save load_save_other map_add_def split: option.split)
qed simp

lemma save_twice:
  "valid v \<Longrightarrow> valid u \<Longrightarrow> load k' (save k v (save k u s)) = load k' (save k v s)"
  by (cases "k' = k") (simp_all add: load_save load_save_other)

end

interpretation raw: settings_store getItem setItem "\<lambda>_. True"
  by unfold_locales (simp_all add: item_defs)

definition load_json :: "string \<Rightarrow> local_storage \<Rightarrow> js option" where
  "load_json key ls = (case loadLocalStorage key ls of Inl _ \<Rightarrow> None | Inr v \<Rightarrow> Some v)"

lemma loadLocalStorage_save:
  assumes "plain v"
  shows "loadLocalStorage key (saveLocalStorage key v ls) = Inr v"
proof -
  have "json_parse (ser [] [] v) = Inr v"
    using assms by (simp add: json_parse_ser plain_wf all_ws_def jnorm_id)
  moreover have "ser [] [] v \<noteq> []"
    using starts_value_ser [of "[]" "[]" v] by (simp add: starts_value_def)
  ultimately show ?thesis
    using assms by (auto simp: loadLocalStorage_def saveLocalStorage_def item_defs json_stringify_def)
qed

lemma loadLocalStorage_save_other:
  "key' \<noteq> key \<Longrightarrow> loadLocalStorage key' (saveLocalStorage key v ls) = loadLocalStorage key' ls"
  by (simp add: loadLocalStorage_def saveLocalStorage_def item_defs)

interpretation json: settings_store load_json saveLocalStorage plain
  by unfold_locales
    (simp_all add: load_json_def loadLocalStorage_save loadLocalStorage_save_other)

section \<open>Namespaces\<close>

lemma loadLocalStorage_plain: "loadLocalStorage key ls = Inr v \<Longrightarrow> plain v"
  by (auto simp: loadLocalStorage_def dest: json_parse_plain split: option.splits if_splits)

lemma plain_ObjD: "plain (Obj ps) \<Longrightarrow> oget ps k = Undef \<or> plain (oget ps k)"
  by (auto simp: oget_def list_all_iff dest: map_of_SomeD split: option.split)

lemma distinct_index_keys: "distinct (map dec_nat [0..<n])"
  by (simp add: distinct_map inj_on_def dec_nat_inject)

lemma plain_spread: "plain v \<Longrightarrow> plain (Obj (spread_js v))"
  by (cases v) (auto simp: list_all_iff distinct_index_keys dest!: set_zip_rightD)

lemma plain_spread_oget: "plain (Obj ps) \<Longrightarrow> plain (Obj (spread_js (oget ps k)))"
  using plain_ObjD [of ps k] plain_spread by auto

lemma plain_amerge: "plain (Obj ps) \<Longrightarrow> plain (Obj qs) \<Longrightarrow> plain (Obj (amerge ps qs))"
  by (simp add: distinct_amerge plain_pairs_amerge)

lemma plain_aset: "plain (Obj ps) \<Longrightarrow> plain v \<Longrightarrow> plain (Obj (aset k v ps))"
  by (simp add: plain_pairs_aset)

text \<open>The stored object of all namespaces, when the key holds an object or nothing.\<close>

definition stored_namespaces :: "string \<Rightarrow> local_storage \<Rightarrow> jobj option" where
  "stored_namespaces key ls =
     (case loadLocalStorage key ls of
        Inr v \<Rightarrow> (case js_or v (Obj []) of Obj ps \<Rightarrow> Some ps | _ \<Rightarrow> None)
      | Inl _ \<Rightarrow> None)"

lemma stored_namespaces_plain: "stored_namespaces key ls = Some ps \<Longrightarrow> plain (Obj ps)"
  by (auto simp: stored_namespaces_def js_or_def dest: loadLocalStorage_plain
      split: sum.splits js.splits if_splits)

lemma loadNamespace_stored:
  assumes "stored_namespaces key ls = Some ps"
  shows "loadNamespaceLocalStorage ns key ls = Inr (js_or (oget ps ns) (Obj []))"
  using assms
  by (auto simp: stored_namespaces_def loadNamespaceLocalStorage_def js_or_def
      split: sum.splits js.splits if_splits)

definition with_settings :: "string \<Rightarrow> jobj \<Rightarrow> jobj \<Rightarrow> jobj" where
  "with_settings ns values ps = aset ns (Obj (amerge (spread_js (oget ps ns)) values)) ps"

lemma saveNamespace_stored:
  assumes s: "stored_namespaces key ls = Some ps" and v: "plain (Obj values)"
  obtains ls' where "saveNamespaceLocalStorage ns key values ls = Inr ls'"
    and "stored_namespaces key ls' = Some (with_settings ns values ps)"
    and "\<And>k. k \<noteq> key \<Longrightarrow> getItem k ls' = getItem k ls"
proof
  let ?ls = "saveLocalStorage key (Obj (with_settings ns values ps)) ls"
  show "saveNamespaceLocalStorage ns key values ls = Inr ?ls"
    using s by (auto simp: saveNamespaceLocalStorage_def stored_namespaces_def with_settings_def
        split: sum.splits js.splits)
  have "plain (Obj (amerge (spread_js (oget ps ns)) values))"
    by (intro plain_amerge plain_spread_oget v stored_namespaces_plain [OF s])
  then have "plain (Obj (with_settings ns values ps))"
    unfolding with_settings_def by (intro plain_aset stored_namespaces_plain [OF s])
  then have "loadLocalStorage key ?ls = Inr (Obj (with_settings ns values ps))" by (rule loadLocalStorage_save)
  then show "stored_namespaces key ?ls = Some (with_settings ns values ps)"
    by (simp add: stored_namespaces_def js_or_def)
  show "getItem k ?ls = getItem k ls" if "k \<noteq> key" for k
    using that by (simp add: saveLocalStorage_def item_defs)
qed

text \<open>
  Settings of one namespace: after saving, the namespace loads as what it held before updated
  with the saved values, every other namespace loads as before, and no other key of the local
  storage changes.
\<close>

theorem namespace_settings_saved:
  assumes "stored_namespaces key ls = Some ps" and "plain (Obj values)"
  shows "\<exists>ls' merged. saveNamespaceLocalStorage ns key values ls = Inr ls' \<and>
    loadNamespaceLocalStorage ns key ls' = Inr (Obj merged) \<and>
    map_of merged = map_of (spread_js (oget ps ns)) ++ map_of values \<and>
    (\<forall>ns'. ns' \<noteq> ns \<longrightarrow> loadNamespaceLocalStorage ns' key ls' = loadNamespaceLocalStorage ns' key ls) \<and>
    (\<forall>k. k \<noteq> key \<longrightarrow> getItem k ls' = getItem k ls)"
proof -
  obtain ls' where ls': "saveNamespaceLocalStorage ns key values ls = Inr ls'"
      "stored_namespaces key ls' = Some (with_settings ns values ps)"
      "\<And>k. k \<noteq> key \<Longrightarrow> getItem k ls' = getItem k ls"
    using saveNamespace_stored [OF assms] by blast
  show ?thesis
    using ls' assms
    by (intro exI [of _ ls'] exI [of _ "amerge (spread_js (oget ps ns)) values"])
      (simp add: loadNamespace_stored [OF ls'(2)] loadNamespace_stored [OF assms(1)] js_or_def
        with_settings_def map_of_amerge)
qed

theorem namespace_settings_saved_witness:
  "\<exists>ls' merged. saveNamespaceLocalStorage ''task'' ''settings'' [(''size'', Num 50)]
      [''settings'' \<mapsto> ''{'' @ [CHR 0x22] @ ''task'' @ [CHR 0x22] @ '':{}}''] = Inr ls' \<and>
    loadNamespaceLocalStorage ''task'' ''settings'' ls' = Inr (Obj merged) \<and>
    map_of merged ''size'' = Some (Num 50)"
proof -
  let ?ls = "[''settings'' \<mapsto> ''{'' @ [CHR 0x22] @ ''task'' @ [CHR 0x22] @ '':{}}'']"
  have "loadLocalStorage ''settings'' ?ls = Inr (Obj [(''task'', Obj [])])"
    using json_parse_ser [of "Obj [(''task'', Obj [])]" "[]" "[]"]
    by (simp add: loadLocalStorage_def item_defs all_ws_def quote_def esc_def colon_def line_break_def)
  then have "stored_namespaces ''settings'' ?ls = Some [(''task'', Obj [])]"
    by (simp add: stored_namespaces_def js_or_def)
  from namespace_settings_saved [OF this, of "[(''size'', Num 50)]" "''task''"] show ?thesis
    by fastforce
qed

end
