(* ===== verification/UI_Layout.thy ===== *)
theory UI_Layout
  imports UI_Storage
begin

text \<open>
  \<^verbatim>\<open>store/modules/layout.ts\<close>: the tabs, the sidebar and the chat sidebar of the user interface, with
  their copies in the local storage.

  The state of the store is a record, its mutations are the constructors of \<open>layout_mutation\<close>,
  and \<open>commit_layout\<close> applies one to the state and the local storage. \<open>layout_init\<close> is the
  initial state of the module, read from the local storage when the page loads. A tab is the
  object \<open>{ id?, path, ... }\<close>; identifiers are integers. The property is that a reload restores
  what is stored; the tab bar and the sidebar menu are in \<^verbatim>\<open>UI_Tabs\<close> and \<^verbatim>\<open>UI_Access\<close>.
\<close>

section \<open>State\<close>

datatype menu_item = MenuItem
  (mi_title: string) (mi_path: "string option") (mi_hidden: bool) (mi_children: "menu_item list option")

type_synonym tab = jobj

record layout_state =
  sidebarCollapsed :: bool
  menuItems :: "menu_item list"
  activeTabId :: "int option"
  maxTabId :: int
  tabs :: "tab list"
  draggingTab :: "tab option"
  targetTab :: "tab option"
  isTabsDragging :: bool
  navVisibleFn :: "(string \<Rightarrow> bool) option"
  detailTabVisibleFn :: "(string \<Rightarrow> js \<Rightarrow> bool) option"
  actionVisibleFn :: "(string \<Rightarrow> string \<Rightarrow> bool) option"
  chatbotSidebarVisible :: bool
  chatbotSidebarWidth :: int

type_synonym layout_world = "layout_state \<times> local_storage"

definition tab_id :: "tab \<Rightarrow> js" where
  "tab_id t = oget t ''id''"

definition tab_path :: "tab \<Rightarrow> js" where
  "tab_path t = oget t ''path''"

subsection \<open>Reading the local storage\<close>

text \<open>\<open>parseInt\<close> of an optionally signed run of digits; \<open>None\<close> stands for \<open>NaN\<close>.\<close>

definition parse_int :: "string \<Rightarrow> int option" where
  "parse_int s =
     (let t = dropWhile is_space s;
          neg = (t \<noteq> [] \<and> hd t = CHR ''-'');
          u = (if t \<noteq> [] \<and> hd t \<in> {CHR ''-'', CHR ''+''} then tl t else t);
          ds = takeWhile is_digit u
      in if ds = [] then None
         else Some (if neg then - int (read_dec 0 ds) else int (read_dec 0 ds)))"

definition getDefaultSidebarCollapsed :: "local_storage \<Rightarrow> bool" where
  "getDefaultSidebarCollapsed ls =
     (case getItem ''sidebarCollapsed'' ls of None \<Rightarrow> False | Some v \<Rightarrow> v = ''true'')"

definition objects_of :: "js list \<Rightarrow> jobj list option" where
  "objects_of xs = those (map (\<lambda>v. case v of Obj ps \<Rightarrow> Some ps | _ \<Rightarrow> None) xs)"

text \<open>
  The three readers below are \<open>None\<close> where the stored text is not what the module itself writes:
  the parser throws, the value is not an array of objects, or the number is \<open>NaN\<close>.
\<close>

definition getDefaultTabs :: "local_storage \<Rightarrow> tab list option" where
  "getDefaultTabs ls =
     (case getItem ''tabs'' ls of
        None \<Rightarrow> Some []
      | Some s \<Rightarrow> if s = [] then Some []
          else (case json_parse s of Inr (Arr xs) \<Rightarrow> objects_of xs | _ \<Rightarrow> None))"

definition getDefaultActiveTabId :: "local_storage \<Rightarrow> int option option" where
  "getDefaultActiveTabId ls =
     (case getItem ''activeTabId'' ls of
        None \<Rightarrow> Some None
      | Some s \<Rightarrow> if s = [] then Some None else map_option Some (parse_int s))"

definition getDefaultMaxTabId :: "local_storage \<Rightarrow> int option" where
  "getDefaultMaxTabId ls =
     (case getItem ''maxTabId'' ls of
        None \<Rightarrow> Some 0 | Some s \<Rightarrow> if s = [] then Some 0 else parse_int s)"

definition getDefaultChatbotSidebarVisible :: "local_storage \<Rightarrow> bool" where
  "getDefaultChatbotSidebarVisible ls =
     (case getItem ''chatbotSidebarVisible'' ls of None \<Rightarrow> False | Some v \<Rightarrow> v = ''true'')"

definition getDefaultChatbotSidebarWidth :: "local_storage \<Rightarrow> int option" where
  "getDefaultChatbotSidebarWidth ls =
     (case getItem ''chatbotSidebarWidth'' ls of
        None \<Rightarrow> Some 350 | Some s \<Rightarrow> if s = [] then Some 350 else parse_int s)"

definition layout_init :: "menu_item list \<Rightarrow> local_storage \<Rightarrow> layout_state option" where
  "layout_init items ls =
     (case (getDefaultTabs ls, getDefaultActiveTabId ls, getDefaultMaxTabId ls, getDefaultChatbotSidebarWidth ls) of
        (Some ts, Some active, Some max_id, Some width) \<Rightarrow>
          Some \<lparr>sidebarCollapsed = getDefaultSidebarCollapsed ls,
                menuItems = items,
                activeTabId = active,
                maxTabId = max_id,
                tabs = ts,
                draggingTab = None,
                targetTab = None,
                isTabsDragging = False,
                navVisibleFn = Some (\<lambda>path. True),
                detailTabVisibleFn = Some (\<lambda>ns tab. True),
                actionVisibleFn = Some (\<lambda>target action. True),
                chatbotSidebarVisible = getDefaultChatbotSidebarVisible ls,
                chatbotSidebarWidth = width\<rparr>
      | _ \<Rightarrow> None)"

section \<open>Mutations\<close>

datatype layout_mutation =
    SetMenuItems "menu_item list"
  | SetSidebarCollapsed bool
  | SetTabs "tab list"
  | SetActiveTabId int
  | AddTab tab
  | UpdateTab tab
  | RemoveAllTabs
  | RemoveTab tab
  | SetDraggingTab tab
  | ResetDraggingTab
  | SetTargetTab tab
  | ResetTargetTab
  | SetIsTabsDragging bool
  | SetNavVisibleFn "string \<Rightarrow> bool"
  | SetDetailTabVisibleFn "string \<Rightarrow> js \<Rightarrow> bool"
  | SetActionVisibleFn "string \<Rightarrow> string \<Rightarrow> bool"
  | SetChatbotSidebarVisible bool
  | SetChatbotSidebarWidth int

definition tabs_json :: "tab list \<Rightarrow> string" where
  "tabs_json ts = js_str (json_stringify (Arr (map Obj ts)))"

definition addTab :: "tab \<Rightarrow> layout_world \<Rightarrow> layout_world" where
  "addTab tab w = (case w of (s, ls) \<Rightarrow>
     (let max_id = (if tab_id tab = Undef then maxTabId s + 1 else maxTabId s);
          tab' = (if tab_id tab = Undef then aset ''id'' (Num max_id) tab else tab);
          s' = s\<lparr>maxTabId := max_id, tabs := tabs s @ [tab']\<rparr>
      in (s', setItem ''maxTabId'' (dec_int (maxTabId s')) (setItem ''tabs'' (tabs_json (tabs s')) ls))))"

definition updateTab :: "tab \<Rightarrow> layout_world \<Rightarrow> layout_world" where
  "updateTab tab w = (case w of (s, ls) \<Rightarrow>
     (let ts = (case find_index (\<lambda>d. tab_id d = tab_id tab) (tabs s) of
                  None \<Rightarrow> tabs s | Some idx \<Rightarrow> (tabs s)[idx := tab])
      in (s\<lparr>tabs := ts\<rparr>, setItem ''tabs'' (tabs_json ts) ls)))"

definition removeTab :: "tab \<Rightarrow> layout_world \<Rightarrow> layout_world" where
  "removeTab tab w = (case w of (s, ls) \<Rightarrow>
     (if tab_id tab = Undef then w
      else (case find_index (\<lambda>d. tab_id d = tab_id tab) (tabs s) of
              None \<Rightarrow> w
            | Some idx \<Rightarrow>
                (let ts = take idx (tabs s) @ drop (Suc idx) (tabs s)
                 in (s\<lparr>tabs := ts\<rparr>, setItem ''tabs'' (tabs_json ts) ls)))))"

fun commit_layout :: "layout_mutation \<Rightarrow> layout_world \<Rightarrow> layout_world" where
  "commit_layout (SetMenuItems items) (s, ls) = (s\<lparr>menuItems := items\<rparr>, ls)"
| "commit_layout (SetSidebarCollapsed value) (s, ls) =
     (s\<lparr>sidebarCollapsed := value\<rparr>, saveLocalStorage ''sidebarCollapsed'' (Bool value) ls)"
| "commit_layout (SetTabs ts) (s, ls) = (s\<lparr>tabs := ts\<rparr>, setItem ''tabs'' (tabs_json ts) ls)"
| "commit_layout (SetActiveTabId ident) (s, ls) =
     (s\<lparr>activeTabId := Some ident\<rparr>, setItem ''activeTabId'' (dec_int ident) ls)"
| "commit_layout (AddTab tab) w = addTab tab w"
| "commit_layout (UpdateTab tab) w = updateTab tab w"
| "commit_layout RemoveAllTabs (s, ls) = (s\<lparr>tabs := []\<rparr>, removeItem ''tabs'' ls)"
| "commit_layout (RemoveTab tab) w = removeTab tab w"
| "commit_layout (SetDraggingTab tab) (s, ls) = (s\<lparr>draggingTab := Some tab\<rparr>, ls)"
| "commit_layout ResetDraggingTab (s, ls) = (s\<lparr>draggingTab := None\<rparr>, ls)"
| "commit_layout (SetTargetTab tab) (s, ls) = (s\<lparr>targetTab := Some tab\<rparr>, ls)"
| "commit_layout ResetTargetTab (s, ls) = (s\<lparr>targetTab := None\<rparr>, ls)"
| "commit_layout (SetIsTabsDragging value) (s, ls) = (s\<lparr>isTabsDragging := value\<rparr>, ls)"
| "commit_layout (SetNavVisibleFn fn) (s, ls) = (s\<lparr>navVisibleFn := Some fn\<rparr>, ls)"
| "commit_layout (SetDetailTabVisibleFn fn) (s, ls) = (s\<lparr>detailTabVisibleFn := Some fn\<rparr>, ls)"
| "commit_layout (SetActionVisibleFn fn) (s, ls) = (s\<lparr>actionVisibleFn := Some fn\<rparr>, ls)"
| "commit_layout (SetChatbotSidebarVisible value) (s, ls) =
     (s\<lparr>chatbotSidebarVisible := value\<rparr>,
      setItem ''chatbotSidebarVisible'' (if value then ''true'' else ''false'') ls)"
| "commit_layout (SetChatbotSidebarWidth value) (s, ls) =
     (s\<lparr>chatbotSidebarWidth := value\<rparr>, setItem ''chatbotSidebarWidth'' (dec_int value) ls)"

section \<open>Getters\<close>

text \<open>\<open>plainClone(tabs)\<close>; a tab whose clone is not an object does not occur.\<close>

definition clone_tabs :: "tab list \<Rightarrow> tab list" where
  "clone_tabs ts =
     (case plainClone (Arr (map Obj ts)) of
        Inr (Arr xs) \<Rightarrow> map (\<lambda>v. case v of Obj ps \<Rightarrow> ps | _ \<Rightarrow> []) xs
      | _ \<Rightarrow> [])"

definition ordered_tabs :: "layout_state \<Rightarrow> tab list" where
  "ordered_tabs s =
     (case (draggingTab s, targetTab s) of
        (Some dragging, Some target) \<Rightarrow>
          (let orderedTabs = clone_tabs (tabs s) in
           case (find_index (\<lambda>t. tab_id t = tab_id dragging) orderedTabs,
                 find_index (\<lambda>t. tab_id t = tab_id target) orderedTabs) of
             (Some draggingIdx, Some targetIdx) \<Rightarrow>
               (let rest = take draggingIdx orderedTabs @ drop (Suc draggingIdx) orderedTabs
                in take targetIdx rest @ dragging # drop targetIdx rest)
           | _ \<Rightarrow> tabs s)
      | _ \<Rightarrow> tabs s)"

definition activeTab :: "layout_state \<Rightarrow> tab option" where
  "activeTab s =
     (case activeTabId s of None \<Rightarrow> None | Some ident \<Rightarrow> find (\<lambda>d. tab_id d = Num ident) (tabs s))"

section \<open>Reloading the page\<close>

lemma digit_not_space: "is_digit ch \<Longrightarrow> \<not> is_space ch \<and> ch \<noteq> CHR ''-'' \<and> ch \<noteq> CHR ''+''"
  by (auto simp: is_digit_def is_space_def)

lemma parse_int_dec_int [simp]: "parse_int (dec_int i) = Some i"
proof -
  have nat: "parse_int (dec_nat n) = Some (int n)" for n
  proof -
    obtain d ds where d: "dec_nat n = d # ds" by (cases "dec_nat n") auto
    then have "is_digit d" using dec_nat_digits [of n] by simp
    moreover have tw: "takeWhile is_digit ds = ds"
      using dec_nat_digits [of n] d by (simp add: takeWhile_eq_all_conv)
    ultimately show ?thesis
      using digit_not_space [OF \<open>is_digit d\<close>] d read_dec_dec_nat [of n]
      by (simp add: parse_int_def Let_def tw)
  qed
  show ?thesis
  proof (cases "i < 0")
    case True
    have tw: "takeWhile is_digit (dec_nat (nat (- i))) = dec_nat (nat (- i))"
      using dec_nat_digits [of "nat (- i)"] by (simp add: takeWhile_eq_all_conv)
    show ?thesis
      using True read_dec_dec_nat [of "nat (- i)"]
      by (simp add: dec_int_def parse_int_def Let_def is_space_def tw)
  qed (simp add: dec_int_def nat)
qed

lemma dec_int_nonempty [simp]: "dec_int i \<noteq> []"
  by (simp add: dec_int_def)

definition plain_tab :: "tab \<Rightarrow> bool" where
  "plain_tab t \<longleftrightarrow> plain (Obj t)"

lemma objects_of_Obj [simp]: "objects_of (map Obj ts) = Some ts"
  by (induction ts) (simp_all add: objects_of_def)

lemma plain_tabs: "list_all plain_tab ts \<longleftrightarrow> plain (Arr (map Obj ts))"
  by (auto simp: list_all_iff plain_tab_def)

lemma parse_tabs_json: "list_all plain_tab ts \<Longrightarrow> json_parse (tabs_json ts) = Inr (Arr (map Obj ts))"
  using json_parse_ser [of "Arr (map Obj ts)" "[]" "[]"] plain_wf [of "Arr (map Obj ts)"]
    jnorm_id [of "Arr (map Obj ts)"]
  unfolding plain_tabs by (simp add: tabs_json_def json_stringify_def all_ws_def del: plain.simps ser.simps wf_js.simps jnorm.simps)

lemma tabs_json_nonempty [simp]: "tabs_json ts \<noteq> []"
  using starts_value_ser [of "[]" "[]" "Arr (map Obj ts)"]
  by (simp add: tabs_json_def json_stringify_def starts_value_def)

text \<open>The state and what a reload would read from the local storage agree.\<close>

definition mirrors :: "layout_world \<Rightarrow> bool" where
  "mirrors w \<longleftrightarrow> (case w of (s, ls) \<Rightarrow>
     getDefaultSidebarCollapsed ls = sidebarCollapsed s \<and>
     getDefaultTabs ls = Some (tabs s) \<and>
     getDefaultActiveTabId ls = Some (activeTabId s) \<and>
     getDefaultMaxTabId ls = Some (maxTabId s) \<and>
     getDefaultChatbotSidebarVisible ls = chatbotSidebarVisible s \<and>
     getDefaultChatbotSidebarWidth ls = Some (chatbotSidebarWidth s) \<and>
     list_all plain_tab (tabs s))"

lemmas reader_defs = getDefaultSidebarCollapsed_def getDefaultTabs_def getDefaultActiveTabId_def
  getDefaultMaxTabId_def getDefaultChatbotSidebarVisible_def getDefaultChatbotSidebarWidth_def

fun plain_mutation :: "layout_mutation \<Rightarrow> bool" where
  "plain_mutation (SetTabs ts) = list_all plain_tab ts"
| "plain_mutation (AddTab t) = plain_tab t"
| "plain_mutation (UpdateTab t) = plain_tab t"
| "plain_mutation _ = True"

lemma plain_tab_aset: "plain_tab t \<Longrightarrow> plain v \<Longrightarrow> plain_tab (aset k v t)"
  unfolding plain_tab_def by (rule plain_aset)

lemma list_all_update: "list_all P xs \<Longrightarrow> P x \<Longrightarrow> list_all P (xs[i := x])"
  by (auto simp: list_all_iff dest: set_update_subset_insert [THEN subsetD])

lemma list_all_delete: "list_all P xs \<Longrightarrow> list_all P (take i xs)" "list_all P xs \<Longrightarrow> list_all P (drop j xs)"
  by (auto simp: list_all_iff dest: in_set_takeD in_set_dropD)

lemma mirrors_tabs:
  "mirrors (s, ls) \<Longrightarrow> list_all plain_tab ts \<Longrightarrow>
     mirrors (s\<lparr>tabs := ts\<rparr>, setItem ''tabs'' (tabs_json ts) ls)"
  by (simp add: mirrors_def reader_defs item_defs parse_tabs_json)

lemma mirrors_same: "mirrors (s, ls) \<Longrightarrow> mirrors (s, setItem ''tabs'' (tabs_json (tabs s)) ls)"
  by (simp add: mirrors_def reader_defs item_defs parse_tabs_json)

lemma mirrors_commit:
  assumes "mirrors w" and "plain_mutation m"
  shows "mirrors (commit_layout m w)"
proof -
  obtain s ls where w: "w = (s, ls)" by (cases w)
  have p: "list_all plain_tab (tabs s)" using assms(1) by (simp add: w mirrors_def)
  show ?thesis
  proof (cases m)
    case (SetSidebarCollapsed b)
    then show ?thesis using assms(1)
      by (auto simp: w mirrors_def reader_defs item_defs saveLocalStorage_def json_stringify_def)
  next
    case (SetTabs ts)
    then show ?thesis using assms mirrors_tabs [of s ls ts] by (simp add: w)
  next
    case (AddTab t)
    let ?id = "if tab_id t = Undef then maxTabId s + 1 else maxTabId s"
    let ?t = "if tab_id t = Undef then aset ''id'' (Num ?id) t else t"
    have "mirrors (s\<lparr>tabs := tabs s @ [?t]\<rparr>, setItem ''tabs'' (tabs_json (tabs s @ [?t])) ls)"
      using assms AddTab p by (intro mirrors_tabs) (auto simp: w plain_tab_aset)
    then show ?thesis
      by (simp add: AddTab w addTab_def Let_def mirrors_def reader_defs item_defs)
  next
    case (UpdateTab t)
    then show ?thesis using assms p
      by (auto simp: w updateTab_def Let_def list_all_update mirrors_same intro!: mirrors_tabs split: option.split)
  next
    case (RemoveTab t)
    then show ?thesis using assms p
      by (auto simp: w removeTab_def Let_def list_all_delete intro!: mirrors_tabs split: option.split)
  qed (use assms in \<open>auto simp: w mirrors_def reader_defs item_defs\<close>)
qed

lemma mirrors_init: "layout_init items ls = Some s \<Longrightarrow> mirrors (s, ls)"
proof -
  assume a: "layout_init items ls = Some s"
  have "list_all plain_tab ts" if "getDefaultTabs ls = Some ts" for ts
  proof -
    have o: "xs = map Obj ts" if "objects_of xs = Some ts" for xs
      using that by (induction xs arbitrary: ts) (auto simp: objects_of_def split: js.splits)
    then show ?thesis
      using that by (auto simp: getDefaultTabs_def plain_tabs dest!: json_parse_plain
          split: option.splits if_splits sum.splits js.splits)
  qed
  with a show ?thesis
    by (auto simp: layout_init_def mirrors_def split: option.splits)
qed

text \<open>
  C24: Reloading the page loses nothing: after any sequence of mutations on the state read from
  the local storage, reading the local storage again gives the same tabs, active tab, highest
  tab identifier, sidebar and chat sidebar settings.
\<close>

theorem layout_reload:
  assumes "layout_init items ls = Some s" and "list_all plain_mutation ms"
    and "fold commit_layout ms (s, ls) = (s', ls')"
  shows "\<exists>s''. layout_init items' ls' = Some s'' \<and> tabs s'' = tabs s' \<and> activeTabId s'' = activeTabId s' \<and>
    maxTabId s'' = maxTabId s' \<and> sidebarCollapsed s'' = sidebarCollapsed s' \<and>
    chatbotSidebarVisible s'' = chatbotSidebarVisible s' \<and> chatbotSidebarWidth s'' = chatbotSidebarWidth s'"
proof -
  have "mirrors w \<Longrightarrow> mirrors (fold commit_layout ms w)" for w
    using assms(2) by (induction ms arbitrary: w) (simp_all add: mirrors_commit)
  then have "mirrors (s', ls')" using mirrors_init [OF assms(1)] assms(3) by metis
  then show ?thesis by (simp add: layout_init_def mirrors_def)
qed

theorem layout_reload_witness:
  "\<exists>s s' ls' s''. layout_init [] Map.empty = Some s \<and>
    fold commit_layout [AddTab [(''path'', Str ''/home'')], SetActiveTabId 1, SetChatbotSidebarWidth 420] (s, Map.empty) = (s', ls') \<and>
    layout_init [] ls' = Some s'' \<and> tabs s'' = tabs s' \<and> activeTabId s'' = Some 1"
proof -
  obtain s where s: "layout_init [] Map.empty = Some s"
    by (simp add: layout_init_def reader_defs item_defs)
  let ?ms = "[AddTab [(''path'', Str ''/home'')], SetActiveTabId 1, SetChatbotSidebarWidth 420]"
  obtain s' ls' where w: "fold commit_layout ?ms (s, Map.empty) = (s', ls')" by fastforce
  then have "activeTabId s' = Some 1" by (auto simp: addTab_def Let_def)
  moreover have "list_all plain_mutation ?ms" by (simp add: plain_tab_def)
  ultimately show ?thesis using layout_reload [OF s _ w] s w by fastforce
qed

end
