(* ===== verification/UI_Tabs.thy ===== *)
theory UI_Tabs
  imports UI_Layout "HOL-Library.Multiset"
begin

text \<open>
  The tab bar: the order in which it shows the tabs (getter \<open>tabs\<close> of \<^verbatim>\<open>store/modules/layout.ts\<close>) and
  the event handlers of \<^verbatim>\<open>layouts/components/TabsView.vue\<close>, with the state machine of the events,
  page loads included, and its invariant.
\<close>

section \<open>Handlers of the tab bar\<close>

text \<open>
  A handler returns the new world and the path it pushes to the router, if any. \<open>None\<close> is the
  exception of \<open>setActiveTabId\<close> on a tab without identifier.
\<close>

definition setActiveTab :: "tab \<Rightarrow> layout_world \<Rightarrow> layout_world option" where
  "setActiveTab tab w =
     (case tab_id tab of Num ident \<Rightarrow> Some (commit_layout (SetActiveTabId ident) w) | _ \<Rightarrow> None)"

definition updateTabs :: "string \<Rightarrow> layout_world \<Rightarrow> layout_world" where
  "updateTabs path w =
     (case activeTab (fst w) of
        None \<Rightarrow> w
      | Some tab \<Rightarrow> commit_layout (UpdateTab (aset ''path'' (Str path) (hd (clone_tabs [tab])))) w)"

definition onMounted_tabs :: "string \<Rightarrow> layout_world \<Rightarrow> layout_world option" where
  "onMounted_tabs currentPath w =
     (case find (\<lambda>tab. tab_path tab = Str currentPath) (ordered_tabs (fst w)) of
        Some lastTab \<Rightarrow> setActiveTab lastTab w
      | None \<Rightarrow>
          (let w' = commit_layout (AddTab [(''path'', Str currentPath)]) w
           in setActiveTab (last (ordered_tabs (fst w'))) w'))"

definition onTabChange :: "int \<Rightarrow> layout_world \<Rightarrow> (layout_world \<times> js) option" where
  "onTabChange tabId w =
     map_option (\<lambda>w'. (w',
         js_or (case find (\<lambda>tab. tab_id tab = Num tabId) (ordered_tabs (fst w')) of
                  None \<Rightarrow> Undef | Some tab \<Rightarrow> tab_path tab) (Str ''/home'')))
       (setActiveTab [(''id'', Num tabId)] w)"

definition onTabRemove :: "int \<Rightarrow> layout_world \<Rightarrow> (layout_world \<times> js option) option" where
  "onTabRemove tabId w =
     (let ts = ordered_tabs (fst w) in
      if length ts = 1 then Some (updateTabs ''/home'' w, Some (Str ''/home''))
      else if activeTabId (fst w) = Some tabId then
        (case find_index (\<lambda>tab. tab_id tab = Num tabId) ts of
           None \<Rightarrow>
             (if ts = [] then Some (w, None)
              else map_option (\<lambda>w'. (commit_layout (RemoveTab [(''id'', Num tabId)]) w', Some (tab_path (ts ! 0))))
                     (setActiveTab (ts ! 0) w))
         | Some index \<Rightarrow>
             (if Suc index < length ts
              then map_option (\<lambda>w'. (commit_layout (RemoveTab [(''id'', Num tabId)]) w', Some (tab_path (ts ! Suc index))))
                     (setActiveTab (ts ! Suc index) w)
              else if 0 < index
              then map_option (\<lambda>w'. (commit_layout (RemoveTab [(''id'', Num tabId)]) w', Some (tab_path (ts ! (index - 1)))))
                     (setActiveTab (ts ! (index - 1)) w)
              else Some (w, None)))
      else Some (commit_layout (RemoveTab [(''id'', Num tabId)]) w, None))"

definition onTabAdd :: "layout_world \<Rightarrow> (layout_world \<times> js) option" where
  "onTabAdd w =
     (let w' = commit_layout (AddTab [(''path'', Str ''/home'')]) w;
          newTab = last (ordered_tabs (fst w'))
      in map_option (\<lambda>w''. (w'', tab_path newTab)) (setActiveTab newTab w'))"

section \<open>Ordering tabs while dragging\<close>

lemma clone_tabs_plain: "list_all plain_tab ts \<Longrightarrow> clone_tabs ts = ts"
  using plainClone_eq [of "Arr (map Obj ts)"] plain_wf [of "Arr (map Obj ts)"] jnorm_id [of "Arr (map Obj ts)"]
  by (simp add: clone_tabs_def comp_def plain_tabs del: plain.simps wf_js.simps jnorm.simps)

lemma mset_delete_nth: "i < length xs \<Longrightarrow> mset (take i xs @ drop (Suc i) xs) + {#xs ! i#} = mset xs"
  by (metis add_mset_add_single id_take_nth_drop mset.simps(2) mset_append union_mset_add_mset_right)

lemma insert_nth:
  "j \<le> length r \<Longrightarrow> (take j r @ x # drop j r) ! j = x"
  "mset (take j r @ x # drop j r) = mset r + {#x#}"
  by (simp_all add: nth_append) (metis append_take_drop_id mset_append)

text \<open>The tab bar shows the tabs in the stored order unless one is being dragged.\<close>

lemma ordered_tabs_idle: "draggingTab s = None \<Longrightarrow> ordered_tabs s = tabs s"
  by (simp add: ordered_tabs_def)

text \<open>
  While a tab is dragged over another, the tab bar shows a permutation of the tabs in which
  the dragged tab stands at the place of the target.
\<close>

theorem dragging_permutes:
  assumes "list_all plain_tab (tabs s)" and "distinct (map tab_id (tabs s))"
    and "draggingTab s = Some (tabs s ! i)" and "targetTab s = Some (tabs s ! j)"
    and "i < length (tabs s)" and "j < length (tabs s)"
  shows "mset (ordered_tabs s) = mset (tabs s) \<and> ordered_tabs s ! j = tabs s ! i"
proof -
  have at: "find_index (\<lambda>t. tab_id t = tab_id (tabs s ! k)) (tabs s) = Some k" if "k < length (tabs s)" for k
  proof (cases "find_index (\<lambda>t. tab_id t = tab_id (tabs s ! k)) (tabs s)")
    case None
    then show ?thesis using that by (auto simp: find_index_None)
  next
    case (Some m)
    have "m < length (tabs s)" "tab_id (tabs s ! m) = tab_id (tabs s ! k)"
      using find_index_Some [OF Some] by auto
    then have "m = k"
      using assms(2) that by (metis length_map nth_eq_iff_index_eq nth_map)
    with Some show ?thesis by simp
  qed
  let ?rest = "take i (tabs s) @ drop (Suc i) (tabs s)"
  have o: "ordered_tabs s = take j ?rest @ (tabs s ! i) # drop j ?rest"
    using assms at [of i] at [of j] by (simp add: ordered_tabs_def clone_tabs_plain Let_def)
  have "j \<le> length ?rest" using assms by simp
  then show ?thesis
    using mset_delete_nth [OF assms(5)] unfolding o insert_nth(2) by (simp only: insert_nth(1))
qed

theorem dragging_permutes_witness:
  "\<exists>s. map tab_path (tabs s) = [Str ''/a'', Str ''/b'', Str ''/c''] \<and>
    map tab_path (ordered_tabs s) = [Str ''/c'', Str ''/a'', Str ''/b''] \<and> mset (ordered_tabs s) = mset (tabs s)"
proof -
  obtain s0 where s0: "layout_init [] Map.empty = Some s0"
    by (simp add: layout_init_def reader_defs item_defs)
  let ?t = "\<lambda>n p. [(''id'', Num n), (''path'', Str p)]"
  let ?s = "s0\<lparr>tabs := [?t 1 ''/a'', ?t 2 ''/b'', ?t 3 ''/c''], draggingTab := Some (?t 3 ''/c''), targetTab := Some (?t 1 ''/a'')\<rparr>"
  have "mset (ordered_tabs ?s) = mset (tabs ?s) \<and> ordered_tabs ?s ! 0 = tabs ?s ! 2"
    by (rule dragging_permutes) (simp_all add: plain_tab_def tab_id_def)
  moreover have "clone_tabs (tabs ?s) = tabs ?s"
    by (rule clone_tabs_plain) (simp add: plain_tab_def)
  then have "map tab_path (ordered_tabs ?s) = [Str ''/c'', Str ''/a'', Str ''/b'']"
    by (simp add: ordered_tabs_def tab_id_def tab_path_def Let_def)
  ultimately show ?thesis by (intro exI [of _ ?s]) (simp add: tab_path_def)
qed

section \<open>The tab bar keeps an active tab\<close>

text \<open>
  The invariant of the tab bar: identifiers are distinct numbers up to the highest one given, no
  tab is being dragged, and the active tab is one of the tabs.
\<close>

definition tabs_wf :: "layout_state \<Rightarrow> bool" where
  "tabs_wf s \<longleftrightarrow>
     list_all plain_tab (tabs s) \<and>
     distinct (map tab_id (tabs s)) \<and>
     (\<forall>t \<in> set (tabs s). \<exists>i. tab_id t = Num i \<and> i \<le> maxTabId s) \<and>
     draggingTab s = None"

definition has_tab :: "layout_state \<Rightarrow> int \<Rightarrow> bool" where
  "has_tab s i \<longleftrightarrow> Num i \<in> tab_id ` set (tabs s)"

definition tabs_ok :: "layout_state \<Rightarrow> bool" where
  "tabs_ok s \<longleftrightarrow> tabs_wf s \<and> (\<exists>i. activeTabId s = Some i \<and> has_tab s i)"

lemma tab_id_simps [simp]:
  "tab_id ((''id'', v) # t) = v" "tab_id (aset ''id'' v t) = v"
  "tab_id (aset ''path'' v t) = tab_id t" "tab_id [] = Undef" "tab_id [(''path'', v)] = Undef"
  by (simp_all add: tab_id_def)

lemma has_tab_simps [simp]:
  "has_tab (s\<lparr>activeTabId := a\<rparr>) i = has_tab s i"
  "has_tab (s\<lparr>maxTabId := m\<rparr>) i = has_tab s i"
  by (simp_all add: has_tab_def)

lemma tabs_wf_active [simp]: "tabs_wf (s\<lparr>activeTabId := a\<rparr>) = tabs_wf s"
  by (simp add: tabs_wf_def)

lemma tabs_wf_ordered: "tabs_wf s \<Longrightarrow> ordered_tabs s = tabs s"
  by (simp add: tabs_wf_def ordered_tabs_idle)

lemma setActiveTab_wf:
  assumes "tabs_wf s" and "t \<in> set (tabs s)"
  shows "\<exists>w'. setActiveTab t (s, ls) = Some w' \<and> tabs_ok (fst w') \<and> tabs (fst w') = tabs s \<and>
    maxTabId (fst w') = maxTabId s \<and> activeTabId (fst w') \<noteq> None \<and> tab_id t = Num (the (activeTabId (fst w')))"
proof -
  obtain i where "tab_id t = Num i" using assms by (auto simp: tabs_wf_def)
  with assms show ?thesis
    by (auto simp: setActiveTab_def tabs_ok_def has_tab_def intro: rev_image_eqI)
qed

lemma addTab_wf:
  assumes "tabs_wf s" and "tab_id t = Undef" and "plain_tab t"
  shows "tabs_wf (fst (addTab t (s, ls))) \<and>
    tabs (fst (addTab t (s, ls))) = tabs s @ [aset ''id'' (Num (maxTabId s + 1)) t]"
proof -
  have fresh: "Num (maxTabId s + 1) \<notin> tab_id ` set (tabs s)"
    using assms(1) by (fastforce simp: tabs_wf_def)
  moreover have "\<forall>u \<in> set (tabs s). \<exists>i. tab_id u = Num i \<and> i \<le> maxTabId s + 1"
    using assms(1) by (fastforce simp: tabs_wf_def)
  ultimately show ?thesis
    using assms by (auto simp: addTab_def Let_def tabs_wf_def plain_tab_aset)
qed

lemma map_update_same: "i < length xs \<Longrightarrow> f y = f (xs ! i) \<Longrightarrow> map f (xs[i := y]) = map f xs"
  by (simp add: map_update list_update_same_conv)

lemma updateTabs_ok:
  assumes "tabs_ok s"
  shows "tabs_ok (fst (updateTabs path (s, ls))) \<and> map tab_id (tabs (fst (updateTabs path (s, ls)))) = map tab_id (tabs s)"
proof -
  obtain i where wf: "tabs_wf s" and i: "activeTabId s = Some i" "has_tab s i"
    using assms by (auto simp: tabs_ok_def)
  obtain t where t: "find (\<lambda>d. tab_id d = Num i) (tabs s) = Some t"
    using i(2) by (cases "find (\<lambda>d. tab_id d = Num i) (tabs s)") (auto simp: has_tab_def find_None_iff)
  then have tt: "t \<in> set (tabs s)" "tab_id t = Num i" by (auto simp: find_Some_iff)
  have pt: "plain_tab t" using wf tt by (auto simp: tabs_wf_def list_all_iff)
  let ?u = "aset ''path'' (Str path) t"
  obtain k where k: "find_index (\<lambda>d. tab_id d = Num i) (tabs s) = Some k"
    using tt by (cases "find_index (\<lambda>d. tab_id d = Num i) (tabs s)") (auto simp: find_index_None)
  have kk: "k < length (tabs s)" "tab_id (tabs s ! k) = Num i" using find_index_Some [OF k] by auto
  let ?ts = "(tabs s)[k := ?u]"
  have s': "fst (updateTabs path (s, ls)) = s\<lparr>tabs := ?ts\<rparr>"
    using t i tt k pt by (simp add: updateTabs_def activeTab_def clone_tabs_plain updateTab_def Let_def)
  have m: "map tab_id ?ts = map tab_id (tabs s)" using kk tt by (intro map_update_same) simp_all
  then have im: "tab_id ` set ?ts = tab_id ` set (tabs s)" by (metis list.set_map)
  have "\<exists>j. tab_id x = Num j \<and> j \<le> maxTabId s" if "x \<in> set ?ts" for x
  proof -
    have "tab_id x \<in> tab_id ` set (tabs s)" using that im by blast
    with wf show ?thesis by (fastforce simp: tabs_wf_def)
  qed
  moreover have "list_all plain_tab ?ts"
    using wf pt by (intro list_all_update) (simp_all add: tabs_wf_def plain_tab_aset)
  ultimately show ?thesis
    using wf m im i by (simp add: s' tabs_ok_def tabs_wf_def has_tab_def)
qed

lemma removeTab_wf:
  assumes "tabs_wf s"
  shows "tabs_wf (fst (removeTab [(''id'', Num i)] (s, ls))) \<and>
    tab_id ` set (tabs (fst (removeTab [(''id'', Num i)] (s, ls)))) = tab_id ` set (tabs s) - {Num i} \<and>
    activeTabId (fst (removeTab [(''id'', Num i)] (s, ls))) = activeTabId s"
proof (cases "find_index (\<lambda>d. tab_id d = Num i) (tabs s)")
  case None
  then have "Num i \<notin> tab_id ` set (tabs s)" by (auto simp: find_index_None)
  with None assms show ?thesis by (simp add: removeTab_def)
next
  case (Some k)
  let ?ts = "take k (tabs s) @ drop (Suc k) (tabs s)"
  have k: "k < length (tabs s)" "tab_id (tabs s ! k) = Num i" using find_index_Some [OF Some] by auto
  have split: "tabs s = take k (tabs s) @ tabs s ! k # drop (Suc k) (tabs s)"
    by (rule id_take_nth_drop [OF k(1)])
  have d: "distinct (map tab_id (take k (tabs s) @ tabs s ! k # drop (Suc k) (tabs s)))"
    using assms split by (simp add: tabs_wf_def)
  have "set (tabs s) = insert (tabs s ! k) (set ?ts)"
    by (subst split) auto
  then have "tab_id ` set (tabs s) = insert (Num i) (tab_id ` set ?ts)" using k(2) by simp
  moreover have "Num i \<notin> tab_id ` set ?ts" using d k(2) by (simp add: image_Un)
  ultimately have "tab_id ` set ?ts = tab_id ` set (tabs s) - {Num i}" by blast
  moreover have "set ?ts \<subseteq> set (tabs s)" by (auto dest: in_set_takeD in_set_dropD)
  then have "tabs_wf (s\<lparr>tabs := ?ts\<rparr>)"
    using assms d by (auto simp: tabs_wf_def list_all_iff)
  ultimately show ?thesis using Some by (simp add: removeTab_def Let_def)
qed

lemma onTabAdd_ok:
  assumes "tabs_ok s"
  shows "\<exists>w'. onTabAdd (s, ls) = Some (w', Str ''/home'') \<and> tabs_ok (fst w') \<and>
    length (tabs (fst w')) = Suc (length (tabs s))"
proof -
  let ?t = "[(''path'', Str ''/home'')]"
  let ?w = "addTab ?t (s, ls)"
  have wf: "tabs_wf s" using assms by (simp add: tabs_ok_def)
  have a: "tabs_wf (fst ?w)" "tabs (fst ?w) = tabs s @ [aset ''id'' (Num (maxTabId s + 1)) ?t]"
    using addTab_wf [OF wf, of ?t ls] by (simp_all add: plain_tab_def)
  let ?new = "aset ''id'' (Num (maxTabId s + 1)) ?t"
  have "?new \<in> set (tabs (fst ?w))" by (simp add: a(2))
  from setActiveTab_wf [OF a(1) this, of "snd ?w"] obtain w' where
    "setActiveTab ?new ?w = Some w'" "tabs_ok (fst w')" "tabs (fst w') = tabs (fst ?w)"
    by auto
  moreover have "last (ordered_tabs (fst ?w)) = ?new"
    using tabs_wf_ordered [OF a(1)] a(2) by simp
  moreover have "tab_path ?new = Str ''/home''" by (simp add: tab_path_def)
  ultimately show ?thesis using a(2) by (simp add: onTabAdd_def Let_def)
qed

lemma onMounted_ok:
  assumes "tabs_wf s"
  shows "\<exists>w'. onMounted_tabs path (s, ls) = Some w' \<and> tabs_ok (fst w')"
proof (cases "find (\<lambda>tab. tab_path tab = Str path) (tabs s)")
  case (Some t)
  then have "t \<in> set (tabs s)" by (auto simp: find_Some_iff)
  from setActiveTab_wf [OF assms this, of ls] Some show ?thesis
    by (auto simp: onMounted_tabs_def tabs_wf_ordered [OF assms])
next
  case None
  let ?t = "[(''path'', Str path)]"
  let ?w = "addTab ?t (s, ls)" and ?new = "aset ''id'' (Num (maxTabId s + 1)) ?t"
  have a: "tabs_wf (fst ?w)" "tabs (fst ?w) = tabs s @ [?new]"
    using addTab_wf [OF assms, of ?t ls] by (simp_all add: plain_tab_def)
  have "?new \<in> set (tabs (fst ?w))" by (simp add: a(2))
  from setActiveTab_wf [OF a(1) this, of "snd ?w"] obtain w' where
    "setActiveTab ?new ?w = Some w'" "tabs_ok (fst w')" by auto
  moreover have "last (ordered_tabs (fst ?w)) = ?new"
    using tabs_wf_ordered [OF a(1)] a(2) by simp
  ultimately show ?thesis
    using None by (simp add: onMounted_tabs_def tabs_wf_ordered [OF assms] Let_def)
qed

lemma onTabChange_ok:
  assumes "tabs_ok s" and "has_tab s i"
  shows "\<exists>w' p. onTabChange i (s, ls) = Some (w', p) \<and> tabs_ok (fst w') \<and> tabs (fst w') = tabs s \<and>
    activeTabId (fst w') = Some i"
  using assms by (simp add: onTabChange_def setActiveTab_def tabs_ok_def)

lemma switch_and_remove_ok:
  assumes "tabs_ok s" and "t \<in> set (tabs s)" and "tab_id t \<noteq> Num i"
  shows "\<exists>w'. setActiveTab t (s, ls) = Some w' \<and>
    tabs_ok (fst (removeTab [(''id'', Num i)] w')) \<and>
    tab_id ` set (tabs (fst (removeTab [(''id'', Num i)] w'))) = tab_id ` set (tabs s) - {Num i}"
proof -
  have wf: "tabs_wf s" using assms(1) by (simp add: tabs_ok_def)
  obtain w' where w': "setActiveTab t (s, ls) = Some w'" "tabs_ok (fst w')" "tabs (fst w') = tabs s"
    "activeTabId (fst w') \<noteq> None" "tab_id t = Num (the (activeTabId (fst w')))"
    using setActiveTab_wf [OF wf assms(2)] by blast
  then have wf': "tabs_wf (fst w')" by (simp add: tabs_ok_def)
  note r = removeTab_wf [OF wf', of i "snd w'"]
  have "has_tab (fst (removeTab [(''id'', Num i)] w')) (the (activeTabId (fst w')))"
    using r w'(3) assms(2,3) unfolding has_tab_def w'(5) [symmetric] by simp
  then show ?thesis using w' r by (auto simp: tabs_ok_def)
qed

lemma onTabRemove_ok:
  assumes ok: "tabs_ok s" and i: "has_tab s i"
  shows "\<exists>w' p. onTabRemove i (s, ls) = Some (w', p) \<and> tabs_ok (fst w') \<and>
    tab_id ` set (tabs (fst w')) = (if length (tabs s) = 1 then {Num i} else tab_id ` set (tabs s) - {Num i})"
proof -
  have wf: "tabs_wf s" using ok by (simp add: tabs_ok_def)
  have o: "ordered_tabs s = tabs s" by (rule tabs_wf_ordered [OF wf])
  consider (one) "length (tabs s) = 1" | (active) "length (tabs s) \<noteq> 1" "activeTabId s = Some i"
    | (other) "length (tabs s) \<noteq> 1" "activeTabId s \<noteq> Some i" by blast
  then show ?thesis
  proof cases
    case one
    have u: "tabs_ok (fst (updateTabs ''/home'' (s, ls)))"
      "map tab_id (tabs (fst (updateTabs ''/home'' (s, ls)))) = map tab_id (tabs s)"
      using updateTabs_ok [OF ok] by auto
    obtain t0 where "tabs s = [t0]" using one by (cases "tabs s") auto
    then have "set (map tab_id (tabs (fst (updateTabs ''/home'' (s, ls))))) = {Num i}"
      unfolding u(2) using i by (simp add: has_tab_def)
    then have "tab_id ` set (tabs (fst (updateTabs ''/home'' (s, ls)))) = {Num i}" by simp
    with u one show ?thesis by (simp add: onTabRemove_def o Let_def)
  next
    case active
    obtain k where k: "find_index (\<lambda>tab. tab_id tab = Num i) (tabs s) = Some k"
      using i by (cases "find_index (\<lambda>tab. tab_id tab = Num i) (tabs s)") (auto simp: find_index_None has_tab_def)
    have kk: "k < length (tabs s)" "tab_id (tabs s ! k) = Num i" using find_index_Some [OF k] by auto
    have d: "distinct (map tab_id (tabs s))" using wf by (simp add: tabs_wf_def)
    have other: "tabs s ! j \<in> set (tabs s) \<and> tab_id (tabs s ! j) \<noteq> Num i" if "j < length (tabs s)" "j \<noteq> k" for j
      using that kk d by (metis length_map nth_eq_iff_index_eq nth_map nth_mem)
    let ?n = "if Suc k < length (tabs s) then Suc k else k - 1"
    have "?n < length (tabs s)" "?n \<noteq> k" using active(1) kk(1) by (auto split: if_splits)
    from other [OF this] obtain w' where w': "setActiveTab (tabs s ! ?n) (s, ls) = Some w'"
      "tabs_ok (fst (removeTab [(''id'', Num i)] w'))"
      "tab_id ` set (tabs (fst (removeTab [(''id'', Num i)] w'))) = tab_id ` set (tabs s) - {Num i}"
      using switch_and_remove_ok [OF ok, of "tabs s ! ?n" i ls] by blast
    have "onTabRemove i (s, ls) = Some (removeTab [(''id'', Num i)] w', Some (tab_path (tabs s ! ?n)))"
    proof (cases "Suc k < length (tabs s)")
      case True
      then show ?thesis using active k w'(1) by (simp add: onTabRemove_def o Let_def)
    next
      case False
      then have "0 < k" using active(1) kk(1) by auto
      then show ?thesis using False active k w'(1) by (simp add: onTabRemove_def o Let_def)
    qed
    with w' active show ?thesis by auto
  next
    case other
    have r: "tabs_wf (fst (removeTab [(''id'', Num i)] (s, ls)))"
      "tab_id ` set (tabs (fst (removeTab [(''id'', Num i)] (s, ls)))) = tab_id ` set (tabs s) - {Num i}"
      "activeTabId (fst (removeTab [(''id'', Num i)] (s, ls))) = activeTabId s"
      using removeTab_wf [OF wf] by auto
    then have "tabs_ok (fst (removeTab [(''id'', Num i)] (s, ls)))"
      using ok other by (auto simp: tabs_ok_def has_tab_def)
    with r other show ?thesis by (simp add: onTabRemove_def o Let_def)
  qed
qed

section \<open>The tab bar as a state machine\<close>

text \<open>
  The events of the tab bar: the page shows another path, or the user selects, closes or adds a
  tab. The component reports selecting and closing only for the tabs it shows. The tab bar is mounted
  when the program starts in a window whose storage is empty or was written by this machine, and again
  when the user comes back from the login page; other windows do not write the storage meanwhile.
\<close>

datatype tab_event = Navigate string | Select int | Close int | Add

definition tab_enabled :: "tab_event \<Rightarrow> layout_state \<Rightarrow> bool" where
  "tab_enabled e s = (case e of Select i \<Rightarrow> has_tab s i | Close i \<Rightarrow> has_tab s i | _ \<Rightarrow> True)"

definition tab_step :: "tab_event \<Rightarrow> layout_world \<Rightarrow> layout_world option" where
  "tab_step e w =
     (case e of
        Navigate path \<Rightarrow> Some (updateTabs path w)
      | Select i \<Rightarrow> map_option fst (onTabChange i w)
      | Close i \<Rightarrow> map_option fst (onTabRemove i w)
      | Add \<Rightarrow> map_option fst (onTabAdd w))"

inductive tabs_reachable :: "layout_world \<Rightarrow> bool" where
  first_visit:
    "layout_init items Map.empty = Some s \<Longrightarrow> onMounted_tabs path (s, Map.empty) = Some w \<Longrightarrow> tabs_reachable w"
| reload:
    "tabs_reachable (s, ls) \<Longrightarrow> layout_init items ls = Some s' \<Longrightarrow> onMounted_tabs path (s', ls) = Some w \<Longrightarrow>
     tabs_reachable w"
| remount:
    "tabs_reachable w \<Longrightarrow> onMounted_tabs path w = Some w' \<Longrightarrow> tabs_reachable w'"
| event:
    "tabs_reachable w \<Longrightarrow> tab_enabled e (fst w) \<Longrightarrow> tab_step e w = Some w' \<Longrightarrow> tabs_reachable w'"

lemma mirrors_setActiveTab: "mirrors w \<Longrightarrow> setActiveTab t w = Some w' \<Longrightarrow> mirrors w'"
  using mirrors_commit [of w] by (auto simp: setActiveTab_def split: js.splits)

lemma mirrors_step:
  assumes "mirrors w" and "tabs_ok (fst w)" and "tab_step e w = Some w'"
  shows "mirrors w'"
proof -
  obtain s ls where w: "w = (s, ls)" by (cases w)
  have add: "mirrors (addTab [(''path'', Str p)] w)" for p
    using mirrors_commit [OF assms(1), of "AddTab [(''path'', Str p)]"] by (simp add: plain_tab_def)
  have rem: "mirrors v \<Longrightarrow> removeTab [(''id'', Num i)] v = v' \<Longrightarrow> mirrors v'" for v v' i
    using mirrors_commit [of v "RemoveTab [(''id'', Num i)]"] by auto
  have upd: "mirrors (updateTabs path w)" for path
  proof (cases "activeTab (fst w)")
    case (Some t)
    then have "t \<in> set (tabs s)" by (auto simp: w activeTab_def find_Some_iff split: option.splits)
    then have p: "plain_tab t" using assms(1) by (auto simp: w mirrors_def list_all_iff)
    then have "plain_mutation (UpdateTab (aset ''path'' (Str path) (hd (clone_tabs [t]))))"
      by (simp add: clone_tabs_plain plain_tab_aset)
    from mirrors_commit [OF assms(1) this] show ?thesis by (simp add: updateTabs_def Some)
  qed (simp add: updateTabs_def assms(1))
  show ?thesis
  proof (cases e)
    case (Navigate path)
    then show ?thesis using assms(3) upd by (auto simp: tab_step_def)
  next
    case (Select i)
    then show ?thesis using assms(3)
      by (auto simp: tab_step_def onTabChange_def dest: mirrors_setActiveTab [OF assms(1)])
  next
    case (Close i)
    then show ?thesis using assms(1,3) upd [of "''/home''"]
      by (auto simp: tab_step_def onTabRemove_def Let_def split: if_splits option.splits
          intro: rem dest: mirrors_setActiveTab [OF assms(1)])
  next
    case Add
    then show ?thesis using assms(3)
      by (auto simp: tab_step_def onTabAdd_def Let_def dest: mirrors_setActiveTab [OF add])
  qed
qed

lemma mirrors_mounted: "mirrors w \<Longrightarrow> onMounted_tabs path w = Some w' \<Longrightarrow> mirrors w'"
  using mirrors_commit [of w "AddTab [(''path'', Str path)]"] mirrors_setActiveTab
  by (auto simp: onMounted_tabs_def Let_def plain_tab_def split: option.splits)

lemma step_ok:
  assumes "tabs_ok s" and "tab_enabled e s"
  shows "\<exists>w'. tab_step e (s, ls) = Some w' \<and> tabs_ok (fst w')"
  using assms updateTabs_ok [of s _ ls] onTabChange_ok [of s _ ls] onTabRemove_ok [of s _ ls] onTabAdd_ok [of s ls]
  by (cases e) (fastforce simp: tab_step_def tab_enabled_def)+

lemma reachable_ok: "tabs_reachable w \<Longrightarrow> tabs_ok (fst w) \<and> mirrors w"
proof (induction rule: tabs_reachable.induct)
  case (first_visit items s path w)
  have "tabs_wf s" using first_visit.hyps(1) by (auto simp: layout_init_def reader_defs item_defs tabs_wf_def)
  from onMounted_ok [OF this, of path Map.empty] first_visit.hyps(2) have "tabs_ok (fst w)" by auto
  moreover have "mirrors w"
    using mirrors_init [OF first_visit.hyps(1)] first_visit.hyps(2) by (rule mirrors_mounted)
  ultimately show ?case by blast
next
  case (reload s ls items s' path w)
  then have "tabs s' = tabs s" "maxTabId s' = maxTabId s" "draggingTab s' = None"
    by (auto simp: mirrors_def layout_init_def)
  then have "tabs_wf s'" using reload.IH by (simp add: tabs_ok_def tabs_wf_def)
  from onMounted_ok [OF this, of path ls] reload.hyps have "tabs_ok (fst w)" by auto
  moreover have "mirrors w"
    using mirrors_init [OF reload.hyps(2)] reload.hyps(3) by (rule mirrors_mounted)
  ultimately show ?case by blast
next
  case (remount w path w')
  then have "tabs_wf (fst w)" by (simp add: tabs_ok_def)
  from onMounted_ok [OF this, of path "snd w"] remount.hyps(2) have "tabs_ok (fst w')" by auto
  with remount show ?case by (blast intro: mirrors_mounted)
next
  case (event w e w')
  then show ?case using step_ok [of "fst w" e "snd w"] mirrors_step [of w e w'] by auto
qed

text \<open>
  C22: In one window, whatever the user does with the tabs, however often the page is reloaded or the
  tab bar mounted again, tab identifiers stay distinct numbers not above the highest one given, the
  active tab is one of the tabs (so the bar is never empty), no event and no mount raises an exception,
  and a reload reads back the same tabs, the same active tab and the same highest identifier.
\<close>

theorem tab_bar_safe:
  assumes "tabs_reachable (s, ls)"
  shows "distinct (map tab_id (tabs s)) \<and> (\<forall>t \<in> set (tabs s). \<exists>i. tab_id t = Num i \<and> i \<le> maxTabId s) \<and>
    (\<exists>t. activeTab s = Some t \<and> t \<in> set (tabs s)) \<and>
    (\<forall>e. tab_enabled e s \<longrightarrow> tab_step e (s, ls) \<noteq> None) \<and> (\<forall>path. onMounted_tabs path (s, ls) \<noteq> None) \<and>
    (\<exists>s'. layout_init items ls = Some s' \<and> tabs s' = tabs s \<and> activeTabId s' = activeTabId s \<and> maxTabId s' = maxTabId s)"
proof (intro conjI allI impI)
  have ok: "tabs_ok s" and m: "mirrors (s, ls)" using reachable_ok [OF assms] by auto
  then have wf: "tabs_wf s" by (simp add: tabs_ok_def)
  then show "distinct (map tab_id (tabs s))" "\<forall>t \<in> set (tabs s). \<exists>i. tab_id t = Num i \<and> i \<le> maxTabId s"
    by (simp_all add: tabs_wf_def)
  obtain i where i: "activeTabId s = Some i" "has_tab s i" using ok by (auto simp: tabs_ok_def)
  then obtain t where "find (\<lambda>d. tab_id d = Num i) (tabs s) = Some t"
    by (cases "find (\<lambda>d. tab_id d = Num i) (tabs s)") (auto simp: has_tab_def find_None_iff)
  with i show "\<exists>t. activeTab s = Some t \<and> t \<in> set (tabs s)"
    by (auto simp: activeTab_def find_Some_iff)
  show "tab_step e (s, ls) \<noteq> None" if "tab_enabled e s" for e
    using step_ok [OF ok that, of ls] by auto
  show "onMounted_tabs path (s, ls) \<noteq> None" for path using onMounted_ok [OF wf, of path ls] by auto
  show "\<exists>s'. layout_init items ls = Some s' \<and> tabs s' = tabs s \<and> activeTabId s' = activeTabId s \<and> maxTabId s' = maxTabId s"
    using m by (simp add: layout_init_def mirrors_def)
qed

text \<open>A run: open the page, add a tab, close the first one, reload.\<close>

theorem tab_bar_safe_witness:
  "\<exists>s ls. tabs_reachable (s, ls) \<and> map tab_path (tabs s) = [Str ''/home''] \<and>
    map tab_id (tabs s) = [Num 2] \<and> (\<exists>t. activeTab s = Some t \<and> t \<in> set (tabs s))"
proof -
  obtain s0 where s0: "layout_init [] Map.empty = Some s0" and t0: "tabs s0 = []" "maxTabId s0 = 0" "draggingTab s0 = None"
    by (simp add: layout_init_def reader_defs item_defs)
  obtain w1 where w1: "onMounted_tabs ''/nodes'' (s0, Map.empty) = Some w1"
    "tabs (fst w1) = [[(''path'', Str ''/nodes''), (''id'', Num 1)]]" "maxTabId (fst w1) = 1" "draggingTab (fst w1) = None"
    using t0 by (simp add: onMounted_tabs_def ordered_tabs_idle addTab_def Let_def setActiveTab_def tab_id_def)
  have r1: "tabs_reachable w1" using s0 w1(1) by (rule tabs_reachable.first_visit)
  obtain w2 where w2: "tab_step Add w1 = Some w2" "tabs (fst w2) = [[(''path'', Str ''/nodes''), (''id'', Num 1)], [(''path'', Str ''/home''), (''id'', Num 2)]]"
    "draggingTab (fst w2) = None" "activeTabId (fst w2) = Some 2"
    using w1 by (cases w1) (simp add: tab_step_def onTabAdd_def ordered_tabs_idle addTab_def Let_def setActiveTab_def tab_id_def tab_path_def)
  have r2: "tabs_reachable w2" using r1 _ w2(1) by (rule tabs_reachable.event) (simp add: tab_enabled_def)
  obtain w3 where w3: "tab_step (Close 1) w2 = Some w3" "tabs (fst w3) = [[(''path'', Str ''/home''), (''id'', Num 2)]]"
    using w2 by (cases w2) (simp add: tab_step_def onTabRemove_def ordered_tabs_idle removeTab_def Let_def tab_id_def)
  have "tab_enabled (Close 1) (fst w2)" by (simp add: tab_enabled_def has_tab_def w2 tab_id_def)
  then have r3: "tabs_reachable w3" using r2 w3(1) by (blast intro: tabs_reachable.event)
  then have "\<exists>t. activeTab (fst w3) = Some t \<and> t \<in> set (tabs (fst w3))"
    using tab_bar_safe [of "fst w3" "snd w3"] by simp
  with r3 w3(2) show ?thesis
    by (intro exI [of _ "fst w3"] exI [of _ "snd w3"]) (simp add: tab_id_def tab_path_def)
qed

end
