(* ===== verification/UI_Access.thy ===== *)
theory UI_Access
  imports UI_Layout
begin

text \<open>
  Who sees what: the token in the local storage, the guard of the router, the routes a user is
  allowed (\<^verbatim>\<open>utils/auth.ts\<close>, \<^verbatim>\<open>router/hooks/auth.ts\<close>) and the sidebar menu
  (\<^verbatim>\<open>store/modules/layout.ts\<close>, \<^verbatim>\<open>router/index.ts\<close>).
\<close>

section \<open>The navigation guard\<close>

text \<open>
  \<open>getToken\<close> and \<open>setToken\<close> of \<^verbatim>\<open>utils/auth.ts\<close> and the guard of \<^verbatim>\<open>router/hooks/auth.ts\<close>. The guard
  returns where the navigation goes and what it did on the way: called the hooks of the options,
  showed the notification.
\<close>

definition getToken :: "local_storage \<Rightarrow> string option" where
  "getToken ls = getItem ''token'' ls"

definition setToken :: "string \<Rightarrow> local_storage \<Rightarrow> local_storage" where
  "setToken token ls = setItem ''token'' token ls"

datatype nav_result = Proceed | Redirect string

datatype guard_event = BeforeEach | NotifyUnauthorized | AfterEach

record router_auth_options =
  has_beforeEachFn :: bool
  validateFn :: "(string \<Rightarrow> string \<Rightarrow> bool) option"
  has_afterEachFn :: bool

definition ANOMALOUS_ROUTES :: "string list" where
  "ANOMALOUS_ROUTES = [''/login'']"

definition no_token :: "local_storage \<Rightarrow> bool" where
  "no_token ls \<longleftrightarrow> getToken ls = None \<or> getToken ls = Some []"

definition router_guard ::
    "router_auth_options option \<Rightarrow> local_storage \<Rightarrow> string \<Rightarrow> string \<Rightarrow> nav_result \<times> guard_event list" where
  "router_guard options ls to from =
     (let before = (case options of None \<Rightarrow> [] | Some opts \<Rightarrow> if has_beforeEachFn opts then [BeforeEach] else []);
          after = (case options of None \<Rightarrow> [] | Some opts \<Rightarrow> if has_afterEachFn opts then [AfterEach] else []);
          invalid = (case options of None \<Rightarrow> False
                     | Some opts \<Rightarrow> (case validateFn opts of None \<Rightarrow> False | Some fn \<Rightarrow> \<not> fn to from))
      in if to \<in> set ANOMALOUS_ROUTES then (Proceed, before)
         else if no_token ls \<or> invalid then (Redirect ''/login'', before @ [NotifyUnauthorized])
         else (Proceed, before @ after))"

text \<open>A redirected navigation is guarded again.\<close>

fun settle :: "nat \<Rightarrow> router_auth_options option \<Rightarrow> local_storage \<Rightarrow> string \<Rightarrow> string \<Rightarrow> string option" where
  "settle 0 options ls to from = None"
| "settle (Suc n) options ls to from =
     (case fst (router_guard options ls to from) of
        Proceed \<Rightarrow> Some to
      | Redirect p \<Rightarrow> settle n options ls p from)"

text \<open>
  Without a valid session every navigation ends at the login page: it settles after at most
  one redirection, at the requested page only if there is a token and the validation accepts it
  or the page is the login page.
\<close>

theorem guard_settles:
  "settle (Suc (Suc n)) options ls to from =
     Some (if to = ''/login'' \<or> (\<not> no_token ls \<and>
             (case options of None \<Rightarrow> True | Some opts \<Rightarrow>
               (case validateFn opts of None \<Rightarrow> True | Some fn \<Rightarrow> fn to from)))
           then to else ''/login'')"
  by (auto simp: router_guard_def Let_def ANOMALOUS_ROUTES_def split: option.splits)

section \<open>The sidebar menu\<close>

text \<open>
  \<open>isPro\<close>, \<open>isAllowedRoutePath\<close> of \<^verbatim>\<open>utils/auth.ts\<close> and the getter \<open>sidebarMenuItems\<close>. What they read of
  the store \<open>common\<close> is the record \<open>session_info\<close>. Icons and badges of the items are left out.
\<close>

record user_info =
  root_admin :: bool
  user_routes :: "string list option"

record session_info =
  pro_edition :: bool
  me :: "user_info option"

definition isAllowedRoutePath :: "session_info \<Rightarrow> string \<Rightarrow> bool" where
  "isAllowedRoutePath c path =
     (if \<not> pro_edition c then True
      else (case me c of
              None \<Rightarrow> False
            | Some u \<Rightarrow> if root_admin u then True
                else (case user_routes u of None \<Rightarrow> False | Some rs \<Rightarrow> path \<in> set rs)))"

definition edition_filter :: "session_info \<Rightarrow> menu_item \<Rightarrow> bool" where
  "edition_filter c d =
     (case mi_path d of
        None \<Rightarrow> False
      | Some p \<Rightarrow>
          if p = [] then False
          else if pro_edition c then mi_title d \<notin> {''router.menuItems.users''}
          else if p \<in> {''/notifications'', ''/environments'', ''/system'', ''/deps'', ''/gits'', ''/databases'', ''/dependencies''}
          then False
          else list_all (\<lambda>key. \<not> str_includes key (mi_title d)) [''usersManagement''])"

definition path_of :: "menu_item \<Rightarrow> string" where
  "path_of d = (case mi_path d of None \<Rightarrow> ''undefined'' | Some p \<Rightarrow> p)"

definition sidebarMenuItems :: "session_info \<Rightarrow> layout_state \<Rightarrow> menu_item list" where
  "sidebarMenuItems c s =
     map (\<lambda>d. MenuItem (mi_title d) (mi_path d) (mi_hidden d)
                (map_option (filter (\<lambda>ch. isAllowedRoutePath c (path_of ch))) (mi_children d)))
       (filter (\<lambda>d. isAllowedRoutePath c (path_of d) \<or>
                    (case mi_children d of None \<Rightarrow> False
                     | Some cs \<Rightarrow> list_ex (\<lambda>ch. isAllowedRoutePath c (path_of ch)) cs))
         (filter (\<lambda>d. case navVisibleFn s of None \<Rightarrow> True
                      | Some fn \<Rightarrow> (case mi_path d of None \<Rightarrow> True | Some p \<Rightarrow> p = [] \<or> fn p))
           (filter (edition_filter c)
             (filter (\<lambda>d. \<not> mi_hidden d) (menuItems s)))))"

definition item :: "string \<Rightarrow> string \<Rightarrow> menu_item" where
  "item p t = MenuItem t (Some p) False None"

definition getDefaultSidebarMenuItems :: "menu_item list" where
  "getDefaultSidebarMenuItems =
     [item ''/home'' ''router.menuItems.home'',
      item ''/nodes'' ''router.menuItems.nodes'',
      item ''/projects'' ''router.menuItems.projects'',
      item ''/spiders'' ''router.menuItems.spiders'',
      item ''/schedules'' ''router.menuItems.schedules'',
      item ''/tasks'' ''router.menuItems.tasks'',
      item ''/gits'' ''router.menuItems.git'',
      item ''/databases'' ''router.menuItems.databases'',
      item ''/dependencies'' ''router.menuItems.dependencies'',
      MenuItem ''router.menuItems.notification.title'' (Some ''/notifications'') False
        (Some [item ''/notifications/settings'' ''router.menuItems.notification.settings'',
               item ''/notifications/channels'' ''router.menuItems.notification.channels'',
               item ''/notifications/alerts'' ''router.menuItems.notification.alerts'',
               item ''/notifications/requests'' ''router.menuItems.notification.requests'']),
      item ''/users'' ''router.menuItems.users'',
      MenuItem ''router.menuItems.permissions.title'' (Some ''/permissions'') False
        (Some [item ''/users'' ''router.menuItems.permissions.children.users'',
               item ''/roles'' ''router.menuItems.permissions.children.roles'']),
      item ''/system'' ''router.menuItems.system'']"

lemma sidebar_subset:
  assumes "d \<in> set (sidebarMenuItems c s)"
  shows "\<exists>d0 \<in> set (menuItems s). \<not> mi_hidden d0 \<and> edition_filter c d0 \<and>
    mi_title d = mi_title d0 \<and> mi_path d = mi_path d0 \<and>
    (isAllowedRoutePath c (path_of d0) \<or> (\<exists>cs. mi_children d = Some cs \<and> cs \<noteq> [])) \<and>
    (\<forall>cs ch. mi_children d = Some cs \<longrightarrow> ch \<in> set cs \<longrightarrow> isAllowedRoutePath c (path_of ch))"
proof -
  let ?ok = "\<lambda>ch. isAllowedRoutePath c (path_of ch)"
  obtain d0 where d0: "d0 \<in> set (menuItems s)" "\<not> mi_hidden d0" "edition_filter c d0"
    "?ok d0 \<or> (case mi_children d0 of None \<Rightarrow> False | Some cs \<Rightarrow> list_ex ?ok cs)"
    and d: "d = MenuItem (mi_title d0) (mi_path d0) (mi_hidden d0) (map_option (filter ?ok) (mi_children d0))"
    using assms unfolding sidebarMenuItems_def set_map set_filter by blast
  show ?thesis
  proof (intro bexI conjI allI impI)
    show "?ok d0 \<or> (\<exists>cs. mi_children d = Some cs \<and> cs \<noteq> [])"
      using d0(4) by (auto simp: d list_ex_iff filter_empty_conv split: option.splits)
    show "?ok ch" if "mi_children d = Some cs" "ch \<in> set cs" for cs ch
      using that by (auto simp: d)
  qed (use d0 d in simp_all)
qed

text \<open>
  The sidebar of the professional edition shows a user only allowed routes: for a user who is
  no administrator, every child shown is one of the user's routes, and an entry whose own path is
  not one of them is shown only with a child that is. Without a user nothing is shown.
\<close>

theorem sidebar_respects_routes:
  assumes "pro_edition c"
  shows "(me c = None \<longrightarrow> sidebarMenuItems c s = []) \<and>
    (\<forall>u rs. me c = Some u \<longrightarrow> \<not> root_admin u \<longrightarrow> user_routes u = Some rs \<longrightarrow>
      (\<forall>d \<in> set (sidebarMenuItems c s). mi_title d \<noteq> ''router.menuItems.users'' \<and>
        (\<forall>cs ch. mi_children d = Some cs \<longrightarrow> ch \<in> set cs \<longrightarrow> path_of ch \<in> set rs) \<and>
        (path_of d \<in> set rs \<or> (\<exists>cs ch. mi_children d = Some cs \<and> ch \<in> set cs \<and> path_of ch \<in> set rs))))"
proof (intro conjI allI impI ballI)
  assume "me c = None"
  then show "sidebarMenuItems c s = []"
    using assms by (auto simp: sidebarMenuItems_def isAllowedRoutePath_def filter_empty_conv list_ex_iff split: option.splits)
next
  fix u rs d
  assume u: "me c = Some u" "\<not> root_admin u" "user_routes u = Some rs"
  assume d: "d \<in> set (sidebarMenuItems c s)"
  have allowed: "isAllowedRoutePath c p \<longleftrightarrow> p \<in> set rs" for p
    using assms u by (simp add: isAllowedRoutePath_def)
  from d obtain d0 where d0: "edition_filter c d0" "mi_title d = mi_title d0" "mi_path d = mi_path d0"
    "isAllowedRoutePath c (path_of d0) \<or> (\<exists>cs. mi_children d = Some cs \<and> cs \<noteq> [])"
    "\<And>cs ch. mi_children d = Some cs \<Longrightarrow> ch \<in> set cs \<Longrightarrow> isAllowedRoutePath c (path_of ch)"
    using sidebar_subset by metis
  show "mi_title d \<noteq> ''router.menuItems.users''"
    using d0(1,2) assms by (auto simp: edition_filter_def split: option.splits if_splits)
  show "path_of ch \<in> set rs" if "mi_children d = Some cs" "ch \<in> set cs" for cs ch
    using d0(5) [OF that] allowed by simp
  have "path_of d = path_of d0" using d0(3) by (simp add: path_of_def)
  with d0(4,5) allowed show "path_of d \<in> set rs \<or> (\<exists>cs ch. mi_children d = Some cs \<and> ch \<in> set cs \<and> path_of ch \<in> set rs)"
    by (metis list.set_sel(1))
qed

definition example_user :: "string list \<Rightarrow> session_info" where
  "example_user rs = \<lparr>pro_edition = True, me = Some \<lparr>root_admin = False, user_routes = Some rs\<rparr>\<rparr>"

theorem sidebar_respects_routes_witness:
  "\<exists>s. layout_init getDefaultSidebarMenuItems Map.empty = Some s \<and>
    map path_of (sidebarMenuItems (example_user [''/tasks'', ''/roles'']) s) = [''/tasks'', ''/permissions''] \<and>
    (\<forall>d \<in> set (sidebarMenuItems (example_user [''/tasks'', ''/roles'']) s). mi_title d \<noteq> ''router.menuItems.users'')"
proof -
  obtain s where s: "layout_init getDefaultSidebarMenuItems Map.empty = Some s"
    "menuItems s = getDefaultSidebarMenuItems" "navVisibleFn s = Some (\<lambda>_. True)"
    by (simp add: layout_init_def reader_defs item_defs)
  have "map path_of (sidebarMenuItems (example_user [''/tasks'', ''/roles'']) s) = [''/tasks'', ''/permissions'']"
    by (simp add: sidebarMenuItems_def s getDefaultSidebarMenuItems_def item_def edition_filter_def
        example_user_def isAllowedRoutePath_def path_of_def)
  moreover have "\<forall>d \<in> set (sidebarMenuItems (example_user [''/tasks'', ''/roles'']) s). mi_title d \<noteq> ''router.menuItems.users''"
    using sidebar_respects_routes [of "example_user [''/tasks'', ''/roles'']" s] by (simp add: example_user_def)
  ultimately show ?thesis using s(1) by (intro exI [of _ s]) auto
qed

end
