(* ===== verification/UI_Request.thy ===== *)
theory UI_Request
  imports UI_Storage "HOL-Library.Multiset"
begin

text \<open>
  \<^verbatim>\<open>services/request.ts\<close>: the HTTP requests of the user interface and the interceptor that renews
  an expired session.

  Requests are concurrent, so the module is a state machine: \<open>request_state\<close> holds the local
  storage, the requests whose answer is awaited, the pending refresh (the variable
  \<open>refreshPromise\<close>) with the requests that wait for it, and the log of what was sent; an event is
  a new request, an answer, the end of the refresh, the timer of the message box, or a change of the
  local storage by another part of the program (\<^verbatim>\<open>Login.vue\<close> stores a new pair of tokens, the logout of
  \<^verbatim>\<open>Header.vue\<close> removes both, another window may store anything). Answers come in any order. \<open>after_401\<close> and \<open>on_error\<close> are the error handler of the interceptor after and
  before its \<open>await\<close> of the refresh.
\<close>

section \<open>Requests\<close>

record api_request =
  rq_id :: nat
  rq_method :: string
  rq_url :: string
  rq_params :: js
  rq_data :: js
  rq_auth :: "string option"
  rq_retried :: bool

datatype wire = SendApi api_request | SendRefresh string

datatype ui_event = PushLogin | NotifyLoggedOut | ConsoleError

datatype request_result = Resolved js | Rejected thrown

record request_state =
  storage :: local_storage
  inflight :: "api_request list"
  refreshing :: "api_request list option"
  msgBoxVisible :: bool
  wire_log :: "wire list"
  ui_log :: "ui_event list"
  results :: "(nat \<times> request_result) list"
  next_id :: nat

text \<open>A stored token that is missing or empty counts as no token.\<close>

definition stored_token :: "string \<Rightarrow> local_storage \<Rightarrow> string option" where
  "stored_token key ls = (case getItem key ls of None \<Rightarrow> None | Some t \<Rightarrow> if t = [] then None else Some t)"

definition access_token :: "local_storage \<Rightarrow> string option" where
  "access_token = stored_token ''token''"

definition refresh_token :: "local_storage \<Rightarrow> string option" where
  "refresh_token = stored_token ''refresh_token''"

definition getHeaders_auth :: "local_storage \<Rightarrow> string option" where
  "getHeaders_auth ls = access_token ls"

definition clearSession :: "local_storage \<Rightarrow> local_storage" where
  "clearSession ls = removeItem ''refresh_token'' (removeItem ''token'' ls)"

text \<open>\<open>request\<close>, called by \<open>get\<close>, \<open>post\<close>, \<open>put\<close> and \<open>del\<close>: a new request leaves with the stored token.\<close>

definition issue :: "string \<Rightarrow> string \<Rightarrow> js \<Rightarrow> js \<Rightarrow> request_state \<Rightarrow> request_state" where
  "issue meth url params data s =
     (let r = \<lparr>rq_id = next_id s, rq_method = meth, rq_url = url, rq_params = params, rq_data = data,
               rq_auth = getHeaders_auth (storage s), rq_retried = False\<rparr>
      in s\<lparr>inflight := inflight s @ [r], wire_log := wire_log s @ [SendApi r], next_id := Suc (next_id s)\<rparr>)"

definition finish :: "nat \<Rightarrow> request_result \<Rightarrow> request_state \<Rightarrow> request_state" where
  "finish i r s = s\<lparr>results := results s @ [(i, r)]\<rparr>"

text \<open>The error that the caller of a failed request sees.\<close>

definition failure_of :: "js option \<Rightarrow> string \<Rightarrow> thrown" where
  "failure_of data msg =
     (let body = (case data of None \<Rightarrow> Obj [] | Some d \<Rightarrow> js_or d (Obj []));
          message = js_get_opt body ''message'';
          error = js_get_opt body ''error''
      in if message = Str ''error'' \<and> truthy error then ErrorObj (js_str error) else ErrorObj msg)"

text \<open>The answer 401 when no renewal is possible: go to the login page, and tell the user once.\<close>

definition after_401 :: "nat \<Rightarrow> request_state \<Rightarrow> request_state" where
  "after_401 i s =
     (if access_token (storage s) \<noteq> None
      then if msgBoxVisible s then finish i (Resolved Undef) s
           else finish i (Resolved Undef)
                  (s\<lparr>msgBoxVisible := True, ui_log := ui_log s @ [PushLogin, NotifyLoggedOut]\<rparr>)
      else finish i (Resolved Undef) (s\<lparr>ui_log := ui_log s @ [PushLogin]\<rparr>))"

definition on_error :: "api_request \<Rightarrow> nat option \<Rightarrow> js option \<Rightarrow> string \<Rightarrow> request_state \<Rightarrow> request_state" where
  "on_error r status data msg s =
     (if status = Some 401 \<and> \<not> rq_retried r \<and> refresh_token (storage s) \<noteq> None
      then (let r' = r\<lparr>rq_retried := True\<rparr>
            in case refreshing s of
                 Some ws \<Rightarrow> s\<lparr>refreshing := Some (ws @ [r'])\<rparr>
               | None \<Rightarrow>
                   s\<lparr>refreshing := Some [r'],
                     wire_log := wire_log s @ [SendRefresh (the (refresh_token (storage s)))]\<rparr>)
      else if status = Some 401 then after_401 (rq_id r) s
      else finish (rq_id r) (Rejected (failure_of data msg)) (s\<lparr>ui_log := ui_log s @ [ConsoleError]\<rparr>))"

text \<open>The waiting requests go on when the refresh has ended, in the order in which they wait.\<close>

definition resend :: "string \<Rightarrow> api_request \<Rightarrow> request_state \<Rightarrow> request_state" where
  "resend token r s =
     (let r' = r\<lparr>rq_auth := Some token\<rparr>
      in s\<lparr>inflight := inflight s @ [r'], wire_log := wire_log s @ [SendApi r']\<rparr>)"

definition give_up :: "api_request \<Rightarrow> request_state \<Rightarrow> request_state" where
  "give_up r s = after_401 (rq_id r) (s\<lparr>storage := clearSession (storage s)\<rparr>)"

text \<open>\<open>res.data?.data\<close> of the refresh: the pair of tokens, if both are there.\<close>

definition token_pair :: "js \<Rightarrow> (string \<times> string) option" where
  "token_pair body =
     (let pair = js_get_opt body ''data'';
          token = js_get_opt pair ''token'';
          renewed = js_get_opt pair ''refresh_token''
      in if truthy token \<and> truthy renewed then Some (js_str token, js_str renewed) else None)"

definition refresh_failed :: "api_request list \<Rightarrow> request_state \<Rightarrow> request_state" where
  "refresh_failed ws s = fold give_up ws (s\<lparr>refreshing := None\<rparr>)"

definition refresh_answered :: "js \<Rightarrow> api_request list \<Rightarrow> request_state \<Rightarrow> request_state" where
  "refresh_answered body ws s =
     (case token_pair body of
        None \<Rightarrow> refresh_failed ws s
      | Some (token, renewed) \<Rightarrow>
          fold (resend token) ws
            (s\<lparr>storage := setItem ''refresh_token'' renewed (setItem ''token'' token (storage s)),
               refreshing := None\<rparr>))"

text \<open>
  A refresh that fails passes the interceptor itself, which never renews for it; with the answer
  401 and a stored token it shows the message box before the waiting requests give up.
\<close>

definition refresh_error :: "nat option \<Rightarrow> request_state \<Rightarrow> request_state" where
  "refresh_error status s =
     (if status = Some 401
      then if access_token (storage s) \<noteq> None
           then if msgBoxVisible s then s
                else s\<lparr>msgBoxVisible := True, ui_log := ui_log s @ [PushLogin, NotifyLoggedOut]\<rparr>
           else s\<lparr>ui_log := ui_log s @ [PushLogin]\<rparr>
      else s\<lparr>ui_log := ui_log s @ [ConsoleError]\<rparr>)"

section \<open>Events\<close>

datatype request_event =
    Issue string string js js
  | Answer nat js
  | Failed nat "nat option" "js option" string
  | RefreshAnswer js
  | RefreshFailed "nat option"
  | MsgBoxTimeout
  | LoginStores string string
  | LogoutClears
  | StorageReplaced local_storage

definition take_request :: "nat \<Rightarrow> request_state \<Rightarrow> (api_request \<times> request_state) option" where
  "take_request i s =
     (case find (\<lambda>r. rq_id r = i) (inflight s) of
        None \<Rightarrow> None
      | Some r \<Rightarrow> Some (r, s\<lparr>inflight := filter (\<lambda>r. rq_id r \<noteq> i) (inflight s)\<rparr>))"

fun request_step :: "request_event \<Rightarrow> request_state \<Rightarrow> request_state" where
  "request_step (Issue meth url params data) s = issue meth url params data s"
| "request_step (Answer i body) s =
     (case take_request i s of None \<Rightarrow> s | Some (r, s') \<Rightarrow> finish i (Resolved body) s')"
| "request_step (Failed i status data msg) s =
     (case take_request i s of None \<Rightarrow> s | Some (r, s') \<Rightarrow> on_error r status data msg s')"
| "request_step (RefreshAnswer body) s =
     (case refreshing s of None \<Rightarrow> s | Some ws \<Rightarrow> refresh_answered body ws s)"
| "request_step (RefreshFailed status) s =
     (case refreshing s of None \<Rightarrow> s | Some ws \<Rightarrow> refresh_failed ws (refresh_error status s))"
| "request_step MsgBoxTimeout s = s\<lparr>msgBoxVisible := False\<rparr>"
| "request_step (LoginStores token renewed) s =
     s\<lparr>storage := setItem ''refresh_token'' renewed (setItem ''token'' token (storage s))\<rparr>"
| "request_step LogoutClears s = s\<lparr>storage := clearSession (storage s)\<rparr>"
| "request_step (StorageReplaced ls) s = s\<lparr>storage := ls\<rparr>"

definition initRequest :: "local_storage \<Rightarrow> request_state" where
  "initRequest ls =
     \<lparr>storage = ls, inflight = [], refreshing = None, msgBoxVisible = False, wire_log = [],
      ui_log = [], results = [], next_id = 0\<rparr>"

definition run_requests :: "request_event list \<Rightarrow> request_state \<Rightarrow> request_state" where
  "run_requests es s = fold request_step es s"

section \<open>Every request is answered once\<close>

definition waiting :: "request_state \<Rightarrow> api_request list" where
  "waiting s = (case refreshing s of None \<Rightarrow> [] | Some ws \<Rightarrow> ws)"

definition sends_of :: "nat \<Rightarrow> wire list \<Rightarrow> nat" where
  "sends_of i ws = length (filter (\<lambda>x. case x of SendApi r \<Rightarrow> rq_id r = i | SendRefresh _ \<Rightarrow> False) ws)"

definition refreshes :: "wire list \<Rightarrow> nat" where
  "refreshes ws = length (filter (\<lambda>x. case x of SendApi r \<Rightarrow> False | SendRefresh _ \<Rightarrow> True) ws)"

lemma sends_of_simps [simp]:
  "sends_of i [] = 0"
  "sends_of i (ws @ vs) = sends_of i ws + sends_of i vs"
  "sends_of i (SendApi r # ws) = (if rq_id r = i then Suc (sends_of i ws) else sends_of i ws)"
  "sends_of i (SendRefresh t # ws) = sends_of i ws"
  by (simp_all add: sends_of_def)

lemma refreshes_simps [simp]:
  "refreshes [] = 0"
  "refreshes (ws @ vs) = refreshes ws + refreshes vs"
  "refreshes (SendApi r # ws) = refreshes ws"
  "refreshes (SendRefresh t # ws) = Suc (refreshes ws)"
  by (simp_all add: refreshes_def)

text \<open>
  \<open>accounts s\<close>: each identifier given so far belongs to exactly one request that is in flight,
  waiting or finished; a request in flight was sent once, or twice if it was retried, a waiting
  one was sent once and is marked as retried, and a finished one was sent at most twice.
\<close>

definition accounts :: "request_state \<Rightarrow> bool" where
  "accounts s \<longleftrightarrow>
     mset (map rq_id (inflight s)) + mset (map rq_id (waiting s)) + mset (map fst (results s)) = mset [0..<next_id s] \<and>
     (\<forall>r \<in> set (inflight s). sends_of (rq_id r) (wire_log s) = (if rq_retried r then 2 else 1)) \<and>
     (\<forall>r \<in> set (waiting s). sends_of (rq_id r) (wire_log s) = 1 \<and> rq_retried r) \<and>
     (\<forall>i. sends_of i (wire_log s) \<le> 2) \<and>
     (\<forall>i \<ge> next_id s. sends_of i (wire_log s) = 0)"

text \<open>The accounts of a state with the requests \<open>rs\<close> in hand, neither in flight nor waiting.\<close>

definition accounts_with :: "api_request list \<Rightarrow> request_state \<Rightarrow> bool" where
  "accounts_with rs s \<longleftrightarrow>
     mset (map rq_id rs) + mset (map rq_id (inflight s)) + mset (map rq_id (waiting s)) + mset (map fst (results s))
       = mset [0..<next_id s] \<and>
     (\<forall>r \<in> set rs. sends_of (rq_id r) (wire_log s) = (if rq_retried r then 2 else 1)) \<and>
     (\<forall>r \<in> set (inflight s). sends_of (rq_id r) (wire_log s) = (if rq_retried r then 2 else 1)) \<and>
     (\<forall>r \<in> set (waiting s). sends_of (rq_id r) (wire_log s) = 1 \<and> rq_retried r) \<and>
     (\<forall>i. sends_of i (wire_log s) \<le> 2) \<and>
     (\<forall>i \<ge> next_id s. sends_of i (wire_log s) = 0)"

lemma accounts_with_Nil: "accounts_with [] s = accounts s"
  by (simp add: accounts_with_def accounts_def)

lemma accounts_ui [simp]:
  "accounts (s\<lparr>ui_log := u\<rparr>) = accounts s" "accounts (s\<lparr>msgBoxVisible := b\<rparr>) = accounts s"
  "accounts (s\<lparr>storage := ls\<rparr>) = accounts s"
  by (simp_all add: accounts_def waiting_def)

lemma accounts_with_ui [simp]:
  "accounts_with rs (s\<lparr>ui_log := u\<rparr>) = accounts_with rs s" "accounts_with rs (s\<lparr>msgBoxVisible := b\<rparr>) = accounts_with rs s"
  "accounts_with rs (s\<lparr>storage := ls\<rparr>) = accounts_with rs s"
  by (simp_all add: accounts_with_def waiting_def)

lemma accounts_issue: "accounts s \<Longrightarrow> accounts (issue meth url params data s)"
proof -
  assume a: "accounts s"
  then have m: "mset (map rq_id (inflight s)) + mset (map rq_id (waiting s)) + mset (map fst (results s)) = mset [0..<next_id s]"
    and z: "sends_of (next_id s) (wire_log s) = 0" by (simp_all add: accounts_def)
  have "rq_id r < next_id s" if "r \<in> set (inflight s) \<union> set (waiting s)" for r
  proof -
    have "rq_id r \<in># mset (map rq_id (inflight s)) + mset (map rq_id (waiting s)) + mset (map fst (results s))"
      using that by auto
    then show ?thesis unfolding m by simp
  qed
  then have "\<forall>r \<in> set (inflight s) \<union> set (waiting s). rq_id r \<noteq> next_id s" by fastforce
  with a z show ?thesis
    by (auto simp: accounts_def issue_def Let_def waiting_def)
qed

lemma distinct_submset:
  assumes "mset xs \<subseteq># mset ys" and "distinct ys"
  shows "distinct xs"
  unfolding distinct_count_atmost_1
proof
  fix a
  have "count (mset xs) a \<le> count (mset ys) a" using assms(1) by (rule mset_subset_eq_count)
  also have "\<dots> \<le> 1" using assms(2) by (simp add: distinct_count_atmost_1)
  finally have "count (mset xs) a \<le> 1" .
  moreover have "a \<in> set xs \<Longrightarrow> 1 \<le> count (mset xs) a"
    by (metis count_greater_eq_one_iff set_mset_mset)
  moreover have "a \<notin> set xs \<Longrightarrow> count (mset xs) a = 0" by simp
  ultimately show "count (mset xs) a = (if a \<in> set xs then 1 else 0)"
    by (cases "a \<in> set xs") (simp_all add: le_antisym)
qed

lemma accounts_take:
  assumes "accounts s" and "take_request i s = Some (r, s')"
  shows "accounts_with [r] s' \<and> rq_id r = i"
proof -
  have f: "find (\<lambda>r. rq_id r = i) (inflight s) = Some r"
    and s': "s' = s\<lparr>inflight := filter (\<lambda>r. rq_id r \<noteq> i) (inflight s)\<rparr>"
    using assms(2) by (auto simp: take_request_def split: option.splits)
  have r: "r \<in> set (inflight s)" "rq_id r = i" using f by (auto simp: find_Some_iff)
  have d: "distinct (map rq_id (inflight s))"
  proof -
    have "mset (map rq_id (inflight s)) \<subseteq># mset [0..<next_id s]"
      using assms(1) by (metis accounts_def mset_subset_eq_add_left subset_mset.order_trans)
    then show ?thesis by (rule distinct_submset) simp
  qed
  have "mset (map rq_id xs) = {#i#} + mset (map rq_id (filter (\<lambda>r. rq_id r \<noteq> i) xs))"
    if "distinct (map rq_id xs)" "i \<in> rq_id ` set xs" for xs :: "api_request list"
    using that
  proof (induction xs)
    case (Cons x xs)
    show ?case
    proof (cases "rq_id x = i")
      case True
      have "i \<notin> rq_id ` set xs" using Cons.prems True by auto
      then have "filter (\<lambda>r. rq_id r \<noteq> i) xs = xs" by (metis (mono_tags) filter_True image_eqI)
      with True show ?thesis by simp
    qed (use Cons in auto)
  qed simp
  moreover have "i \<in> rq_id ` set (inflight s)" using r by blast
  ultimately have "mset (map rq_id (inflight s)) = {#i#} + mset (map rq_id (inflight s'))"
    using d by (simp add: s')
  with assms(1) r show ?thesis
    unfolding accounts_def accounts_with_def by (auto simp: s' waiting_def ac_simps)
qed

lemma accounts_finish:
  "accounts_with (r # rs) s \<Longrightarrow> rq_id r = i \<Longrightarrow> accounts_with rs (finish i res s)"
  by (auto simp: accounts_with_def finish_def waiting_def ac_simps)

lemma accounts_after_401:
  "accounts_with (r # rs) s \<Longrightarrow> rq_id r = i \<Longrightarrow> accounts_with rs (after_401 i s)"
  by (auto simp: after_401_def intro!: accounts_finish)

text \<open>The requests \<open>ws\<close> that have left the waiting list are sent again, or give up.\<close>

definition accounts_released :: "api_request list \<Rightarrow> request_state \<Rightarrow> bool" where
  "accounts_released ws s \<longleftrightarrow>
     refreshing s = None \<and>
     mset (map rq_id ws) + mset (map rq_id (inflight s)) + mset (map fst (results s)) = mset [0..<next_id s] \<and>
     (\<forall>r \<in> set ws. sends_of (rq_id r) (wire_log s) = 1 \<and> rq_retried r) \<and>
     (\<forall>r \<in> set (inflight s). sends_of (rq_id r) (wire_log s) = (if rq_retried r then 2 else 1)) \<and>
     (\<forall>i. sends_of i (wire_log s) \<le> 2) \<and>
     (\<forall>i \<ge> next_id s. sends_of i (wire_log s) = 0)"

lemma released_Nil: "accounts_released [] s \<Longrightarrow> accounts s"
  by (simp add: accounts_released_def accounts_def waiting_def)

lemma released_start: "accounts s \<Longrightarrow> refreshing s = Some ws \<Longrightarrow> accounts_released ws (s\<lparr>refreshing := None\<rparr>)"
  by (auto simp: accounts_def accounts_released_def waiting_def ac_simps)

lemma released_storage [simp]:
  "accounts_released ws (s\<lparr>storage := ls\<rparr>) = accounts_released ws s"
  "accounts_released ws (s\<lparr>ui_log := u\<rparr>) = accounts_released ws s"
  "accounts_released ws (s\<lparr>msgBoxVisible := b\<rparr>) = accounts_released ws s"
  by (simp_all add: accounts_released_def)

lemma released_ids_differ:
  assumes "accounts_released (r # ws) s"
  shows "rq_id r < next_id s \<and> (\<forall>q \<in> set ws \<union> set (inflight s). rq_id q \<noteq> rq_id r)"
proof -
  let ?ids = "rq_id r # map rq_id ws @ map rq_id (inflight s) @ map fst (results s)"
  have m: "mset ?ids = mset [0..<next_id s]"
    using assms by (simp add: accounts_released_def ac_simps)
  have "distinct ?ids" by (rule distinct_submset [of _ "[0..<next_id s]"]) (simp_all only: m distinct_upt)
  then have d: "rq_id r \<notin> rq_id ` (set ws \<union> set (inflight s))" by auto
  have "set ?ids = set [0..<next_id s]" using m by (metis set_mset_mset)
  then have "rq_id r < next_id s" by auto
  with d show ?thesis by (metis imageI)
qed

lemma released_resend:
  assumes "accounts_released (r # ws) s"
  shows "accounts_released ws (resend token r s)"
  using assms released_ids_differ [OF assms]
  by (auto simp: accounts_released_def resend_def Let_def ac_simps)

lemma released_give_up:
  assumes "accounts_released (r # ws) s"
  shows "accounts_released ws (give_up r s)"
  using assms
  by (auto simp: accounts_released_def give_up_def after_401_def finish_def ac_simps)

lemma released_fold:
  assumes "\<And>r ws s. accounts_released (r # ws) s \<Longrightarrow> accounts_released ws (f r s)"
    and "accounts_released ws s"
  shows "accounts (fold f ws s)"
  using assms(2)
proof (induction ws arbitrary: s)
  case (Cons r ws)
  then show ?case using assms(1) by simp
qed (simp add: released_Nil)

lemma accounts_on_error:
  assumes "accounts_with [r] s"
  shows "accounts (on_error r status data msg s)"
proof (cases "status = Some 401 \<and> \<not> rq_retried r \<and> refresh_token (storage s) \<noteq> None")
  case True
  then show ?thesis using assms
    by (cases "refreshing s")
      (auto simp: on_error_def accounts_with_def accounts_def waiting_def ac_simps)
next
  case False
  then have "accounts_with [] (on_error r status data msg s)"
    using assms by (auto simp: on_error_def intro!: accounts_after_401 accounts_finish)
  then show ?thesis by (simp add: accounts_with_Nil)
qed

lemma accounts_refresh_error: "accounts s \<Longrightarrow> accounts (refresh_error status s)"
  by (simp add: refresh_error_def)

lemma accounts_step:
  assumes "accounts s"
  shows "accounts (request_step e s)"
proof (cases e)
  case (Issue meth url params data)
  then show ?thesis by (simp add: accounts_issue assms)
next
  case (Answer i body)
  show ?thesis
  proof (cases "take_request i s")
    case (Some p)
    then obtain r s' where p: "take_request i s = Some (r, s')" by (cases p) simp
    from accounts_take [OF assms p] have "accounts_with [] (finish i (Resolved body) s')"
      by (blast intro: accounts_finish)
    then show ?thesis by (simp add: Answer p accounts_with_Nil)
  qed (simp add: Answer assms)
next
  case (Failed i status data msg)
  show ?thesis
  proof (cases "take_request i s")
    case (Some p)
    then obtain r s' where p: "take_request i s = Some (r, s')" by (cases p) simp
    from accounts_take [OF assms p] show ?thesis by (simp add: Failed p accounts_on_error)
  qed (simp add: Failed assms)
next
  case (RefreshAnswer body)
  show ?thesis
  proof (cases "refreshing s")
    case (Some ws)
    note r = released_start [OF assms Some]
    show ?thesis
    proof (cases "token_pair body")
      case None
      then show ?thesis using r Some RefreshAnswer
        by (simp add: refresh_answered_def refresh_failed_def released_fold [OF released_give_up])
    next
      case (Some p)
      obtain token renewed where "p = (token, renewed)" by (cases p)
      with r Some RefreshAnswer \<open>refreshing s = Some ws\<close> show ?thesis
        by (simp add: refresh_answered_def) (rule released_fold [OF released_resend]; simp add: accounts_released_def)
    qed
  qed (simp add: RefreshAnswer assms)
next
  case (RefreshFailed status)
  show ?thesis
  proof (cases "refreshing s")
    case (Some ws)
    then have "refreshing (refresh_error status s) = Some ws" by (simp add: refresh_error_def)
    from released_start [OF accounts_refresh_error [OF assms] this] Some RefreshFailed show ?thesis
      by (simp add: refresh_failed_def released_fold [OF released_give_up])
  qed (simp add: RefreshFailed assms)
qed (use assms in simp_all)

lemma accounts_run: "accounts s \<Longrightarrow> accounts (run_requests es s)"
  by (induction es arbitrary: s) (simp_all add: run_requests_def accounts_step)

lemma accounts_init: "accounts (initRequest ls)"
  by (simp add: accounts_def initRequest_def waiting_def)

text \<open>
  C9: No request is lost, answered twice or retried more than once: after any sequence of events
  the identifiers given out are, each exactly once, those of the requests in flight, waiting for
  the refresh or finished, and every request was sent at most twice.
\<close>

theorem requests_accounted:
  "mset (map rq_id (inflight (run_requests es (initRequest ls)))
      @ map rq_id (waiting (run_requests es (initRequest ls)))
      @ map fst (results (run_requests es (initRequest ls))))
    = mset [0..<next_id (run_requests es (initRequest ls))] \<and>
   sends_of i (wire_log (run_requests es (initRequest ls))) \<le> 2"
  using accounts_run [OF accounts_init, of es ls] by (simp add: accounts_def ac_simps)

section \<open>One refresh for all\<close>

text \<open>No event starts a refresh while one is pending.\<close>

lemma wire_after_401 [simp]: "wire_log (after_401 i s) = wire_log s"
  by (simp add: after_401_def finish_def)

lemma wire_give_up: "wire_log (fold give_up ws s) = wire_log s"
  by (induction ws arbitrary: s) (simp_all add: give_up_def)

lemma refreshes_resend: "refreshes (wire_log (fold (resend token) ws s)) = refreshes (wire_log s)"
  by (induction ws arbitrary: s) (simp_all add: resend_def Let_def)

lemma take_request_keeps:
  "take_request i s = Some (r, s') \<Longrightarrow> wire_log s' = wire_log s \<and> refreshing s' = refreshing s \<and> storage s' = storage s"
  by (auto simp: take_request_def split: option.splits)

lemma no_second_refresh:
  assumes "refreshing s \<noteq> None"
  shows "refreshes (wire_log (request_step e s)) = refreshes (wire_log s)"
proof (cases e)
  case (Failed i status data msg)
  show ?thesis
  proof (cases "take_request i s")
    case (Some p)
    then obtain r s' where p: "take_request i s = Some (r, s')" by (cases p) simp
    then show ?thesis
      using assms take_request_keeps [OF p]
      by (auto simp: Failed on_error_def finish_def Let_def)
  qed (simp add: Failed)
next
  case (RefreshAnswer body)
  then show ?thesis
    using assms by (auto simp: refresh_answered_def refresh_failed_def wire_give_up refreshes_resend split: option.split)
next
  case (RefreshFailed status)
  then show ?thesis using assms by (auto simp: refresh_failed_def wire_give_up refresh_error_def)
next
  case (Answer i body)
  then show ?thesis by (auto simp: finish_def dest: take_request_keeps split: option.split)
qed (auto simp: issue_def Let_def)

text \<open>The answers 401 to the requests \<open>is\<close>, none retried before, all wait for one refresh.\<close>

definition all_fail :: "nat list \<Rightarrow> request_event list" where
  "all_fail is = map (\<lambda>i. Failed i (Some 401) None ''Unauthorized'') is"

lemma wait_for_refresh:
  assumes "distinct is" and "\<forall>i \<in> set is. \<exists>r \<in> set (inflight s). rq_id r = i"
    and "distinct (map rq_id (inflight s))" and "\<forall>r \<in> set (inflight s). \<not> rq_retried r"
    and "refresh_token (storage s) = Some t" and "refreshing s = Some ws"
  shows "\<exists>s'. run_requests (all_fail is) s = s' \<and> wire_log s' = wire_log s \<and> storage s' = storage s \<and>
    results s' = results s \<and> inflight s' = filter (\<lambda>r. rq_id r \<notin> set is) (inflight s) \<and>
    (\<exists>vs. refreshing s' = Some (ws @ vs) \<and> map rq_id vs = is \<and> list_all rq_retried vs)"
  using assms
proof (induction "is" arbitrary: s ws)
  case Nil
  then show ?case by (simp add: all_fail_def run_requests_def)
next
  case (Cons i "is")
  obtain r where r: "find (\<lambda>r. rq_id r = i) (inflight s) = Some r"
    using Cons.prems(2) by (cases "find (\<lambda>r. rq_id r = i) (inflight s)") (auto simp: find_None_iff)
  then have rr: "r \<in> set (inflight s)" "rq_id r = i" by (auto simp: find_Some_iff)
  let ?s1 = "s\<lparr>inflight := filter (\<lambda>r. rq_id r \<noteq> i) (inflight s), refreshing := Some (ws @ [r\<lparr>rq_retried := True\<rparr>])\<rparr>"
  have step: "request_step (Failed i (Some 401) None ''Unauthorized'') s = ?s1"
    using r rr Cons.prems by (simp add: take_request_def on_error_def Let_def)
  have "\<exists>s'. run_requests (all_fail is) ?s1 = s' \<and> wire_log s' = wire_log ?s1 \<and> storage s' = storage ?s1 \<and>
    results s' = results ?s1 \<and> inflight s' = filter (\<lambda>r. rq_id r \<notin> set is) (inflight ?s1) \<and>
    (\<exists>vs. refreshing s' = Some ((ws @ [r\<lparr>rq_retried := True\<rparr>]) @ vs) \<and> map rq_id vs = is \<and> list_all rq_retried vs)"
  proof (rule Cons.IH)
    show "\<forall>i' \<in> set is. \<exists>r \<in> set (inflight ?s1). rq_id r = i'"
      using Cons.prems(1,2) by fastforce
  qed (use Cons.prems in \<open>auto simp: distinct_map_filter\<close>)
  then obtain vs where "refreshing (run_requests (all_fail is) ?s1) = Some ((ws @ [r\<lparr>rq_retried := True\<rparr>]) @ vs)"
    "map rq_id vs = is" "list_all rq_retried vs"
    and "wire_log (run_requests (all_fail is) ?s1) = wire_log s" "storage (run_requests (all_fail is) ?s1) = storage s"
      "results (run_requests (all_fail is) ?s1) = results s"
      "inflight (run_requests (all_fail is) ?s1) = filter (\<lambda>r. rq_id r \<notin> set is) (filter (\<lambda>r. rq_id r \<noteq> i) (inflight s))"
    by auto
  moreover have "run_requests (all_fail (i # is)) s = run_requests (all_fail is) ?s1"
    by (simp add: run_requests_def all_fail_def step del: request_step.simps)
  ultimately show ?case
    using rr(2) by (intro exI [of _ "run_requests (all_fail (i # is)) s"] conjI refl)
      (auto simp: conj_commute intro!: exI [of _ "r\<lparr>rq_retried := True\<rparr> # vs"])
qed

lemma fold_resend:
  "fold (resend token) ws s =
     s\<lparr>inflight := inflight s @ map (\<lambda>r. r\<lparr>rq_auth := Some token\<rparr>) ws,
       wire_log := wire_log s @ map (\<lambda>r. SendApi (r\<lparr>rq_auth := Some token\<rparr>)) ws\<rparr>"
  by (induction ws arbitrary: s) (simp_all add: resend_def Let_def)

lemma run_requests_append: "run_requests (es @ fs) s = run_requests fs (run_requests es s)"
  by (simp add: run_requests_def)

lemma run_requests_simps [simp]:
  "run_requests [] s = s" "run_requests (e # es) s = run_requests es (request_step e s)"
  by (simp_all add: run_requests_def)

text \<open>
  C7: An expired session is renewed once. When the answers to all requests in flight are 401, in
  any order, and there is a refresh token, exactly one refresh is sent; once it brings a new pair
  of tokens, they are stored and exactly those requests are sent again, with the new token, and
  none of them has been answered in the meantime.
\<close>

theorem session_renewed_once:
  assumes "refreshing s = None" and "refresh_token (storage s) = Some t"
    and "distinct (map rq_id (inflight s))" and "\<forall>r \<in> set (inflight s). \<not> rq_retried r"
    and "is \<noteq> []" and "distinct is" and "set is = rq_id ` set (inflight s)"
    and "token_pair body = Some (token, renewed)"
  shows "\<exists>s'. run_requests (all_fail is @ [RefreshAnswer body]) s = s' \<and>
    refreshes (wire_log s') = Suc (refreshes (wire_log s)) \<and>
    getItem ''token'' (storage s') = Some token \<and> getItem ''refresh_token'' (storage s') = Some renewed \<and>
    refreshing s' = None \<and> results s' = results s \<and>
    map rq_id (inflight s') = is \<and> (\<forall>r \<in> set (inflight s'). rq_auth r = Some token \<and> rq_retried r)"
proof -
  obtain i js where iseq: "is = i # js" using assms(5) by (cases "is") auto
  have "i \<in> rq_id ` set (inflight s)" unfolding assms(7) [symmetric] iseq by simp
  then obtain r where r: "find (\<lambda>r. rq_id r = i) (inflight s) = Some r"
    by (cases "find (\<lambda>r. rq_id r = i) (inflight s)") (auto simp: find_None_iff)
  then have rr: "r \<in> set (inflight s)" "rq_id r = i" by (auto simp: find_Some_iff)
  let ?r = "r\<lparr>rq_retried := True\<rparr>"
  let ?s1 = "s\<lparr>inflight := filter (\<lambda>r. rq_id r \<noteq> i) (inflight s), refreshing := Some [?r],
      wire_log := wire_log s @ [SendRefresh t]\<rparr>"
  have step: "request_step (Failed i (Some 401) None ''Unauthorized'') s = ?s1"
    using r rr assms by (simp add: take_request_def on_error_def Let_def)
  have "\<forall>j \<in> set js. \<exists>r \<in> set (inflight ?s1). rq_id r = j"
  proof
    fix j assume j: "j \<in> set js"
    then have "j \<noteq> i" using assms(6) iseq by auto
    moreover obtain q where "q \<in> set (inflight s)" "rq_id q = j"
      using j assms(7) iseq by (metis image_iff list.set_intros(2))
    ultimately show "\<exists>r \<in> set (inflight ?s1). rq_id r = j" by auto
  qed
  then obtain s2 vs where s2: "run_requests (all_fail js) ?s1 = s2" "wire_log s2 = wire_log ?s1"
      "storage s2 = storage s" "results s2 = results s"
      "inflight s2 = filter (\<lambda>r. rq_id r \<notin> set js) (filter (\<lambda>r. rq_id r \<noteq> i) (inflight s))"
      "refreshing s2 = Some ([?r] @ vs)" "map rq_id vs = js" "list_all rq_retried vs"
    using wait_for_refresh [of js ?s1 t "[?r]"] assms iseq by (auto simp: distinct_map_filter)
  have none: "inflight s2 = []"
    unfolding s2(5) using assms(7) iseq by (auto simp: filter_empty_conv)
  let ?s3 = "fold (resend token) ([?r] @ vs)
      (s2\<lparr>storage := setItem ''refresh_token'' renewed (setItem ''token'' token (storage s2)), refreshing := None\<rparr>)"
  have run: "run_requests (all_fail is @ [RefreshAnswer body]) s = ?s3"
    using s2(6) assms(8)
    by (simp add: iseq all_fail_def run_requests_append step refresh_answered_def
        s2(1) [unfolded all_fail_def] del: request_step.simps(3) fold_append)
  show ?thesis
    unfolding run fold_resend
    using s2 none rr(2) iseq
    by (auto simp: item_defs list_all_iff comp_def refreshes_def)
qed

definition example_session :: local_storage where
  "example_session = [''token'' \<mapsto> ''old'', ''refresh_token'' \<mapsto> ''r1'']"

definition example_pair :: js where
  "example_pair = Obj [(''data'', Obj [(''token'', Str ''new''), (''refresh_token'', Str ''r2'')])]"

theorem session_renewed_once_witness:
  "\<exists>s'. run_requests (all_fail [1, 0] @ [RefreshAnswer example_pair])
      (run_requests [Issue ''GET'' ''/spiders'' Undef Undef, Issue ''GET'' ''/tasks'' Undef Undef] (initRequest example_session)) = s' \<and>
    refreshes (wire_log s') = 1 \<and> getItem ''token'' (storage s') = Some ''new'' \<and> map rq_id (inflight s') = [1, 0]"
proof -
  let ?s = "run_requests [Issue ''GET'' ''/spiders'' Undef Undef, Issue ''GET'' ''/tasks'' Undef Undef] (initRequest example_session)"
  have "\<exists>s'. run_requests (all_fail [1, 0] @ [RefreshAnswer example_pair]) ?s = s' \<and>
    refreshes (wire_log s') = Suc (refreshes (wire_log ?s)) \<and>
    getItem ''token'' (storage s') = Some ''new'' \<and> getItem ''refresh_token'' (storage s') = Some ''r2'' \<and>
    refreshing s' = None \<and> results s' = results ?s \<and>
    map rq_id (inflight s') = [1, 0] \<and> (\<forall>r \<in> set (inflight s'). rq_auth r = Some ''new'' \<and> rq_retried r)"
    by (rule session_renewed_once [where t = "''r1''"])
      (auto simp: initRequest_def issue_def example_session_def example_pair_def token_pair_def
        refresh_token_def stored_token_def item_defs Let_def)
  moreover have "refreshes (wire_log ?s) = 0" by (simp add: initRequest_def issue_def Let_def)
  ultimately show ?thesis by simp
qed

text \<open>
  Without a refresh token nothing renews the session; only an event that stores a new refresh
  token, that of a login or of another window, changes this.
\<close>

definition logged_out :: "request_state \<Rightarrow> bool" where
  "logged_out s \<longleftrightarrow> refreshing s = None \<and> refresh_token (storage s) = None"

fun brings_refresh_token :: "request_event \<Rightarrow> bool" where
  "brings_refresh_token (LoginStores token renewed) = (renewed \<noteq> [])"
| "brings_refresh_token (StorageReplaced ls) = (refresh_token ls \<noteq> None)"
| "brings_refresh_token _ = False"

lemma logged_out_after_401: "logged_out s \<Longrightarrow> logged_out (after_401 i s)"
  by (simp add: logged_out_def after_401_def finish_def)

lemma refresh_token_stored:
  "refresh_token (setItem ''refresh_token'' renewed ls) = (if renewed = [] then None else Some renewed)"
  "refresh_token (clearSession ls) = None"
  by (simp_all add: refresh_token_def stored_token_def clearSession_def item_defs)

lemma logged_out_step:
  assumes "logged_out s" and "\<not> brings_refresh_token e"
  shows "logged_out (request_step e s) \<and> refreshes (wire_log (request_step e s)) = refreshes (wire_log s)"
proof (cases e)
  case (Failed i status data msg)
  show ?thesis
  proof (cases "take_request i s")
    case (Some p)
    then obtain r s' where p: "take_request i s = Some (r, s')" by (cases p) simp
    with assms take_request_keeps [OF p] have l: "logged_out s'" "wire_log s' = wire_log s"
      by (simp_all add: logged_out_def)
    then show ?thesis
      by (auto simp: Failed p on_error_def logged_out_after_401 finish_def) (simp_all add: logged_out_def)
  qed (simp add: Failed assms)
next
  case (Answer i body)
  then show ?thesis using assms
    by (auto simp: finish_def logged_out_def dest: take_request_keeps split: option.split)
qed (use assms in \<open>auto simp: logged_out_def issue_def Let_def refresh_token_stored\<close>)

lemma logged_out_run:
  "logged_out s \<Longrightarrow> \<forall>e \<in> set es. \<not> brings_refresh_token e \<Longrightarrow>
    logged_out (run_requests es s) \<and> refreshes (wire_log (run_requests es s)) = refreshes (wire_log s)"
  by (induction es arbitrary: s) (simp_all add: logged_out_step)

text \<open>After a login the next expired request is renewed again, with the new refresh token.\<close>

lemma login_renews_again:
  assumes "logged_out s" and "renewed \<noteq> []" and "find (\<lambda>r. rq_id r = i) (inflight s) = Some r" and "\<not> rq_retried r"
  shows "wire_log (run_requests [LoginStores token renewed, Failed i (Some 401) data msg] s) = wire_log s @ [SendRefresh renewed]"
  using assms by (simp add: logged_out_def take_request_def on_error_def refresh_token_stored Let_def)

lemma fold_give_up:
  "ws \<noteq> [] \<Longrightarrow> refresh_token (storage (fold give_up ws s)) = None \<and> access_token (storage (fold give_up ws s)) = None"
  "results (fold give_up ws s) = results s @ map (\<lambda>r. (rq_id r, Resolved Undef)) ws"
  "refreshing (fold give_up ws s) = refreshing s" "inflight (fold give_up ws s) = inflight s"
proof -
  have one: "refresh_token (storage (give_up r s)) = None \<and> access_token (storage (give_up r s)) = None"
    "results (give_up r s) = results s @ [(rq_id r, Resolved Undef)]"
    "refreshing (give_up r s) = refreshing s" "inflight (give_up r s) = inflight s" for r s
    by (simp_all add: give_up_def after_401_def finish_def clearSession_def refresh_token_def access_token_def
        stored_token_def item_defs)
  show "ws \<noteq> [] \<Longrightarrow> refresh_token (storage (fold give_up ws s)) = None \<and> access_token (storage (fold give_up ws s)) = None"
    by (induction ws arbitrary: s) (simp, metis fold_simps one(1) fold.simps(1) id_apply)
  show "results (fold give_up ws s) = results s @ map (\<lambda>r. (rq_id r, Resolved Undef)) ws"
    by (induction ws arbitrary: s) (simp_all add: one)
  show "refreshing (fold give_up ws s) = refreshing s" "inflight (fold give_up ws s) = inflight s"
    by (induction ws arbitrary: s) (simp_all add: one)
qed

text \<open>
  C21: If the refresh fails, the session ends: both tokens are removed, every request that waited
  is answered with \<open>undefined\<close>, and whatever happens later, requests, answers and a logout included,
  no refresh is sent until a refresh token is stored again, by a login or by another window. From
  the login on the renewal works as before: the next request that expires sends one refresh, with
  the new token.
\<close>

theorem failed_refresh_ends_session:
  assumes "refreshing s = Some ws" and "ws \<noteq> []" and "\<forall>e \<in> set es. \<not> brings_refresh_token e"
  shows "\<exists>s' s''. request_step (RefreshFailed status) s = s' \<and> run_requests es s' = s'' \<and>
    access_token (storage s') = None \<and> refresh_token (storage s') = None \<and>
    results s' = results s @ map (\<lambda>r. (rq_id r, Resolved Undef)) ws \<and> inflight s' = inflight s \<and>
    refreshes (wire_log s'') = refreshes (wire_log s) \<and>
    (\<forall>token renewed i r data msg. renewed \<noteq> [] \<longrightarrow> find (\<lambda>r. rq_id r = i) (inflight s'') = Some r \<longrightarrow> \<not> rq_retried r \<longrightarrow>
       wire_log (run_requests [LoginStores token renewed, Failed i (Some 401) data msg] s'')
         = wire_log s'' @ [SendRefresh renewed])"
proof -
  let ?e = "(refresh_error status s)\<lparr>refreshing := None\<rparr>"
  let ?s = "fold give_up ws ?e"
  have st: "request_step (RefreshFailed status) s = ?s"
    using assms(1) by (simp add: refresh_failed_def)
  have "logged_out ?s" using fold_give_up(1) [OF assms(2)] by (simp add: logged_out_def fold_give_up)
  from logged_out_run [OF this assms(3)]
  have l: "logged_out (run_requests es ?s)" "refreshes (wire_log (run_requests es ?s)) = refreshes (wire_log ?s)"
    by simp_all
  have "results ?e = results s" "inflight ?e = inflight s" "wire_log ?e = wire_log s"
    by (simp_all add: refresh_error_def)
  then show ?thesis
    using fold_give_up [of ws ?e] assms(2) l login_renews_again [OF l(1)]
    by (intro exI [of _ ?s] exI [of _ "run_requests es ?s"])
      (simp add: st wire_give_up del: request_step.simps run_requests_simps)
qed

theorem failed_refresh_ends_session_witness:
  "\<exists>s s'. s = run_requests (Issue ''GET'' ''/tasks'' Undef Undef # all_fail [0]) (initRequest example_session) \<and>
    request_step (RefreshFailed (Some 401)) s = s' \<and> refresh_token (storage s') = None \<and>
    results s' = [(0, Resolved Undef)] \<and>
    refreshes (wire_log (run_requests [Issue ''GET'' ''/nodes'' Undef Undef, Failed 1 (Some 401) None ''Unauthorized''] s')) = 1"
proof -
  let ?s = "run_requests (Issue ''GET'' ''/tasks'' Undef Undef # all_fail [0]) (initRequest example_session)"
  let ?es = "[Issue ''GET'' ''/nodes'' Undef Undef, Failed 1 (Some 401) None ''Unauthorized'']"
  have "\<exists>r. refreshing ?s = Some [r] \<and> rq_id r = 0" "results ?s = []" "refreshes (wire_log ?s) = 1"
    by (simp_all add: all_fail_def initRequest_def issue_def take_request_def on_error_def example_session_def
        refresh_token_def stored_token_def item_defs Let_def)
  then show ?thesis using failed_refresh_ends_session [of ?s _ ?es "Some 401"]
    by (fastforce simp del: run_requests_simps request_step.simps)
qed

end
