(* ===== verification/UI_Loading.thy ===== *)
theory UI_Loading
  imports Main
begin

text \<open>
  The interface of everything in the user interface that is marked as loading: a flag that an
  action raises before it awaits an answer and lowers when the answer or the failure arrives.

  The events of a store are of four kinds for a flag: the action begins, it finishes, the event
  sets the flag by itself, or it has nothing to do with the flag. \<open>pending_after\<close> says whether the
  action is under way after some events, if it never overlaps itself and nothing else sets the
  flag. For actions that may overlap themselves, \<open>runs_after\<close> counts the runs under way and
  \<open>newest_begins\<close> says whether the newest of their events is a beginning. The locale is interpreted
  on every flag of the stores: the flag is raised if the newest event is a beginning, so it is never
  raised while nothing is under way, and if runs do not overlap it says whether one is under way.
\<close>

datatype flag_event = Begins | Finishes | SetsFlag | Unrelated

fun pending_after :: "bool \<Rightarrow> flag_event list \<Rightarrow> bool option" where
  "pending_after p [] = Some p"
| "pending_after p (Begins # es) = (if p then None else pending_after True es)"
| "pending_after p (Finishes # es) = (if p then pending_after False es else None)"
| "pending_after p (SetsFlag # es) = None"
| "pending_after p (Unrelated # es) = pending_after p es"

fun runs_after :: "nat \<Rightarrow> flag_event list \<Rightarrow> nat option" where
  "runs_after n [] = Some n"
| "runs_after n (Begins # es) = runs_after (Suc n) es"
| "runs_after n (Finishes # es) = (if n = 0 then None else runs_after (n - 1) es)"
| "runs_after n (SetsFlag # es) = None"
| "runs_after n (Unrelated # es) = runs_after n es"

fun newest_begins :: "bool \<Rightarrow> flag_event list \<Rightarrow> bool" where
  "newest_begins p [] = p"
| "newest_begins p (Begins # es) = newest_begins True es"
| "newest_begins p (Finishes # es) = newest_begins False es"
| "newest_begins p (_ # es) = newest_begins p es"

fun one_at_a_time :: "nat \<Rightarrow> flag_event list \<Rightarrow> bool" where
  "one_at_a_time n [] = True"
| "one_at_a_time n (Begins # es) = (n = 0 \<and> one_at_a_time (Suc n) es)"
| "one_at_a_time n (Finishes # es) = one_at_a_time (n - 1) es"
| "one_at_a_time n (_ # es) = one_at_a_time n es"

lemma newest_under_way:
  "runs_after n ks = Some m \<Longrightarrow> p \<longrightarrow> 0 < n \<Longrightarrow> newest_begins p ks \<Longrightarrow> 0 < m"
proof (induction ks arbitrary: n p)
  case (Cons k ks)
  show ?case
  proof (cases k)
    case Begins
    then show ?thesis using Cons.IH [of "Suc n" True] Cons.prems by simp
  next
    case Finishes
    then show ?thesis using Cons.IH [of "n - 1" False] Cons.prems by (simp split: if_splits)
  qed (use Cons in auto)
qed simp

lemma newest_single:
  "runs_after n ks = Some m \<Longrightarrow> one_at_a_time n ks \<Longrightarrow> n \<le> 1 \<Longrightarrow> newest_begins (0 < n) ks = (0 < m)"
proof (induction ks arbitrary: n)
  case (Cons k ks)
  then show ?case
  proof (cases k)
    case Begins
    then show ?thesis using Cons.IH [of "Suc 0"] Cons.prems by auto
  next
    case Finishes
    then show ?thesis using Cons.IH [of 0] Cons.prems by (simp split: if_splits)
  qed (use Cons in auto)
qed simp

locale loading_flag =
  fixes on_event :: "'e \<Rightarrow> 's \<Rightarrow> 's"
    and kind :: "'e \<Rightarrow> flag_event"
    and flag :: "'s \<Rightarrow> bool"
  assumes begins: "kind e = Begins \<Longrightarrow> flag (on_event e s)"
    and finishes: "kind e = Finishes \<Longrightarrow> \<not> flag (on_event e s)"
    and unrelated: "kind e = Unrelated \<Longrightarrow> flag (on_event e s) = flag s"
begin

lemma flag_while_pending:
  "pending_after (flag s) (map kind es) = Some p \<Longrightarrow> flag (fold on_event es s) = p"
proof (induction es arbitrary: s)
  case (Cons e es)
  then show ?case
    using begins [of e s] finishes [of e s] unrelated [of e s]
    by (cases "kind e") (auto split: if_splits)
qed simp

lemma flag_newest:
  "runs_after n (map kind es) = Some m \<Longrightarrow> flag (fold on_event es s) = newest_begins (flag s) (map kind es)"
proof (induction es arbitrary: s n)
  case (Cons e es)
  then show ?case
    using begins [of e s] finishes [of e s] unrelated [of e s]
    by (cases "kind e") (auto split: if_splits)
qed simp

end

end
