(* ===== verification/UI_Store.thy ===== *)
theory UI_Store
  imports UI_Storage UI_Loading
begin

text \<open>
  \<^verbatim>\<open>utils/store.ts\<close>, with \<^verbatim>\<open>utils/pagination.ts\<close>, \<^verbatim>\<open>utils/hash.ts\<close>, \<^verbatim>\<open>services/index.ts\<close> and the list
  request of \<^verbatim>\<open>services/request.ts\<close>: the store that every list page of the user interface is built
  from. All resources (nodes, spiders, tasks, schedules, users, ...) share it.

  The state is a record; the mutations are the constructors of \<open>base_mutation\<close>. An action that
  calls the API is split where it awaits the answer: \<open>getList_start\<close> and \<open>getList_done\<close>, between
  which any mutation may happen. Functions in the state (\<open>afterSave\<close>) are represented by names;
  \<open>md5\<close> and the translation \<open>t\<close> are parameters.
\<close>

section \<open>State\<close>

definition getDefaultPagination :: jobj where
  "getDefaultPagination = [(''page'', Num 1), (''size'', Num 10)]"

definition globalLayoutSettingsKey :: string where
  "globalLayoutSettingsKey = ''globalLayoutSettings''"

record base_state =
  ns :: string
  dialogVisible_createEdit :: bool
  activeDialogKey :: "string option"
  form :: js
  isSelectiveForm :: bool
  selectedFormFields :: "string list"
  readonlyFormFields :: "string list"
  formList :: "js list"
  newFormFn :: "unit \<Rightarrow> js"
  confirmLoading :: bool
  tableLoading :: bool
  tableData :: js
  tableTotal :: js
  tablePagination :: jobj
  tableListFilter :: "jobj list"
  tableListSort :: "jobj list"
  sidebarCollapsed :: bool
  actionsCollapsed :: bool
  nav_tabs :: "jobj list"
  disabledTabKeys :: "string list"
  navList :: js
  afterSave :: "string list"

type_synonym base_world = "base_state \<times> local_storage"

definition getDefaultStoreState :: "(string \<Rightarrow> string) \<Rightarrow> string \<Rightarrow> local_storage \<Rightarrow> thrown + base_state" where
  "getDefaultStoreState t namespace ls =
     (case loadNamespaceLocalStorage namespace globalLayoutSettingsKey ls of
        Inl e \<Rightarrow> Inl e
      | Inr namespaceSettings \<Rightarrow>
          Inr \<lparr>ns = namespace,
               dialogVisible_createEdit = True,
               activeDialogKey = None,
               form = Obj [],
               isSelectiveForm = False,
               selectedFormFields = [],
               readonlyFormFields = [],
               formList = [],
               newFormFn = (\<lambda>_. Obj []),
               confirmLoading = False,
               tableLoading = False,
               tableData = Arr [],
               tableTotal = Num 0,
               tablePagination = amerge getDefaultPagination
                 (spread_js (js_get_opt namespaceSettings ''pagination'')),
               tableListFilter = [],
               tableListSort = [],
               sidebarCollapsed = False,
               actionsCollapsed = False,
               nav_tabs = [[(''id'', Str ''overview''), (''title'', Str (t ''common.tabs.overview''))]],
               disabledTabKeys = [],
               navList = Arr [],
               afterSave = []\<rparr>)"

text \<open>Getters.\<close>

definition dialogVisible :: "base_state \<Rightarrow> bool" where
  "dialogVisible s \<longleftrightarrow> activeDialogKey s \<noteq> None"

definition formListIds :: "base_state \<Rightarrow> thrown + js list" where
  "formListIds s =
     (let ids = map (\<lambda>d. js_get d ''_id'') (formList s) in
      case filter (\<lambda>r. case r of Inl _ \<Rightarrow> True | _ \<Rightarrow> False) ids of
        Inl e # _ \<Rightarrow> Inl e
      | _ \<Rightarrow> Inr (map (\<lambda>r. case r of Inr v \<Rightarrow> v | Inl _ \<Rightarrow> Undef) ids))"

section \<open>Mutations\<close>

datatype base_mutation =
    ShowDialog string
  | HideDialog
  | SetForm js
  | ResetForm
  | SetIsSelectiveForm bool
  | SetSelectedFormFields "string list"
  | ResetSelectedFormFields
  | SetReadonlyFormFields "string list"
  | ResetReadonlyFormFields
  | SetFormList "js list"
  | ResetFormList
  | SetConfirmLoading bool
  | SetTableLoading bool
  | SetTableData js js
  | ResetTableData
  | SetTablePagination jobj
  | ResetTablePagination
  | SetTableListFilter "jobj list"
  | ResetTableListFilter
  | SetTableListFilterByKey js "jobj list"
  | ResetTableListFilterByKey js
  | SetTableListSort "jobj list"
  | ResetTableListSort
  | SetTableListSortByKey js "jobj option"
  | ResetTableListSortByKey js
  | SetNavTabs "jobj list"
  | SetDisabledTabKeys "string list"
  | ResetDisabledTabKeys
  | SetNavList js
  | ResetNavList
  | SetAfterSave "string list"

definition hideDialog :: "base_state \<Rightarrow> base_state" where
  "hideDialog s =
     s\<lparr>isSelectiveForm := False, selectedFormFields := [], formList := [], confirmLoading := False,
       activeDialogKey := None\<rparr>"

definition drop_key :: "js \<Rightarrow> jobj list \<Rightarrow> jobj list" where
  "drop_key key ds = filter (\<lambda>d. oget d ''key'' \<noteq> key) ds"

definition setTableListFilterByKey :: "js \<Rightarrow> jobj list \<Rightarrow> base_state \<Rightarrow> base_state" where
  "setTableListFilterByKey key conditions s =
     s\<lparr>tableListFilter := drop_key key (tableListFilter s) @ map (aset ''key'' key) conditions\<rparr>"

definition clone_obj :: "jobj \<Rightarrow> jobj" where
  "clone_obj ps = (case plainClone (Obj ps) of Inr (Obj qs) \<Rightarrow> qs | _ \<Rightarrow> ps)"

definition setTableListSortByKey :: "js \<Rightarrow> jobj option \<Rightarrow> base_state \<Rightarrow> base_state" where
  "setTableListSortByKey key srt s =
     (case find_index (\<lambda>d. oget d ''key'' = key) (tableListSort s) of
        None \<Rightarrow>
          (case srt of None \<Rightarrow> s | Some x \<Rightarrow> s\<lparr>tableListSort := tableListSort s @ [x]\<rparr>)
      | Some idx \<Rightarrow>
          (case srt of
             None \<Rightarrow> s\<lparr>tableListSort := take idx (tableListSort s) @ drop (Suc idx) (tableListSort s)\<rparr>
           | Some x \<Rightarrow> s\<lparr>tableListSort := (tableListSort s)[idx := clone_obj x]\<rparr>))"

text \<open>A mutation that saves may throw after it has changed the state.\<close>

definition setTablePagination :: "jobj \<Rightarrow> base_world \<Rightarrow> base_world \<times> thrown option" where
  "setTablePagination pagination w = (case w of (s, ls) \<Rightarrow>
     (let s' = s\<lparr>tablePagination := pagination\<rparr> in
      case saveNamespaceLocalStorage (ns s) globalLayoutSettingsKey [(''pagination'', Obj pagination)] ls of
        Inl e \<Rightarrow> ((s', ls), Some e)
      | Inr ls' \<Rightarrow> ((s', ls'), None)))"

fun mutate :: "base_mutation \<Rightarrow> base_state \<Rightarrow> base_state" where
  "mutate (ShowDialog key) s = s\<lparr>activeDialogKey := Some key\<rparr>"
| "mutate HideDialog s = hideDialog s"
| "mutate (SetForm value) s = s\<lparr>form := value\<rparr>"
| "mutate ResetForm s = s\<lparr>form := newFormFn s ()\<rparr>"
| "mutate (SetIsSelectiveForm value) s = s\<lparr>isSelectiveForm := value\<rparr>"
| "mutate (SetSelectedFormFields value) s = s\<lparr>selectedFormFields := value\<rparr>"
| "mutate ResetSelectedFormFields s = s\<lparr>selectedFormFields := []\<rparr>"
| "mutate (SetReadonlyFormFields value) s = s\<lparr>readonlyFormFields := value\<rparr>"
| "mutate ResetReadonlyFormFields s = s\<lparr>readonlyFormFields := []\<rparr>"
| "mutate (SetFormList value) s = s\<lparr>formList := value\<rparr>"
| "mutate ResetFormList s = s\<lparr>formList := []\<rparr>"
| "mutate (SetConfirmLoading value) s = s\<lparr>confirmLoading := value\<rparr>"
| "mutate (SetTableLoading value) s = s\<lparr>tableLoading := value\<rparr>"
| "mutate (SetTableData data n) s = s\<lparr>tableData := data, tableTotal := n\<rparr>"
| "mutate ResetTableData s = s\<lparr>tableData := Arr []\<rparr>"
| "mutate (SetTablePagination pagination) s = s\<lparr>tablePagination := pagination\<rparr>"
| "mutate ResetTablePagination s = s\<lparr>tablePagination := getDefaultPagination\<rparr>"
| "mutate (SetTableListFilter filt) s = s\<lparr>tableListFilter := filt\<rparr>"
| "mutate ResetTableListFilter s = s\<lparr>tableListFilter := []\<rparr>"
| "mutate (SetTableListFilterByKey key conditions) s = setTableListFilterByKey key conditions s"
| "mutate (ResetTableListFilterByKey key) s = s\<lparr>tableListFilter := drop_key key (tableListFilter s)\<rparr>"
| "mutate (SetTableListSort srt) s = s\<lparr>tableListSort := srt\<rparr>"
| "mutate ResetTableListSort s = s\<lparr>tableListSort := []\<rparr>"
| "mutate (SetTableListSortByKey key srt) s = setTableListSortByKey key srt s"
| "mutate (ResetTableListSortByKey key) s = s\<lparr>tableListSort := drop_key key (tableListSort s)\<rparr>"
| "mutate (SetNavTabs ts) s = s\<lparr>nav_tabs := ts\<rparr>"
| "mutate (SetDisabledTabKeys keys) s = s\<lparr>disabledTabKeys := keys\<rparr>"
| "mutate ResetDisabledTabKeys s = s\<lparr>disabledTabKeys := []\<rparr>"
| "mutate (SetNavList xs) s = s\<lparr>navList := xs\<rparr>"
| "mutate ResetNavList s = s\<lparr>navList := Arr []\<rparr>"
| "mutate (SetAfterSave fns) s = s\<lparr>afterSave := fns\<rparr>"

definition commit_base :: "base_mutation \<Rightarrow> base_world \<Rightarrow> base_world \<times> thrown option" where
  "commit_base m w =
     (case m of
        SetTablePagination pagination \<Rightarrow> setTablePagination pagination w
      | ResetTablePagination \<Rightarrow> setTablePagination getDefaultPagination w
      | _ \<Rightarrow> ((mutate m (fst w), snd w), None))"

section \<open>Requests of the services\<close>

record service_request =
  sr_method :: string
  sr_url :: string
  sr_params :: js
  sr_data :: js

text \<open>The requests that the methods of \<^verbatim>\<open>useRequest\<close> send.\<close>

definition get_request :: "string \<Rightarrow> js \<Rightarrow> service_request" where
  "get_request url params = \<lparr>sr_method = ''GET'', sr_url = url, sr_params = params, sr_data = Undef\<rparr>"

definition post_request :: "string \<Rightarrow> js \<Rightarrow> service_request" where
  "post_request url data = \<lparr>sr_method = ''POST'', sr_url = url, sr_params = Undef, sr_data = data\<rparr>"

definition put_request :: "string \<Rightarrow> js \<Rightarrow> service_request" where
  "put_request url data = \<lparr>sr_method = ''PUT'', sr_url = url, sr_params = Undef, sr_data = data\<rparr>"

definition del_request :: "string \<Rightarrow> js \<Rightarrow> service_request" where
  "del_request url data = \<lparr>sr_method = ''DELETE'', sr_url = url, sr_params = Undef, sr_data = data\<rparr>"

datatype service_call =
    GetById string
  | Create js
  | UpdateById string js
  | DeleteById string
  | GetList js
  | CreateList "js list"
  | UpdateList "string list" js "string list"
  | DeleteList "string list"

definition strings :: "string list \<Rightarrow> js" where
  "strings xs = Arr (map Str xs)"

fun useService :: "string \<Rightarrow> service_call \<Rightarrow> service_request" where
  "useService endpoint (GetById ident) = \<lparr>sr_method = ''GET'', sr_url = endpoint @ ''/'' @ ident, sr_params = Undef, sr_data = Undef\<rparr>"
| "useService endpoint (Create f) = \<lparr>sr_method = ''POST'', sr_url = endpoint, sr_params = Undef, sr_data = Obj [(''data'', f)]\<rparr>"
| "useService endpoint (UpdateById ident f) = \<lparr>sr_method = ''PUT'', sr_url = endpoint @ ''/'' @ ident, sr_params = Undef, sr_data = Obj [(''data'', f)]\<rparr>"
| "useService endpoint (DeleteById ident) = \<lparr>sr_method = ''DELETE'', sr_url = endpoint @ ''/'' @ ident, sr_params = Undef, sr_data = Undef\<rparr>"
| "useService endpoint (GetList params) = \<lparr>sr_method = ''GET'', sr_url = endpoint, sr_params = params, sr_data = Undef\<rparr>"
| "useService endpoint (CreateList data) = \<lparr>sr_method = ''POST'', sr_url = endpoint @ ''/batch'', sr_params = Undef, sr_data = Arr data\<rparr>"
| "useService endpoint (UpdateList ids data fs) = \<lparr>sr_method = ''PUT'', sr_url = endpoint, sr_params = Undef,
     sr_data = Obj [(''ids'', strings ids), (''data'', json_stringify data), (''fields'', strings fs)]\<rparr>"
| "useService endpoint (DeleteList ids) = \<lparr>sr_method = ''DELETE'', sr_url = endpoint, sr_params = Undef, sr_data = Obj [(''ids'', strings ids)]\<rparr>"

definition getEmptyResponseWithListData :: js where
  "getEmptyResponseWithListData = Obj [(''total'', Num 0), (''data'', Arr [])]"

text \<open>The answer of \<open>getList\<close>: an empty list for no answer, and an array for no data.\<close>

definition normalize_list :: "js \<Rightarrow> thrown + js" where
  "normalize_list res =
     (if \<not> truthy res then Inr getEmptyResponseWithListData
      else (case res of
          Obj ps \<Rightarrow> if truthy (oget ps ''data'') then Inr res else Inr (Obj (aset ''data'' (Arr []) ps))
        | Arr xs \<Rightarrow> Inr res
        | _ \<Rightarrow> Inl (create_property_error ''data'' res)))"

section \<open>Actions\<close>

definition getMd5 :: "(string \<Rightarrow> string) \<Rightarrow> js \<Rightarrow> string" where
  "getMd5 md5 value = md5 (case value of Str s \<Rightarrow> s | _ \<Rightarrow> js_str (json_stringify value))"

definition list_params :: "base_state \<Rightarrow> js" where
  "list_params s =
     Obj [(''page'', oget (tablePagination s) ''page''),
          (''size'', oget (tablePagination s) ''size''),
          (''filter'', json_stringify (Arr (map Obj (tableListFilter s)))),
          (''sort'', json_stringify (Arr (map Obj (tableListSort s))))]"

definition getList_start :: "string \<Rightarrow> base_state \<Rightarrow> base_state \<times> service_request" where
  "getList_start endpoint s =
     (mutate (SetTableLoading True) s, useService endpoint (GetList (list_params s)))"

text \<open>The rest of \<open>getList\<close>, when the answer or the failure of the request arrives.\<close>

definition getList_done :: "(string \<Rightarrow> string) \<Rightarrow> thrown + js \<Rightarrow> base_state \<Rightarrow> base_state \<times> (thrown + js)" where
  "getList_done md5 result s =
     (case (case result of Inl e \<Rightarrow> Inl e | Inr res \<Rightarrow> normalize_list res) of
        Inl e \<Rightarrow> (mutate (SetTableLoading False) s, Inl e)
      | Inr res \<Rightarrow>
          (let data = js_or (js_get_opt res ''data'') (Arr []);
               n = js_get_opt res ''total'';
               s' = (if getMd5 md5 data \<noteq> getMd5 md5 (tableData s)
                     then mutate (SetTableData data n) s else s)
           in (mutate (SetTableLoading False) s', Inr res)))"

definition getById_done :: "js \<Rightarrow> base_state \<Rightarrow> base_state \<times> (thrown + js)" where
  "getById_done res s =
     (case js_get res ''data'' of
        Inl e \<Rightarrow> (s, Inl e)
      | Inr data \<Rightarrow> (mutate (SetForm data) s, Inr res))"

definition FILTER_OP_CONTAINS :: string where
  "FILTER_OP_CONTAINS = ''c''"

definition getNavList_start :: "string \<Rightarrow> string option \<Rightarrow> service_request" where
  "getNavList_start endpoint query =
     useService endpoint (GetList (Obj
       [(''size'', Num 100),
        (''filter'',
          (case query of
             None \<Rightarrow> Undef
           | Some q \<Rightarrow> if q = [] then Undef
               else json_stringify (Arr [Obj [(''key'', Str ''name''), (''op'', Str FILTER_OP_CONTAINS), (''value'', Str q)]])))]))"

definition getNavList_done :: "js \<Rightarrow> base_state \<Rightarrow> thrown + base_state" where
  "getNavList_done result s =
     (case normalize_list result of
        Inl e \<Rightarrow> Inl e
      | Inr res \<Rightarrow>
          (let data = js_get_opt res ''data'' in
           Inr (if truthy data then mutate (SetNavList data) s else s)))"

section \<open>Filters and sorting by key\<close>

definition with_key :: "js \<Rightarrow> jobj list \<Rightarrow> jobj list" where
  "with_key k ds = filter (\<lambda>d. oget d ''key'' = k) ds"

lemma with_key_drop_key: "with_key k (drop_key k' ds) = (if k = k' then [] else with_key k ds)"
  by (auto simp: with_key_def drop_key_def intro: filter_cong)

lemma with_key_append [simp]: "with_key k (ds @ es) = with_key k ds @ with_key k es"
  by (simp add: with_key_def)

lemma with_key_set_key: "with_key k (map (aset ''key'' k') cs) = (if k = k' then map (aset ''key'' k') cs else [])"
  by (induction cs) (simp_all add: with_key_def)

text \<open>
  Setting the filter conditions of one column replaces exactly that column's conditions, in
  the order given, and leaves the conditions of every other column, and the sorting, as they are;
  resetting a column removes exactly its conditions.
\<close>

theorem filter_by_key:
  "with_key k' (tableListFilter (setTableListFilterByKey k cs s)) =
     (if k' = k then map (aset ''key'' k) cs else with_key k' (tableListFilter s)) \<and>
   with_key k' (tableListFilter (mutate (ResetTableListFilterByKey k) s)) =
     (if k' = k then [] else with_key k' (tableListFilter s)) \<and>
   tableListSort (setTableListFilterByKey k cs s) = tableListSort s"
  by (simp add: setTableListFilterByKey_def with_key_drop_key with_key_set_key)

lemma clone_obj_plain: "plain (Obj ps) \<Longrightarrow> clone_obj ps = ps"
  using plainClone_eq [of "Obj ps"] plain_wf [of "Obj ps"] jnorm_id [of "Obj ps"]
  by (simp add: clone_obj_def del: plain.simps wf_js.simps jnorm.simps)

definition sort_keys :: "jobj list \<Rightarrow> js list" where
  "sort_keys ds = map (\<lambda>d. oget d ''key'') ds"

definition sort_of :: "js \<Rightarrow> jobj list \<Rightarrow> jobj option" where
  "sort_of k ds = find (\<lambda>d. oget d ''key'' = k) ds"

lemma sort_of_split:
  "k \<notin> set (sort_keys xs) \<Longrightarrow> sort_of k (xs @ ys) = sort_of k ys"
  "sort_of k (x # ys) = (if oget x ''key'' = k then Some x else sort_of k ys)"
  by (induction xs) (auto simp: sort_of_def sort_keys_def)

lemma sort_of_other:
  "oget d ''key'' \<noteq> k \<Longrightarrow> oget e ''key'' \<noteq> k \<Longrightarrow> sort_of k (xs @ d # ys) = sort_of k (xs @ e # ys)"
  "oget d ''key'' \<noteq> k \<Longrightarrow> sort_of k (xs @ d # ys) = sort_of k (xs @ ys)"
  by (induction xs) (simp_all add: sort_of_def)

lemma sort_of_None: "k \<notin> set (sort_keys xs) \<Longrightarrow> sort_of k xs = None"
  by (auto simp: sort_of_def sort_keys_def find_None_iff)

text \<open>
  Sorting by column: if every column occurs at most once in the sorting, then after setting
  or clearing the sorting of one column this still holds, the column has exactly the sorting that
  was set, and the sorting of every other column is as before.
\<close>

theorem sort_by_key:
  assumes d: "distinct (sort_keys (tableListSort s))"
    and x: "\<And>x. srt = Some x \<Longrightarrow> oget x ''key'' = k \<and> plain (Obj x)"
  shows "distinct (sort_keys (tableListSort (setTableListSortByKey k srt s))) \<and>
    sort_of k (tableListSort (setTableListSortByKey k srt s)) = srt \<and>
    (\<forall>k'. k' \<noteq> k \<longrightarrow> sort_of k' (tableListSort (setTableListSortByKey k srt s)) = sort_of k' (tableListSort s))"
proof (cases "find_index (\<lambda>d. oget d ''key'' = k) (tableListSort s)")
  case None
  then have n: "k \<notin> set (sort_keys (tableListSort s))"
    by (auto simp: find_index_None sort_keys_def)
  have o: "sort_of k' (tableListSort s @ [e]) = sort_of k' (tableListSort s)" if "oget e ''key'' \<noteq> k'" for e k'
    using sort_of_other(2) [of e k' "tableListSort s" "[]"] that by simp
  have e: "sort_of k [] = None" by (simp add: sort_of_def)
  show ?thesis
    using None d n x sort_of_None [OF n]
    by (cases srt) (auto simp: setTableListSortByKey_def sort_of_split o, auto simp: sort_keys_def)
next
  case (Some i)
  let ?l = "tableListSort s"
  from find_index_Some [OF Some] have i: "i < length ?l" "oget (?l ! i) ''key'' = k" by auto
  have split: "?l = take i ?l @ ?l ! i # drop (Suc i) ?l" by (rule id_take_nth_drop [OF i(1)])
  have d': "distinct (sort_keys (take i ?l @ ?l ! i # drop (Suc i) ?l))" using d split by simp
  then have n: "k \<notin> set (sort_keys (take i ?l))" "k \<notin> set (sort_keys (take i ?l @ drop (Suc i) ?l))"
    using i(2) by (auto simp: sort_keys_def)
  show ?thesis
  proof (cases srt)
    case None
    have "sort_of k' (take i ?l @ drop (Suc i) ?l) = sort_of k' ?l" if "k' \<noteq> k" for k'
      using sort_of_other(2) [of "?l ! i" k' "take i ?l" "drop (Suc i) ?l"] that i(2) split by simp
    with d' n sort_of_None [OF n(2)] show ?thesis
      by (simp add: setTableListSortByKey_def Some None) (simp add: sort_keys_def)
  next
    case (Some x')
    then have x': "oget x' ''key'' = k" "clone_obj x' = x'" using x clone_obj_plain by auto
    have u: "?l[i := x'] = take i ?l @ x' # drop (Suc i) ?l" using i(1) by (simp add: upd_conv_take_nth_drop)
    have "sort_of k' (?l[i := x']) = sort_of k' ?l" if "k' \<noteq> k" for k'
      using sort_of_other(1) [of x' k' "?l ! i" "take i ?l" "drop (Suc i) ?l"] that i(2) x' split u by simp
    moreover have "sort_of k (?l[i := x']) = Some x'"
      unfolding u using sort_of_split n x' by simp
    moreover have "distinct (sort_keys (?l[i := x']))"
      unfolding u using d' i(2) x'(1) by (simp add: sort_keys_def)
    ultimately show ?thesis
      using \<open>find_index _ _ = Some i\<close> by (simp add: setTableListSortByKey_def Some x')
  qed
qed

text \<open>A state for the examples.\<close>

definition example_state :: base_state where
  "example_state = (case getDefaultStoreState (\<lambda>k. k) ''task'' Map.empty of Inr s \<Rightarrow> s)"

lemma example_state_eq: "getDefaultStoreState (\<lambda>k. k) ''task'' Map.empty = Inr example_state"
  by (simp add: example_state_def getDefaultStoreState_def loadNamespaceLocalStorage_def
      loadLocalStorage_def item_defs)

theorem sort_by_key_witness:
  "sort_of (Str ''status'') (tableListSort
      (setTableListSortByKey (Str ''status'') (Some [(''key'', Str ''status''), (''d'', Str ''asc'')]) example_state))
    = Some [(''key'', Str ''status''), (''d'', Str ''asc'')]"
  using sort_by_key [of example_state "Some [(''key'', Str ''status''), (''d'', Str ''asc'')]" "Str ''status''"]
  by (simp add: example_state_def getDefaultStoreState_def loadNamespaceLocalStorage_def
      loadLocalStorage_def item_defs sort_keys_def)

section \<open>The list request\<close>

definition plain_obj :: "jobj \<Rightarrow> bool" where
  "plain_obj ps \<longleftrightarrow> plain (Obj ps)"

lemma objects_roundtrip:
  assumes "list_all plain_obj ds"
  shows "\<exists>text. json_stringify (Arr (map Obj ds)) = Str text \<and> json_parse text = Inr (Arr (map Obj ds))"
proof -
  have p: "plain (Arr (map Obj ds))" using assms by (auto simp: plain_obj_def list_all_iff)
  then show ?thesis
    using json_parse_ser [of "Arr (map Obj ds)" "[]" "[]"] plain_wf [OF p] jnorm_id [OF p]
    by (simp add: json_stringify_def all_ws_def del: plain.simps wf_js.simps jnorm.simps ser.simps)
qed

text \<open>
  The list request carries the page, the size, and the filter and the sorting as JSON texts
  that parse back to exactly the conditions of the store.
\<close>

theorem list_request_faithful:
  assumes "list_all plain_obj (tableListFilter s)" and "list_all plain_obj (tableListSort s)"
  shows "\<exists>ps f g. sr_params (snd (getList_start endpoint s)) = Obj ps \<and>
    sr_method (snd (getList_start endpoint s)) = ''GET'' \<and> sr_url (snd (getList_start endpoint s)) = endpoint \<and>
    oget ps ''page'' = oget (tablePagination s) ''page'' \<and> oget ps ''size'' = oget (tablePagination s) ''size'' \<and>
    oget ps ''filter'' = Str f \<and> json_parse f = Inr (Arr (map Obj (tableListFilter s))) \<and>
    oget ps ''sort'' = Str g \<and> json_parse g = Inr (Arr (map Obj (tableListSort s))) \<and>
    tableLoading (fst (getList_start endpoint s))"
  using objects_roundtrip [OF assms(1)] objects_roundtrip [OF assms(2)]
  by (auto simp: getList_start_def list_params_def)

theorem list_request_faithful_witness:
  "\<exists>ps f. sr_params (snd (getList_start ''/tasks''
       (setTableListFilterByKey (Str ''name'') [[(''op'', Str ''c''), (''value'', Str ''x'')]] example_state))) = Obj ps \<and>
    oget ps ''filter'' = Str f \<and>
    json_parse f = Inr (Arr [Obj [(''op'', Str ''c''), (''value'', Str ''x''), (''key'', Str ''name'')]])"
proof -
  let ?s = "setTableListFilterByKey (Str ''name'') [[(''op'', Str ''c''), (''value'', Str ''x'')]] example_state"
  have e: "tableListFilter example_state = []" "tableListSort example_state = []"
    by (simp_all add: example_state_def getDefaultStoreState_def loadNamespaceLocalStorage_def
      loadLocalStorage_def item_defs)
  have f: "tableListFilter ?s = [[(''op'', Str ''c''), (''value'', Str ''x''), (''key'', Str ''name'')]]"
    "tableListSort ?s = []"
    by (simp_all add: setTableListFilterByKey_def e drop_key_def)
  show ?thesis
    using list_request_faithful [of ?s "''/tasks''"] unfolding f by (fastforce simp: plain_obj_def)
qed

section \<open>Answers to the list request\<close>

lemma mutate_loading [simp]: "mutate (SetTableLoading b) s = s\<lparr>tableLoading := b\<rparr>" by simp

lemma getList_done_Obj:
  "fst (getList_done md5 (Inr (Obj ps)) s) =
     (if getMd5 md5 (js_or (oget ps ''data'') (Arr [])) \<noteq> getMd5 md5 (tableData s)
      then s\<lparr>tableData := js_or (oget ps ''data'') (Arr []), tableTotal := oget ps ''total'', tableLoading := False\<rparr>
      else s\<lparr>tableLoading := False\<rparr>)"
proof (cases "truthy (oget ps ''data'')")
  case False
  have "normalize_list (Obj ps) = Inr (Obj (aset ''data'' (Arr []) ps))"
    using False by (simp add: normalize_list_def)
  then show ?thesis
    using False by (simp add: getList_done_def js_or_def Let_def)
qed (simp add: getList_done_def normalize_list_def Let_def js_or_def)

lemma getList_done_Inl: "getList_done md5 (Inl e) s = (s\<lparr>tableLoading := False\<rparr>, Inl e)"
  by (simp add: getList_done_def)

text \<open>
  When the answer of a list request arrives and MD5 separates the two JSON texts it compares,
  the table shows data with the JSON text of the answer's data, the total is the answer's unless
  the data are the ones shown, and nothing but data, total and loading flag changes; a failure
  only ends the loading and is passed on.
\<close>

theorem list_answer_applied:
  assumes "getMd5 md5 data = getMd5 md5 (tableData s) \<Longrightarrow> json_stringify data = json_stringify (tableData s)"
    and "data = js_or (oget ps ''data'') (Arr [])"
  shows "\<exists>shown n. fst (getList_done md5 (Inr (Obj ps)) s) = s\<lparr>tableData := shown, tableTotal := n, tableLoading := False\<rparr> \<and>
    json_stringify shown = json_stringify data \<and>
    (json_stringify data \<noteq> json_stringify (tableData s) \<longrightarrow> n = oget ps ''total'') \<and>
    (n = oget ps ''total'' \<or> n = tableTotal s) \<and>
    getList_done md5 (Inl e) s = (s\<lparr>tableLoading := False\<rparr>, Inl e)"
proof -
  let ?same = "getMd5 md5 data = getMd5 md5 (tableData s)"
  have f: "fst (getList_done md5 (Inr (Obj ps)) s) =
      s\<lparr>tableData := if ?same then tableData s else data,
        tableTotal := if ?same then tableTotal s else oget ps ''total'', tableLoading := False\<rparr>"
    unfolding getList_done_Obj assms(2) [symmetric] by simp
  show ?thesis
    unfolding f getList_done_Inl using assms(1)
    by (intro exI conjI) (rule refl, simp_all)
qed

theorem list_answer_applied_witness:
  "json_stringify (tableData (fst (getList_done (\<lambda>x. x)
      (Inr (Obj [(''data'', Arr [Num 3]), (''total'', Num 1)])) example_state))) = json_stringify (Arr [Num 3])"
proof -
  have e: "tableData example_state = Arr []"
    by (simp add: example_state_def getDefaultStoreState_def loadNamespaceLocalStorage_def
      loadLocalStorage_def item_defs)
  have "getMd5 (\<lambda>x. x) (Arr [Num 3]) \<noteq> getMd5 (\<lambda>x. x) (tableData example_state)"
    unfolding e getMd5_def by (simp add: json_stringify_def dec_int_def)
  then show ?thesis
    using list_answer_applied [of "\<lambda>x. x" "Arr [Num 3]" example_state
      "[(''data'', Arr [Num 3]), (''total'', Num 1)]"]
    by (fastforce simp: js_or_def)
qed

text \<open>
  The total is not compared: if a page shows the same rows while the total has changed, the
  answer's total is dropped.
\<close>

lemma total_dropped:
  "getMd5 md5 (js_or (oget ps ''data'') (Arr [])) = getMd5 md5 (tableData s) \<Longrightarrow>
   tableTotal (fst (getList_done md5 (Inr (Obj ps)) s)) = tableTotal s"
  by (simp add: getList_done_Obj)

section \<open>The loading flag\<close>

datatype list_event =
    ListStarts
  | ListEnds "thrown + js"
  | Mutates base_mutation

fun on_list_event :: "(string \<Rightarrow> string) \<Rightarrow> string \<Rightarrow> list_event \<Rightarrow> base_state \<Rightarrow> base_state" where
  "on_list_event md5 endpoint ListStarts s = fst (getList_start endpoint s)"
| "on_list_event md5 endpoint (ListEnds r) s = fst (getList_done md5 r s)"
| "on_list_event md5 endpoint (Mutates m) s = mutate m s"

fun list_event_kind :: "list_event \<Rightarrow> flag_event" where
  "list_event_kind ListStarts = Begins"
| "list_event_kind (ListEnds r) = Finishes"
| "list_event_kind (Mutates m) = (case m of SetTableLoading _ \<Rightarrow> SetsFlag | _ \<Rightarrow> Unrelated)"

lemma loading_start [simp]: "tableLoading (fst (getList_start endpoint s))"
  by (simp add: getList_start_def)

lemma loading_done [simp]: "\<not> tableLoading (fst (getList_done md5 r s))"
  by (simp add: getList_done_def Let_def split: sum.split)

interpretation table_flag: loading_flag "on_list_event md5 endpoint" list_event_kind tableLoading
proof unfold_locales
  fix e :: list_event and s :: base_state
  show "list_event_kind e = Begins \<Longrightarrow> tableLoading (on_list_event md5 endpoint e s)"
    by (cases e) (auto split: base_mutation.splits)
  show "list_event_kind e = Finishes \<Longrightarrow> \<not> tableLoading (on_list_event md5 endpoint e s)"
    by (cases e) (auto split: base_mutation.splits)
  show "list_event_kind e = Unrelated \<Longrightarrow> tableLoading (on_list_event md5 endpoint e s) = tableLoading s"
    by (cases e) (auto simp: hideDialog_def setTableListFilterByKey_def setTableListSortByKey_def
        split: base_mutation.splits option.splits)
qed

text \<open>
  As long as the list requests do not overlap and nothing else sets the flag, the table is
  marked as loading exactly while a request is pending, whatever the answers are and whatever
  other mutations happen in between.
\<close>

theorem loading_while_pending:
  assumes "pending_after (tableLoading s) (map list_event_kind es) = Some p"
  shows "tableLoading (fold (on_list_event md5 endpoint) es s) = p"
  using assms by (rule table_flag.flag_while_pending)

theorem loading_while_pending_witness:
  "\<not> tableLoading (fold (on_list_event (\<lambda>x. x) ''/tasks'')
     [ListStarts, Mutates (ShowDialog ''create''), ListEnds (Inl (ErrorObj ''timeout'')), ListStarts, ListEnds (Inr Undef)] example_state)"
proof -
  have "tableLoading example_state = False"
    by (simp add: example_state_def getDefaultStoreState_def loadNamespaceLocalStorage_def
      loadLocalStorage_def item_defs)
  then show ?thesis
    using loading_while_pending [of example_state
      "[ListStarts, Mutates (ShowDialog ''create''), ListEnds (Inl (ErrorObj ''timeout'')), ListStarts, ListEnds (Inr Undef)]" False] by simp
qed

text \<open>Without the condition the claim fails: the first of two overlapping answers ends the loading.\<close>

lemma overlapping_lists_end_loading:
  "\<not> tableLoading (fold (on_list_event md5 endpoint) [ListStarts, ListStarts, ListEnds r] s)"
  by simp

section \<open>The pagination outlives the page\<close>

text \<open>
  Setting the pagination of a list saves it: a store created later for the same namespace
  starts with it (over the defaults), a store of another namespace starts as it would have
  before, and no other key of the local storage changes.
\<close>

theorem pagination_persists:
  assumes "stored_namespaces globalLayoutSettingsKey ls = Some ps" and "plain (Obj pagination)"
  shows "\<exists>ls' s0. setTablePagination pagination (s, ls) = ((s\<lparr>tablePagination := pagination\<rparr>, ls'), None) \<and>
    getDefaultStoreState t (ns s) ls' = Inr s0 \<and>
    map_of (tablePagination s0) = map_of getDefaultPagination ++ map_of pagination \<and>
    (\<forall>ns'. ns' \<noteq> ns s \<longrightarrow> getDefaultStoreState t ns' ls' = getDefaultStoreState t ns' ls) \<and>
    (\<forall>k. k \<noteq> globalLayoutSettingsKey \<longrightarrow> getItem k ls' = getItem k ls)"
proof -
  let ?k = globalLayoutSettingsKey
  have v: "plain (Obj [(''pagination'', Obj pagination)])" using assms(2) by simp
  obtain ls' where ls': "saveNamespaceLocalStorage (ns s) ?k [(''pagination'', Obj pagination)] ls = Inr ls'"
      "stored_namespaces ?k ls' = Some (with_settings (ns s) [(''pagination'', Obj pagination)] ps)"
      "\<And>k. k \<noteq> ?k \<Longrightarrow> getItem k ls' = getItem k ls"
    using saveNamespace_stored [OF assms(1) v] by blast
  have l: "loadNamespaceLocalStorage (ns s) ?k ls' =
      Inr (Obj (amerge (spread_js (oget ps (ns s))) [(''pagination'', Obj pagination)]))"
    using loadNamespace_stored [OF ls'(2)] by (simp add: with_settings_def js_or_def)
  have p: "oget (amerge xs [(''pagination'', v)]) ''pagination'' = v" for xs and v :: js
    by (simp add: oget_def map_of_amerge)
  have o: "loadNamespaceLocalStorage ns' ?k ls' = loadNamespaceLocalStorage ns' ?k ls" if "ns' \<noteq> ns s" for ns'
    using that by (simp add: loadNamespace_stored [OF ls'(2)] loadNamespace_stored [OF assms(1)] with_settings_def)
  have d: "distinct (map fst pagination)" using assms(2) by simp
  show ?thesis
    by (intro exI [of _ ls'])
      (simp add: setTablePagination_def ls'(1,3) getDefaultStoreState_def l p o map_of_amerge [OF d] Let_def)
qed

theorem pagination_persists_witness:
  "\<exists>ls' s0. setTablePagination [(''page'', Num 2), (''size'', Num 50)] (example_state, Map.empty)
      = ((example_state\<lparr>tablePagination := [(''page'', Num 2), (''size'', Num 50)]\<rparr>, ls'), None) \<and>
    getDefaultStoreState (\<lambda>k. k) (ns example_state) ls' = Inr s0 \<and>
    map_of (tablePagination s0) ''size'' = Some (Num 50)"
proof -
  have "stored_namespaces globalLayoutSettingsKey Map.empty = Some []"
    by (simp add: stored_namespaces_def loadLocalStorage_def item_defs js_or_def)
  from pagination_persists [OF this, of "[(''page'', Num 2), (''size'', Num 50)]" example_state "\<lambda>k. k"]
  show ?thesis by fastforce
qed

section \<open>The settings stay an object\<close>

text \<open>The commits of any stores, one after the other, on the local storage they share.\<close>

fun commit_all :: "(base_state \<times> base_mutation) list \<Rightarrow> local_storage \<Rightarrow> local_storage \<times> thrown list" where
  "commit_all [] ls = (ls, [])"
| "commit_all ((s, m) # cs) ls =
     (case commit_base m (s, ls) of ((_, ls'), failed) \<Rightarrow>
        (case commit_all cs ls' of (ls2, es) \<Rightarrow> (ls2, (case failed of None \<Rightarrow> es | Some e \<Rightarrow> e # es))))"

fun plain_mutation :: "base_mutation \<Rightarrow> bool" where
  "plain_mutation (SetTablePagination pagination) = plain (Obj pagination)"
| "plain_mutation _ = True"

text \<open>
  What a mutation saves, the last pagination that the commits save for a namespace, and the stored
  settings after them.
\<close>

fun saved_pagination :: "base_mutation \<Rightarrow> jobj option" where
  "saved_pagination (SetTablePagination pagination) = Some pagination"
| "saved_pagination ResetTablePagination = Some getDefaultPagination"
| "saved_pagination _ = None"

fun last_pagination :: "string \<Rightarrow> (base_state \<times> base_mutation) list \<Rightarrow> jobj option" where
  "last_pagination namespace [] = None"
| "last_pagination namespace ((s, m) # cs) =
     (case last_pagination namespace cs of
        None \<Rightarrow> if ns s = namespace then saved_pagination m else None
      | Some pagination \<Rightarrow> Some pagination)"

definition settings_after :: "base_state \<Rightarrow> base_mutation \<Rightarrow> jobj \<Rightarrow> jobj" where
  "settings_after s m ps =
     (case saved_pagination m of
        None \<Rightarrow> ps
      | Some pagination \<Rightarrow> with_settings (ns s) [(''pagination'', Obj pagination)] ps)"

lemma setTablePagination_stored:
  assumes "stored_namespaces globalLayoutSettingsKey ls = Some ps" and "plain (Obj pagination)"
  shows "\<exists>s' ls'. setTablePagination pagination (s, ls) = ((s', ls'), None) \<and>
    stored_namespaces globalLayoutSettingsKey ls' = Some (with_settings (ns s) [(''pagination'', Obj pagination)] ps) \<and>
    (\<forall>k. k \<noteq> globalLayoutSettingsKey \<longrightarrow> getItem k ls' = getItem k ls)"
proof -
  have "plain (Obj [(''pagination'', Obj pagination)])" using assms(2) by simp
  from saveNamespace_stored [OF assms(1) this, of "ns s"] obtain ls' where
    "saveNamespaceLocalStorage (ns s) globalLayoutSettingsKey [(''pagination'', Obj pagination)] ls = Inr ls'"
    "stored_namespaces globalLayoutSettingsKey ls' = Some (with_settings (ns s) [(''pagination'', Obj pagination)] ps)"
    "\<And>k. k \<noteq> globalLayoutSettingsKey \<Longrightarrow> getItem k ls' = getItem k ls" by blast
  then show ?thesis by (intro exI [of _ "s\<lparr>tablePagination := pagination\<rparr>"] exI [of _ ls']) (simp add: setTablePagination_def)
qed

lemma commit_base_stored:
  assumes "stored_namespaces globalLayoutSettingsKey ls = Some ps" and "plain_mutation m"
  shows "\<exists>s' ls'. commit_base m (s, ls) = ((s', ls'), None) \<and>
    stored_namespaces globalLayoutSettingsKey ls' = Some (settings_after s m ps) \<and>
    (\<forall>k. k \<noteq> globalLayoutSettingsKey \<longrightarrow> getItem k ls' = getItem k ls)"
proof (cases m)
  case (SetTablePagination pagination)
  then show ?thesis
    using setTablePagination_stored [OF assms(1), of pagination s] assms(2) by (simp add: commit_base_def settings_after_def)
next
  case ResetTablePagination
  then show ?thesis
    using setTablePagination_stored [OF assms(1), of getDefaultPagination s]
    by (simp add: commit_base_def settings_after_def getDefaultPagination_def)
qed (use assms in \<open>simp_all add: commit_base_def settings_after_def\<close>)

lemma commit_all_stored:
  "stored_namespaces globalLayoutSettingsKey ls = Some ps \<Longrightarrow> list_all (\<lambda>(s, m). plain_mutation m) cs \<Longrightarrow>
   \<exists>ls'. commit_all cs ls = (ls', []) \<and>
     stored_namespaces globalLayoutSettingsKey ls' = Some (fold (\<lambda>(s, m). settings_after s m) cs ps) \<and>
     (\<forall>k. k \<noteq> globalLayoutSettingsKey \<longrightarrow> getItem k ls' = getItem k ls)"
proof (induction cs arbitrary: ls ps)
  case (Cons c cs)
  obtain s m where c: "c = (s, m)" by force
  obtain s' ls' where "commit_base m (s, ls) = ((s', ls'), None)"
    "stored_namespaces globalLayoutSettingsKey ls' = Some (settings_after s m ps)"
    "\<forall>k. k \<noteq> globalLayoutSettingsKey \<longrightarrow> getItem k ls' = getItem k ls"
    using commit_base_stored [OF Cons.prems(1), of m s] Cons.prems(2) by (auto simp: c)
  then show ?case using Cons.IH [of ls' "settings_after s m ps"] Cons.prems(2) by (auto simp: c)
qed simp

text \<open>The settings of a namespace: those saved last, or those that were there.\<close>

lemma settings_after_of:
  "oget (settings_after s m ps) namespace =
     (case saved_pagination m of
        None \<Rightarrow> oget ps namespace
      | Some pagination \<Rightarrow>
          if ns s = namespace then Obj (aset ''pagination'' (Obj pagination) (spread_js (oget ps namespace)))
          else oget ps namespace)"
  by (simp add: settings_after_def with_settings_def split: option.split)

lemma settings_of:
  "case last_pagination namespace cs of
     None \<Rightarrow> oget (fold (\<lambda>(s, m). settings_after s m) cs ps) namespace = oget ps namespace
   | Some pagination \<Rightarrow> \<exists>qs. oget (fold (\<lambda>(s, m). settings_after s m) cs ps) namespace = Obj qs \<and>
       oget qs ''pagination'' = Obj pagination"
proof (induction cs arbitrary: ps)
  case (Cons c cs)
  obtain s m where c: "c = (s, m)" by force
  show ?case
    using Cons.IH [of "settings_after s m ps"] settings_after_of [of s m ps namespace]
    by (auto simp: c split: option.splits if_splits)
qed simp

text \<open>
  C32: The list settings in the local storage stay an object and are what was set: if their key is
  missing or holds an object, then whatever base mutations the stores of all pages commit, in any
  order, none throws, the key holds an object (or is still missing) in which every namespace that saved
  a pagination has an object, no other key changes, and the state of every store can be created: with
  the pagination its namespace set last, over the default one, and as before if it set none.
\<close>

theorem settings_well_typed:
  assumes "stored_namespaces globalLayoutSettingsKey ls \<noteq> None" and "list_all (\<lambda>(s, m). plain_mutation m) cs"
  shows "\<exists>ls' ps. commit_all cs ls = (ls', []) \<and>
    stored_namespaces globalLayoutSettingsKey ls' = Some ps \<and>
    (\<forall>k. k \<noteq> globalLayoutSettingsKey \<longrightarrow> getItem k ls' = getItem k ls) \<and>
    (\<forall>namespace. case last_pagination namespace cs of
        None \<Rightarrow> (\<exists>s. getDefaultStoreState t namespace ls' = Inr s \<and> getDefaultStoreState t namespace ls = Inr s)
      | Some pagination \<Rightarrow>
          (\<exists>qs s. oget ps namespace = Obj qs \<and> getDefaultStoreState t namespace ls' = Inr s \<and>
             tablePagination s = amerge getDefaultPagination pagination))"
proof -
  obtain ps0 where ps0: "stored_namespaces globalLayoutSettingsKey ls = Some ps0" using assms(1) by auto
  from commit_all_stored [OF this assms(2)] obtain ls' where ls': "commit_all cs ls = (ls', [])"
    "stored_namespaces globalLayoutSettingsKey ls' = Some (fold (\<lambda>(s, m). settings_after s m) cs ps0)"
    "\<forall>k. k \<noteq> globalLayoutSettingsKey \<longrightarrow> getItem k ls' = getItem k ls" by blast
  let ?ps = "fold (\<lambda>(s, m). settings_after s m) cs ps0"
  have load: "loadNamespaceLocalStorage namespace globalLayoutSettingsKey ls' = Inr (js_or (oget ?ps namespace) (Obj []))"
    "loadNamespaceLocalStorage namespace globalLayoutSettingsKey ls = Inr (js_or (oget ps0 namespace) (Obj []))" for namespace
    using loadNamespace_stored [OF ls'(2)] loadNamespace_stored [OF ps0] by simp_all
  have "case last_pagination namespace cs of
        None \<Rightarrow> (\<exists>s. getDefaultStoreState t namespace ls' = Inr s \<and> getDefaultStoreState t namespace ls = Inr s)
      | Some pagination \<Rightarrow>
          (\<exists>qs s. oget ?ps namespace = Obj qs \<and> getDefaultStoreState t namespace ls' = Inr s \<and>
             tablePagination s = amerge getDefaultPagination pagination)" for namespace
    using settings_of [where namespace = namespace and cs = cs and ps = ps0] load [of namespace]
    by (auto simp: getDefaultStoreState_def js_or_def split: option.splits)
  with ls' show ?thesis by blast
qed

text \<open>Two pages set their pagination, one of them twice.\<close>

theorem settings_well_typed_witness:
  "\<exists>ls' s. commit_all [(example_state, SetTablePagination [(''page'', Num 2)]), (example_state\<lparr>ns := ''node''\<rparr>, ResetTablePagination),
       (example_state, SetTablePagination [(''page'', Num 3)])] Map.empty = (ls', []) \<and>
    getDefaultStoreState (\<lambda>k. k) (ns example_state) ls' = Inr s \<and> oget (tablePagination s) ''page'' = Num 3"
proof -
  let ?cs = "[(example_state, SetTablePagination [(''page'', Num 2)]), (example_state\<lparr>ns := ''node''\<rparr>, ResetTablePagination),
       (example_state, SetTablePagination [(''page'', Num 3)])]"
  have "stored_namespaces globalLayoutSettingsKey Map.empty \<noteq> None"
    by (simp add: stored_namespaces_def loadLocalStorage_def item_defs js_or_def)
  from settings_well_typed [OF this, of ?cs "\<lambda>k. k"] obtain ls' ps where w: "commit_all ?cs Map.empty = (ls', [])"
    "\<forall>namespace. case last_pagination namespace ?cs of
        None \<Rightarrow> (\<exists>s. getDefaultStoreState (\<lambda>k. k) namespace ls' = Inr s \<and> getDefaultStoreState (\<lambda>k. k) namespace Map.empty = Inr s)
      | Some pagination \<Rightarrow> (\<exists>qs s. oget ps namespace = Obj qs \<and> getDefaultStoreState (\<lambda>k. k) namespace ls' = Inr s \<and>
             tablePagination s = amerge getDefaultPagination pagination)"
    by (auto simp del: commit_all.simps last_pagination.simps)
  have "last_pagination (ns example_state) ?cs = Some [(''page'', Num 3)]" by simp
  with w(2) [rule_format, of "ns example_state"] obtain s where "getDefaultStoreState (\<lambda>k. k) (ns example_state) ls' = Inr s"
    "tablePagination s = amerge getDefaultPagination [(''page'', Num 3)]" by (auto simp del: last_pagination.simps)
  note w(1) this
  then show ?thesis by (intro exI [of _ ls'] exI [of _ s]) (simp add: getDefaultPagination_def del: commit_all.simps)
qed

text \<open>
  The key is written by nothing else, but when it holds a JSON text that is neither an object nor an
  array, saving throws, and when it holds no JSON text no store can be created.
\<close>

lemma settings_broken:
  "loadLocalStorage globalLayoutSettingsKey ls = Inl e \<Longrightarrow> getDefaultStoreState t namespace ls = Inl e"
  by (simp add: getDefaultStoreState_def loadNamespaceLocalStorage_def)

section \<open>The dialogs\<close>

text \<open>The ids of the forms of a batch dialog are those of its documents, in their order.\<close>

lemma formListIds_objects:
  "formList s = map Obj ds \<Longrightarrow> formListIds s = Inr (map (\<lambda>d. oget d ''_id'') ds)"
  by (simp add: formListIds_def comp_def filter_False)

end
