(* ===== verification/UI_Chat.thy ===== *)
theory UI_Chat
  imports UI_Storage
begin

text \<open>
  The assistant: \<^verbatim>\<open>components/core/ai/useAssistantConsole.ts\<close> and \<^verbatim>\<open>AssistantConsole.vue\<close>.

  The state is a record of the references of the composable. Messages and their contents are
  objects. An answer of the language model is a stream of server-sent events: the reader gives
  pieces of text, cut anywhere (the decoding of the bytes is the platform's), the complete lines
  are handled one by one, and each \<open>data:\<close> line is a chunk that updates the message. Between two
  pieces the user may do anything to the history, so reading is a step on a state.

  Not modelled: the time stamps of messages (dates are parameters where they order messages),
  scrolling and focus. A sampling temperature that is a fraction has no value in the model, so
  the initial configuration is a parameter.
\<close>

section \<open>State\<close>

record chat =
  conversationId :: js
  conversation :: js
  conversations :: js
  history :: "jobj list"
  generating :: bool
  streamError :: js
  abortable :: bool
  chatbotConfig :: jobj
  availableProviders :: "js list"
  loadingConversations :: bool
  loadingMessages :: bool
  historyDialog :: bool
  configDialog :: bool

definition chat_init :: "jobj \<Rightarrow> chat" where
  "chat_init config =
     \<lparr>conversationId = Str [], conversation = Null, conversations = Arr [], history = [],
      generating = False, streamError = Str [], abortable = False, chatbotConfig = config,
      availableProviders = [], loadingConversations = False, loadingMessages = False,
      historyDialog = False, configDialog = False\<rparr>"

definition currentConversationTitle :: "(string \<Rightarrow> string) \<Rightarrow> chat \<Rightarrow> js" where
  "currentConversationTitle t s =
     (if \<not> truthy (conversationId s) then Str (t ''components.ai.chatbot.newChat'')
      else js_or (js_get_opt (conversation s) ''title'') (Str (t ''components.ai.chatbot.newChat'')))"

section \<open>Chunks\<close>

text \<open>
  The operator \<open>+\<close>: numbers are added, anything with a string, an array or an object becomes
  text. \<open>NaN\<close> has no value in the model; \<open>undefined\<close> stands for it.
\<close>

fun js_number :: "js \<Rightarrow> int option" where
  "js_number (Num n) = Some n"
| "js_number Null = Some 0"
| "js_number (Bool b) = Some (if b then 1 else 0)"
| "js_number _ = None"

definition js_plus :: "js \<Rightarrow> js \<Rightarrow> js" where
  "js_plus a b =
     (let textual = (\<lambda>v. case v of Str _ \<Rightarrow> True | Arr _ \<Rightarrow> True | Obj _ \<Rightarrow> True | _ \<Rightarrow> False) in
      if textual a \<or> textual b then Str (js_str a @ js_str b)
      else (case (js_number a, js_number b) of (Some m, Some n) \<Rightarrow> Num (m + n) | _ \<Rightarrow> Undef))"

text \<open>\<open>v.k = x\<close> for the values that JSON can give.\<close>

definition js_assign :: "js \<Rightarrow> string \<Rightarrow> js \<Rightarrow> thrown + js" where
  "js_assign v k x =
     (case v of
        Obj ps \<Rightarrow> Inr (Obj (aset k x ps))
      | Arr xs \<Rightarrow> Inr (Arr xs)
      | Undef \<Rightarrow> Inl (type_error ''undefined'' k)
      | Null \<Rightarrow> Inl (type_error ''null'' k)
      | _ \<Rightarrow> Inl (create_property_error k v))"

text \<open>\<open>currentMessage\<close> is the message at the index of the answer, or \<open>undefined\<close> when it is gone.\<close>

definition message_at :: "nat \<Rightarrow> chat \<Rightarrow> jobj option" where
  "message_at i s = (if i < length (history s) then Some (history s ! i) else None)"

definition set_message :: "nat \<Rightarrow> jobj \<Rightarrow> chat \<Rightarrow> chat" where
  "set_message i m s = s\<lparr>history := (history s)[i := m]\<rparr>"

text \<open>The title of the conversation.\<close>

definition chunk_title :: "js \<Rightarrow> chat \<Rightarrow> chat \<times> thrown option" where
  "chunk_title chunk s =
     (let title = js_get_opt chunk ''conversation_title'' in
      if \<not> truthy title then (s, None)
      else (let s' = (if truthy (conversation s) then s else s\<lparr>conversation := Obj []\<rparr>) in
            case js_assign (conversation s') ''title'' title of
              Inl e \<Rightarrow> (s', Some e)
            | Inr v \<Rightarrow> (s'\<lparr>conversation := v\<rparr>, None)))"

text \<open>The tokens used, summed over the chunks.\<close>

definition add_usage :: "js \<Rightarrow> string \<Rightarrow> thrown + js \<Rightarrow> thrown + js" where
  "add_usage usage k r =
     (case r of
        Inl e \<Rightarrow> Inl e
      | Inr base \<Rightarrow> js_assign base k (js_plus (js_get_opt base k) (js_or (js_get_opt usage k) (Num 0))))"

definition no_usage :: js where
  "no_usage = Obj [(''prompt_tokens'', Num 0), (''completion_tokens'', Num 0), (''total_tokens'', Num 0)]"

definition chunk_usage :: "js \<Rightarrow> nat \<Rightarrow> chat \<Rightarrow> chat \<times> thrown option" where
  "chunk_usage chunk i s =
     (let usage = js_get_opt chunk ''usage'' in
      if \<not> truthy usage then (s, None)
      else (case message_at i s of
          None \<Rightarrow> (s, Some (type_error ''undefined'' ''usage''))
        | Some m \<Rightarrow>
            (let base = (if truthy (oget m ''usage'') then oget m ''usage'' else no_usage) in
             case add_usage usage ''total_tokens'' (add_usage usage ''completion_tokens''
                    (add_usage usage ''prompt_tokens'' (Inr base))) of
               Inl e \<Rightarrow> (set_message i (aset ''usage'' base m) s, Some e)
             | Inr v \<Rightarrow> (set_message i (aset ''usage'' v m) s, None))))"

fun find_content :: "js \<Rightarrow> js list \<Rightarrow> thrown + nat option" where
  "find_content k [] = Inr None"
| "find_content k (c # cs) =
     (case js_get c ''key'' of
        Inl e \<Rightarrow> Inl e
      | Inr key \<Rightarrow>
          if strict_eq key k then Inr (Some 0)
          else (case find_content k cs of Inl e \<Rightarrow> Inl e | Inr r \<Rightarrow> Inr (map_option Suc r)))"

definition append_text :: "js \<Rightarrow> js \<Rightarrow> js" where
  "append_text chunk content =
     (case content of
        Obj ps \<Rightarrow>
          (let ps' = aset ''content'' (js_plus (oget ps ''content'') (js_or (js_get_opt chunk ''content'') (Str []))) ps
           in Obj (if truthy (js_get_opt chunk ''is_text_done'') then aset ''isStreaming'' (Bool False) ps' else ps'))
      | v \<Rightarrow> v)"

definition new_text :: "js \<Rightarrow> js" where
  "new_text chunk =
     Obj (amerge (spread_js chunk)
       [(''content'', js_or (js_get_opt chunk ''content'') (Str [])), (''isStreaming'', Bool True)])"

definition update_contents :: "js \<Rightarrow> js list \<Rightarrow> thrown + js list" where
  "update_contents chunk contents =
     (let kind = js_get_opt chunk ''type'';
          contentKey = js_or (js_get_opt chunk ''key'') (Str [])
      in case find_content contentKey contents of
           Inl e \<Rightarrow> Inl e
         | Inr (Some n) \<Rightarrow>
             Inr (if kind = Str ''text'' then contents[n := append_text chunk (contents ! n)]
                  else if kind = Str ''action''
                  then contents[n := Obj (amerge (spread_js (contents ! n)) (spread_js chunk))]
                  else contents)
         | Inr None \<Rightarrow>
             Inr (if kind = Str ''text'' then contents @ [new_text chunk]
                  else if kind = Str ''action'' then contents @ [Obj (spread_js chunk)]
                  else contents))"

definition chunk_contents :: "js \<Rightarrow> nat \<Rightarrow> chat \<Rightarrow> chat \<times> thrown option" where
  "chunk_contents chunk i s =
     (case message_at i s of
        None \<Rightarrow> (s, Some (type_error ''undefined'' ''contents''))
      | Some m \<Rightarrow>
          (case (if truthy (js_get_opt (oget m ''contents'') ''length'') then oget m ''contents'' else Arr []) of
             Arr cs \<Rightarrow>
               (let m' = aset ''contents'' (Arr cs) m in
                case update_contents chunk cs of
                  Inl e \<Rightarrow> (set_message i m' s, Some e)
                | Inr cs' \<Rightarrow> (set_message i (aset ''contents'' (Arr cs') m) s, None))
           | _ \<Rightarrow> (s, Some (ErrorObj ''currentMessage.contents.findIndex is not a function''))))"

text \<open>
  A step of \<open>handleStreamChunk\<close> that throws keeps what the steps before it have done.
\<close>

definition and_then :: "chat \<times> thrown option \<Rightarrow> (chat \<Rightarrow> chat \<times> thrown option) \<Rightarrow> chat \<times> thrown option" where
  "and_then r f = (case r of (s, None) \<Rightarrow> f s | (s, Some e) \<Rightarrow> (s, Some e))"

definition handleStreamChunk :: "js \<Rightarrow> nat \<Rightarrow> chat \<Rightarrow> chat \<times> thrown option" where
  "handleStreamChunk chunk i s =
     (case js_get chunk ''is_initial'' of
        Inl e \<Rightarrow> (s, Some e)
      | Inr initial \<Rightarrow>
          if truthy initial then (s\<lparr>conversationId := js_get_opt chunk ''conversation_id''\<rparr>, None)
          else and_then (chunk_title chunk s) (\<lambda>s.
               and_then (chunk_usage chunk i s) (\<lambda>s. chunk_contents chunk i s)))"

section \<open>The stream\<close>

definition newline :: char where
  "newline = CHR 0x0A"

text \<open>\<open>s.split(newline)\<close>.\<close>

fun split_lines :: "string \<Rightarrow> string list" where
  "split_lines [] = [[]]"
| "split_lines (c # cs) =
     (if c = newline then [] # split_lines cs
      else (case split_lines cs of l # ls \<Rightarrow> (c # l) # ls | [] \<Rightarrow> [[c]]))"

definition extractErrorMessage :: "string \<Rightarrow> js" where
  "extractErrorMessage errorData =
     (case json_parse errorData of
        Inl _ \<Rightarrow> Str errorData
      | Inr parsed \<Rightarrow>
          (case js_get parsed ''error_detail'' of
             Inl _ \<Rightarrow> Str errorData
           | Inr detail \<Rightarrow>
               if truthy (js_get_opt detail ''message'') then js_get_opt detail ''message''
               else let error = js_get_opt parsed ''error''; txt = js_get_opt parsed ''text'' in
                 if truthy error then (case error of Str e \<Rightarrow> Str e | _ \<Rightarrow> json_stringify error)
                 else if txt \<noteq> Undef \<and> txt \<noteq> Null \<and> (case txt of Str _ \<Rightarrow> False | _ \<Rightarrow> True)
                 then Str errorData
                 else if (case txt of Str x \<Rightarrow> starts_with ''Error:'' x | _ \<Rightarrow> False) then txt
                 else (case parsed of Obj _ \<Rightarrow> json_pretty parsed | Arr _ \<Rightarrow> json_pretty parsed
                       | _ \<Rightarrow> Str errorData)))"

definition stop_streaming :: "nat \<Rightarrow> chat \<Rightarrow> chat" where
  "stop_streaming i s =
     (case message_at i s of
        None \<Rightarrow> s
      | Some m \<Rightarrow> set_message i (aset ''isStreaming'' (Bool False) m) s)"

datatype line_outcome = NextLine | StreamDone | StreamThrows thrown

text \<open>One line; \<open>lines\<close> are all complete lines at hand, in which an error event looks for its data.\<close>

definition on_line :: "nat \<Rightarrow> string list \<Rightarrow> string \<Rightarrow> chat \<Rightarrow> chat \<times> line_outcome" where
  "on_line i lines line s =
     (if starts_with ''data:'' line then
        (let eventData = trim (drop 5 line) in
         if eventData = [] then (s, NextLine)
         else (case json_parse eventData of
             Inl _ \<Rightarrow> (s, NextLine)
           | Inr chunk \<Rightarrow>
               (case handleStreamChunk chunk i s of
                  (s', Some _) \<Rightarrow> (s', NextLine)
                | (s', None) \<Rightarrow>
                    if truthy (js_get_opt chunk ''is_done'') then (stop_streaming i s', StreamDone)
                    else (s', NextLine))))
      else if starts_with ''event: error'' line then
        (case find (starts_with ''data:'') lines of
           None \<Rightarrow> (s, NextLine)
         | Some l \<Rightarrow> (s, StreamThrows (ErrorObj (js_str (extractErrorMessage (trim (drop 5 l)))))))
      else (s, NextLine))"

fun on_lines :: "nat \<Rightarrow> string list \<Rightarrow> string list \<Rightarrow> chat \<Rightarrow> chat \<times> line_outcome" where
  "on_lines i lines [] s = (s, NextLine)"
| "on_lines i lines (l # ls) s =
     (case on_line i lines l s of
        (s', NextLine) \<Rightarrow> on_lines i lines ls s'
      | (s', r) \<Rightarrow> (s', r))"

text \<open>One piece of text that arrives: the new buffer, the state and whether the reading goes on.\<close>

definition read_piece :: "nat \<Rightarrow> string \<Rightarrow> string \<Rightarrow> chat \<Rightarrow> string \<times> chat \<times> line_outcome" where
  "read_piece i buffer piece s =
     (let lines = split_lines (buffer @ piece) in
      (last lines, on_lines i (butlast lines) (butlast lines) s))"

text \<open>
  The whole stream: the pieces that arrive, and then the end, or the failure that cuts it off.
  A stream that was finished before reads no further.
\<close>

fun processStreamData :: "nat \<Rightarrow> string \<Rightarrow> string list \<Rightarrow> thrown option \<Rightarrow> chat \<Rightarrow> chat \<times> thrown option" where
  "processStreamData i buffer [] failure s =
     (case failure of None \<Rightarrow> (stop_streaming i s, None) | Some e \<Rightarrow> (s, Some e))"
| "processStreamData i buffer (piece # pieces) failure s =
     (case read_piece i buffer piece s of
        (buffer', s', NextLine) \<Rightarrow> processStreamData i buffer' pieces failure s'
      | (_, s', StreamDone) \<Rightarrow> (s', None)
      | (_, s', StreamThrows e) \<Rightarrow> (s', Some e))"

section \<open>Sending\<close>

definition createChatRequest :: "string \<Rightarrow> chat \<Rightarrow> thrown + js" where
  "createChatRequest message s =
     (let config = chatbotConfig s in
      if \<not> truthy (oget config ''providerId'') \<or> \<not> truthy (oget config ''model'')
      then Inl (ErrorObj ''Please select a provider and model before sending a message'')
      else Inr (Obj
        [(''provider_id'', oget config ''providerId''),
         (''model'', oget config ''model''),
         (''query'', Str message),
         (''system_prompt'', oget config ''systemPrompt''),
         (''temperature'', oget config ''temperature''),
         (''max_tokens'', oget config ''maxTokens''),
         (''conversation_id'', conversationId s)]))"

definition getStreamHeaders :: "local_storage \<Rightarrow> (string \<times> string) list" where
  "getStreamHeaders ls =
     (''Content-Type'', ''application/json'') #
     (case getItem ''token'' ls of
        None \<Rightarrow> []
      | Some token \<Rightarrow> if token = [] then [] else [(''Authorization'', token)])"

text \<open>
  What comes back from \<open>fetch\<close> and the reader: a failure, an answer that is not OK with its text,
  or the pieces of the stream and possibly the failure that cuts it off.
\<close>

datatype fetched =
    FetchFails thrown
  | NotOk string
  | Streams "string list" "thrown option"

definition as_error :: "thrown \<Rightarrow> thrown" where
  "as_error e = (case e of ErrorObj m \<Rightarrow> ErrorObj m
     | OtherThrown _ \<Rightarrow> ErrorObj ''An error occurred while processing the stream'')"

text \<open>The request of \<open>sendStreamingRequest\<close>, and what it does with the answer.\<close>

definition streaming_request :: "string \<Rightarrow> string \<Rightarrow> local_storage \<Rightarrow> chat \<Rightarrow> thrown + string \<times> (string \<times> string) list \<times> js" where
  "streaming_request baseUrl message ls s =
     (case createChatRequest message s of
        Inl e \<Rightarrow> Inl e
      | Inr chatRequest \<Rightarrow>
          Inr (baseUrl @ ''/ai/chat/stream'', getStreamHeaders ls, json_stringify chatRequest))"

definition streaming_answer :: "nat \<Rightarrow> fetched \<Rightarrow> chat \<Rightarrow> chat \<times> thrown option" where
  "streaming_answer i answer s =
     (case (case answer of
              FetchFails e \<Rightarrow> (s, Some e)
            | NotOk txt \<Rightarrow> (s, Some (ErrorObj (js_str (extractErrorMessage txt))))
            | Streams pieces failure \<Rightarrow> processStreamData i [] pieces failure s) of
        (s', None) \<Rightarrow> (s', None)
      | (s', Some e) \<Rightarrow> (s', Some (as_error e)))"

text \<open>\<open>sendMessage\<close> up to the request: the two new messages; a blank message is not sent.\<close>

definition sendMessage_start :: "string \<Rightarrow> chat \<Rightarrow> (chat \<times> nat) option" where
  "sendMessage_start message s =
     (if trim message = [] then None
      else
        (let own = [(''role'', Str ''user''), (''content'', Str message),
                    (''conversation_id'', js_or (conversationId s) (Str [])), (''status'', Str ''completed'')];
             answer = [(''role'', Str ''assistant''), (''isStreaming'', Bool True),
                       (''conversation_id'', js_or (conversationId s) (Str [])), (''status'', Str ''pending''),
                       (''contentsMap'', Obj [])];
             s' = s\<lparr>streamError := Str [], abortable := True, history := history s @ [own, answer],
                    generating := True\<rparr>
         in Some (s', Suc (length (history s)))))"

text \<open>The watcher of \<open>isGenerating\<close>, when it has become false.\<close>

definition stopMessageStreaming :: "chat \<Rightarrow> chat" where
  "stopMessageStreaming s =
     s\<lparr>history := map (\<lambda>m. if truthy (oget m ''isStreaming'') then aset ''isStreaming'' (Bool False) m else m) (history s)\<rparr>"

definition remove_at :: "nat \<Rightarrow> 'a list \<Rightarrow> 'a list" where
  "remove_at i xs = take i xs @ drop (Suc i) xs"

text \<open>The end of \<open>sendMessage\<close>: \<open>aborted\<close> says whether the error is the \<open>AbortError\<close> of a cancellation.\<close>

definition sendMessage_end :: "nat \<Rightarrow> bool \<Rightarrow> chat \<times> thrown option \<Rightarrow> chat" where
  "sendMessage_end i aborted r =
     (case r of (s, failure) \<Rightarrow>
       (let s' = (case failure of
                    None \<Rightarrow> s
                  | Some e \<Rightarrow>
                      if aborted then s\<lparr>history := remove_at i (history s)\<rparr>
                      else (case e of
                              ErrorObj m \<Rightarrow> s\<lparr>streamError := extractErrorMessage m\<rparr>
                            | OtherThrown _ \<Rightarrow> s\<lparr>streamError := Str ''An error occurred while sending your message''\<rparr>))
        in stopMessageStreaming (s'\<lparr>generating := False, abortable := False\<rparr>)))"

fun first_streaming :: "jobj list \<Rightarrow> nat option" where
  "first_streaming [] = None"
| "first_streaming (m # ms) =
     (if truthy (oget m ''isStreaming'') then Some 0 else map_option Suc (first_streaming ms))"

definition cancelMessage :: "chat \<Rightarrow> chat" where
  "cancelMessage s =
     (if \<not> abortable s then s
      else stopMessageStreaming
        (case first_streaming (history s) of
           None \<Rightarrow> s\<lparr>abortable := False, generating := False\<rparr>
         | Some i \<Rightarrow> s\<lparr>abortable := False, generating := False, history := remove_at i (history s)\<rparr>))"

section \<open>Configuration\<close>

definition loadChatbotConfig :: "local_storage \<Rightarrow> chat \<Rightarrow> chat" where
  "loadChatbotConfig ls s =
     (case getItem ''chatbotConfig'' ls of
        None \<Rightarrow> s
      | Some storedConfig \<Rightarrow>
          if storedConfig = [] then s
          else (case json_parse storedConfig of
              Inl _ \<Rightarrow> s
            | Inr parsedConfig \<Rightarrow> s\<lparr>chatbotConfig := amerge (chatbotConfig s) (spread_js parsedConfig)\<rparr>))"

type_synonym chat_world = "chat \<times> local_storage"

definition store_config :: "chat_world \<Rightarrow> chat_world" where
  "store_config w = (fst w, saveLocalStorage ''chatbotConfig'' (Obj (chatbotConfig (fst w))) (snd w))"

definition saveChatbotConfig :: "jobj \<Rightarrow> chat_world \<Rightarrow> chat_world" where
  "saveChatbotConfig config w =
     store_config ((fst w)\<lparr>configDialog := False, chatbotConfig := amerge (chatbotConfig (fst w)) config\<rparr>, snd w)"

definition resetChatbotConfig :: "chat_world \<Rightarrow> chat_world" where
  "resetChatbotConfig w = ((fst w)\<lparr>chatbotConfig := []\<rparr>, removeItem ''chatbotConfig'' (snd w))"

definition selectProviderModel :: "js \<Rightarrow> js \<Rightarrow> chat_world \<Rightarrow> chat_world" where
  "selectProviderModel providerId model w =
     store_config ((fst w)\<lparr>chatbotConfig := aset ''model'' model (aset ''providerId'' providerId (chatbotConfig (fst w)))\<rparr>, snd w)"

text \<open>
  The answer to the request for the providers. An error in the middle, such as a provider without
  models, is logged and leaves what was done before.
\<close>

definition loadLLMProviders_done :: "js \<Rightarrow> chat_world \<Rightarrow> chat_world" where
  "loadLLMProviders_done res w =
     (case js_get res ''data'' of
        Inl _ \<Rightarrow> w
      | Inr data \<Rightarrow>
          (case js_or data (Arr []) of
             Arr ps \<Rightarrow>
               (let w1 = ((fst w)\<lparr>availableProviders := ps\<rparr>, snd w);
                    w2 = (if ps = [] then resetChatbotConfig w1 else w1);
                    config = chatbotConfig (fst w2)
                in if (\<not> truthy (oget config ''providerId'') \<or> \<not> truthy (oget config ''model'')) \<and> ps \<noteq> []
                   then (case js_get (hd ps) ''_id'' of
                       Inl _ \<Rightarrow> w2
                     | Inr ident \<Rightarrow>
                         (let w3 = ((fst w2)\<lparr>chatbotConfig := aset ''providerId'' ident config\<rparr>, snd w2) in
                          case js_get_opt (hd ps) ''models'' of
                            Arr models \<Rightarrow>
                              store_config ((fst w3)\<lparr>chatbotConfig := aset ''model'' (if models = [] then Undef else hd models)
                                (chatbotConfig (fst w3))\<rparr>, snd w3)
                          | _ \<Rightarrow> w3))
                   else w2)
           | _ \<Rightarrow> w))"

section \<open>Conversations\<close>

definition loadConversations_done :: "thrown + js \<Rightarrow> chat \<Rightarrow> chat" where
  "loadConversations_done r s =
     (case r of
        Inl _ \<Rightarrow> s\<lparr>loadingConversations := False\<rparr>
      | Inr res \<Rightarrow>
          (case js_get res ''data'' of
             Inl _ \<Rightarrow> s\<lparr>loadingConversations := False\<rparr>
           | Inr data \<Rightarrow> s\<lparr>conversations := js_or data (Arr []), loadingConversations := False\<rparr>))"

text \<open>
  The messages of a conversation, sorted by their time; \<open>time_of\<close> is the time of a message (its
  creation, or now), zero if it is not a date.
\<close>

definition message_objects :: "js \<Rightarrow> jobj list option" where
  "message_objects data =
     (case js_or data (Arr []) of
        Arr xs \<Rightarrow> if list_all (\<lambda>x. \<not> nullish x) xs then Some (map spread_js xs) else None
      | _ \<Rightarrow> None)"

definition loadConversationMessages_done :: "(jobj \<Rightarrow> int) \<Rightarrow> string \<Rightarrow> thrown + js \<Rightarrow> chat \<Rightarrow> chat" where
  "loadConversationMessages_done time_of ident r s =
     (case (case r of Inl _ \<Rightarrow> None
            | Inr res \<Rightarrow> (case js_get res ''data'' of Inl _ \<Rightarrow> None | Inr data \<Rightarrow> message_objects data)) of
        None \<Rightarrow> s\<lparr>loadingMessages := False\<rparr>
      | Some messages \<Rightarrow>
          s\<lparr>history := sort_key time_of messages, conversationId := Str ident, loadingMessages := False\<rparr>)"

text \<open>\<open>loadCurrentConversation\<close>: the details, \<open>Some 404\<close> being the status of the error.\<close>

definition loadCurrentConversation_done :: "nat option + js \<Rightarrow> chat \<Rightarrow> chat" where
  "loadCurrentConversation_done r s =
     (case r of
        Inl (Some status) \<Rightarrow> if status = 404 then s\<lparr>conversationId := Str []\<rparr> else s\<lparr>conversation := Null\<rparr>
      | Inl None \<Rightarrow> s\<lparr>conversation := Null\<rparr>
      | Inr res \<Rightarrow> (case js_get res ''data'' of Inl _ \<Rightarrow> s\<lparr>conversation := Null\<rparr> | Inr data \<Rightarrow> s\<lparr>conversation := data\<rparr>))"

definition createNewConversation :: "chat_world \<Rightarrow> chat_world" where
  "createNewConversation w =
     ((fst w)\<lparr>conversationId := Str [], streamError := Str [], history := []\<rparr>,
      removeItem ''currentConversationId'' (snd w))"

text \<open>The selection: the messages are requested when it is another conversation.\<close>

definition selectConversation :: "string \<Rightarrow> chat \<Rightarrow> chat \<times> string option" where
  "selectConversation ident s =
     (if conversationId s = Str ident then (s, None)
      else (s\<lparr>conversationId := Str ident, streamError := Str []\<rparr>,
            if ident = [] then None else Some (''/ai/chat/conversations/'' @ ident @ ''/messages'')))"

text \<open>The watcher of the identifier, up to its request for the details.\<close>

definition watch_conversationId :: "chat_world \<Rightarrow> chat_world" where
  "watch_conversationId w =
     (if truthy (conversationId (fst w))
      then (fst w, setItem ''currentConversationId'' (js_str (conversationId (fst w))) (snd w))
      else ((fst w)\<lparr>conversation := Null\<rparr>, removeItem ''currentConversationId'' (snd w)))"

section \<open>Lines\<close>

lemma split_lines_nonempty [simp]: "split_lines s \<noteq> []"
  by (induction s) (auto split: list.split)

lemma split_lines_append:
  "split_lines (a @ b) = butlast (split_lines a) @ split_lines (last (split_lines a) @ b)"
proof (induction a)
  case (Cons c a)
  obtain l ls where ls: "split_lines a = l # ls" by (cases "split_lines a") auto
  show ?case
  proof (cases "ls = []")
    case True
    then show ?thesis using Cons ls by (cases "split_lines (l @ b)") auto
  next
    case False
    then show ?thesis using Cons ls by (cases "split_lines (last ls @ b)") (auto split: list.splits)
  qed
qed simp

lemma split_lines_line [simp]: "newline \<notin> set l \<Longrightarrow> split_lines l = [l]"
  by (induction l) auto

lemma lines_no_newline: "l \<in> set (split_lines s) \<Longrightarrow> newline \<notin> set l"
proof (induction s arbitrary: l)
  case (Cons c s)
  then show ?case by (cases "split_lines s") (auto split: if_splits)
qed simp

lemma last_line [simp]: "split_lines (last (split_lines s)) = [last (split_lines s)]"
  by (rule split_lines_line) (rule lines_no_newline, rule last_in_set, simp)

lemma split_lines_Cons_line:
  "newline \<notin> set l \<Longrightarrow> split_lines (l @ newline # s) = l # split_lines s"
  by (induction l) auto

section \<open>How the text is cut does not matter\<close>

definition error_free :: "string list \<Rightarrow> bool" where
  "error_free ls \<longleftrightarrow> list_all (\<lambda>l. \<not> starts_with ''event: error'' l) ls"

lemma on_lines_error_free: "error_free ls \<Longrightarrow> on_lines i L ls s = on_lines i L' ls s"
proof (induction ls arbitrary: s)
  case (Cons l ls)
  then have "on_line i L l s = on_line i L' l s" by (simp add: on_line_def error_free_def)
  with Cons show ?case by (auto simp: error_free_def split: prod.split line_outcome.split)
qed simp

lemma on_lines_append:
  "on_lines i L (ls @ ls') s =
     (case on_lines i L ls s of (s', NextLine) \<Rightarrow> on_lines i L ls' s' | (s', r) \<Rightarrow> (s', r))"
  by (induction ls arbitrary: s) (auto split: prod.splits line_outcome.splits)

text \<open>The reference: the complete lines of the whole text, one after the other.\<close>

definition stream_text :: "nat \<Rightarrow> string \<Rightarrow> thrown option \<Rightarrow> chat \<Rightarrow> chat \<times> thrown option" where
  "stream_text i txt failure s =
     (case on_lines i [] (butlast (split_lines txt)) s of
        (s', NextLine) \<Rightarrow> (case failure of None \<Rightarrow> (stop_streaming i s', None) | Some e \<Rightarrow> (s', Some e))
      | (s', StreamDone) \<Rightarrow> (s', None)
      | (s', StreamThrows e) \<Rightarrow> (s', Some e))"

lemma processStreamData_text:
  assumes "split_lines buffer = [buffer]" and "error_free (butlast (split_lines (buffer @ concat pieces)))"
  shows "processStreamData i buffer pieces failure s = stream_text i (buffer @ concat pieces) failure s"
  using assms
proof (induction pieces arbitrary: buffer s)
  case Nil
  then show ?case by (simp add: stream_text_def)
next
  case (Cons p ps)
  let ?ls = "butlast (split_lines (buffer @ p))" and ?b = "last (split_lines (buffer @ p))"
  have split: "butlast (split_lines (buffer @ p @ concat ps)) = ?ls @ butlast (split_lines (?b @ concat ps))"
    using split_lines_append [of "buffer @ p" "concat ps"] by (simp add: butlast_append)
  have e: "error_free ?ls" "error_free (butlast (split_lines (?b @ concat ps)))"
    using Cons.prems(2) by (simp_all add: split error_free_def)
  have "on_lines i ?ls ?ls s = on_lines i [] ?ls s" by (rule on_lines_error_free [OF e(1)])
  then show ?case
    using Cons.IH [OF last_line e(2)]
    by (auto simp: read_piece_def Let_def stream_text_def split on_lines_append
        split: prod.splits line_outcome.splits option.splits)
qed

text \<open>
  C10: An answer does not depend on how the network cuts it: unless the server reports an error,
  reading the stream in any pieces has the same result as handling the complete lines of the
  whole text in order.
\<close>

theorem stream_cuts_irrelevant:
  assumes "error_free (split_lines (concat pieces))"
  shows "processStreamData i [] pieces failure s = stream_text i (concat pieces) failure s"
proof -
  have "error_free (butlast (split_lines (concat pieces)))"
    using assms by (auto simp: error_free_def list_all_iff dest: in_set_butlastD)
  then show ?thesis using processStreamData_text [of "[]" pieces] by simp
qed

theorem stream_cuts_irrelevant_witness:
  "processStreamData 0 [] [''da'', ''ta: 1'' @ [newline]] None (chat_init []) =
   stream_text 0 (''data: 1'' @ [newline]) None (chat_init [])"
  using stream_cuts_irrelevant [of "[''da'', ''ta: 1'' @ [newline]]" 0 None "chat_init []"]
  by (simp add: error_free_def newline_def starts_with_def)

text \<open>
  An error event is different: it is reported only when its data line is in the same piece, and
  with the data of the first data line of that piece.
\<close>

lemma error_event_cut:
  "processStreamData i [] [''event: error'' @ newline # ''data: boom'' @ [newline]] None s = (s, Some (ErrorObj ''boom''))"
  "processStreamData i [] [''event: error'' @ [newline], ''data: boom'' @ [newline]] None s = (stop_streaming i s, None)"
  by (simp_all add: read_piece_def newline_def on_line_def starts_with_def trim_def is_space_def
      extractErrorMessage_def json_parse_def skip_ws_def is_ws_def plit_def pnum_def pnat_def is_digit_def)

section \<open>A stream changes its own message only\<close>

definition answer_update :: "nat \<Rightarrow> chat \<Rightarrow> chat \<Rightarrow> bool" where
  "answer_update i s s' \<longleftrightarrow>
     (\<exists>m a b. s' = s\<lparr>conversationId := a, conversation := b, history := (history s)[i := m]\<rparr> \<and>
        (i < length (history s) \<longrightarrow> oget m ''isStreaming'' = oget (history s ! i) ''isStreaming''))"

lemma answer_update_refl [simp]: "answer_update i s s"
  unfolding answer_update_def
  by (rule exI [of _ "history s ! i"], rule exI [of _ "conversationId s"], rule exI [of _ "conversation s"])
    (simp add: list_update_id)

lemma answer_update_trans:
  assumes "answer_update i s s'" and "answer_update i s' s''"
  shows "answer_update i s s''"
proof -
  obtain m a b where s': "s' = s\<lparr>conversationId := a, conversation := b, history := (history s)[i := m]\<rparr>"
      "i < length (history s) \<longrightarrow> oget m ''isStreaming'' = oget (history s ! i) ''isStreaming''"
    using assms(1) by (auto simp: answer_update_def)
  obtain m' a' b' where s'': "s'' = s'\<lparr>conversationId := a', conversation := b', history := (history s')[i := m']\<rparr>"
      "i < length (history s') \<longrightarrow> oget m' ''isStreaming'' = oget (history s' ! i) ''isStreaming''"
    using assms(2) by (auto simp: answer_update_def)
  show ?thesis
    unfolding answer_update_def
    by (rule exI [of _ m'], rule exI [of _ a'], rule exI [of _ b']) (use s' s'' in simp)
qed

lemma answer_update_conversation [simp]:
  "answer_update i s (s\<lparr>conversation := c\<rparr>)" "answer_update i s (s\<lparr>conversationId := c\<rparr>)"
  unfolding answer_update_def
  by (rule exI [of _ "history s ! i"], rule exI [of _ "conversationId s"], rule exI [of _ c], simp)
    (rule exI [of _ "history s ! i"], rule exI [of _ c], rule exI [of _ "conversation s"], simp)

lemma answer_update_message:
  "message_at i s = Some m \<Longrightarrow> k \<noteq> ''isStreaming'' \<Longrightarrow> answer_update i s (set_message i (aset k v m) s)"
  unfolding answer_update_def set_message_def message_at_def
  by (rule exI [of _ "aset k v m"], rule exI [of _ "conversationId s"], rule exI [of _ "conversation s"])
    (auto split: if_splits)

lemma title_update: "answer_update i s (fst (chunk_title chunk s))"
proof -
  have "answer_update i s (s\<lparr>conversation := x, conversation := y\<rparr>)" for x y by simp
  then show ?thesis by (auto simp: chunk_title_def Let_def split: sum.split)
qed

lemma usage_update: "answer_update i s (fst (chunk_usage chunk i s))"
  by (auto simp: chunk_usage_def Let_def answer_update_message split: option.split sum.split)

lemma contents_update: "answer_update i s (fst (chunk_contents chunk i s))"
  by (auto simp: chunk_contents_def Let_def answer_update_message split: option.split sum.split js.split)

lemma and_then_update:
  "answer_update i s (fst r) \<Longrightarrow> (\<And>s'. answer_update i s' (fst (f s'))) \<Longrightarrow> answer_update i s (fst (and_then r f))"
  by (auto simp: and_then_def intro: answer_update_trans split: prod.split option.split)

lemma chunk_update: "answer_update i s (fst (handleStreamChunk chunk i s))"
  by (auto simp: handleStreamChunk_def title_update usage_update contents_update intro!: and_then_update split: sum.split)

lemma stop_streaming_eq:
  "stop_streaming i s =
     (if i < length (history s)
      then s\<lparr>history := (history s)[i := aset ''isStreaming'' (Bool False) (history s ! i)]\<rparr> else s)"
  by (simp add: stop_streaming_def message_at_def set_message_def)

text \<open>The state of a stream: as before but for its message, which goes on or has stopped.\<close>

definition stopped_update :: "nat \<Rightarrow> chat \<Rightarrow> chat \<Rightarrow> bool" where
  "stopped_update i s s' \<longleftrightarrow> (\<exists>u. answer_update i s u \<and> s' = stop_streaming i u)"

lemma on_line_update:
  "(case on_line i L l s of
      (s', StreamDone) \<Rightarrow> stopped_update i s s'
    | (s', _) \<Rightarrow> answer_update i s s')"
proof (cases "json_parse (trim (drop 5 l))")
  case (Inr chunk)
  then show ?thesis
    using chunk_update [of i s chunk]
    by (auto simp: on_line_def Let_def stopped_update_def split: prod.split option.split)
qed (auto simp: on_line_def Let_def split: option.split)

lemma on_lines_update:
  "(case on_lines i L ls s of
      (s', StreamDone) \<Rightarrow> stopped_update i s s'
    | (s', _) \<Rightarrow> answer_update i s s')"
proof (induction ls arbitrary: s)
  case (Cons l ls)
  show ?case
    using on_line_update [of i s L l] Cons.IH [of "fst (on_line i L l s)"]
    by (auto simp: stopped_update_def intro: answer_update_trans
        split: prod.splits line_outcome.splits)
qed simp

lemma process_update:
  "(case processStreamData i buffer pieces failure s of
      (s', None) \<Rightarrow> stopped_update i s s'
    | (s', Some _) \<Rightarrow> answer_update i s s')"
proof (induction pieces arbitrary: buffer s)
  case Nil
  then show ?case by (auto simp: stopped_update_def intro: exI [of _ s] split: option.split)
next
  case (Cons p ps)
  obtain b s' r where r: "read_piece i buffer p s = (b, s', r)" by (cases "read_piece i buffer p s") auto
  let ?L = "butlast (split_lines (buffer @ p))"
  have "on_lines i ?L ?L s = (s', r)" using r by (simp add: read_piece_def Let_def)
  then have u: "case r of StreamDone \<Rightarrow> stopped_update i s s' | _ \<Rightarrow> answer_update i s s'"
    using on_lines_update [of i s ?L ?L] by (cases r) simp_all
  show ?case
  proof (cases r)
    case NextLine
    then show ?thesis
      using u r Cons.IH [of s' b]
      by (auto simp: stopped_update_def intro: answer_update_trans split: prod.splits option.splits)
  qed (use u r in auto)
qed

text \<open>
  Reading an answer, in whatever pieces and however it ends, changes no other message, no
  setting and no flag of the assistant; afterwards the message is marked as finished, unless the
  stream failed, and then it is marked as before.
\<close>

theorem stream_isolated:
  assumes "processStreamData i buffer pieces failure s = (s', r)"
  shows "\<exists>m a b. s' = s\<lparr>conversationId := a, conversation := b, history := (history s)[i := m]\<rparr> \<and>
    (i < length (history s) \<longrightarrow> oget m ''isStreaming'' =
       (if r = None then Bool False else oget (history s ! i) ''isStreaming''))"
proof (cases r)
  case None
  then obtain m a b where u: "s' = stop_streaming i (s\<lparr>conversationId := a, conversation := b, history := (history s)[i := m]\<rparr>)"
    using process_update [of i s buffer pieces failure] assms by (auto simp: stopped_update_def answer_update_def)
  show ?thesis
    by (rule exI [of _ "aset ''isStreaming'' (Bool False) m"], rule exI [of _ a], rule exI [of _ b])
      (simp add: u stop_streaming_eq None list_update_beyond)
next
  case (Some e)
  then show ?thesis
    using process_update [of i s buffer pieces failure] assms by (simp add: answer_update_def)
qed

theorem stream_isolated_witness:
  "\<exists>s' m. processStreamData 0 [] [''data: nonsense'' @ [newline]] None ((chat_init [])\<lparr>history := [[], []]\<rparr>) = (s', None) \<and>
     history s' = [m, []] \<and> oget m ''isStreaming'' = Bool False"
proof -
  let ?s = "(chat_init [])\<lparr>history := [[], []]\<rparr>"
  obtain s' r where r: "processStreamData 0 [] [''data: nonsense'' @ [newline]] None ?s = (s', r)" by fastforce
  have "r = None"
    using r by (simp add: read_piece_def newline_def on_line_def starts_with_def trim_def is_space_def
      json_parse_def skip_ws_def is_ws_def plit_def pnum_def pnat_def is_digit_def)
  with r stream_isolated [OF r] show ?thesis by auto
qed

section \<open>Cancelling\<close>

lemma first_streaming_last:
  "list_all (\<lambda>m. \<not> truthy (oget m ''isStreaming'')) ms \<Longrightarrow> truthy (oget m ''isStreaming'') \<Longrightarrow>
   first_streaming (ms @ [m]) = Some (length ms)"
  by (induction ms) simp_all

definition idle_history :: "chat \<Rightarrow> bool" where
  "idle_history s \<longleftrightarrow> list_all (\<lambda>m. \<not> truthy (oget m ''isStreaming'')) (history s)"

lemma stop_idle:
  "list_all (\<lambda>m. \<not> truthy (oget m ''isStreaming'')) ms \<Longrightarrow>
   map (\<lambda>m. if truthy (oget m ''isStreaming'') then aset ''isStreaming'' (Bool False) m else m) ms = ms"
  by (induction ms) simp_all

definition user_message :: "string \<Rightarrow> chat \<Rightarrow> jobj" where
  "user_message message s =
     [(''role'', Str ''user''), (''content'', Str message),
      (''conversation_id'', js_or (conversationId s) (Str [])), (''status'', Str ''completed'')]"

text \<open>
  C23: Cancelling an answer takes back exactly the answer: if no other message is streaming, then
  after a message was sent, any part of its answer was read and the user cancelled, the history
  is the old one with the user's message, also after the abort has been reported, and the
  assistant is ready for the next message.
\<close>

theorem cancel_removes_answer:
  assumes "idle_history s" and "sendMessage_start message s = Some (s1, i)"
    and "processStreamData i [] pieces (Some e) s1 = (s2, Some e')"
  shows "history (cancelMessage s2) = history s @ [user_message message s] \<and>
    history (sendMessage_end i True (cancelMessage s2, Some e')) = history s @ [user_message message s] \<and>
    \<not> generating (cancelMessage s2) \<and> \<not> abortable (cancelMessage s2) \<and>
    \<not> generating (sendMessage_end i True (cancelMessage s2, Some e'))"
proof -
  obtain m where m: "history s1 = history s @ [user_message message s, m]" "oget m ''isStreaming'' = Bool True"
      and i: "i = Suc (length (history s))" and ab: "abortable s1"
    using assms(2) by (auto simp: sendMessage_start_def Let_def user_message_def split: if_splits)
  obtain m' a b where s2: "s2 = s1\<lparr>conversationId := a, conversation := b, history := (history s1)[i := m']\<rparr>"
      "oget m' ''isStreaming'' = Bool True"
    using process_update [of i s1 "[]" pieces "Some e"] assms(3) m i
    by (auto simp: answer_update_def nth_append)
  have h2: "history s2 = (history s @ [user_message message s]) @ [m']"
    using s2 m i by (simp add: list_update_append)
  have idle: "list_all (\<lambda>m. \<not> truthy (oget m ''isStreaming'')) (history s @ [user_message message s])"
    using assms(1) by (simp add: idle_history_def user_message_def)
  have f: "first_streaming (history s2) = Some i"
    unfolding h2 using first_streaming_last [OF idle, of m'] s2(2) i by simp
  have "abortable s2" using ab by (simp add: s2(1))
  then have c: "cancelMessage s2 = stopMessageStreaming
      (s2\<lparr>abortable := False, generating := False, history := history s @ [user_message message s]\<rparr>)"
    using f h2 i by (simp add: cancelMessage_def remove_at_def)
  show ?thesis
    using stop_idle [OF idle] i
    by (simp add: c sendMessage_end_def stopMessageStreaming_def remove_at_def)
qed

section \<open>The configuration survives\<close>

lemma store_config_load:
  assumes "plain (Obj (chatbotConfig (fst w)))"
  shows "chatbotConfig (loadChatbotConfig (snd (store_config w)) s) = amerge (chatbotConfig s) (chatbotConfig (fst w))"
proof -
  have "load_json ''chatbotConfig'' (snd (store_config w)) = Some (Obj (chatbotConfig (fst w)))"
    unfolding store_config_def snd_conv by (rule json.load_save [OF assms])
  then show ?thesis
    by (auto simp: load_json_def loadLocalStorage_def loadChatbotConfig_def item_defs
        split: option.splits if_splits sum.splits)
qed

text \<open>
  The configuration of the assistant survives a reload: after saving changes, or choosing a
  model, an assistant that starts later has the saved values over its defaults.
\<close>

theorem chat_config_survives:
  assumes "plain (Obj (chatbotConfig (fst w)))" and "plain (Obj config)"
  shows "map_of (chatbotConfig (loadChatbotConfig (snd (saveChatbotConfig config w)) (chat_init defaults))) =
      map_of defaults ++ (map_of (chatbotConfig (fst w)) ++ map_of config) \<and>
    map_of (chatbotConfig (loadChatbotConfig (snd (selectProviderModel (Str p) (Str m) w)) (chat_init defaults))) =
      map_of defaults ++ (map_of (chatbotConfig (fst w)))(''providerId'' \<mapsto> Str p, ''model'' \<mapsto> Str m)"
proof -
  let ?c = "amerge (chatbotConfig (fst w)) config"
  let ?d = "aset ''model'' (Str m) (aset ''providerId'' (Str p) (chatbotConfig (fst w)))"
  have c: "plain (Obj ?c)" by (intro plain_amerge assms)
  have d: "plain (Obj ?d)" by (intro plain_aset assms) simp_all
  have "map_of (amerge defaults ?c) = map_of defaults ++ (map_of (chatbotConfig (fst w)) ++ map_of config)"
    using assms c by (simp add: map_of_amerge)
  moreover have "map_of (amerge defaults ?d) =
      map_of defaults ++ (map_of (chatbotConfig (fst w)))(''providerId'' \<mapsto> Str p, ''model'' \<mapsto> Str m)"
    using d by (simp add: map_of_amerge)
  ultimately show ?thesis
    using c d by (simp add: saveChatbotConfig_def selectProviderModel_def store_config_load chat_init_def
        del: plain.simps)
qed

theorem chat_config_survives_witness:
  "map_of (chatbotConfig (loadChatbotConfig
      (snd (saveChatbotConfig [(''maxTokens'', Num 500)] (chat_init [(''model'', Str ''m'')], Map.empty)))
      (chat_init [(''maxTokens'', Num 1000)]))) ''maxTokens'' = Some (Num 500)"
  using chat_config_survives [of "(chat_init [(''model'', Str ''m'')], Map.empty)" "[(''maxTokens'', Num 500)]"
      "[(''maxTokens'', Num 1000)]"]
  by (simp add: chat_init_def)

theorem cancel_removes_answer_witness:
  "\<exists>s1 i. sendMessage_start ''Hello'' (chat_init []) = Some (s1, i) \<and>
     history (cancelMessage s1) = [user_message ''Hello'' (chat_init [])]"
proof -
  obtain s1 i where s: "sendMessage_start ''Hello'' (chat_init []) = Some (s1, i)"
    by (auto simp: sendMessage_start_def Let_def trim_def is_space_def)
  have p: "processStreamData i [] [] (Some (ErrorObj ''AbortError'')) s1 = (s1, Some (ErrorObj ''AbortError''))" by simp
  have "idle_history (chat_init [])" by (simp add: idle_history_def chat_init_def)
  from cancel_removes_answer [OF this s p] s show ?thesis by (simp add: chat_init_def)
qed

section \<open>A streamed text\<close>

definition text_chunk :: "string \<Rightarrow> string \<Rightarrow> js" where
  "text_chunk k txt = Obj [(''type'', Str ''text''), (''key'', Str k), (''content'', Str txt)]"

text \<open>A server-sent event that carries a chunk.\<close>

definition data_line :: "js \<Rightarrow> string" where
  "data_line chunk = ''data: '' @ ser [] [] chunk"

definition sse :: "js \<Rightarrow> string" where
  "sse chunk = data_line chunk @ [newline, newline]"

definition text_content :: "js \<Rightarrow> bool" where
  "text_content c \<longleftrightarrow> (\<exists>ps k txt. c = Obj ps \<and> oget ps ''key'' = Str k \<and> oget ps ''content'' = Str txt)"

definition key_of :: "js \<Rightarrow> js" where
  "key_of c = js_get_opt c ''key''"

definition text_of :: "string \<Rightarrow> js list \<Rightarrow> string option" where
  "text_of k cs =
     (case find (\<lambda>c. key_of c = Str k) cs of
        None \<Rightarrow> None
      | Some c \<Rightarrow> (case js_get_opt c ''content'' of Str txt \<Rightarrow> Some txt | _ \<Rightarrow> None))"

definition add_key :: "js \<Rightarrow> js list \<Rightarrow> js list" where
  "add_key k ks = (if k \<in> set ks then ks else ks @ [k])"

text \<open>The texts of one key, in the order in which they arrive.\<close>

definition joined :: "string \<Rightarrow> (string \<times> string) list \<Rightarrow> string" where
  "joined k cs = concat (map snd (filter (\<lambda>p. fst p = k) cs))"

lemma find_content_step:
  "text_content c \<Longrightarrow> find_content (Str k) (c # cs) =
     (if key_of c = Str k then Inr (Some 0)
      else (case find_content (Str k) cs of Inl e \<Rightarrow> Inl e | Inr r \<Rightarrow> Inr (map_option Suc r)))"
  by (auto simp: text_content_def key_of_def strict_eq_def)

lemma find_content_Some:
  "list_all text_content cs \<Longrightarrow> find_content (Str k) cs = Inr (Some n) \<Longrightarrow>
   n < length cs \<and> key_of (cs ! n) = Str k \<and> (\<forall>j < n. key_of (cs ! j) \<noteq> Str k)"
proof (induction cs arbitrary: n)
  case (Cons c cs)
  then show ?case
    by (cases n) (auto simp: find_content_step less_Suc_eq_0_disj simp del: find_content.simps(2)
        split: if_splits sum.splits)
qed simp

lemma find_content_None:
  "list_all text_content cs \<Longrightarrow> find_content (Str k) cs = Inr None \<Longrightarrow> Str k \<notin> key_of ` set cs"
proof (induction cs)
  case (Cons c cs)
  then show ?case
    by (simp add: find_content_step del: find_content.simps(2) split: if_splits sum.splits)
qed simp

lemma find_content_total:
  "list_all text_content cs \<Longrightarrow> \<exists>r. find_content (Str k) cs = Inr r"
  by (induction cs) (auto simp: text_content_def)

lemma find_split:
  "n < length cs \<Longrightarrow> p (cs ! n) \<Longrightarrow> \<forall>j < n. \<not> p (cs ! j) \<Longrightarrow> find p cs = Some (cs ! n)"
proof (induction cs arbitrary: n)
  case (Cons c cs)
  then show ?case by (cases n) (auto, fastforce)
qed simp

lemma find_update_other:
  "n < length cs \<Longrightarrow> \<not> p (cs ! n) \<Longrightarrow> \<not> p c \<Longrightarrow> find p (cs[n := c]) = find p cs"
  by (induction cs arbitrary: n) (auto split: nat.split)

lemma update_contents_text:
  assumes wf: "list_all text_content cs"
  shows "\<exists>cs'. update_contents (text_chunk k txt) cs = Inr cs' \<and> list_all text_content cs' \<and>
    map key_of cs' = add_key (Str k) (map key_of cs) \<and>
    (\<forall>k'. text_of k' cs' = (if k' = k then Some ((case text_of k cs of None \<Rightarrow> [] | Some x \<Rightarrow> x) @ txt) else text_of k' cs))"
proof -
  have ck: "js_or (js_get_opt (text_chunk k txt) ''key'') (Str []) = Str k"
    by (simp add: text_chunk_def js_or_def)
  have cc: "js_or (js_get_opt (text_chunk k txt) ''content'') (Str []) = Str txt"
    by (simp add: text_chunk_def js_or_def)
  have ty: "js_get_opt (text_chunk k txt) ''type'' = Str ''text''" "js_get_opt (text_chunk k txt) ''is_text_done'' = Undef"
    by (simp_all add: text_chunk_def)
  obtain r where r: "find_content (Str k) cs = Inr r" using find_content_total [OF wf] by blast
  show ?thesis
  proof (cases r)
    case None
    have none: "Str k \<notin> key_of ` set cs" using find_content_None [OF wf] r None by simp
    let ?n = "new_text (text_chunk k txt)"
    have n: "text_content ?n" "key_of ?n = Str k" "js_get_opt ?n ''content'' = Str txt"
      unfolding new_text_def cc by (simp_all add: text_content_def key_of_def text_chunk_def)
    have f: "find (\<lambda>c. key_of c = Str k') (cs @ [?n]) =
        (if k' = k then Some ?n else find (\<lambda>c. key_of c = Str k') cs)" for k'
      using none n(2) by (induction cs) auto
    have f0: "find (\<lambda>c. key_of c = Str k) cs = None" using none by (force simp: find_None_iff)
    show ?thesis
      using r None wf n none
      by (simp add: update_contents_def ck ty Let_def text_of_def f f0 add_key_def)
  next
    case (Some j)
    from find_content_Some [OF wf] r Some have j: "j < length cs" "key_of (cs ! j) = Str k"
      "\<forall>i < j. key_of (cs ! i) \<noteq> Str k" by auto
    from wf j(1) obtain ps old where ps: "cs ! j = Obj ps" "oget ps ''key'' = Str k" "oget ps ''content'' = Str old"
      using j(2) by (auto simp: list_all_length text_content_def key_of_def)
    let ?c = "append_text (text_chunk k txt) (cs ! j)"
    have c: "?c = Obj (aset ''content'' (Str (old @ txt)) ps)"
      unfolding append_text_def ps(1) by (simp add: cc ty ps js_plus_def Let_def)
    have tc: "text_content ?c" "key_of ?c = Str k"
      unfolding c using ps by (simp_all add: text_content_def key_of_def)
    have f: "find (\<lambda>c. key_of c = Str k') (cs[j := ?c]) = (if k' = k then Some ?c else find (\<lambda>c. key_of c = Str k') cs)" for k'
    proof (cases "k' = k")
      case True
      then show ?thesis using find_split [of j "cs[j := ?c]" "\<lambda>c. key_of c = Str k"] j tc by simp
    next
      case False
      then show ?thesis using find_update_other [of j cs "\<lambda>c. key_of c = Str k'" ?c] j tc by simp
    qed
    have f0: "find (\<lambda>c. key_of c = Str k) cs = Some (cs ! j)" using find_split [of j cs "\<lambda>c. key_of c = Str k"] j by simp
    have keys: "map key_of (cs[j := ?c]) = map key_of cs" using j tc by (simp add: map_update list_update_same_conv)
    have "text_of k' (cs[j := ?c]) = (if k' = k then Some (old @ txt) else text_of k' cs)" for k'
      by (simp add: text_of_def f) (simp add: c)
    moreover have "text_of k cs = Some old" by (simp add: text_of_def f0 ps)
    moreover have "list_all text_content (cs[j := ?c])"
      using wf tc(1) by (auto simp: list_all_iff dest: set_update_subset_insert [THEN subsetD])
    moreover have "Str k \<in> set (map key_of cs)" using j by (metis length_map nth_map nth_mem)
    ultimately show ?thesis
      using r Some keys by (simp add: update_contents_def ck ty Let_def add_key_def)
  qed
qed

section \<open>From the server's events to the message\<close>

definition contents_of :: "jobj \<Rightarrow> js list" where
  "contents_of m = (case oget m ''contents'' of Arr cs \<Rightarrow> cs | _ \<Rightarrow> [])"

text \<open>A message whose contents are texts, or that has none yet.\<close>

definition text_message :: "jobj \<Rightarrow> bool" where
  "text_message m \<longleftrightarrow> (oget m ''contents'' = Undef \<or> oget m ''contents'' = Arr (contents_of m)) \<and>
     list_all text_content (contents_of m)"

lemma handle_text_chunk:
  assumes m: "message_at i s = Some m" and wf: "text_message m"
  shows "\<exists>m'. handleStreamChunk (text_chunk k tx) i s = (set_message i m' s, None) \<and> text_message m' \<and>
    (\<forall>p. p \<noteq> ''contents'' \<longrightarrow> oget m' p = oget m p) \<and>
    map key_of (contents_of m') = add_key (Str k) (map key_of (contents_of m)) \<and>
    (\<forall>k'. text_of k' (contents_of m') =
       (if k' = k then Some ((case text_of k (contents_of m) of None \<Rightarrow> [] | Some x \<Rightarrow> x) @ tx)
        else text_of k' (contents_of m)))"
proof -
  obtain cs' where cs': "update_contents (text_chunk k tx) (contents_of m) = Inr cs'" "list_all text_content cs'"
      "map key_of cs' = add_key (Str k) (map key_of (contents_of m))"
      "\<forall>k'. text_of k' cs' = (if k' = k then Some ((case text_of k (contents_of m) of None \<Rightarrow> [] | Some x \<Rightarrow> x) @ tx)
        else text_of k' (contents_of m))"
    using update_contents_text [of "contents_of m" k tx] wf by (auto simp: text_message_def)
  have l: "js_get_opt (Arr xs) ''length'' = Num (int (length xs))" for xs by (simp add: js_get_opt_def)
  have c: "(if truthy (js_get_opt (oget m ''contents'') ''length'') then oget m ''contents'' else Arr []) = Arr (contents_of m)"
  proof (cases "oget m ''contents''")
    case (Arr xs)
    then show ?thesis by (simp add: l contents_of_def)
  qed (use wf in \<open>auto simp: text_message_def contents_of_def\<close>)
  let ?m = "aset ''contents'' (Arr cs') m"
  have "chunk_contents (text_chunk k tx) i s = (set_message i ?m s, None)"
    unfolding chunk_contents_def m option.case c js.case Let_def cs'(1) by simp
  then have "handleStreamChunk (text_chunk k tx) i s = (set_message i ?m s, None)"
    by (simp add: handleStreamChunk_def text_chunk_def chunk_title_def chunk_usage_def and_then_def)
  moreover have "contents_of ?m = cs'" by (simp add: contents_of_def)
  ultimately show ?thesis
    using cs' by (intro exI [of _ ?m]) (simp add: text_message_def)
qed

lemma hex_char_not_newline: "d < 16 \<Longrightarrow> hex_char d \<noteq> newline"
proof
  assume d: "d < 16" and "hex_char d = newline"
  then have "(of_char (hex_char d) :: nat) = of_char newline" by simp
  with d show False by (simp add: hex_char_def newline_def split: if_splits)
qed

lemma newline_free_quote: "newline \<notin> set (quote s)"
proof -
  have "(of_char ch :: nat) div 16 < 16" for ch :: char
    using nat_of_char_less_256 [of ch] by linarith
  then have "newline \<notin> set (esc ch)" for ch
    using char_code_iff [of ch newline] hex_char_not_newline [of "of_char ch div 16"]
      hex_char_not_newline [of "of_char ch mod 16"]
    by (auto simp: esc_def Let_def newline_def)
  then show ?thesis by (auto simp: quote_def newline_def)
qed

lemma text_chunk_plain: "plain (text_chunk k tx)"
  by (simp add: text_chunk_def)

lemma ser_text_chunk:
  "\<exists>body. ser [] [] (text_chunk k tx) = CHR ''{'' # body @ [CHR ''}''] \<and> newline \<notin> set (ser [] [] (text_chunk k tx))"
  using newline_free_quote [of "''type''"] newline_free_quote [of "''key''"] newline_free_quote [of "''content''"]
    newline_free_quote [of "''text''"] newline_free_quote [of k] newline_free_quote [of tx]
  by (simp add: text_chunk_def line_break_def colon_def newline_def)

lemma trim_braces: "trim ('' '' @ CHR ''{'' # body @ [CHR ''}'']) = CHR ''{'' # body @ [CHR ''}'']"
  by (simp add: trim_def is_space_def)

lemma on_line_text_chunk:
  "on_line i L (data_line (text_chunk k tx)) s =
     (case handleStreamChunk (text_chunk k tx) i s of (s', _) \<Rightarrow> (s', NextLine))"
proof -
  have p: "json_parse (ser [] [] (text_chunk k tx)) = Inr (text_chunk k tx)"
    using json_parse_ser [of "text_chunk k tx" "[]" "[]"] jnorm_id [OF text_chunk_plain, of k tx]
      plain_wf [OF text_chunk_plain, of k tx] by (simp add: all_ws_def)
  obtain body where body: "ser [] [] (text_chunk k tx) = CHR ''{'' # body @ [CHR ''}'']"
    using ser_text_chunk by blast
  have t: "trim (drop 5 (''data: '' @ ser [] [] (text_chunk k tx))) = ser [] [] (text_chunk k tx)"
    using trim_braces [of body] by (simp add: body)
  have n: "ser [] [] (text_chunk k tx) \<noteq> []" by (simp add: body)
  have st: "starts_with ''data:'' (''data: '' @ ser [] [] (text_chunk k tx))" by (simp add: starts_with_def)
  show ?thesis
    unfolding on_line_def data_line_def t Let_def p using n st
    by (auto simp: text_chunk_def split: prod.split option.split)
qed

lemma sse_lines:
  "split_lines (sse (text_chunk k tx) @ rest) =
     data_line (text_chunk k tx) # [] # split_lines rest"
proof -
  have "newline \<notin> set (data_line (text_chunk k tx))"
    using ser_text_chunk [of k tx] by (auto simp: newline_def data_line_def)
  from split_lines_Cons_line [OF this, of "newline # rest"] show ?thesis by (simp add: sse_def)
qed

definition events :: "(string \<times> string) list \<Rightarrow> string" where
  "events cs = concat (map (\<lambda>(k, tx). sse (text_chunk k tx)) cs)"

lemma events_Cons: "events ((k, tx) # cs) = sse (text_chunk k tx) @ events cs"
  by (simp add: events_def)

lemma events_error_free: "error_free (split_lines (events cs))"
proof (induction cs)
  case (Cons c cs)
  then show ?case
    by (cases c) (simp add: events_Cons sse_lines error_free_def starts_with_def data_line_def)
qed (simp add: events_def error_free_def starts_with_def)

definition extended :: "string \<Rightarrow> (string \<times> string) list \<Rightarrow> string option \<Rightarrow> string option" where
  "extended k cs old = (if k \<in> fst ` set cs then Some ((case old of None \<Rightarrow> [] | Some x \<Rightarrow> x) @ joined k cs) else old)"

lemma extended_Cons:
  "extended k ((k', tx) # cs) old =
     extended k cs (if k = k' then Some ((case old of None \<Rightarrow> [] | Some x \<Rightarrow> x) @ tx) else old)"
  by (auto simp: extended_def joined_def filter_empty_conv image_iff split: option.split)

lemma on_lines_events:
  assumes "message_at i s = Some m" and "text_message m"
  shows "\<exists>m'. on_lines i [] (butlast (split_lines (events cs))) s = (set_message i m' s, NextLine) \<and>
    text_message m' \<and> (\<forall>p. p \<noteq> ''contents'' \<longrightarrow> oget m' p = oget m p) \<and>
    map key_of (contents_of m') = fold add_key (map (Str \<circ> fst) cs) (map key_of (contents_of m)) \<and>
    (\<forall>k. text_of k (contents_of m') = extended k cs (text_of k (contents_of m)))"
  using assms
proof (induction cs arbitrary: s m)
  case Nil
  have "set_message i m s = s"
    using Nil.prems(1) by (auto simp: set_message_def message_at_def split: if_splits)
  then show ?case
    using Nil by (intro exI [of _ m]) (simp add: events_def extended_def)
next
  case (Cons c cs)
  obtain k tx where c: "c = (k, tx)" by (cases c)
  obtain m1 where m1: "handleStreamChunk (text_chunk k tx) i s = (set_message i m1 s, None)" "text_message m1"
      "\<forall>p. p \<noteq> ''contents'' \<longrightarrow> oget m1 p = oget m p"
      "map key_of (contents_of m1) = add_key (Str k) (map key_of (contents_of m))"
      "\<forall>k'. text_of k' (contents_of m1) =
         (if k' = k then Some ((case text_of k (contents_of m) of None \<Rightarrow> [] | Some x \<Rightarrow> x) @ tx) else text_of k' (contents_of m))"
    using handle_text_chunk [OF Cons.prems] by blast
  have at: "message_at i (set_message i m1 s) = Some m1"
    using Cons.prems(1) by (auto simp: message_at_def set_message_def split: if_splits)
  have twice: "set_message i m' (set_message i m1 s) = set_message i m' s" for m'
    by (simp add: set_message_def)
  have e: "on_line i [] [] s' = (s', NextLine)" for s' by (simp add: on_line_def starts_with_def)
  have l: "butlast (split_lines (events (c # cs))) =
      data_line (text_chunk k tx) # [] # butlast (split_lines (events cs))"
    by (simp add: c events_Cons sse_lines)
  from Cons.IH [OF at m1(2)] obtain m' where m':
      "on_lines i [] (butlast (split_lines (events cs))) (set_message i m1 s) = (set_message i m' s, NextLine)"
      "text_message m'" "\<forall>p. p \<noteq> ''contents'' \<longrightarrow> oget m' p = oget m1 p"
      "map key_of (contents_of m') = fold add_key (map (Str \<circ> fst) cs) (map key_of (contents_of m1))"
      "\<forall>k. text_of k (contents_of m') = extended k cs (text_of k (contents_of m1))"
    unfolding twice by blast
  have "on_lines i [] (butlast (split_lines (events (c # cs)))) s = (set_message i m' s, NextLine)"
    unfolding l using m'(1) m1(1) by (simp add: on_line_text_chunk e)
  then show ?case
    using m' m1 by (intro exI [of _ m']) (simp add: c extended_Cons comp_def)
qed

text \<open>
  C11: From the server to the screen: when the server sends text chunks, as events that the
  network cuts anywhere, the message ends up with one content per key, in the order in which the
  keys first appear, whose text is exactly the texts of that key joined in order; nothing else of
  the message changes except that it is finished.
\<close>

theorem streamed_text_shown:
  assumes "concat pieces = events cs" and "message_at i s = Some m" and "oget m ''contents'' = Undef"
  shows "\<exists>m'. processStreamData i [] pieces None s = (set_message i m' s, None) \<and>
    oget m' ''isStreaming'' = Bool False \<and>
    (\<forall>p. p \<noteq> ''contents'' \<longrightarrow> p \<noteq> ''isStreaming'' \<longrightarrow> oget m' p = oget m p) \<and>
    map key_of (contents_of m') = fold add_key (map (Str \<circ> fst) cs) [] \<and>
    (\<forall>k. text_of k (contents_of m') = (if k \<in> fst ` set cs then Some (joined k cs) else None))"
proof -
  have c: "contents_of m = []" using assms(3) by (simp add: contents_of_def)
  then have t: "text_message m" using assms(3) by (simp add: text_message_def)
  have "error_free (butlast (split_lines (concat pieces)))"
    using events_error_free [of cs] unfolding assms(1) by (auto simp: error_free_def list_all_iff dest: in_set_butlastD)
  then have p: "processStreamData i [] pieces None s = stream_text i (events cs) None s"
    using processStreamData_text [of "[]" pieces i None s] by (simp add: assms(1))
  from on_lines_events [OF assms(2) t, of cs] obtain m' where m':
      "on_lines i [] (butlast (split_lines (events cs))) s = (set_message i m' s, NextLine)"
      "\<forall>p. p \<noteq> ''contents'' \<longrightarrow> oget m' p = oget m p"
      "map key_of (contents_of m') = fold add_key (map (Str \<circ> fst) cs) []"
      "\<forall>k. text_of k (contents_of m') = extended k cs None"
    unfolding c by (auto simp: text_of_def)
  have st: "stop_streaming i (set_message i m' s) = set_message i (aset ''isStreaming'' (Bool False) m') s"
    using assms(2) by (auto simp: stop_streaming_def message_at_def set_message_def split: if_splits)
  show ?thesis
    unfolding p stream_text_def m'(1)
    using m' by (intro exI [of _ "aset ''isStreaming'' (Bool False) m'"])
      (simp add: st extended_def contents_of_def)
qed

theorem streamed_text_shown_witness:
  "\<exists>m'. processStreamData 0 [] [sse (text_chunk ''a'' ''Hel''), sse (text_chunk ''a'' ''lo'')] None
      ((chat_init [])\<lparr>history := [[(''isStreaming'', Bool True)]]\<rparr>) =
      (set_message 0 m' ((chat_init [])\<lparr>history := [[(''isStreaming'', Bool True)]]\<rparr>), None) \<and>
    text_of ''a'' (contents_of m') = Some ''Hello''"
  using streamed_text_shown [of "[sse (text_chunk ''a'' ''Hel''), sse (text_chunk ''a'' ''lo'')]"
      "[(''a'', ''Hel''), (''a'', ''lo'')]" 0 "(chat_init [])\<lparr>history := [[(''isStreaming'', Bool True)]]\<rparr>"
      "[(''isStreaming'', Bool True)]"]
  by (fastforce simp: events_def message_at_def joined_def)

end
