(* ===== verification/UI_Form.thy ===== *)
theory UI_Form
  imports UI_Store
begin

text \<open>
  The dialogs and lists over the base store: \<^verbatim>\<open>components/ui/form/useForm.ts\<close>,
  \<^verbatim>\<open>components/ui/form/formTable.ts\<close> and \<^verbatim>\<open>layouts/content/list/useList.ts\<close>.

  The confirmation of a dialog is concurrent: the request is on its way while a timer decides
  whether to show that it takes long, and the user may confirm again. \<open>form_state\<close> holds the store,
  the calls of \<open>onConfirm\<close> whose answer is awaited (\<open>pending\<close>), those whose timer has not fired
  (\<open>armed\<close>) and the requests sent. The validation of the form and what the API answers are events.
\<close>

section \<open>Forms\<close>

definition getNewFormList :: "base_state \<Rightarrow> js list" where
  "getNewFormList s = map (\<lambda>_. newFormFn s ()) [0..<5]"

definition isFormItemDisabled :: "string \<Rightarrow> base_state \<Rightarrow> bool" where
  "isFormItemDisabled prop s =
     (if prop \<in> set (readonlyFormFields s) then True
      else if \<not> isSelectiveForm s then False
      else if prop = [] then False
      else prop \<notin> set (selectedFormFields s))"

definition isEmptyForm :: "js \<Rightarrow> base_state \<Rightarrow> bool" where
  "isEmptyForm d s \<longleftrightarrow> json_stringify d = json_stringify (newFormFn s ())"

definition createEditDialogVisible :: "base_state \<Rightarrow> bool" where
  "createEditDialogVisible s =
     (case activeDialogKey s of None \<Rightarrow> False | Some k \<Rightarrow> k = ''create'' \<or> k = ''edit'')"

definition confirmDisabled :: "base_state \<Rightarrow> bool" where
  "confirmDisabled s \<longleftrightarrow> isSelectiveForm s \<and> selectedFormFields s = []"

text \<open>The fields of the rows of a batch form, registered under their row and property.\<close>

type_synonym field_refs = "((int \<times> string) \<times> nat) list"

record form_state =
  form_store :: base_state
  refs :: field_refs
  pending :: "nat list"
  armed :: "nat list"
  next_call :: nat
  requests :: "service_request list"

definition in_store :: "(base_state \<Rightarrow> base_state) \<Rightarrow> form_state \<Rightarrow> form_state" where
  "in_store f w = w\<lparr>form_store := f (form_store w)\<rparr>"

text \<open>\<open>resetForm\<close>; the reset of the fields by the form component is not part of the state.\<close>

definition resetForm :: "form_state \<Rightarrow> form_state" where
  "resetForm w =
     (let s = form_store w in
      case activeDialogKey s of
        None \<Rightarrow> w\<lparr>refs := []\<rparr>
      | Some k \<Rightarrow>
          if k = ''create''
          then in_store (\<lambda>s. mutate (SetFormList (getNewFormList s)) (mutate (SetForm (newFormFn s ())) s)) w
          else if k = [] then w\<lparr>refs := []\<rparr>
          else w)"

text \<open>The watcher of the dialog key in \<open>useForm\<close>, and the one in \<open>useList\<close>.\<close>

definition watch_dialog_form :: "string option \<Rightarrow> form_state \<Rightarrow> form_state" where
  "watch_dialog_form prev w =
     (if (activeDialogKey (form_store w) = None \<or> activeDialogKey (form_store w) = Some [])
         \<and> (prev = Some ''create'' \<or> prev = Some ''edit'')
      then resetForm w else w)"

definition watch_dialog_list :: "base_state \<Rightarrow> base_state" where
  "watch_dialog_list s =
     (case activeDialogKey s of
        None \<Rightarrow> mutate ResetFormList (mutate ResetForm s)
      | Some k \<Rightarrow>
          if k = [] then mutate ResetFormList (mutate ResetForm s)
          else if k = ''create''
          then mutate (SetFormList (getNewFormList s)) (mutate (SetForm (newFormFn s ())) s)
          else s)"

text \<open>The watchers run after the change, when the key is another one.\<close>

definition run_watchers :: "string option \<Rightarrow> form_state \<Rightarrow> form_state" where
  "run_watchers prev w =
     (if activeDialogKey (form_store w) = prev then w
      else in_store watch_dialog_list (watch_dialog_form prev w))"

section \<open>Confirmation\<close>

text \<open>\<open>onConfirm\<close> up to its request. Without a dialog to create or edit it ends at once.\<close>

definition form_request :: "string \<Rightarrow> base_state \<Rightarrow> service_request option" where
  "form_request endpoint s =
     (case activeDialogKey s of
        None \<Rightarrow> None
      | Some k \<Rightarrow>
          if k = ''create'' then Some (useService endpoint (Create (form s)))
          else if k = ''edit''
          then Some (useService endpoint (UpdateById (js_str (js_get_opt (form s) ''_id'')) (form s)))
          else None)"

definition onConfirm :: "string \<Rightarrow> bool \<Rightarrow> form_state \<Rightarrow> form_state" where
  "onConfirm endpoint valid w =
     (if \<not> valid \<or> \<not> truthy (form (form_store w)) then w
      else
        (let w' = w\<lparr>armed := armed w @ [next_call w], next_call := Suc (next_call w)\<rparr> in
         case form_request endpoint (form_store w) of
           None \<Rightarrow> in_store (mutate (SetConfirmLoading False)) w'
         | Some r \<Rightarrow> w'\<lparr>pending := pending w @ [next_call w], requests := requests w @ [r]\<rparr>))"

text \<open>The timer of a call: the loading is shown if the request is not finished.\<close>

definition onTimer :: "nat \<Rightarrow> form_state \<Rightarrow> form_state" where
  "onTimer c w =
     (if c \<notin> set (armed w) then w
      else
        (let w' = w\<lparr>armed := removeAll c (armed w)\<rparr> in
         if c \<in> set (pending w) then in_store (mutate (SetConfirmLoading True)) w' else w'))"

text \<open>
  The answer: the loading ends in any case; without an error the dialog is hidden and the list
  requested, and the watchers of the dialog key run.
\<close>

definition onAnswer :: "string \<Rightarrow> nat \<Rightarrow> thrown + js \<Rightarrow> form_state \<Rightarrow> form_state" where
  "onAnswer endpoint c result w =
     (if c \<notin> set (pending w) then w
      else
        (let w' = in_store (mutate (SetConfirmLoading False)) (w\<lparr>pending := removeAll c (pending w)\<rparr>);
             ok = (case result of Inl _ \<Rightarrow> False
                   | Inr res \<Rightarrow> (case js_get res ''error'' of Inl _ \<Rightarrow> False | Inr e \<Rightarrow> \<not> truthy e))
         in if \<not> ok then w'
            else
              (let prev = activeDialogKey (form_store w');
                   hidden = in_store hideDialog w';
                   (s, r) = getList_start endpoint (form_store hidden);
                   listed = hidden\<lparr>form_store := s, requests := requests hidden @ [r]\<rparr>
               in run_watchers prev listed)))"

text \<open>\<open>onClose\<close>.\<close>

definition onClose :: "form_state \<Rightarrow> form_state" where
  "onClose w =
     run_watchers (activeDialogKey (form_store w)) (in_store hideDialog w)"

datatype form_event =
    Confirm bool
  | TimerFires nat
  | Answer nat "thrown + js"
  | Close
  | Commits base_mutation

fun form_step :: "string \<Rightarrow> form_event \<Rightarrow> form_state \<Rightarrow> form_state" where
  "form_step endpoint (Confirm valid) w = onConfirm endpoint valid w"
| "form_step endpoint (TimerFires c) w = onTimer c w"
| "form_step endpoint (Answer c r) w = onAnswer endpoint c r w"
| "form_step endpoint Close w = onClose w"
| "form_step endpoint (Commits m) w = run_watchers (activeDialogKey (form_store w)) (in_store (mutate m) w)"

text \<open>Only the confirmation sets the flag of the confirmation.\<close>

fun leaves_loading :: "form_event \<Rightarrow> bool" where
  "leaves_loading (Commits (SetConfirmLoading b)) = False"
| "leaves_loading e = True"

definition form_init :: "base_state \<Rightarrow> form_state" where
  "form_init s = \<lparr>form_store = s, refs = [], pending = [], armed = [], next_call = 0, requests = []\<rparr>"

lemma mutate_keeps_confirm:
  "(\<And>b. m \<noteq> SetConfirmLoading b) \<Longrightarrow> confirmLoading (mutate m s) \<Longrightarrow> confirmLoading s"
  by (cases m) (auto simp: hideDialog_def setTableListFilterByKey_def setTableListSortByKey_def split: option.splits)

definition loading_ok :: "form_state \<Rightarrow> bool" where
  "loading_ok w \<longleftrightarrow> (confirmLoading (form_store w) \<longrightarrow> pending w \<noteq> [])"

lemma watch_keeps_confirm [simp]:
  "confirmLoading (watch_dialog_list s) = confirmLoading s"
  "confirmLoading (form_store (watch_dialog_form p w)) = confirmLoading (form_store w)"
  "pending (watch_dialog_form p w) = pending w"
  "confirmLoading (form_store (run_watchers p w)) = confirmLoading (form_store w)"
  "pending (run_watchers p w) = pending w"
  by (auto simp: run_watchers_def watch_dialog_list_def watch_dialog_form_def resetForm_def in_store_def Let_def split: option.split)

lemma step_loading_ok: "loading_ok w \<Longrightarrow> leaves_loading e \<Longrightarrow> loading_ok (form_step endpoint e w)"
proof (cases e)
  case (Confirm v)
  then show "loading_ok w \<Longrightarrow> leaves_loading e \<Longrightarrow> ?thesis"
    by (auto simp: loading_ok_def onConfirm_def in_store_def Let_def split: option.split)
next
  case (TimerFires c)
  then show "loading_ok w \<Longrightarrow> leaves_loading e \<Longrightarrow> ?thesis"
    by (auto simp: loading_ok_def onTimer_def in_store_def Let_def)
next
  case (Answer c r)
  then show "loading_ok w \<Longrightarrow> leaves_loading e \<Longrightarrow> ?thesis"
    by (auto simp: loading_ok_def onAnswer_def in_store_def Let_def hideDialog_def getList_start_def)
next
  case Close
  then show "loading_ok w \<Longrightarrow> leaves_loading e \<Longrightarrow> ?thesis"
    by (auto simp: loading_ok_def onClose_def in_store_def Let_def hideDialog_def)
next
  case (Commits m)
  then show "loading_ok w \<Longrightarrow> leaves_loading e \<Longrightarrow> ?thesis"
    using mutate_keeps_confirm [of m "form_store w"] by (cases m) (auto simp: loading_ok_def in_store_def)
qed

lemma run_loading_ok:
  "loading_ok w \<Longrightarrow> list_all leaves_loading es \<Longrightarrow> loading_ok (fold (form_step endpoint) es w)"
  by (induction es arbitrary: w) (simp_all add: step_loading_ok)

text \<open>
  C25: A dialog is never stuck: however confirmations, timers, answers, failures, closing and other
  changes of the store follow each other, the button shows that it is loading only while a
  request is pending; in particular it is free when all requests have been answered, even if their
  timers fire later.
\<close>

theorem confirm_not_stuck:
  assumes "\<not> confirmLoading s" and "list_all leaves_loading es"
    and "pending (fold (form_step endpoint) es (form_init s)) = []"
  shows "\<not> confirmLoading (form_store (fold (form_step endpoint) es (form_init s))) \<and>
    \<not> confirmLoading (form_store (onTimer c (fold (form_step endpoint) es (form_init s))))"
proof -
  have "loading_ok (form_init s)" using assms(1) by (simp add: loading_ok_def form_init_def)
  from run_loading_ok [OF this assms(2), of endpoint] assms(3)
  have "\<not> confirmLoading (form_store (fold (form_step endpoint) es (form_init s)))" by (simp add: loading_ok_def)
  with assms(3) show ?thesis by (simp add: onTimer_def Let_def)
qed

theorem confirm_not_stuck_witness:
  "\<not> confirmLoading (form_store (fold (form_step ''/tasks'')
     [Commits (ShowDialog ''create''), Confirm True, TimerFires 0, Answer 0 (Inl (ErrorObj ''timeout''))] (form_init example_state)))"
proof -
  let ?es = "[Commits (ShowDialog ''create''), Confirm True, TimerFires 0, Answer 0 (Inl (ErrorObj ''timeout''))]"
  have l: "\<not> confirmLoading example_state" and f: "newFormFn example_state () = Obj []"
    and k: "activeDialogKey example_state = None"
    by (simp_all add: example_state_def getDefaultStoreState_def loadNamespaceLocalStorage_def loadLocalStorage_def item_defs)
  have p: "pending (fold (form_step ''/tasks'') ?es (form_init example_state)) = []"
    by (simp add: form_init_def in_store_def onConfirm_def onTimer_def onAnswer_def form_request_def f k
        run_watchers_def watch_dialog_form_def watch_dialog_list_def)
  show ?thesis using confirm_not_stuck [OF l _ p] by simp
qed

text \<open>
  A confirmed creation sends the form once, and its success closes the dialog, empties the
  batch and requests the list; an error leaves the dialog as it is, with the form and the batch.
\<close>

theorem create_confirmed:
  assumes "activeDialogKey (form_store w) = Some ''create''" and "truthy (form (form_store w))"
    and "next_call w \<notin> set (pending w)"
  shows "requests (onConfirm endpoint True w) =
      requests w @ [\<lparr>sr_method = ''POST'', sr_url = endpoint, sr_params = Undef, sr_data = Obj [(''data'', form (form_store w))]\<rparr>] \<and>
    (let w' = onAnswer endpoint (next_call w) (Inr (Obj ps)) (onConfirm endpoint True w) in
      if truthy (oget ps ''error'')
      then form_store w' = (form_store w)\<lparr>confirmLoading := False\<rparr> \<and> requests w' = requests (onConfirm endpoint True w)
      else activeDialogKey (form_store w') = None \<and> formList (form_store w') = [] \<and>
        form (form_store w') = newFormFn (form_store w) () \<and> tableLoading (form_store w') \<and> refs w' = [] \<and>
        requests w' = requests (onConfirm endpoint True w) @ [snd (getList_start endpoint (form_store w))])"
  using assms
  by (simp add: onConfirm_def form_request_def onAnswer_def in_store_def Let_def getList_start_def
      hideDialog_def run_watchers_def watch_dialog_form_def watch_dialog_list_def resetForm_def list_params_def)

theorem create_confirmed_witness:
  "activeDialogKey (form_store (onAnswer ''/tasks'' 0 (Inr (Obj []))
     (onConfirm ''/tasks'' True (form_init (mutate (ShowDialog ''create'') example_state))))) = None"
proof -
  have f: "form example_state = Obj []"
    by (simp add: example_state_def getDefaultStoreState_def loadNamespaceLocalStorage_def loadLocalStorage_def item_defs)
  show ?thesis
    using create_confirmed [of "form_init (mutate (ShowDialog ''create'') example_state)" "''/tasks''" "[]"]
    by (simp add: form_init_def f Let_def)
qed

section \<open>Rows of a batch form\<close>

definition in_rows :: "(js list \<Rightarrow> js list) \<Rightarrow> form_state \<Rightarrow> form_state" where
  "in_rows f = in_store (\<lambda>s. s\<lparr>formList := f (formList s)\<rparr>)"

definition onAdd :: "nat \<Rightarrow> form_state \<Rightarrow> form_state" where
  "onAdd i w = in_rows (\<lambda>rows. take i rows @ newFormFn (form_store w) () # drop i rows) w"

definition onClone :: "nat \<Rightarrow> form_state \<Rightarrow> form_state" where
  "onClone i w =
     (let row = (if i < length (formList (form_store w)) then formList (form_store w) ! i else Undef) in
      case plainClone row of
        Inl _ \<Rightarrow> w
      | Inr v \<Rightarrow> in_rows (\<lambda>rows. take i rows @ v # drop i rows) w)"

definition onDelete :: "nat \<Rightarrow> form_state \<Rightarrow> form_state" where
  "onDelete i w =
     (in_rows (\<lambda>rows. take i rows @ drop (Suc i) rows) w)\<lparr>refs := filter (\<lambda>r. fst (fst r) \<noteq> int i) (refs w)\<rparr>"

text \<open>Setting a property of a row; assigning to a missing row throws.\<close>

definition set_row :: "string \<Rightarrow> js \<Rightarrow> js \<Rightarrow> thrown + js" where
  "set_row prop value row = set_property prop value row"

fun set_rows :: "string \<Rightarrow> js \<Rightarrow> js list \<Rightarrow> js list \<times> thrown option" where
  "set_rows prop value [] = ([], None)"
| "set_rows prop value (row # rows) =
     (case set_row prop value row of
        Inl e \<Rightarrow> (row # rows, Some e)
      | Inr row' \<Rightarrow> (case set_rows prop value rows of (rows', r) \<Rightarrow> (row' # rows', r)))"

definition onFieldChange :: "int \<Rightarrow> string \<Rightarrow> js \<Rightarrow> form_state \<Rightarrow> form_state \<times> thrown option" where
  "onFieldChange rowIndex prop value w =
     (let rows = formList (form_store w) in
      if rowIndex = -1 then
        (case set_rows prop value rows of (rows', r) \<Rightarrow> (in_rows (\<lambda>_. rows') w, r))
      else if 0 \<le> rowIndex \<and> nat rowIndex < length rows then
        (case set_row prop value (rows ! nat rowIndex) of
           Inl e \<Rightarrow> (w, Some e)
         | Inr row' \<Rightarrow> (in_rows (\<lambda>rows. rows[nat rowIndex := row']) w, None))
      else (w, Some (type_error ''undefined'' prop)))"

text \<open>A key is a new array each time, so registering a field never replaces an entry.\<close>

definition onFieldRegister :: "int \<Rightarrow> string \<Rightarrow> nat \<Rightarrow> form_state \<Rightarrow> form_state" where
  "onFieldRegister rowIndex prop ref w = w\<lparr>refs := refs w @ [((rowIndex, prop), ref)]\<rparr>"

lemma set_rows_objects:
  "set_rows prop value (map Obj rows) = (map (\<lambda>ps. Obj (aset prop value ps)) rows, None)"
  by (induction rows) (simp_all add: set_row_def set_property_def)

lemma onFieldChange_all:
  "formList (form_store w) = map Obj rows \<Longrightarrow>
   onFieldChange (-1) prop value w = (in_rows (\<lambda>_. map (\<lambda>ps. Obj (aset prop value ps)) rows) w, None)"
  by (simp add: onFieldChange_def set_rows_objects)

lemma onDelete_onAdd:
  "i \<le> length (formList (form_store w)) \<Longrightarrow> formList (form_store (onDelete i (onAdd i w))) = formList (form_store w)"
  by (simp add: onDelete_def onAdd_def in_rows_def in_store_def)

text \<open>
  Deleting a row does not renumber the fields of the rows behind it: they stay registered under
  their old numbers.
\<close>

lemma onDelete_keeps_numbers:
  "r \<in> set (refs w) \<Longrightarrow> fst (fst r) \<noteq> int i \<Longrightarrow> r \<in> set (refs (onDelete i w))"
  by (simp add: onDelete_def)

section \<open>The header of a list\<close>

record header_filter =
  hf_conditions :: "jobj list option"
  hf_items :: "js list option"
  hf_searchString :: js

definition FILTER_OP_NOT_SET :: string where
  "FILTER_OP_NOT_SET = ''ns''"

definition FILTER_OP_IN :: string where
  "FILTER_OP_IN = ''in''"

definition getFilterConditions :: "bool \<Rightarrow> bool \<Rightarrow> header_filter \<Rightarrow> jobj list" where
  "getFilterConditions allowFilterSearch allowFilterItems filt =
     (case hf_conditions filt of
        None \<Rightarrow> []
      | Some cs \<Rightarrow> filter (\<lambda>d. oget d ''op'' \<noteq> Str FILTER_OP_NOT_SET) cs) @
     (if allowFilterItems then
        (case hf_items filt of
           None \<Rightarrow> []
         | Some xs \<Rightarrow> if xs = [] then [] else [[(''op'', Str FILTER_OP_IN), (''value'', Arr xs)]])
      else if allowFilterSearch then
        (if truthy (hf_searchString filt)
         then [[(''op'', Str FILTER_OP_CONTAINS), (''value'', hf_searchString filt)]] else [])
      else [])"

definition onHeaderChange ::
    "string \<Rightarrow> js \<Rightarrow> bool \<Rightarrow> bool \<Rightarrow> jobj option \<Rightarrow> header_filter option \<Rightarrow> base_state \<Rightarrow> base_state \<times> service_request" where
  "onHeaderChange endpoint key allowFilterSearch allowFilterItems srt filt s =
     (let s1 = (case filt of
                  None \<Rightarrow> mutate (ResetTableListFilterByKey key) s
                | Some f \<Rightarrow> mutate (SetTableListFilterByKey key
                    (getFilterConditions allowFilterSearch allowFilterItems f)) s);
          s2 = (case srt of
                  None \<Rightarrow> mutate (ResetTableListSortByKey key) s1
                | Some x \<Rightarrow> mutate (SetTableListSortByKey key (Some x)) s1)
      in getList_start endpoint s2)"

lemma plain_obj_aset: "plain_obj d \<Longrightarrow> plain v \<Longrightarrow> plain_obj (aset k v d)"
  unfolding plain_obj_def by (rule plain_aset)

lemma sort_mutations_keep_filter [simp]:
  "tableListFilter (setTableListSortByKey k x s) = tableListFilter s"
  by (simp add: setTableListSortByKey_def split: option.split)

definition header_filters :: "js \<Rightarrow> jobj list \<Rightarrow> base_state \<Rightarrow> jobj list" where
  "header_filters key conditions s = drop_key key (tableListFilter s) @ map (aset ''key'' key) conditions"

lemma onHeaderChange_filter:
  "list_all plain_obj (header_filters key (case filt of None \<Rightarrow> [] | Some f \<Rightarrow> getFilterConditions as ai f) s) \<Longrightarrow>
   \<exists>ps f. sr_params (snd (onHeaderChange endpoint key as ai srt filt s)) = Obj ps \<and> oget ps ''filter'' = Str f \<and>
     json_parse f = Inr (Arr (map Obj
       (header_filters key (case filt of None \<Rightarrow> [] | Some f \<Rightarrow> getFilterConditions as ai f) s)))"
  using objects_roundtrip [of "header_filters key (case filt of None \<Rightarrow> [] | Some f \<Rightarrow> getFilterConditions as ai f) s"]
  by (cases srt; cases filt)
    (auto simp: onHeaderChange_def getList_start_def list_params_def header_filters_def setTableListFilterByKey_def Let_def)

text \<open>
  What the header of a column sets is what the API is asked for: the list request after the
  change carries, as a text that parses back, exactly the column's set conditions under its key,
  and the conditions of the other columns unchanged; conditions that are not set are left out.
\<close>

theorem header_change_requested:
  assumes "plain key" and "list_all plain_obj (tableListFilter s)"
    and "conditions = (case filt of None \<Rightarrow> [] | Some f \<Rightarrow> getFilterConditions as ai f)"
    and "list_all plain_obj conditions"
  shows "\<exists>ps f ds. sr_params (snd (onHeaderChange endpoint key as ai srt filt s)) = Obj ps \<and>
    oget ps ''filter'' = Str f \<and> json_parse f = Inr (Arr (map Obj ds)) \<and>
    with_key key ds = map (aset ''key'' key) conditions \<and>
    (\<forall>k. k \<noteq> key \<longrightarrow> with_key k ds = with_key k (tableListFilter s)) \<and>
    list_all (\<lambda>d. oget d ''op'' \<noteq> Str FILTER_OP_NOT_SET) conditions"
proof -
  have p: "list_all plain_obj (header_filters key conditions s)"
    using assms(1,2,4) by (auto simp: header_filters_def drop_key_def list_all_iff intro: plain_obj_aset)
  have n: "list_all (\<lambda>d. oget d ''op'' \<noteq> Str FILTER_OP_NOT_SET) conditions"
    unfolding assms(3)
    by (auto simp: getFilterConditions_def list_all_iff FILTER_OP_NOT_SET_def FILTER_OP_IN_def
        FILTER_OP_CONTAINS_def split: option.splits if_splits)
  have w: "with_key key (header_filters key conditions s) = map (aset ''key'' key) conditions"
    "k \<noteq> key \<Longrightarrow> with_key k (header_filters key conditions s) = with_key k (tableListFilter s)" for k
    by (simp_all add: header_filters_def with_key_drop_key with_key_set_key)
  show ?thesis
    using onHeaderChange_filter [of key as ai filt s endpoint srt] p n w unfolding assms(3) [symmetric] by blast
qed

theorem header_change_requested_witness:
  "\<exists>ps f ds. sr_params (snd (onHeaderChange ''/tasks'' (Str ''name'') True False None
      (Some \<lparr>hf_conditions = None, hf_items = None, hf_searchString = Str ''x''\<rparr>) example_state)) = Obj ps \<and>
    oget ps ''filter'' = Str f \<and> json_parse f = Inr (Arr (map Obj ds)) \<and>
    with_key (Str ''name'') ds = [[(''op'', Str ''c''), (''value'', Str ''x''), (''key'', Str ''name'')]]"
proof -
  let ?f = "\<lparr>hf_conditions = None, hf_items = None, hf_searchString = Str ''x''\<rparr>"
  have c: "getFilterConditions True False ?f = [[(''op'', Str ''c''), (''value'', Str ''x'')]]"
    by (simp add: getFilterConditions_def FILTER_OP_CONTAINS_def)
  have "tableListFilter example_state = []"
    by (simp add: example_state_def getDefaultStoreState_def loadNamespaceLocalStorage_def loadLocalStorage_def item_defs)
  then show ?thesis
    using header_change_requested [of "Str ''name''" example_state "[[(''op'', Str ''c''), (''value'', Str ''x'')]]"
        True False "Some ?f" "''/tasks''" None] c
    by (fastforce simp: plain_obj_def)
qed

end
