(* ===== verification/UI_Debounce.thy ===== *)
theory UI_Debounce
  imports Hub_Prelude "HOL-Library.Multiset"
begin

text \<open>
  \<^verbatim>\<open>utils/debounce.ts\<close>: calls of a function are put off until no call has come for a while, and
  then the function runs once, with the arguments of the last call.

  For an asynchronous function every call returns a promise; \<open>waiting_calls\<close> are the calls whose
  promise is not resolved (the variable \<open>resolveQueue\<close>), \<open>timer\<close> the arguments that the timer will
  run with, and \<open>running\<close> the runs whose result is awaited. Time is abstract: the timer may elapse
  whenever it is set, and a run may end at any time, so every interleaving is a sequence of
  \<open>debounce_step\<close>s. The two lists \<open>called\<close> and \<open>started\<close> record the arguments of the calls and of
  the runs.
\<close>

section \<open>The state machine\<close>

record ('a, 'r) debounced =
  timer :: "'a option"
  waiting_calls :: "nat list"
  running :: "'a list"
  resolved :: "(nat \<times> 'r) list"
  called :: "'a list"
  started :: "'a list"

definition debounce_init :: "('a, 'r) debounced" where
  "debounce_init = \<lparr>timer = None, waiting_calls = [], running = [], resolved = [], called = [], started = []\<rparr>"

datatype ('a, 'r) debounce_event =
    Called 'a
  | Elapsed
  | Returned nat 'r
  | Threw nat

definition drop_nth :: "nat \<Rightarrow> 'b list \<Rightarrow> 'b list" where
  "drop_nth n xs = take n xs @ drop (Suc n) xs"

inductive debounce_step :: "('a, 'r) debounced \<Rightarrow> ('a, 'r) debounce_event \<Rightarrow> ('a, 'r) debounced \<Rightarrow> bool" where
  step_call:
    "debounce_step s (Called a)
       (s\<lparr>timer := Some a, waiting_calls := waiting_calls s @ [length (called s)], called := called s @ [a]\<rparr>)"
| step_elapse:
    "timer s = Some a \<Longrightarrow>
     debounce_step s Elapsed (s\<lparr>timer := None, running := running s @ [a], started := started s @ [a]\<rparr>)"
| step_return:
    "n < length (running s) \<Longrightarrow>
     debounce_step s (Returned n r)
       (s\<lparr>running := drop_nth n (running s), waiting_calls := [],
          resolved := resolved s @ map (\<lambda>c. (c, r)) (waiting_calls s)\<rparr>)"
| step_throw:
    "n < length (running s) \<Longrightarrow> debounce_step s (Threw n) (s\<lparr>running := drop_nth n (running s)\<rparr>)"

inductive_cases debounce_callE: "debounce_step s (Called a) s'"
inductive_cases debounce_elapseE: "debounce_step s Elapsed s'"
inductive_cases debounce_returnE: "debounce_step s (Returned n r) s'"
inductive_cases debounce_throwE: "debounce_step s (Threw n) s'"

lemmas debounce_cases = debounce_callE debounce_elapseE debounce_returnE debounce_throwE

inductive debounce_runs :: "('a, 'r) debounce_event list \<Rightarrow> ('a, 'r) debounced \<Rightarrow> bool" where
  runs_init: "debounce_runs [] debounce_init"
| runs_step: "debounce_runs es s \<Longrightarrow> debounce_step s e s' \<Longrightarrow> debounce_runs (es @ [e]) s'"

lemma debounce_deterministic: "debounce_step s e s1 \<Longrightarrow> debounce_step s e s2 \<Longrightarrow> s1 = s2"
  by (cases e) (auto elim!: debounce_cases)

section \<open>Every call is resolved once\<close>

fun throws :: "('a, 'r) debounce_event \<Rightarrow> bool" where
  "throws (Threw n) = True"
| "throws _ = False"

definition calls_kept :: "('a, 'r) debounced \<Rightarrow> bool" where
  "calls_kept s \<longleftrightarrow> mset (waiting_calls s @ map fst (resolved s)) = mset [0..<length (called s)]"

lemma step_keeps_calls: "debounce_step s e s' \<Longrightarrow> calls_kept s \<Longrightarrow> calls_kept s'"
  by (induction rule: debounce_step.induct)
    (simp_all add: calls_kept_def atLeast0_lessThan_Suc multiset.map_comp comp_def ac_simps)

lemma runs_keep_calls: "debounce_runs es s \<Longrightarrow> calls_kept s"
proof (induction rule: debounce_runs.induct)
  case runs_init
  then show ?case by (simp add: calls_kept_def debounce_init_def)
qed (rule step_keeps_calls)

definition served :: "('a, 'r) debounced \<Rightarrow> bool" where
  "served s \<longleftrightarrow> waiting_calls s \<noteq> [] \<longrightarrow> timer s \<noteq> None \<or> running s \<noteq> []"

lemma step_keeps_served: "debounce_step s e s' \<Longrightarrow> \<not> throws e \<Longrightarrow> served s \<Longrightarrow> served s'"
  by (cases rule: debounce_step.cases) (auto simp: served_def)

lemma runs_served: "debounce_runs es s \<Longrightarrow> list_all (\<lambda>e. \<not> throws e) es \<Longrightarrow> served s"
proof (induction rule: debounce_runs.induct)
  case runs_init
  then show ?case by (simp add: served_def debounce_init_def)
qed (simp add: step_keeps_served)

text \<open>
  What is left to happen: a timer that is set will elapse and then its run will end; a run will end.
\<close>

definition is_call :: "('a, 'r) debounce_event \<Rightarrow> bool" where
  "is_call e = (case e of Called a \<Rightarrow> True | _ \<Rightarrow> False)"

definition work_left :: "('a, 'r) debounced \<Rightarrow> nat" where
  "work_left s = (if timer s = None then 0 else 2) + length (running s)"

lemma drop_nth_length: "n < length xs \<Longrightarrow> Suc (length (drop_nth n xs)) = length xs"
  by (simp add: drop_nth_def)

lemma step_works: "debounce_step s e s' \<Longrightarrow> \<not> is_call e \<Longrightarrow> work_left s' < work_left s"
proof (induction rule: debounce_step.induct)
  case (step_return n s r)
  then show ?case using drop_nth_length [of n "running s"] by (simp add: work_left_def)
next
  case (step_throw n s)
  then show ?case using drop_nth_length [of n "running s"] by (simp add: work_left_def)
qed (simp_all add: work_left_def is_call_def)

lemma work_enabled: "work_left s > 0 \<Longrightarrow> \<exists>e s'. debounce_step s e s' \<and> \<not> is_call e \<and> \<not> throws e"
proof (cases "timer s")
  case None
  assume "work_left s > 0"
  then have "0 < length (running s)" using None by (simp add: work_left_def)
  from step_return [OF this] show ?thesis
    by (intro exI [of _ "Returned 0 undefined"]) (auto simp: is_call_def)
next
  case (Some a)
  from step_elapse [OF this] show ?thesis by (intro exI [of _ Elapsed]) (auto simp: is_call_def)
qed

text \<open>
  C31: Every caller of a debounced function gets an answer, as long as the function does not fail.
  When no more calls come, every step uses up work; while there is work left some step can happen;
  and when none is left nobody waits and every call was resolved exactly once.
\<close>

theorem debounce_finishes:
  assumes "debounce_runs es s" and "list_all (\<lambda>e. \<not> throws e) es"
  shows "(\<forall>e s'. debounce_step s e s' \<and> \<not> is_call e \<longrightarrow> work_left s' < work_left s) \<and>
    (work_left s > 0 \<longrightarrow> (\<exists>e s'. debounce_step s e s' \<and> \<not> is_call e \<and> \<not> throws e)) \<and>
    (work_left s = 0 \<longrightarrow>
      waiting_calls s = [] \<and> mset (map fst (resolved s)) = mset [0..<length (called s)])"
proof (intro conjI impI)
  show "\<forall>e s'. debounce_step s e s' \<and> \<not> is_call e \<longrightarrow> work_left s' < work_left s" using step_works by blast
  show "\<exists>e s'. debounce_step s e s' \<and> \<not> is_call e \<and> \<not> throws e" if "work_left s > 0"
    using that by (rule work_enabled)
  assume "work_left s = 0"
  then have "timer s = None" "running s = []" by (auto simp: work_left_def split: if_splits)
  then show "waiting_calls s = []" using runs_served [OF assms] by (auto simp: served_def)
  then show "mset (map fst (resolved s)) = mset [0..<length (called s)]"
    using runs_keep_calls [OF assms(1)] by (simp add: calls_kept_def)
qed

section \<open>The function runs with the last arguments\<close>

definition last_wins :: "('a, 'r) debounced \<Rightarrow> bool" where
  "last_wins s \<longleftrightarrow>
     (\<forall>a. timer s = Some a \<longrightarrow> called s \<noteq> [] \<and> last (called s) = a) \<and>
     (timer s = None \<longrightarrow> called s \<noteq> [] \<longrightarrow> started s \<noteq> [] \<and> last (started s) = last (called s)) \<and>
     length (started s) + (if timer s = None then 0 else 1) \<le> length (called s)"

lemma step_keeps_last: "debounce_step s e s' \<Longrightarrow> last_wins s \<Longrightarrow> last_wins s'"
  by (induction rule: debounce_step.induct) (simp_all add: last_wins_def)

lemma runs_last: "debounce_runs es s \<Longrightarrow> last_wins s"
proof (induction rule: debounce_runs.induct)
  case runs_init
  then show ?case by (simp add: last_wins_def debounce_init_def)
qed (rule step_keeps_last)

text \<open>
  The last call wins: the function runs at most once per call, a timer that is set has the
  arguments of the last call, and once it has elapsed the last run had them.
\<close>

theorem debounce_runs_last:
  assumes "debounce_runs es s" and "called s \<noteq> []"
  shows "length (started s) \<le> length (called s) \<and>
    (case timer s of
       Some a \<Rightarrow> a = last (called s) \<and> length (started s) < length (called s)
     | None \<Rightarrow> started s \<noteq> [] \<and> last (started s) = last (called s))"
  using runs_last [OF assms(1)] assms(2) by (auto simp: last_wins_def split: option.split)

section \<open>Examples\<close>

lemma runs_two_calls:
  "debounce_runs [Called a, Called b, Elapsed, Returned 0 r]
     \<lparr>timer = None, waiting_calls = [], running = [], resolved = [(0, r), (1, r)], called = [a, b], started = [b]\<rparr>"
proof -
  note i = runs_init
  note s1 = runs_step [OF i step_call [of _ a]]
  note s2 = runs_step [OF s1 step_call [of _ b]]
  note s3 = runs_step [OF s2 step_elapse [of _ b]]
  note s4 = runs_step [OF s3 step_return [of 0 _ r]]
  show ?thesis using s4 by (simp add: debounce_init_def drop_nth_def)
qed

theorem debounce_finishes_witness:
  "mset (map fst [(0::nat, True), (1, True)]) = mset [0..<length [(), ()]]"
  using debounce_finishes [OF runs_two_calls [of "()" "()" True]] by (simp add: work_left_def)

theorem debounce_runs_last_witness:
  "debounce_runs [Called 1, Called (2 :: nat), Elapsed, Returned 0 True]
     \<lparr>timer = None, waiting_calls = [], running = [], resolved = [(0, True), (1, True)], called = [1, 2], started = [2]\<rparr> \<and>
   last [2] = last [1, 2 :: nat]"
  using debounce_runs_last [OF runs_two_calls [of "1 :: nat" 2 True]] runs_two_calls [of "1 :: nat" 2 True] by simp

text \<open>
  A call that comes while a run is under way may get the result of that run, whose arguments are
  not its own; the result of its own run goes to nobody.
\<close>

lemma stale_result:
  "\<exists>s. debounce_runs [Called a, Elapsed, Called b, Returned 0 r, Elapsed, Returned 0 r'] s \<and>
     resolved s = [(0, r), (1, r)]"
proof -
  note i = runs_init
  note s1 = runs_step [OF i step_call [of _ a]]
  note s2 = runs_step [OF s1 step_elapse [of _ a]]
  note s3 = runs_step [OF s2 step_call [of _ b]]
  note s4 = runs_step [OF s3 step_return [of 0 _ r]]
  note s5 = runs_step [OF s4 step_elapse [of _ b]]
  note s6 = runs_step [OF s5 step_return [of 0 _ r']]
  show ?thesis using s6 by (auto simp: debounce_init_def drop_nth_def)
qed

text \<open>When the function fails, its callers wait for ever.\<close>

lemma failure_forgets_callers:
  "\<exists>s. debounce_runs [Called a, Elapsed, Threw 0] s \<and> waiting_calls s = [0] \<and> timer s = None \<and> running s = []"
proof -
  note i = runs_init
  note s1 = runs_step [OF i step_call [of _ a]]
  note s2 = runs_step [OF s1 step_elapse [of _ a]]
  note s3 = runs_step [OF s2 step_throw [of 0]]
  show ?thesis using s3 by (auto simp: debounce_init_def drop_nth_def)
qed

end
