(* ===== verification/UI_Dependency.thy ===== *)
theory UI_Dependency
  imports UI_Store
begin

text \<open>
  \<^verbatim>\<open>store/modules/dependency.ts\<close>: the store of the dependency pages.

  It extends the base store (\<open>dep_base\<close>) with three tables of its own (installed dependencies,
  search results, set-ups), the forms that install, uninstall and set up, and eight flags that mark
  what is loading. The actions are split where they await an answer; an action that posts a form
  and then lists again has two waits. \<open>on_dep\<close> is the effect of one event on the state and
  \<open>dep_kind\<close> says what the event is for each flag.
\<close>

section \<open>State\<close>

record dep_state =
  dep_base :: base_state
  lang :: string
  searchQuery :: string
  repoTabName :: string
  installedDependenciesTableLoading :: bool
  installedDependenciesTableData :: js
  installedDependenciesTablePagination :: jobj
  installedDependenciesTableTotal :: js
  searchRepoTableLoading :: bool
  searchRepoTableData :: js
  searchRepoTablePagination :: jobj
  searchRepoTableTotal :: js
  configSetupTableLoading :: bool
  configSetupTableData :: js
  configSetupTablePagination :: jobj
  configSetupTableTotal :: js
  installForm :: jobj
  installLoading :: bool
  uninstallForm :: jobj
  uninstallLoading :: bool
  setupForm :: jobj
  setupLoading :: bool
  getVersionsLoading :: bool
  versions :: js
  activeTargetId :: js
  activeTargetName :: js
  activeTargetStatus :: js
  activeTargetLogs :: js
  config :: js
  configVersions :: js
  getConfigVersionsLoading :: bool
  activeConfigSetup :: js

definition dep_init :: "base_state \<Rightarrow> dep_state" where
  "dep_init base =
     \<lparr>dep_base = base\<lparr>tableListFilter := [[(''key'', Str ''type''), (''op'', Str ''eq''), (''value'', Str ''python'')]]\<rparr>,
      lang = ''python'',
      searchQuery = [],
      repoTabName = ''installed'',
      installedDependenciesTableLoading = False,
      installedDependenciesTableData = Arr [],
      installedDependenciesTablePagination = getDefaultPagination,
      installedDependenciesTableTotal = Num 0,
      searchRepoTableLoading = False,
      searchRepoTableData = Arr [],
      searchRepoTablePagination = getDefaultPagination,
      searchRepoTableTotal = Num 0,
      configSetupTableLoading = False,
      configSetupTableData = Arr [],
      configSetupTablePagination = getDefaultPagination,
      configSetupTableTotal = Num 0,
      installForm = [(''mode'', Str ''all'')],
      installLoading = False,
      uninstallForm = [(''mode'', Str ''all'')],
      uninstallLoading = False,
      setupForm = [(''mode'', Str ''all'')],
      setupLoading = False,
      getVersionsLoading = False,
      versions = Arr [],
      activeTargetId = Undef,
      activeTargetName = Undef,
      activeTargetStatus = Undef,
      activeTargetLogs = Arr [],
      config = Undef,
      configVersions = Arr [],
      getConfigVersionsLoading = False,
      activeConfigSetup = Undef\<rparr>"

datatype dep_mutation =
    DepBase base_mutation
  | SetLang string
  | SetSearchQuery string
  | SetRepoTabName string
  | SetInstalledDependenciesTableLoading bool
  | SetInstalledDependenciesTableData js js
  | ResetInstalledDependenciesTableData
  | SetInstalledDependenciesTablePagination jobj
  | ResetInstalledDependenciesTablePagination
  | SetSearchRepoTableLoading bool
  | SetSearchRepoTableData js js
  | ResetSearchRepoTableData
  | SetSearchRepoTablePagination jobj
  | ResetSearchRepoTablePagination
  | SetConfigSetupTableLoading bool
  | SetConfigSetupTableData js js
  | ResetConfigSetupTableData
  | SetConfigSetupTablePagination jobj
  | ResetConfigSetupTablePagination
  | SetInstallForm jobj
  | ResetInstallForm
  | SetInstallLoading bool
  | SetUninstallForm jobj
  | ResetUninstallForm
  | SetUninstallLoading bool
  | SetSetupForm jobj
  | ResetSetupForm
  | SetSetupLoading bool
  | SetVersions js
  | ResetVersions
  | SetGetVersionsLoading bool
  | SetActiveTargetId js
  | ResetActiveTargetId
  | SetActiveTargetName js
  | ResetActiveTargetName
  | SetActiveTargetStatus js
  | ResetActiveTargetStatus
  | SetActiveTargetLogs js
  | ResetActiveTargetLogs
  | SetConfig js
  | ResetConfig
  | SetConfigVersions js
  | ResetConfigVersions
  | SetGetConfigVersionsLoading bool
  | SetActiveConfigSetup js
  | ResetActiveConfigSetup

fun dep_mutate :: "dep_mutation \<Rightarrow> dep_state \<Rightarrow> dep_state" where
  "dep_mutate (DepBase m) s = s\<lparr>dep_base := mutate m (dep_base s)\<rparr>"
| "dep_mutate (SetLang x) s = s\<lparr>lang := x\<rparr>"
| "dep_mutate (SetSearchQuery x) s = s\<lparr>searchQuery := x\<rparr>"
| "dep_mutate (SetRepoTabName x) s = s\<lparr>repoTabName := x\<rparr>"
| "dep_mutate (SetInstalledDependenciesTableLoading x) s = s\<lparr>installedDependenciesTableLoading := x\<rparr>"
| "dep_mutate (SetInstalledDependenciesTableData data n) s = s\<lparr>installedDependenciesTableData := data, installedDependenciesTableTotal := n\<rparr>"
| "dep_mutate ResetInstalledDependenciesTableData s = s\<lparr>installedDependenciesTableData := Arr [], installedDependenciesTableTotal := Num 0\<rparr>"
| "dep_mutate (SetInstalledDependenciesTablePagination x) s = s\<lparr>installedDependenciesTablePagination := x\<rparr>"
| "dep_mutate ResetInstalledDependenciesTablePagination s = s\<lparr>installedDependenciesTablePagination := getDefaultPagination\<rparr>"
| "dep_mutate (SetSearchRepoTableLoading x) s = s\<lparr>searchRepoTableLoading := x\<rparr>"
| "dep_mutate (SetSearchRepoTableData data n) s = s\<lparr>searchRepoTableData := data, searchRepoTableTotal := n\<rparr>"
| "dep_mutate ResetSearchRepoTableData s = s\<lparr>searchRepoTableData := Arr [], searchRepoTableTotal := Num 0\<rparr>"
| "dep_mutate (SetSearchRepoTablePagination x) s = s\<lparr>searchRepoTablePagination := x\<rparr>"
| "dep_mutate ResetSearchRepoTablePagination s = s\<lparr>searchRepoTablePagination := getDefaultPagination\<rparr>"
| "dep_mutate (SetConfigSetupTableLoading x) s = s\<lparr>configSetupTableLoading := x\<rparr>"
| "dep_mutate (SetConfigSetupTableData data n) s = s\<lparr>configSetupTableData := data, configSetupTableTotal := n\<rparr>"
| "dep_mutate ResetConfigSetupTableData s = s\<lparr>configSetupTableData := Arr [], configSetupTableTotal := Num 0\<rparr>"
| "dep_mutate (SetConfigSetupTablePagination x) s = s\<lparr>configSetupTablePagination := x\<rparr>"
| "dep_mutate ResetConfigSetupTablePagination s = s\<lparr>configSetupTablePagination := getDefaultPagination\<rparr>"
| "dep_mutate (SetInstallForm x) s = s\<lparr>installForm := x\<rparr>"
| "dep_mutate ResetInstallForm s = s\<lparr>installForm := [(''mode'', Str ''all'')]\<rparr>"
| "dep_mutate (SetInstallLoading x) s = s\<lparr>installLoading := x\<rparr>"
| "dep_mutate (SetUninstallForm x) s = s\<lparr>uninstallForm := x\<rparr>"
| "dep_mutate ResetUninstallForm s = s\<lparr>uninstallForm := [(''mode'', Str ''all'')]\<rparr>"
| "dep_mutate (SetUninstallLoading x) s = s\<lparr>uninstallLoading := x\<rparr>"
| "dep_mutate (SetSetupForm x) s = s\<lparr>setupForm := x\<rparr>"
| "dep_mutate ResetSetupForm s = s\<lparr>setupForm := []\<rparr>"
| "dep_mutate (SetSetupLoading x) s = s\<lparr>setupLoading := x\<rparr>"
| "dep_mutate (SetVersions x) s = s\<lparr>versions := x\<rparr>"
| "dep_mutate ResetVersions s = s\<lparr>versions := Arr []\<rparr>"
| "dep_mutate (SetGetVersionsLoading x) s = s\<lparr>getVersionsLoading := x\<rparr>"
| "dep_mutate (SetActiveTargetId x) s = s\<lparr>activeTargetId := x\<rparr>"
| "dep_mutate ResetActiveTargetId s = s\<lparr>activeTargetId := Undef\<rparr>"
| "dep_mutate (SetActiveTargetName x) s = s\<lparr>activeTargetName := x\<rparr>"
| "dep_mutate ResetActiveTargetName s = s\<lparr>activeTargetName := Undef\<rparr>"
| "dep_mutate (SetActiveTargetStatus x) s = s\<lparr>activeTargetStatus := x\<rparr>"
| "dep_mutate ResetActiveTargetStatus s = s\<lparr>activeTargetStatus := Undef\<rparr>"
| "dep_mutate (SetActiveTargetLogs x) s = s\<lparr>activeTargetLogs := x\<rparr>"
| "dep_mutate ResetActiveTargetLogs s = s\<lparr>activeTargetLogs := Arr []\<rparr>"
| "dep_mutate (SetConfig x) s = s\<lparr>config := x\<rparr>"
| "dep_mutate ResetConfig s = s\<lparr>config := Undef\<rparr>"
| "dep_mutate (SetConfigVersions x) s = s\<lparr>configVersions := x\<rparr>"
| "dep_mutate ResetConfigVersions s = s\<lparr>configVersions := Arr []\<rparr>"
| "dep_mutate (SetGetConfigVersionsLoading x) s = s\<lparr>getConfigVersionsLoading := x\<rparr>"
| "dep_mutate (SetActiveConfigSetup x) s = s\<lparr>activeConfigSetup := x\<rparr>"
| "dep_mutate ResetActiveConfigSetup s = s\<lparr>activeConfigSetup := Undef\<rparr>"

section \<open>Actions\<close>

definition dep_endpoint :: string where
  "dep_endpoint = ''/dependencies''"

text \<open>
  What the three tables do with the answer of their list request: \<open>Some\<close> data and total when the
  MD5 of the data differs from that of the data shown.
\<close>

definition table_answer :: "(string \<Rightarrow> string) \<Rightarrow> thrown + js \<Rightarrow> js \<Rightarrow> thrown + js \<times> (js \<times> js) option" where
  "table_answer md5 result shown =
     (case (case result of Inl e \<Rightarrow> Inl e | Inr res \<Rightarrow> normalize_list res) of
        Inl e \<Rightarrow> Inl e
      | Inr res \<Rightarrow>
          (let data = js_or (js_get_opt res ''data'') (Arr []); n = js_get_opt res ''total'' in
           Inr (res, if getMd5 md5 data \<noteq> getMd5 md5 shown then Some (data, n) else None)))"

definition getInstalledDependencyList_start :: "dep_state \<Rightarrow> dep_state \<times> service_request" where
  "getInstalledDependencyList_start s =
     (dep_mutate (SetInstalledDependenciesTableLoading True) s,
      get_request (dep_endpoint @ ''/repos'') (Obj
        [(''page'', oget (tablePagination (dep_base s)) ''page''),
         (''size'', oget (tablePagination (dep_base s)) ''size''),
         (''filter'', json_stringify (Arr (map Obj (tableListFilter (dep_base s))))),
         (''sort'', json_stringify (Arr (map Obj (tableListSort (dep_base s))))),
         (''lang'', Str (lang s))]))"

definition getInstalledDependencyList_done :: "(string \<Rightarrow> string) \<Rightarrow> thrown + js \<Rightarrow> dep_state \<Rightarrow> dep_state \<times> (thrown + js)" where
  "getInstalledDependencyList_done md5 result s =
     (case table_answer md5 result (installedDependenciesTableData s) of
        Inl e \<Rightarrow> (dep_mutate (SetInstalledDependenciesTableLoading False) s, Inl e)
      | Inr (res, None) \<Rightarrow> (dep_mutate (SetInstalledDependenciesTableLoading False) s, Inr res)
      | Inr (res, Some (data, n)) \<Rightarrow>
          (dep_mutate (SetInstalledDependenciesTableLoading False) (dep_mutate (SetInstalledDependenciesTableData data n) s), Inr res))"

definition searchRepoList_start :: "dep_state \<Rightarrow> dep_state \<times> service_request" where
  "searchRepoList_start s =
     (dep_mutate (SetSearchRepoTableLoading True) s,
      get_request (dep_endpoint @ ''/repos/search'') (Obj
        [(''page'', oget (searchRepoTablePagination s) ''page''),
         (''size'', oget (searchRepoTablePagination s) ''size''),
         (''lang'', Str (lang s)),
         (''query'', Str (searchQuery s))]))"

definition searchRepoList_done :: "(string \<Rightarrow> string) \<Rightarrow> thrown + js \<Rightarrow> dep_state \<Rightarrow> dep_state \<times> (thrown + js)" where
  "searchRepoList_done md5 result s =
     (case table_answer md5 result (searchRepoTableData s) of
        Inl e \<Rightarrow> (dep_mutate (SetSearchRepoTableLoading False) s, Inl e)
      | Inr (res, None) \<Rightarrow> (dep_mutate (SetSearchRepoTableLoading False) s, Inr res)
      | Inr (res, Some (data, n)) \<Rightarrow>
          (dep_mutate (SetSearchRepoTableLoading False) (dep_mutate (SetSearchRepoTableData data n) s), Inr res))"

definition getConfigSetupList_start :: "dep_state \<Rightarrow> dep_state \<times> service_request" where
  "getConfigSetupList_start s =
     (dep_mutate (SetConfigSetupTableLoading True) s,
      get_request (dep_endpoint @ ''/configs/'' @ lang s @ ''/setups'') (Obj
        [(''page'', oget (configSetupTablePagination s) ''page''),
         (''size'', oget (configSetupTablePagination s) ''size'')]))"

definition getConfigSetupList_done :: "(string \<Rightarrow> string) \<Rightarrow> thrown + js \<Rightarrow> dep_state \<Rightarrow> dep_state \<times> (thrown + js)" where
  "getConfigSetupList_done md5 result s =
     (case table_answer md5 result (configSetupTableData s) of
        Inl e \<Rightarrow> (dep_mutate (SetConfigSetupTableLoading False) s, Inl e)
      | Inr (res, None) \<Rightarrow> (dep_mutate (SetConfigSetupTableLoading False) s, Inr res)
      | Inr (res, Some (data, n)) \<Rightarrow>
          (dep_mutate (SetConfigSetupTableLoading False) (dep_mutate (SetConfigSetupTableData data n) s), Inr res))"

definition getRepoVersions_start :: "dep_state \<Rightarrow> dep_state \<times> service_request" where
  "getRepoVersions_start s =
     (dep_mutate (SetGetVersionsLoading True) s,
      get_request (dep_endpoint @ ''/repos/versions'') (Obj
        [(''lang'', Str (lang s)), (''repo'', oget (installForm s) ''name'')]))"

definition getRepoVersions_done :: "thrown + js \<Rightarrow> dep_state \<Rightarrow> dep_state" where
  "getRepoVersions_done result s =
     (case (case result of Inl e \<Rightarrow> Inl e | Inr res \<Rightarrow> normalize_list res) of
        Inl _ \<Rightarrow> dep_mutate (SetGetVersionsLoading False) s
      | Inr res \<Rightarrow> dep_mutate (SetGetVersionsLoading False)
          (dep_mutate (SetVersions (js_or (js_get_opt res ''data'') (Arr []))) s))"

text \<open>
  A form is posted with the language, and then the list is requested; the flag is lowered when the
  list has come, or when one of the two requests fails.
\<close>

definition installDependency_start :: "dep_state \<Rightarrow> dep_state \<times> service_request" where
  "installDependency_start s =
     (dep_mutate (SetInstallLoading True) s,
      post_request (dep_endpoint @ ''/repos/install'') (Obj (aset ''lang'' (Str (lang s)) (installForm s))))"

definition uninstallDependency_start :: "dep_state \<Rightarrow> dep_state \<times> service_request" where
  "uninstallDependency_start s =
     (dep_mutate (SetUninstallLoading True) s,
      post_request (dep_endpoint @ ''/repos/uninstall'') (Obj (aset ''lang'' (Str (lang s)) (uninstallForm s))))"

definition setupConfig_start :: "dep_state \<Rightarrow> dep_state \<times> service_request" where
  "setupConfig_start s =
     (dep_mutate (SetSetupLoading True) s,
      post_request (dep_endpoint @ ''/configs/setup'') (Obj (aset ''lang'' (Str (lang s)) (setupForm s))))"

definition dep_list_start :: "dep_state \<Rightarrow> dep_state \<times> service_request" where
  "dep_list_start s =
     (case getList_start (dep_endpoint @ ''/repos'') (dep_base s) of (b, r) \<Rightarrow> (s\<lparr>dep_base := b\<rparr>, r))"

definition dep_list_done :: "(string \<Rightarrow> string) \<Rightarrow> thrown + js \<Rightarrow> dep_state \<Rightarrow> dep_state" where
  "dep_list_done md5 result s = s\<lparr>dep_base := fst (getList_done md5 result (dep_base s))\<rparr>"

definition posted :: "dep_mutation \<Rightarrow> thrown + js \<Rightarrow> dep_state \<Rightarrow> dep_state \<times> service_request option" where
  "posted lowered result s =
     (case result of
        Inl _ \<Rightarrow> (dep_mutate lowered s, None)
      | Inr _ \<Rightarrow> (case dep_list_start s of (s', r) \<Rightarrow> (s', Some r)))"

definition listed :: "(string \<Rightarrow> string) \<Rightarrow> dep_mutation \<Rightarrow> thrown + js \<Rightarrow> dep_state \<Rightarrow> dep_state" where
  "listed md5 lowered result s = dep_mutate lowered (dep_list_done md5 result s)"

definition getActiveTargetLogs_start :: "dep_state \<Rightarrow> service_request option" where
  "getActiveTargetLogs_start s =
     (if \<not> truthy (activeTargetId s) then None
      else Some (get_request (dep_endpoint @ ''/'' @ js_str (activeTargetId s) @ ''/logs'') Undef))"

definition getActiveTargetLogs_done :: "thrown + js \<Rightarrow> dep_state \<Rightarrow> dep_state" where
  "getActiveTargetLogs_done result s =
     (case (case result of Inl e \<Rightarrow> Inl e | Inr res \<Rightarrow> normalize_list res) of
        Inl _ \<Rightarrow> s
      | Inr res \<Rightarrow> dep_mutate (SetActiveTargetLogs (js_or (js_get_opt res ''data'') (Arr []))) s)"

definition getDependencyConfig_start :: "dep_state \<Rightarrow> service_request" where
  "getDependencyConfig_start s = get_request (dep_endpoint @ ''/configs/'' @ lang s) Undef"

definition getDependencyConfig_done :: "thrown + js \<Rightarrow> dep_state \<Rightarrow> dep_state" where
  "getDependencyConfig_done result s =
     (case result of
        Inl _ \<Rightarrow> s
      | Inr res \<Rightarrow> (case js_get res ''data'' of Inl _ \<Rightarrow> s | Inr data \<Rightarrow> dep_mutate (SetConfig data) s))"

definition saveDependencyConfig_start :: "dep_state \<Rightarrow> service_request" where
  "saveDependencyConfig_start s = put_request (dep_endpoint @ ''/configs/'' @ lang s) (config s)"

definition saveDependencyConfig_saved :: "thrown + js \<Rightarrow> dep_state \<Rightarrow> service_request option" where
  "saveDependencyConfig_saved result s =
     (case result of Inl _ \<Rightarrow> None | Inr _ \<Rightarrow> Some (getDependencyConfig_start s))"

definition getDependencyConfigVersions_start :: "dep_state \<Rightarrow> dep_state \<times> service_request" where
  "getDependencyConfigVersions_start s =
     (dep_mutate (SetGetConfigVersionsLoading True) s,
      get_request (dep_endpoint @ ''/configs/'' @ lang s @ ''/versions'') Undef)"

definition getDependencyConfigVersions_done :: "thrown + js \<Rightarrow> dep_state \<Rightarrow> dep_state" where
  "getDependencyConfigVersions_done result s =
     (case (case result of Inl e \<Rightarrow> Inl e | Inr res \<Rightarrow> normalize_list res) of
        Inl _ \<Rightarrow> dep_mutate (SetGetConfigVersionsLoading False) s
      | Inr res \<Rightarrow> dep_mutate (SetGetConfigVersionsLoading False)
          (dep_mutate (SetConfigVersions (js_or (js_get_opt res ''data'') (Arr []))) s))"

definition installConfigSetup_start :: "dep_state \<Rightarrow> dep_state \<times> service_request" where
  "installConfigSetup_start s =
     (let f = setupForm s in
      (dep_mutate (SetSetupLoading True) s,
       post_request (dep_endpoint @ ''/configs/'' @ lang s @ ''/setups/install'') (Obj
         [(''mode'', oget f ''mode''),
          (''version'', oget f ''version''),
          (''node_ids'', if truthy (oget f ''node_id'') then Arr [oget f ''node_id''] else oget f ''node_ids'')])))"

definition installConfigSetup_done :: "dep_state \<Rightarrow> dep_state" where
  "installConfigSetup_done s = dep_mutate (SetSetupLoading False) s"

section \<open>Events and flags\<close>

datatype dep_event =
    DepMutates dep_mutation
  | InstalledStarts | InstalledEnds "thrown + js"
  | SearchStarts | SearchEnds "thrown + js"
  | SetupListStarts | SetupListEnds "thrown + js"
  | VersionsStart | VersionsEnd "thrown + js"
  | InstallStarts | InstallPosted "thrown + js" | InstallListed "thrown + js"
  | UninstallStarts | UninstallPosted "thrown + js" | UninstallListed "thrown + js"
  | SetupStarts | SetupPosted "thrown + js" | SetupListed "thrown + js"
  | SetupInstallStarts | SetupInstallEnds "thrown + js"
  | LogsEnd "thrown + js"
  | ConfigEnds "thrown + js"
  | ConfigVersionsStart | ConfigVersionsEnd "thrown + js"

fun on_dep :: "(string \<Rightarrow> string) \<Rightarrow> dep_event \<Rightarrow> dep_state \<Rightarrow> dep_state" where
  "on_dep md5 (DepMutates m) s = dep_mutate m s"
| "on_dep md5 InstalledStarts s = fst (getInstalledDependencyList_start s)"
| "on_dep md5 (InstalledEnds r) s = fst (getInstalledDependencyList_done md5 r s)"
| "on_dep md5 SearchStarts s = fst (searchRepoList_start s)"
| "on_dep md5 (SearchEnds r) s = fst (searchRepoList_done md5 r s)"
| "on_dep md5 SetupListStarts s = fst (getConfigSetupList_start s)"
| "on_dep md5 (SetupListEnds r) s = fst (getConfigSetupList_done md5 r s)"
| "on_dep md5 VersionsStart s = fst (getRepoVersions_start s)"
| "on_dep md5 (VersionsEnd r) s = getRepoVersions_done r s"
| "on_dep md5 InstallStarts s = fst (installDependency_start s)"
| "on_dep md5 (InstallPosted r) s = fst (posted (SetInstallLoading False) r s)"
| "on_dep md5 (InstallListed r) s = listed md5 (SetInstallLoading False) r s"
| "on_dep md5 UninstallStarts s = fst (uninstallDependency_start s)"
| "on_dep md5 (UninstallPosted r) s = fst (posted (SetUninstallLoading False) r s)"
| "on_dep md5 (UninstallListed r) s = listed md5 (SetUninstallLoading False) r s"
| "on_dep md5 SetupStarts s = fst (setupConfig_start s)"
| "on_dep md5 (SetupPosted r) s = fst (posted (SetSetupLoading False) r s)"
| "on_dep md5 (SetupListed r) s = listed md5 (SetSetupLoading False) r s"
| "on_dep md5 SetupInstallStarts s = fst (installConfigSetup_start s)"
| "on_dep md5 (SetupInstallEnds r) s = installConfigSetup_done s"
| "on_dep md5 (LogsEnd r) s = getActiveTargetLogs_done r s"
| "on_dep md5 (ConfigEnds r) s = getDependencyConfig_done r s"
| "on_dep md5 ConfigVersionsStart s = fst (getDependencyConfigVersions_start s)"
| "on_dep md5 (ConfigVersionsEnd r) s = getDependencyConfigVersions_done r s"

datatype dep_flag =
    InstalledFlag | SearchFlag | SetupListFlag | VersionsFlag | InstallFlag | UninstallFlag
  | SetupFlag | ConfigVersionsFlag

fun flag_of :: "dep_flag \<Rightarrow> dep_state \<Rightarrow> bool" where
  "flag_of InstalledFlag s = installedDependenciesTableLoading s"
| "flag_of SearchFlag s = searchRepoTableLoading s"
| "flag_of SetupListFlag s = configSetupTableLoading s"
| "flag_of VersionsFlag s = getVersionsLoading s"
| "flag_of InstallFlag s = installLoading s"
| "flag_of UninstallFlag s = uninstallLoading s"
| "flag_of SetupFlag s = setupLoading s"
| "flag_of ConfigVersionsFlag s = getConfigVersionsLoading s"

fun sets_flag :: "dep_mutation \<Rightarrow> dep_flag option" where
  "sets_flag (SetInstalledDependenciesTableLoading b) = Some InstalledFlag"
| "sets_flag (SetSearchRepoTableLoading b) = Some SearchFlag"
| "sets_flag (SetConfigSetupTableLoading b) = Some SetupListFlag"
| "sets_flag (SetGetVersionsLoading b) = Some VersionsFlag"
| "sets_flag (SetInstallLoading b) = Some InstallFlag"
| "sets_flag (SetUninstallLoading b) = Some UninstallFlag"
| "sets_flag (SetSetupLoading b) = Some SetupFlag"
| "sets_flag (SetGetConfigVersionsLoading b) = Some ConfigVersionsFlag"
| "sets_flag _ = None"

text \<open>The flag an event belongs to, and what it is for that flag.\<close>

fun dep_phase :: "dep_event \<Rightarrow> (dep_flag \<times> flag_event) option" where
  "dep_phase (DepMutates m) = map_option (\<lambda>f. (f, SetsFlag)) (sets_flag m)"
| "dep_phase InstalledStarts = Some (InstalledFlag, Begins)"
| "dep_phase (InstalledEnds r) = Some (InstalledFlag, Finishes)"
| "dep_phase SearchStarts = Some (SearchFlag, Begins)"
| "dep_phase (SearchEnds r) = Some (SearchFlag, Finishes)"
| "dep_phase SetupListStarts = Some (SetupListFlag, Begins)"
| "dep_phase (SetupListEnds r) = Some (SetupListFlag, Finishes)"
| "dep_phase VersionsStart = Some (VersionsFlag, Begins)"
| "dep_phase (VersionsEnd r) = Some (VersionsFlag, Finishes)"
| "dep_phase InstallStarts = Some (InstallFlag, Begins)"
| "dep_phase (InstallPosted r) = (case r of Inl _ \<Rightarrow> Some (InstallFlag, Finishes) | Inr _ \<Rightarrow> None)"
| "dep_phase (InstallListed r) = Some (InstallFlag, Finishes)"
| "dep_phase UninstallStarts = Some (UninstallFlag, Begins)"
| "dep_phase (UninstallPosted r) = (case r of Inl _ \<Rightarrow> Some (UninstallFlag, Finishes) | Inr _ \<Rightarrow> None)"
| "dep_phase (UninstallListed r) = Some (UninstallFlag, Finishes)"
| "dep_phase SetupStarts = Some (SetupFlag, Begins)"
| "dep_phase (SetupPosted r) = (case r of Inl _ \<Rightarrow> Some (SetupFlag, Finishes) | Inr _ \<Rightarrow> None)"
| "dep_phase (SetupListed r) = Some (SetupFlag, Finishes)"
| "dep_phase SetupInstallStarts = Some (SetupFlag, Begins)"
| "dep_phase (SetupInstallEnds r) = Some (SetupFlag, Finishes)"
| "dep_phase (LogsEnd r) = None"
| "dep_phase (ConfigEnds r) = None"
| "dep_phase ConfigVersionsStart = Some (ConfigVersionsFlag, Begins)"
| "dep_phase (ConfigVersionsEnd r) = Some (ConfigVersionsFlag, Finishes)"

definition dep_kind :: "dep_flag \<Rightarrow> dep_event \<Rightarrow> flag_event" where
  "dep_kind f e = (case dep_phase e of None \<Rightarrow> Unrelated | Some (g, k) \<Rightarrow> if g = f then k else Unrelated)"

lemma mutate_keeps_flag: "sets_flag m \<noteq> Some f \<Longrightarrow> flag_of f (dep_mutate m s) = flag_of f s"
  by (cases m; cases f) simp_all

lemmas dep_action_defs =
  getInstalledDependencyList_start_def getInstalledDependencyList_done_def searchRepoList_start_def
  searchRepoList_done_def getConfigSetupList_start_def getConfigSetupList_done_def getRepoVersions_start_def
  getRepoVersions_done_def installDependency_start_def uninstallDependency_start_def setupConfig_start_def
  dep_list_start_def dep_list_done_def posted_def listed_def getActiveTargetLogs_done_def
  getDependencyConfig_done_def getDependencyConfigVersions_start_def getDependencyConfigVersions_done_def
  installConfigSetup_start_def installConfigSetup_done_def

lemma flag_of_base [simp]: "flag_of f (s\<lparr>dep_base := b\<rparr>) = flag_of f s"
  by (cases f) simp_all

lemma dep_event_flag:
  "flag_of f (on_dep md5 e s) =
     (case dep_kind f e of
        Begins \<Rightarrow> True
      | Finishes \<Rightarrow> False
      | Unrelated \<Rightarrow> flag_of f s
      | SetsFlag \<Rightarrow> flag_of f (on_dep md5 e s))"
proof (cases e)
  case (DepMutates m)
  then show ?thesis
    by (cases "sets_flag m = Some f") (auto simp: dep_kind_def mutate_keeps_flag split: option.split)
qed (cases f; auto simp: dep_kind_def dep_action_defs Let_def split: sum.split prod.split option.split)+

interpretation dep: loading_flag "on_dep md5" "dep_kind f" "flag_of f"
  by unfold_locales (simp_all add: dep_event_flag)

text \<open>
  C26: The eight flags of the dependency pages do not interfere, whatever the other tables and
  dialogs do in between: from the first state of the store on, as long as no event sets a flag by
  itself and nothing is answered that was not started, a flag is raised exactly if the newest event
  of its actions is a start. So it is never raised while none of its actions is under way, and as
  long as no second run starts before the first has ended it is raised exactly while one is under
  way; an installation is under way until the list that follows it has come. Runs can overlap (a
  search started by the Enter key and the button; the two actions of the set-up share a flag): then
  the first end lowers the flag while the other run is still under way.
\<close>

theorem dependency_flags:
  assumes "runs_after 0 (map (dep_kind f) es) = Some runs" and "s = fold (on_dep md5) es (dep_init base)"
  shows "(flag_of f s \<longleftrightarrow> newest_begins False (map (dep_kind f) es)) \<and>
    (flag_of f s \<longrightarrow> 0 < runs) \<and>
    (one_at_a_time 0 (map (dep_kind f) es) \<longrightarrow> (flag_of f s \<longleftrightarrow> 0 < runs)) \<and>
    (\<forall>e. dep_kind f e = Finishes \<longrightarrow> \<not> flag_of f (on_dep md5 e s))"
proof -
  have "\<not> flag_of f (dep_init base)" by (cases f) (simp_all add: dep_init_def)
  with dep.flag_newest [OF assms(1), of md5 "dep_init base"] assms(2)
  have n: "flag_of f s \<longleftrightarrow> newest_begins False (map (dep_kind f) es)" by simp
  with newest_under_way [OF assms(1), of False] newest_single [OF assms(1)] show ?thesis
    using dep.finishes by auto
qed

section \<open>The tables\<close>

text \<open>MD5 tells two values apart unless their JSON texts are equal.\<close>

definition md5_separates :: "(string \<Rightarrow> string) \<Rightarrow> js \<Rightarrow> js \<Rightarrow> bool" where
  "md5_separates md5 a b \<longleftrightarrow> (getMd5 md5 a = getMd5 md5 b \<longrightarrow> json_stringify a = json_stringify b)"

text \<open>What a table of the user interface promises about the answer to its list request.\<close>

locale answered_table =
  fixes md5 :: "string \<Rightarrow> string"
    and finish :: "thrown + js \<Rightarrow> 's \<Rightarrow> 's \<times> (thrown + js)"
    and rows :: "'s \<Rightarrow> js"
    and amount :: "'s \<Rightarrow> js"
  assumes finish_rows:
      "rows (fst (finish (Inr (Obj ps)) s)) =
         (if getMd5 md5 (js_or (oget ps ''data'') (Arr [])) \<noteq> getMd5 md5 (rows s)
          then js_or (oget ps ''data'') (Arr []) else rows s)"
    and finish_amount:
      "amount (fst (finish (Inr (Obj ps)) s)) =
         (if getMd5 md5 (js_or (oget ps ''data'') (Arr [])) \<noteq> getMd5 md5 (rows s)
          then oget ps ''total'' else amount s)"
    and finish_failed: "rows (fst (finish (Inl e) s)) = rows s" "amount (fst (finish (Inl e) s)) = amount s"
begin

lemma rows_shown:
  "md5_separates md5 (js_or (oget ps ''data'') (Arr [])) (rows s) \<Longrightarrow>
   json_stringify (rows (fst (finish (Inr (Obj ps)) s))) = json_stringify (js_or (oget ps ''data'') (Arr []))"
  by (simp add: finish_rows md5_separates_def)

lemma answered_twice:
  "rows (fst (finish (Inr (Obj ps)) (fst (finish (Inr (Obj ps)) s)))) = rows (fst (finish (Inr (Obj ps)) s))"
  "amount (fst (finish (Inr (Obj ps)) (fst (finish (Inr (Obj ps)) s)))) = amount (fst (finish (Inr (Obj ps)) s))"
  by (simp_all add: finish_rows finish_amount)

end

lemma table_answer_Obj:
  "table_answer md5 (Inr (Obj ps)) shown =
     Inr (if truthy (oget ps ''data'') then Obj ps else Obj (aset ''data'' (Arr []) ps),
          if getMd5 md5 (js_or (oget ps ''data'') (Arr [])) \<noteq> getMd5 md5 shown
          then Some (js_or (oget ps ''data'') (Arr []), oget ps ''total'') else None)"
proof (cases "truthy (oget ps ''data'')")
  case False
  have "normalize_list (Obj ps) = Inr (Obj (aset ''data'' (Arr []) ps))" using False by (simp add: normalize_list_def)
  then show ?thesis using False by (simp add: table_answer_def js_or_def Let_def)
qed (simp add: table_answer_def normalize_list_def js_or_def Let_def)

lemma table_answer_Inl: "table_answer md5 (Inl e) shown = Inl e"
  by (simp add: table_answer_def)

interpretation base_table: answered_table md5 "getList_done md5" tableData tableTotal
  by unfold_locales (simp_all add: getList_done_Obj getList_done_Inl)

interpretation installed: answered_table md5 "getInstalledDependencyList_done md5"
    installedDependenciesTableData installedDependenciesTableTotal
  by unfold_locales (simp_all add: getInstalledDependencyList_done_def table_answer_Obj table_answer_Inl)

interpretation search: answered_table md5 "searchRepoList_done md5" searchRepoTableData searchRepoTableTotal
  by unfold_locales (simp_all add: searchRepoList_done_def table_answer_Obj table_answer_Inl)

interpretation setups: answered_table md5 "getConfigSetupList_done md5" configSetupTableData configSetupTableTotal
  by unfold_locales (simp_all add: getConfigSetupList_done_def table_answer_Obj table_answer_Inl)

datatype dep_table = InstalledTable | SearchTable | SetupTable

fun answers_table :: "dep_table \<Rightarrow> thrown + js \<Rightarrow> dep_event" where
  "answers_table InstalledTable r = InstalledEnds r"
| "answers_table SearchTable r = SearchEnds r"
| "answers_table SetupTable r = SetupListEnds r"

fun table_rows :: "dep_table \<Rightarrow> dep_state \<Rightarrow> js" where
  "table_rows InstalledTable s = installedDependenciesTableData s"
| "table_rows SearchTable s = searchRepoTableData s"
| "table_rows SetupTable s = configSetupTableData s"

lemma other_table_kept: "u \<noteq> t \<Longrightarrow> table_rows u (on_dep md5 (answers_table t r) s) = table_rows u s"
  by (cases t; cases u)
    (auto simp: getInstalledDependencyList_done_def searchRepoList_done_def getConfigSetupList_done_def
      split: sum.split option.split)

lemma own_table_shown:
  "md5_separates md5 (js_or (oget ps ''data'') (Arr [])) (table_rows t s) \<Longrightarrow>
   json_stringify (table_rows t (on_dep md5 (answers_table t (Inr (Obj ps))) s)) =
   json_stringify (js_or (oget ps ''data'') (Arr []))"
  by (cases t) (simp_all add: installed.rows_shown search.rows_shown setups.rows_shown)

lemma own_table_again:
  "table_rows t (on_dep md5 (answers_table t (Inr (Obj ps))) (on_dep md5 (answers_table t (Inr (Obj ps))) s)) =
   table_rows t (on_dep md5 (answers_table t (Inr (Obj ps))) s)"
  by (cases t) (simp_all add: installed.answered_twice search.answered_twice setups.answered_twice)

text \<open>
  Each of the three tables of the dependency pages shows its own answer: if MD5 separates the
  answer's data from the data shown, the table then shows data with their JSON text, the same answer
  again changes no row, and no answer, not even a failure, changes the rows of another table.
\<close>

theorem dependency_tables_answered:
  assumes "data = js_or (oget ps ''data'') (Arr [])" and "md5_separates md5 data (table_rows t s)"
    and "s' = on_dep md5 (answers_table t (Inr (Obj ps))) s" and "u \<noteq> t"
  shows "json_stringify (table_rows t s') = json_stringify data \<and>
    table_rows t (on_dep md5 (answers_table t (Inr (Obj ps))) s') = table_rows t s' \<and>
    table_rows u (on_dep md5 (answers_table t result) s) = table_rows u s"
  using assms own_table_shown [of md5 ps t s] own_table_again [of t md5 ps s] other_table_kept [of u t md5 result s]
  by simp

theorem dependency_tables_answered_witness:
  "json_stringify (table_rows SearchTable
     (on_dep (\<lambda>x. x) (SearchEnds (Inr (Obj [(''data'', Arr [Str ''numpy'']), (''total'', Num 1)]))) (dep_init example_state))) =
   json_stringify (Arr [Str ''numpy''])"
  using dependency_tables_answered [of "Arr [Str ''numpy'']" "[(''data'', Arr [Str ''numpy'']), (''total'', Num 1)]"
      "\<lambda>x. x" SearchTable "dep_init example_state" _ SetupTable "Inl (ErrorObj ''timeout'')"]
  by (simp add: js_or_def md5_separates_def getMd5_def json_stringify_def dep_init_def)

text \<open>A search, an installation whose list has not come, and the search again; then two searches at once.\<close>

theorem dependency_flags_witness:
  "flag_of SearchFlag (fold (on_dep (\<lambda>x. x))
     [SearchStarts, InstallStarts, InstallPosted (Inr Undef), SearchEnds (Inl (ErrorObj ''timeout'')), SearchStarts]
     (dep_init example_state)) \<and>
   flag_of InstallFlag (fold (on_dep (\<lambda>x. x))
     [SearchStarts, InstallStarts, InstallPosted (Inr Undef), SearchEnds (Inl (ErrorObj ''timeout'')), SearchStarts]
     (dep_init example_state)) \<and>
   \<not> flag_of SearchFlag (fold (on_dep (\<lambda>x. x)) [SearchStarts, SearchStarts, SearchEnds (Inl (ErrorObj ''timeout''))]
     (dep_init example_state)) \<and>
   runs_after 0 (map (dep_kind SearchFlag) [SearchStarts, SearchStarts, SearchEnds (Inl (ErrorObj ''timeout''))]) = Some 1"
proof -
  let ?es = "[SearchStarts, InstallStarts, InstallPosted (Inr Undef), SearchEnds (Inl (ErrorObj ''timeout'')), SearchStarts]"
  let ?fs = "[SearchStarts, SearchStarts, SearchEnds (Inl (ErrorObj ''timeout''))]"
  have "runs_after 0 (map (dep_kind SearchFlag) ?es) = Some 1" "runs_after 0 (map (dep_kind InstallFlag) ?es) = Some 1"
    "runs_after 0 (map (dep_kind SearchFlag) ?fs) = Some 1"
    "newest_begins False (map (dep_kind SearchFlag) ?es)" "newest_begins False (map (dep_kind InstallFlag) ?es)"
    "\<not> newest_begins False (map (dep_kind SearchFlag) ?fs)"
    by (simp_all add: dep_kind_def)
  then show ?thesis
    using dependency_flags [of SearchFlag ?es 1 _ "\<lambda>x. x" example_state, OF _ refl]
      dependency_flags [of InstallFlag ?es 1 _ "\<lambda>x. x" example_state, OF _ refl]
      dependency_flags [of SearchFlag ?fs 1 _ "\<lambda>x. x" example_state, OF _ refl] by simp
qed

end
