(* ===== verification/UI_Checkbox.thy ===== *)
theory UI_Checkbox
  imports Hub_JS "HOL-Library.Multiset"
begin

text \<open>
  \<^verbatim>\<open>components/ui/checkbox/CheckboxTree.vue\<close>: a tree of checkboxes.

  The component keeps a map from the identifiers of the options to two flags, \<open>checked\<close> and
  \<open>intermediate\<close>, and reports the values of the checked leaves. A click on an option sets it and
  all options below it, and then recomputes its ancestors one by one from their children. The
  specification is a set of checked leaves: a click adds or removes the leaves below the option.
  \<open>checkbox_refines\<close> says that the component implements it.

  Options without children and options with an empty list of children are not told apart by the
  code. Functions that recurse into the children and go on with the siblings are functions on lists
  of options.
\<close>

section \<open>Options and their state\<close>

datatype 'i check_option =
  Option (oid: 'i) (ovalue: js) (ochecked: bool) (ochildren: "'i check_option list")

lemma size_children [termination_simp]: "size_list size (ochildren x) < Suc (size x + n)"
  by (cases x) simp

type_synonym 'i check_states = "'i \<Rightarrow> (bool \<times> bool) option"

definition getState :: "'i check_states \<Rightarrow> 'i \<Rightarrow> bool \<times> bool" where
  "getState st i = (case st i of None \<Rightarrow> (False, False) | Some p \<Rightarrow> p)"

abbreviation checked :: "'i check_states \<Rightarrow> 'i \<Rightarrow> bool" where
  "checked st i \<equiv> fst (getState st i)"

abbreviation intermediate :: "'i check_states \<Rightarrow> 'i \<Rightarrow> bool" where
  "intermediate st i \<equiv> snd (getState st i)"

lemma getState_upd [simp]: "getState (st(i \<mapsto> p)) j = (if j = i then p else getState st j)"
  by (simp add: getState_def)

text \<open>The flags of a parent from those of the options it depends on.\<close>

definition summary :: "bool list \<Rightarrow> bool \<times> bool" where
  "summary bs =
     (let n = length (filter (\<lambda>b. b) bs) in (n = length bs, 0 < n \<and> n < length bs))"

fun leaf_options :: "'i check_option list \<Rightarrow> 'i check_option list" where
  "leaf_options [] = []"
| "leaf_options (x # xs) =
     (if ochildren x = [] then [x] else leaf_options (ochildren x)) @ leaf_options xs"

fun updateParentStates :: "'i check_option list \<Rightarrow> 'i check_states \<Rightarrow> 'i check_states" where
  "updateParentStates [] st = st"
| "updateParentStates (x # xs) st =
     updateParentStates xs
       (if ochildren x = [] then st
        else (let st' = updateParentStates (ochildren x) st in
              st'(oid x \<mapsto> summary (map (\<lambda>l. checked st' (oid l)) (leaf_options (ochildren x))))))"

fun init_each :: "bool \<Rightarrow> js list \<Rightarrow> 'i check_option list \<Rightarrow> 'i check_states \<Rightarrow> 'i check_states" where
  "init_each checkedAll modelValue [] st = st"
| "init_each checkedAll modelValue (x # xs) st =
     (let st1 = (if st (oid x) = None
                 then st(oid x \<mapsto> (checkedAll \<or> ovalue x \<in> set modelValue \<or> ochecked x, False)) else st);
          st2 = (if ochildren x = [] then st1
                 else updateParentStates (ochildren x) (init_each checkedAll modelValue (ochildren x) st1))
      in init_each checkedAll modelValue xs st2)"

definition initializeState :: "bool \<Rightarrow> js list \<Rightarrow> 'i check_option list \<Rightarrow> 'i check_states \<Rightarrow> 'i check_states" where
  "initializeState checkedAll modelValue options st =
     updateParentStates options (init_each checkedAll modelValue options st)"

definition updateModelValue :: "'i check_option list \<Rightarrow> 'i check_states \<Rightarrow> js list" where
  "updateModelValue options st = map ovalue (filter (\<lambda>l. checked st (oid l)) (leaf_options options))"

fun updateChildrenStates :: "'i check_option list \<Rightarrow> bool \<Rightarrow> 'i check_states \<Rightarrow> 'i check_states" where
  "updateChildrenStates [] b st = st"
| "updateChildrenStates (x # xs) b st =
     updateChildrenStates xs b (updateChildrenStates (ochildren x) b (st(oid x \<mapsto> (b, False))))"

fun findParentOption :: "'i check_option list \<Rightarrow> 'i \<Rightarrow> 'i check_option option" where
  "findParentOption [] i = None"
| "findParentOption (x # xs) i =
     (if i \<in> oid ` set (ochildren x) then Some x
      else (case findParentOption (ochildren x) i of
              Some p \<Rightarrow> Some p
            | None \<Rightarrow> findParentOption xs i))"

text \<open>The loop up to the root; it may not end, and then the result is \<open>None\<close>.\<close>

partial_function (option) ascend :: "'i check_option list \<Rightarrow> 'i check_states \<Rightarrow> 'i \<Rightarrow> 'i check_states option" where
  "ascend options st i =
     (case findParentOption options i of
        None \<Rightarrow> Some st
      | Some p \<Rightarrow> ascend options (st(oid p \<mapsto> summary (map (\<lambda>c. checked st (oid c)) (ochildren p)))) (oid p))"

definition updateState ::
    "'i check_option list \<Rightarrow> bool \<Rightarrow> 'i check_option \<Rightarrow> 'i check_states \<Rightarrow> ('i check_states \<times> js list) option" where
  "updateState options b x st =
     map_option (\<lambda>st'. (st', updateModelValue options st'))
       (ascend options (updateChildrenStates (ochildren x) b (st(oid x \<mapsto> (b, False)))) (oid x))"

fun update_all :: "'i check_option list \<Rightarrow> bool \<Rightarrow> 'i check_option list \<Rightarrow> 'i check_states \<Rightarrow> 'i check_states option" where
  "update_all options b [] st = Some st"
| "update_all options b (x # xs) st =
     (case updateState options b x st of
        None \<Rightarrow> None
      | Some (st', vs) \<Rightarrow> update_all options b xs st')"

definition checkAll :: "'i check_option list \<Rightarrow> bool \<Rightarrow> 'i check_states \<Rightarrow> 'i check_states option" where
  "checkAll options b st = map_option (updateParentStates options) (update_all options b options st)"

definition getCheckAllStatus :: "'i check_option list \<Rightarrow> 'i check_states \<Rightarrow> string" where
  "getCheckAllStatus options st =
     (let bs = map (\<lambda>l. checked st (oid l)) (leaf_options options) in
      if list_all (\<lambda>b. b) bs then ''checked''
      else if list_ex (\<lambda>b. b) bs then ''indeterminate''
      else ''unchecked'')"

section \<open>Trees with distinct identifiers\<close>

fun nodes :: "'i check_option list \<Rightarrow> 'i check_option list" where
  "nodes [] = []"
| "nodes (x # xs) = x # nodes (ochildren x) @ nodes xs"

definition ids :: "'i check_option list \<Rightarrow> 'i list" where
  "ids xs = map oid (nodes xs)"

lemma size_child: "c \<in> set (ochildren x) \<Longrightarrow> size c < size x"
  by (cases x) (simp add: size_list_estimation' less_Suc_eq_le)

lemma size_node: "x \<in> set (nodes xs) \<Longrightarrow> size x \<le> size_list size xs"
proof (induction xs rule: nodes.induct)
  case (2 y xs)
  then show ?case using size_children [of y 0] by (cases y) auto
qed simp

lemma root_in_nodes: "x \<in> set xs \<Longrightarrow> x \<in> set (nodes xs)"
  by (induction xs) auto

lemma child_in_nodes: "p \<in> set (nodes xs) \<Longrightarrow> c \<in> set (ochildren p) \<Longrightarrow> c \<in> set (nodes xs)"
  by (induction xs rule: nodes.induct) (auto simp: root_in_nodes)

lemma nodes_trans: "p \<in> set (nodes xs) \<Longrightarrow> q \<in> set (nodes (ochildren p)) \<Longrightarrow> q \<in> set (nodes xs)"
  by (induction xs rule: nodes.induct) auto

lemma leaves_in_nodes: "l \<in> set (leaf_options xs) \<longleftrightarrow> l \<in> set (nodes xs) \<and> ochildren l = []"
  by (induction xs rule: nodes.induct) auto

lemma nodes_mset: "mset (nodes xs) = mset (xs @ concat (map ochildren (nodes xs)))"
  by (induction xs rule: nodes.induct) (simp_all add: ac_simps)

lemma same_node: "distinct (ids xs) \<Longrightarrow> p \<in> set (nodes xs) \<Longrightarrow> q \<in> set (nodes xs) \<Longrightarrow> oid p = oid q \<Longrightarrow> p = q"
  unfolding ids_def by (simp add: distinct_map inj_on_def)

lemma one_parent:
  assumes d: "distinct (ids xs)" and p: "p \<in> set (nodes xs)" "c \<in> set (ochildren p)"
    and q: "q \<in> set (nodes xs)" "c' \<in> set (ochildren q)" and i: "oid c = oid c'"
  shows "p = q"
proof -
  let ?f = "\<lambda>p. map oid (ochildren p)"
  have "mset (ids xs) = mset (map oid xs @ concat (map ?f (nodes xs)))"
    using arg_cong [OF nodes_mset [of xs], of "image_mset oid"]
    by (simp add: ids_def map_concat comp_def flip: mset_map)
  then have d': "distinct (concat (map ?f (nodes xs)))"
    using d by (metis distinct_append mset_eq_imp_distinct_iff)
  have pq: "?f p \<noteq> []" "?f q \<noteq> []" using p q by auto
  have "\<not> (?f p \<noteq> ?f q)"
  proof
    assume "?f p \<noteq> ?f q"
    moreover have "\<forall>ys zs. ys \<in> set (map ?f (nodes xs)) \<and> zs \<in> set (map ?f (nodes xs)) \<and> ys \<noteq> zs \<longrightarrow> set ys \<inter> set zs = {}"
      using d' unfolding distinct_concat_iff by blast
    moreover have "?f p \<in> set (map ?f (nodes xs))" "?f q \<in> set (map ?f (nodes xs))"
      using p q by simp_all
    ultimately have "set (?f p) \<inter> set (?f q) = {}" by blast
    then show False using p q i by auto
  qed
  then have eq: "?f p = ?f q" by simp
  have "removeAll [] (map ?f ns) = map ?f (filter (\<lambda>p. ?f p \<noteq> []) ns)" for ns :: "'a check_option list"
    by (induction ns) auto
  then have "distinct (map ?f (filter (\<lambda>p. ?f p \<noteq> []) (nodes xs)))"
    using d' unfolding distinct_concat_iff by auto
  then have "inj_on ?f (set (filter (\<lambda>p. ?f p \<noteq> []) (nodes xs)))"
    by (simp add: distinct_map)
  then show ?thesis using eq pq p q by (auto dest!: inj_onD)
qed

lemma find_sound: "findParentOption xs i = Some p \<Longrightarrow> p \<in> set (nodes xs) \<and> i \<in> oid ` set (ochildren p)"
  by (induction xs i rule: findParentOption.induct) (auto split: if_splits option.splits)

lemma find_complete: "p \<in> set (nodes xs) \<Longrightarrow> i \<in> oid ` set (ochildren p) \<Longrightarrow> findParentOption xs i \<noteq> None"
  by (induction xs i rule: findParentOption.induct) (auto split: option.splits)

lemma find_parent:
  assumes "distinct (ids xs)" "p \<in> set (nodes xs)" "c \<in> set (ochildren p)"
  shows "findParentOption xs (oid c) = Some p"
proof -
  obtain q where q: "findParentOption xs (oid c) = Some q"
    using find_complete [OF assms(2), of "oid c"] assms(3) by auto
  then show ?thesis using find_sound [OF q] one_parent [OF assms, of q] by force
qed

lemma inner_parent:
  "x \<in> set (nodes xs) \<Longrightarrow> x \<in> set xs \<or> (\<exists>p \<in> set (nodes xs). x \<in> set (ochildren p))"
  by (induction xs rule: nodes.induct) auto

section \<open>Settled states\<close>

text \<open>The leaves that an option stands for: itself, or the leaves below it.\<close>

definition below :: "'i check_option \<Rightarrow> 'i check_option list" where
  "below x = (if ochildren x = [] then [x] else leaf_options (ochildren x))"

lemma leaf_options_below: "leaf_options xs = concat (map below xs)"
  by (induction xs) (simp_all add: below_def)

lemma below_leaf: "ochildren x = [] \<Longrightarrow> below x = [x]"
  by (simp add: below_def)

lemma below_inner: "ochildren x \<noteq> [] \<Longrightarrow> set (below x) = (\<Union>c \<in> set (ochildren x). set (below c))"
  by (subst below_def) (simp add: leaf_options_below)

text \<open>In a settled state an option is checked if all leaves it stands for are.\<close>

definition settled :: "'i check_option list \<Rightarrow> 'i check_states \<Rightarrow> bool" where
  "settled xs st \<longleftrightarrow>
     (\<forall>x \<in> set (nodes xs). checked st (oid x) = (\<forall>l \<in> set (below x). checked st (oid l)))"

definition children_agree :: "'i check_states \<Rightarrow> 'i check_option \<Rightarrow> bool" where
  "children_agree st p \<longleftrightarrow>
     (ochildren p \<noteq> [] \<longrightarrow> checked st (oid p) = (\<forall>c \<in> set (ochildren p). checked st (oid c)))"

lemma settled_if_agree:
  assumes "\<forall>p \<in> set (nodes xs). children_agree st p"
  shows "settled xs st"
proof -
  have "checked st (oid x) = (\<forall>l \<in> set (below x). checked st (oid l))" if "x \<in> set (nodes xs)" for x
    using that
  proof (induction x rule: measure_induct_rule [of size])
    case (less x)
    show ?case
    proof (cases "ochildren x = []")
      case False
      then have "checked st (oid x) = (\<forall>c \<in> set (ochildren x). checked st (oid c))"
        using assms less.prems by (auto simp: children_agree_def)
      also have "\<dots> = (\<forall>c \<in> set (ochildren x). \<forall>l \<in> set (below c). checked st (oid l))"
        using less.IH [OF size_child child_in_nodes [OF less.prems]] by simp
      finally show ?thesis using False by (auto simp: below_inner)
    qed (simp add: below_leaf)
  qed
  then show ?thesis by (simp add: settled_def)
qed

lemma agree_if_settled: "settled xs st \<Longrightarrow> p \<in> set (nodes xs) \<Longrightarrow> children_agree st p"
  by (auto simp: settled_def children_agree_def child_in_nodes below_inner)

lemma summary_checked: "fst (summary bs) = (\<forall>b \<in> set bs. b)"
proof -
  have "length (filter (\<lambda>b. b) bs) = length bs \<longleftrightarrow> (\<forall>b \<in> set bs. b)"
    by (metis filter_True filter_id_conv length_filter_less order_less_irrefl)
  then show ?thesis by (simp add: summary_def)
qed

section \<open>A click\<close>

lemma updateChildrenStates_state:
  "getState (updateChildrenStates xs b st) i = (if i \<in> set (ids xs) then (b, False) else getState st i)"
proof (induction xs b st arbitrary: i rule: updateChildrenStates.induct)
  case (2 x xs b st)
  show ?case by (simp add: 2 ids_def)
qed (simp add: ids_def)

lemma not_own_child: "distinct (ids xs) \<Longrightarrow> p \<in> set (nodes xs) \<Longrightarrow> c \<in> set (ochildren p) \<Longrightarrow> oid c \<noteq> oid p"
  using same_node [of xs c p] child_in_nodes [of p xs c] size_child [of c p] by auto

lemma agree_after_summary:
  assumes d: "distinct (ids xs)" and q: "q \<in> set (nodes xs)" and p: "p \<in> set (nodes xs)"
    and st': "st' = st(oid p \<mapsto> summary (map (\<lambda>c. checked st (oid c)) (ochildren p)))"
  shows "children_agree st' q \<longleftrightarrow> q = p \<or> (if p \<in> set (ochildren q) then children_agree st' q else children_agree st q)"
proof (cases "q = p")
  case True
  then have "checked st' (oid q) = (\<forall>c \<in> set (ochildren q). checked st (oid c))"
    by (simp add: st' summary_checked)
  then show ?thesis using True not_own_child [OF d p] by (auto simp: children_agree_def st')
next
  case False
  have "oid q \<noteq> oid p" using False same_node [OF d q p] by auto
  moreover have "\<forall>c \<in> set (ochildren q). p \<notin> set (ochildren q) \<longrightarrow> oid c \<noteq> oid p"
    using same_node [OF d child_in_nodes [OF q] p] by auto
  ultimately show ?thesis using False by (auto simp: children_agree_def st')
qed

lemma ancestor_of_parent:
  assumes "distinct (ids xs)" "q \<in> set (nodes xs)" "x \<in> set (nodes (ochildren q))"
    and p: "p \<in> set (nodes xs)" "x \<in> set (ochildren p)" and "q \<noteq> p"
  shows "p \<in> set (nodes (ochildren q))"
proof -
  from inner_parent [OF assms(3)] show ?thesis
  proof
    assume "x \<in> set (ochildren q)"
    then show ?thesis using one_parent [OF assms(1,2) _ p] assms(6) by auto
  next
    assume "\<exists>r \<in> set (nodes (ochildren q)). x \<in> set (ochildren r)"
    then obtain r where r: "r \<in> set (nodes (ochildren q))" "x \<in> set (ochildren r)" by auto
    have "r = p" using one_parent [OF assms(1) nodes_trans [OF assms(2) r(1)] r(2) p] by auto
    then show ?thesis using r by simp
  qed
qed

lemma ascend_settles:
  assumes d: "distinct (ids xs)" and "x \<in> set (nodes xs)"
    and "\<forall>q \<in> set (nodes xs). children_agree st q \<or> x \<in> set (nodes (ochildren q))"
  shows "\<exists>st'. ascend xs st (oid x) = Some st' \<and> (\<forall>q \<in> set (nodes xs). children_agree st' q) \<and>
    (\<forall>l \<in> set (leaf_options xs). getState st' (oid l) = getState st (oid l))"
  using assms(2,3)
proof (induction "size_list size xs - size x" arbitrary: x st rule: less_induct)
  case less
  show ?case
  proof (cases "findParentOption xs (oid x)")
    case None
    have "x \<notin> set (nodes (ochildren q))" if "q \<in> set (nodes xs)" for q
      using inner_parent [of x "ochildren q"] find_parent [OF d that] find_parent [OF d nodes_trans [OF that]] None
      by fastforce
    then show ?thesis using None less.prems by (auto simp: ascend.simps)
  next
    case (Some p)
    note p = find_sound [OF Some]
    then obtain c where c: "c \<in> set (ochildren p)" "oid c = oid x" by auto
    then have "c = x" using same_node [OF d child_in_nodes less.prems(1)] p by auto
    with c have x: "x \<in> set (ochildren p)" by simp
    define st1 where "st1 = st(oid p \<mapsto> summary (map (\<lambda>c. checked st (oid c)) (ochildren p)))"
    have dec: "size_list size xs - size p < size_list size xs - size x"
      using size_child [OF x] size_node [OF conjunct1 [OF p]] by linarith
    have pre: "\<forall>q \<in> set (nodes xs). children_agree st1 q \<or> p \<in> set (nodes (ochildren q))"
    proof
      fix q assume q: "q \<in> set (nodes xs)"
      show "children_agree st1 q \<or> p \<in> set (nodes (ochildren q))"
        using agree_after_summary [OF d q conjunct1 [OF p] st1_def] less.prems(2) q
          ancestor_of_parent [OF d q _ conjunct1 [OF p] x] root_in_nodes [of p "ochildren q"] by metis
    qed
    obtain st' where st': "ascend xs st1 (oid p) = Some st'" "\<forall>q \<in> set (nodes xs). children_agree st' q"
        "\<forall>l \<in> set (leaf_options xs). getState st' (oid l) = getState st1 (oid l)"
      using less.hyps [OF dec conjunct1 [OF p] pre] by auto
    have "oid l \<noteq> oid p" if "l \<in> set (leaf_options xs)" for l
      using that same_node [OF d _ conjunct1 [OF p], of l] x by (auto simp: leaves_in_nodes)
    then have "\<forall>l \<in> set (leaf_options xs). getState st' (oid l) = getState st (oid l)"
      using st'(3) by (simp add: st1_def)
    moreover have "ascend xs st (oid x) = Some st'"
      using st'(1) Some by (subst ascend.simps) (simp add: st1_def)
    ultimately show ?thesis using st'(2) by auto
  qed
qed

definition checked_leaves :: "'i check_option list \<Rightarrow> 'i check_states \<Rightarrow> 'i check_option set" where
  "checked_leaves xs st = {l \<in> set (leaf_options xs). checked st (oid l)}"

lemma model_value_of_leaves:
  "updateModelValue xs st = map ovalue (filter (\<lambda>l. l \<in> checked_leaves xs st) (leaf_options xs))"
  by (auto simp: updateModelValue_def checked_leaves_def intro!: arg_cong [of _ _ "map ovalue"] filter_cong)

lemma leaf_below_iff: "l \<in> set (below x) \<longleftrightarrow> ochildren l = [] \<and> (l = x \<or> l \<in> set (nodes (ochildren x)))"
  by (auto simp: below_def leaves_in_nodes)

text \<open>The specification of a click.\<close>

definition click :: "'i check_option \<Rightarrow> bool \<Rightarrow> 'i check_option set \<Rightarrow> 'i check_option set" where
  "click x b S = (if b then S \<union> set (below x) else S - set (below x))"

lemma updateState_refines:
  assumes d: "distinct (ids xs)" and x: "x \<in> set (nodes xs)" and s: "settled xs st"
  shows "\<exists>st'. updateState xs b x st = Some (st', updateModelValue xs st') \<and> settled xs st' \<and>
    checked_leaves xs st' = click x b (checked_leaves xs st)"
proof -
  let ?D = "insert x (set (nodes (ochildren x)))"
  define st0 where "st0 = updateChildrenStates (ochildren x) b (st(oid x \<mapsto> (b, False)))"
  have D: "?D \<subseteq> set (nodes xs)" using x nodes_trans [OF x] by auto
  have st0: "getState st0 (oid y) = (if y \<in> ?D then (b, False) else getState st (oid y))" if "y \<in> set (nodes xs)" for y
    using same_node [OF d that] D by (auto simp: st0_def updateChildrenStates_state ids_def)
  have "children_agree st0 q \<or> x \<in> set (nodes (ochildren q))" if q: "q \<in> set (nodes xs)" for q
  proof (cases "q \<in> ?D")
    case True
    then have "\<forall>c \<in> set (ochildren q). c \<in> ?D"
      using child_in_nodes root_in_nodes by (metis insert_iff)
    then show ?thesis using True st0 [OF q] st0 child_in_nodes [OF q]
      by (auto simp: children_agree_def)
  next
    case False
    have "c \<notin> ?D" if c: "c \<in> set (ochildren q)" and nx: "x \<notin> set (nodes (ochildren q))" for c
    proof
      assume "c \<in> ?D"
      then have "c \<in> set (nodes (ochildren x))" using root_in_nodes [OF c] nx by auto
      then obtain r where "r \<in> ?D" "c \<in> set (ochildren r)" using inner_parent [of c "ochildren x"] by auto
      then show False using one_parent [OF d q c, of r c] D False by auto
    qed
    then show ?thesis using False st0 [OF q] st0 child_in_nodes [OF q] agree_if_settled [OF s q]
      by (auto simp: children_agree_def)
  qed
  then obtain st' where st': "ascend xs st0 (oid x) = Some st'" "\<forall>q \<in> set (nodes xs). children_agree st' q"
      "\<forall>l \<in> set (leaf_options xs). getState st' (oid l) = getState st0 (oid l)"
    using ascend_settles [OF d x] by blast
  have leaf: "getState st' (oid l) = (if l \<in> ?D then (b, False) else getState st (oid l))"
    if "l \<in> set (nodes xs)" "ochildren l = []" for l
    using that st'(3) st0 [OF that(1)] by (simp add: leaves_in_nodes)
  have "checked_leaves xs st' = click x b (checked_leaves xs st)"
    using leaf x nodes_trans [OF x] by (cases b) (auto simp: checked_leaves_def click_def leaf_below_iff leaves_in_nodes split: if_splits)
  then show ?thesis
    using st'(1) settled_if_agree [OF st'(2)] by (simp add: updateState_def st0_def)
qed

section \<open>The initial state\<close>

lemma updateParentStates_leaf:
  "(\<forall>p \<in> set (nodes xs). ochildren p \<noteq> [] \<longrightarrow> oid p \<noteq> i) \<Longrightarrow> updateParentStates xs st i = st i"
  by (induction xs st rule: updateParentStates.induct) (auto simp: Let_def)

lemma updateParentStates_other: "i \<notin> set (ids xs) \<Longrightarrow> updateParentStates xs st i = st i"
  by (rule updateParentStates_leaf) (auto simp: ids_def)

lemma distinct_ids_Cons:
  "distinct (ids (x # xs)) \<longleftrightarrow>
     oid x \<notin> set (ids (ochildren x)) \<and> oid x \<notin> set (ids xs) \<and> distinct (ids (ochildren x)) \<and> distinct (ids xs) \<and>
     (\<forall>i \<in> set (ids (ochildren x)). i \<notin> set (ids xs))"
  by (auto simp: ids_def)

lemma below_in_nodes: "x \<in> set (nodes xs) \<Longrightarrow> l \<in> set (below x) \<Longrightarrow> l \<in> set (nodes xs)"
  using nodes_trans by (auto simp: leaf_below_iff)

lemma settled_cong:
  assumes "\<forall>i \<in> set (ids xs). st' i = st i"
  shows "settled xs st' = settled xs st"
proof -
  have "getState st' (oid x) = getState st (oid x)" if "x \<in> set (nodes xs)" for x
    using assms that by (simp add: ids_def getState_def)
  then show ?thesis using below_in_nodes unfolding settled_def by (metis (no_types, lifting))
qed

lemma settled_Cons:
  "settled (x # xs) st \<longleftrightarrow>
     checked st (oid x) = (\<forall>l \<in> set (below x). checked st (oid l)) \<and> settled (ochildren x) st \<and> settled xs st"
  by (auto simp: settled_def)

lemma updateParentStates_settled: "distinct (ids xs) \<Longrightarrow> settled xs (updateParentStates xs st)"
proof (induction xs st rule: updateParentStates.induct)
  case (2 x xs st)
  note d = "2.prems" [unfolded distinct_ids_Cons]
  define st1 where "st1 = updateParentStates (ochildren x) st"
  define st2 where "st2 = (if ochildren x = [] then st
    else st1(oid x \<mapsto> summary (map (\<lambda>l. checked st1 (oid l)) (leaf_options (ochildren x)))))"
  define st3 where "st3 = updateParentStates xs st2"
  have eq: "updateParentStates (x # xs) st = st3" by (simp add: st1_def st2_def st3_def Let_def)
  have xs: "settled xs st3" using "2.IH"(2) [unfolded Let_def] d unfolding st3_def st2_def st1_def by blast
  show ?case
  proof (cases "ochildren x = []")
    case True
    then show ?thesis using xs unfolding eq settled_Cons by (simp add: below_leaf settled_def)
  next
    case False
    have out: "st3 i = st2 i" if "i \<notin> set (ids xs)" for i
      using that by (simp add: st3_def updateParentStates_other)
    have children: "\<forall>i \<in> set (ids (ochildren x)). st3 i = st1 i"
      using d False out by (auto simp: st2_def)
    have "settled (ochildren x) st1" using "2.IH"(1) False d by (simp add: st1_def)
    then have "settled (ochildren x) st3" using settled_cong [OF children] by simp
    moreover have "checked st3 (oid l) = checked st1 (oid l)" if "l \<in> set (below x)" for l
      using that children False by (simp add: getState_def ids_def below_def leaves_in_nodes)
    moreover have "checked st3 (oid x) = (\<forall>l \<in> set (below x). checked st1 (oid l))"
      using d False out [of "oid x"] by (simp add: getState_def st2_def summary_checked below_def)
    ultimately show ?thesis using xs unfolding eq settled_Cons by simp
  qed
qed (simp add: settled_def)

lemma init_each_other: "i \<notin> set (ids xs) \<Longrightarrow> init_each ca mv xs st i = st i"
  by (induction ca mv xs st rule: init_each.induct) (auto simp: ids_def Let_def updateParentStates_other)

definition starts_checked :: "bool \<Rightarrow> js list \<Rightarrow> 'i check_option \<Rightarrow> bool" where
  "starts_checked checkedAll modelValue l \<longleftrightarrow> checkedAll \<or> ovalue l \<in> set modelValue \<or> ochecked l"

lemma init_each_leaf:
  "distinct (ids xs) \<Longrightarrow> \<forall>i \<in> set (ids xs). st i = None \<Longrightarrow> l \<in> set (leaf_options xs) \<Longrightarrow>
   checked (init_each ca mv xs st) (oid l) = starts_checked ca mv l"
proof (induction ca mv xs st rule: init_each.induct)
  case (2 ca mv x xs st)
  note d = "2.prems"(1) [unfolded distinct_ids_Cons]
  define st1 where "st1 = (if st (oid x) = None
    then st(oid x \<mapsto> (ca \<or> ovalue x \<in> set mv \<or> ochecked x, False)) else st)"
  define st2 where "st2 = (if ochildren x = [] then st1
    else updateParentStates (ochildren x) (init_each ca mv (ochildren x) st1))"
  have eq: "init_each ca mv (x # xs) st = init_each ca mv xs st2"
    by (simp add: st1_def st2_def Let_def)
  have st1: "\<forall>i \<in> set (ids (ochildren x)) \<union> set (ids xs). st1 i = None"
    using "2.prems"(2) d by (auto simp: st1_def ids_def)
  have st2: "\<forall>i \<in> set (ids xs). st2 i = None"
  proof
    fix i assume i: "i \<in> set (ids xs)"
    then have "i \<notin> set (ids (ochildren x))" using d by blast
    then show "st2 i = None" using i st1 by (simp add: st2_def updateParentStates_other init_each_other)
  qed
  show ?case
  proof (cases "l \<in> set (leaf_options xs)")
    case True
    then show ?thesis using "2.IH"(2) [OF st1_def st2_def] d st2 unfolding eq by blast
  next
    case False
    then have l: "l \<in> set (below x)" using "2.prems"(3) by (auto simp: below_def split: if_splits)
    show ?thesis
    proof (cases "ochildren x = []")
      case True
      then have "l = x" using l by (simp add: below_def)
      have "init_each ca mv xs st2 (oid x) = st1 (oid x)"
        using d True by (simp add: init_each_other st2_def)
      moreover have "st (oid x) = None" using "2.prems"(2) by (simp add: ids_def)
      ultimately show ?thesis unfolding eq by (simp add: getState_def st1_def starts_checked_def \<open>l = x\<close>)
    next
      case inner: False
      have lc: "l \<in> set (leaf_options (ochildren x))" using l inner by (simp add: below_def)
      have "oid l \<in> set (ids (ochildren x))" using lc by (simp add: ids_def leaves_in_nodes)
      then have "init_each ca mv xs st2 (oid l) = st2 (oid l)" using d by (auto simp: init_each_other)
      moreover have "st2 (oid l) = init_each ca mv (ochildren x) st1 (oid l)"
        using inner lc same_node [of "ochildren x" _ l] d
        by (auto simp: st2_def leaves_in_nodes intro!: updateParentStates_leaf)
      ultimately show ?thesis using "2.IH"(1) [OF st1_def inner] d st1 lc unfolding eq by (simp add: getState_def)
    qed
  qed
qed simp

lemma initializeState_starts:
  assumes d: "distinct (ids xs)"
  shows "settled xs (initializeState ca mv xs Map.empty) \<and>
    checked_leaves xs (initializeState ca mv xs Map.empty) = {l \<in> set (leaf_options xs). starts_checked ca mv l}"
proof -
  have "getState (initializeState ca mv xs Map.empty) (oid l) = getState (init_each ca mv xs Map.empty) (oid l)"
    if "l \<in> set (leaf_options xs)" for l
  proof -
    have "updateParentStates xs st (oid l) = st (oid l)" for st
      by (rule updateParentStates_leaf) (use that same_node [OF d, of _ l] in \<open>auto simp: leaves_in_nodes\<close>)
    then show ?thesis by (simp add: initializeState_def getState_def)
  qed
  then show ?thesis
    using updateParentStates_settled [OF d] init_each_leaf [OF d, of Map.empty _ ca mv]
    by (auto simp: initializeState_def checked_leaves_def)
qed

section \<open>Any clicks\<close>

fun run_clicks ::
    "'i check_option list \<Rightarrow> ('i check_option \<times> bool) list \<Rightarrow> 'i check_states \<times> js list \<Rightarrow> ('i check_states \<times> js list) option" where
  "run_clicks xs [] s = Some s"
| "run_clicks xs ((x, b) # clicks) s =
     (case updateState xs b x (fst s) of
        None \<Rightarrow> None
      | Some s' \<Rightarrow> run_clicks xs clicks s')"

lemma run_clicks_refines:
  assumes d: "distinct (ids xs)"
  shows "settled xs (fst s) \<Longrightarrow> set (map fst clicks) \<subseteq> set (nodes xs) \<Longrightarrow>
    \<exists>s'. run_clicks xs clicks s = Some s' \<and> settled xs (fst s') \<and>
      checked_leaves xs (fst s') = fold (\<lambda>(x, b). click x b) clicks (checked_leaves xs (fst s)) \<and>
      (clicks \<noteq> [] \<longrightarrow> snd s' = updateModelValue xs (fst s'))"
proof (induction clicks arbitrary: s)
  case (Cons c clicks)
  obtain x b where c: "c = (x, b)" by force
  obtain st' where st': "updateState xs b x (fst s) = Some (st', updateModelValue xs st')" "settled xs st'"
      "checked_leaves xs st' = click x b (checked_leaves xs (fst s))"
    using updateState_refines [OF d _ Cons.prems(1), of x b] Cons.prems(2) by (auto simp: c)
  then show ?case using Cons.IH [of "(st', updateModelValue xs st')"] Cons.prems(2)
    by (cases "clicks = []") (auto simp: c)
qed simp

text \<open>
  C4: A tree of checkboxes with distinct identifiers implements a set of checked leaves: it starts
  with the leaves that are checked by an option, by the model value or by \<open>checkedAll\<close>; each click on
  any option ends and adds or removes exactly the leaves of that option; every option, at any depth,
  is then checked if and only if all its leaves are; and the reported values are those of the
  checked leaves, in the order of the tree.
\<close>

theorem checkbox_refines:
  assumes "distinct (ids xs)" and "set (map fst clicks) \<subseteq> set (nodes xs)"
    and "S = fold (\<lambda>(x, b). click x b) clicks {l \<in> set (leaf_options xs). starts_checked ca mv l}"
  shows "\<exists>st vs. run_clicks xs clicks (initializeState ca mv xs Map.empty, mv) = Some (st, vs) \<and>
    checked_leaves xs st = S \<and>
    (\<forall>x \<in> set (nodes xs). checked st (oid x) = (set (below x) \<subseteq> S)) \<and>
    (clicks \<noteq> [] \<longrightarrow> vs = map ovalue (filter (\<lambda>l. l \<in> S) (leaf_options xs)))"
proof -
  note init = initializeState_starts [OF assms(1), of ca mv]
  obtain s' where s': "run_clicks xs clicks (initializeState ca mv xs Map.empty, mv) = Some s'" "settled xs (fst s')"
      "checked_leaves xs (fst s') = S" "clicks \<noteq> [] \<longrightarrow> snd s' = updateModelValue xs (fst s')"
    using run_clicks_refines [OF assms(1) _ assms(2), of "(initializeState ca mv xs Map.empty, mv)"] init assms(3)
    by auto
  moreover have "checked (fst s') (oid x) = (set (below x) \<subseteq> S)" if x: "x \<in> set (nodes xs)" for x
    using s'(2) x below_in_nodes [OF x] unfolding s'(3) [symmetric] settled_def checked_leaves_def
    by (auto simp: leaves_in_nodes leaf_below_iff)
  ultimately show ?thesis by (intro exI [of _ "fst s'"] exI [of _ "snd s'"]) (simp add: model_value_of_leaves)
qed

section \<open>Examples\<close>

definition leaf :: "nat \<Rightarrow> nat check_option" where
  "leaf i = Option i (Num (int i)) False []"

definition example_tree :: "nat check_option list" where
  "example_tree = [Option 0 Undef False [Option 1 Undef False [leaf 2, leaf 3], leaf 4]]"

theorem checkbox_refines_witness:
  "\<exists>st. run_clicks example_tree [(leaf 2, True), (Option 1 Undef False [leaf 2, leaf 3], True), (leaf 2, False)]
      (initializeState False [] example_tree Map.empty, []) = Some (st, [Num 3]) \<and> \<not> checked st 1"
proof -
  let ?x = "Option 1 Undef False [leaf 2, leaf 3]"
  let ?clicks = "[(leaf 2, True), (?x, True), (leaf 2, False)]"
  have S: "{leaf 3} = fold (\<lambda>(x, b). click x b) ?clicks {l \<in> set (leaf_options example_tree). starts_checked False [] l}"
    by (auto simp: example_tree_def leaf_def starts_checked_def click_def below_def)
  show ?thesis
    using checkbox_refines [of example_tree ?clicks "{leaf 3}" False "[]", OF _ _ S]
    by (auto simp: example_tree_def ids_def leaf_def below_def)
qed

text \<open>
  A click recomputes an ancestor from the \<open>checked\<close> flags of its children only. When a child is
  partly checked and none is checked, the ancestor is shown as not checked at all, although a leaf
  below it is; the same state computed by \<open>updateParentStates\<close> is intermediate.
\<close>

lemma intermediate_lost:
  "\<exists>st vs. updateState example_tree True (leaf 2) (initializeState False [] example_tree Map.empty) = Some (st, vs) \<and>
     checked st 2 \<and> intermediate st 1 \<and> \<not> intermediate st 0 \<and> intermediate (updateParentStates example_tree st) 0"
  by (simp add: updateState_def initializeState_def example_tree_def leaf_def ascend.simps summary_def Let_def)

text \<open>When a child has the identifier of its parent, the loop up to the root does not end.\<close>

lemma repeated_id_hangs:
  "updateState [Option i v c [Option i v' c' []]] b x st = None" if "oid x = i"
proof -
  have "\<not> (xs = [Option i v c [Option i v' c' []]] \<and> j = i)" if "ascend xs st j = Some r" for xs st j r
    by (rule ascend.raw_induct [of "\<lambda>xs st j r. \<not> (xs = [Option i v c [Option i v' c' []]] \<and> j = i)", OF _ that])
      (fastforce split: option.splits if_splits)
  then have "ascend [Option i v c [Option i v' c' []]] st' i = None" for st' by fastforce
  then show ?thesis using that by (simp add: updateState_def)
qed

end
