(* ===== verification/UI_File.thy ===== *)
theory UI_File
  imports UI_Store "HOL-Library.Multiset"
begin

text \<open>
  The files of a spider or of a git repository.

  \<^verbatim>\<open>store/utils/file.ts\<close>: the part of a store that holds the tree of files, the active file, the text
  shown and a cache of saved texts (\<open>file_state\<close>, \<open>mutate_file\<close>, \<open>file_request\<close>).
  \<^verbatim>\<open>components/ui/file/FileTab.vue\<close> and \<^verbatim>\<open>FileEditor.vue\<close>: the tab with the editor, as a state
  machine over that store (\<open>editor_state\<close>, \<open>editor_step\<close>). The text the tab gets from its page is a
  parameter \<open>shown\<close>: the page of a spider passes the text of the store, the page of a git repository
  the getter, which prefers the cache. The text editor is a buffer that returns what was set or
  typed; its theme, its language and its size are not modelled.
\<close>

section \<open>The store\<close>

record file_state =
  fileNavItems :: js
  activeFileNavItem :: js
  fileContent :: js
  defaultFilePaths :: js
  editorFileContentCache :: "string \<Rightarrow> js option"

definition getBaseFileStoreState :: file_state where
  "getBaseFileStoreState =
     \<lparr>fileNavItems = Arr [], activeFileNavItem = Undef, fileContent = Str [], defaultFilePaths = Arr [],
      editorFileContentCache = Map.empty\<rparr>"

definition fileContent_getter :: "file_state \<Rightarrow> js" where
  "fileContent_getter s =
     (case editorFileContentCache s (js_str (js_get_opt (activeFileNavItem s) ''path'')) of
        None \<Rightarrow> fileContent s
      | Some c \<Rightarrow> if c \<noteq> Undef then c else fileContent s)"

datatype file_mutation =
    SetFileNavItems js
  | ResetFileNavItems
  | SetActiveFileNavItem js
  | ResetActiveFileNavItem
  | SetFileContent js
  | ResetFileContent
  | SetDefaultFilePaths js
  | ResetDefaultFilePaths
  | SetEditorFileContentCache string js
  | ResetEditorFileContentCache

fun mutate_file :: "file_mutation \<Rightarrow> file_state \<Rightarrow> file_state" where
  "mutate_file (SetFileNavItems x) s = s\<lparr>fileNavItems := x\<rparr>"
| "mutate_file ResetFileNavItems s = s\<lparr>fileNavItems := Arr []\<rparr>"
| "mutate_file (SetActiveFileNavItem x) s = s\<lparr>activeFileNavItem := x\<rparr>"
| "mutate_file ResetActiveFileNavItem s = s\<lparr>activeFileNavItem := Undef\<rparr>"
| "mutate_file (SetFileContent x) s = s\<lparr>fileContent := x\<rparr>"
| "mutate_file ResetFileContent s = s\<lparr>fileContent := Str []\<rparr>"
| "mutate_file (SetDefaultFilePaths x) s = s\<lparr>defaultFilePaths := x\<rparr>"
| "mutate_file ResetDefaultFilePaths s = s\<lparr>defaultFilePaths := Arr []\<rparr>"
| "mutate_file (SetEditorFileContentCache path content) s =
     s\<lparr>editorFileContentCache := (editorFileContentCache s)(path \<mapsto> content)\<rparr>"
| "mutate_file ResetEditorFileContentCache s = s\<lparr>editorFileContentCache := Map.empty\<rparr>"

datatype file_call =
    ListDir js
  | GetFile js
  | GetFileInfo js
  | SaveFile js js
  | SaveDir js
  | RenameFile js js
  | DeleteFile js
  | CopyFile js js
  | ExportFiles

fun file_request :: "string \<Rightarrow> string \<Rightarrow> file_call \<Rightarrow> service_request" where
  "file_request endpoint ident (ListDir path) =
     get_request (endpoint @ ''/'' @ ident @ ''/files/list'') (Obj [(''path'', path)])"
| "file_request endpoint ident (GetFile path) =
     get_request (endpoint @ ''/'' @ ident @ ''/files/get'') (Obj [(''path'', path)])"
| "file_request endpoint ident (GetFileInfo path) =
     get_request (endpoint @ ''/'' @ ident @ ''/files/info'') (Obj [(''path'', path)])"
| "file_request endpoint ident (SaveFile path data) =
     post_request (endpoint @ ''/'' @ ident @ ''/files/save'') (Obj [(''path'', path), (''data'', data)])"
| "file_request endpoint ident (SaveDir path) =
     post_request (endpoint @ ''/'' @ ident @ ''/files/save/dir'') (Obj [(''path'', path)])"
| "file_request endpoint ident (RenameFile path new_path) =
     post_request (endpoint @ ''/'' @ ident @ ''/files/rename'') (Obj [(''path'', path), (''new_path'', new_path)])"
| "file_request endpoint ident (DeleteFile path) =
     del_request (endpoint @ ''/'' @ ident @ ''/files'') (Obj [(''path'', path)])"
| "file_request endpoint ident (CopyFile path new_path) =
     post_request (endpoint @ ''/'' @ ident @ ''/files/copy'') (Obj [(''path'', path), (''new_path'', new_path)])"
| "file_request endpoint ident ExportFiles =
     \<lparr>sr_method = ''POST'', sr_url = endpoint @ ''/'' @ ident @ ''/files/export'', sr_params = Obj [], sr_data = Obj []\<rparr>"

definition listDir_done :: "js \<Rightarrow> file_state \<Rightarrow> file_state" where
  "listDir_done res s = mutate_file (SetFileNavItems (js_or (js_get_opt res ''data'') (Arr []))) s"

section \<open>Paths\<close>

definition FILE_ROOT :: string where
  "FILE_ROOT = ''~''"

definition pathSep :: char where
  "pathSep = CHR ''/''"

definition getDirPath :: "string \<Rightarrow> string" where
  "getDirPath path = join [pathSep] (butlast (split_on pathSep path))"

definition isRoot :: "jobj \<Rightarrow> bool" where
  "isRoot item \<longleftrightarrow> oget item ''path'' = Str FILE_ROOT"

definition getPath :: "jobj \<Rightarrow> string \<Rightarrow> string" where
  "getPath item name =
     (if truthy (oget item ''is_dir'') then
        (if isRoot item then pathSep # name
         else js_str (js_or (oget item ''path'') (Str [])) @ pathSep # name)
      else getDirPath (js_str (oget item ''path'')) @ pathSep # name)"

text \<open>The directory of a file in a directory is that directory, if the name of the file has no separator.\<close>

lemma getDirPath_append: "pathSep \<notin> set name \<Longrightarrow> getDirPath (dir @ pathSep # name) = dir"
  by (simp add: getDirPath_def split_on_append split_on_none join_split_on butlast_append)

lemma getPath_renames:
  "oget item ''is_dir'' = Bool False \<Longrightarrow> oget item ''path'' = Str (dir @ pathSep # old) \<Longrightarrow> pathSep \<notin> set old \<Longrightarrow>
   getPath item new = dir @ pathSep # new"
  by (simp add: getPath_def getDirPath_append)


section \<open>The tab and its editor\<close>

text \<open>
  \<open>buffer\<close> is the text in the text editor, \<open>tabs\<close> the open files, \<open>timers\<close> the number of delayed
  updates of the editor. A file is opened in two waits, for its information and for its text; the
  texts requested and not yet answered are \<open>awaited\<close>, with the tab to open afterwards, if any.
  \<open>saving\<close> are the saves that are not answered, \<open>saves\<close> everything that was ever sent to be saved.
\<close>

record editor_state =
  files :: file_state
  tabs :: "jobj list"
  buffer :: string
  timers :: nat
  informed :: "js list"
  awaited :: "(js \<times> jobj option) list"
  saving :: "(js \<times> js) list"
  saves :: "(js \<times> js) list"

definition editor_init :: editor_state where
  "editor_init =
     \<lparr>files = getBaseFileStoreState, tabs = [], buffer = [], timers = 0, informed = [], awaited = [], saving = [], saves = []\<rparr>"

text \<open>
  A visit of the page starts with no open and no active file, as the page before has reset them; the
  cache of saved texts is kept by the store.
\<close>

definition editor_visit :: "(string \<Rightarrow> js option) \<Rightarrow> editor_state" where
  "editor_visit cache = editor_init\<lparr>files := (files editor_init)\<lparr>editorFileContentCache := cache\<rparr>\<rparr>"

text \<open>The text of the property \<open>content\<close>: \<open>content || ''\<close>, put into the editor.\<close>

definition editor_text :: "js \<Rightarrow> string" where
  "editor_text v = (if truthy v then js_str v else [])"

lemma editor_text_Str [simp]: "editor_text (Str t) = t"
  by (cases t) (simp_all add: editor_text_def)

definition active :: "editor_state \<Rightarrow> js" where
  "active w = activeFileNavItem (files w)"

text \<open>Setting the text of the editor reports it as changed, and it is stored if a file is active.\<close>

definition set_value :: "string \<Rightarrow> editor_state \<Rightarrow> editor_state" where
  "set_value t w =
     (if truthy (active w) then w\<lparr>buffer := t, files := mutate_file (SetFileContent (Str t)) (files w)\<rparr>
      else w\<lparr>buffer := t\<rparr>)"

text \<open>
  A commit to the store, and the two watchers: the editor follows the text of the property when it
  changes, and a timer is set when the active file changes.
\<close>

definition commit_file :: "(file_state \<Rightarrow> js) \<Rightarrow> file_mutation \<Rightarrow> editor_state \<Rightarrow> editor_state" where
  "commit_file shown m w =
     (let w' = w\<lparr>files := mutate_file m (files w)\<rparr>;
          w2 = (if json_stringify (active w') \<noteq> json_stringify (active w) then w'\<lparr>timers := Suc (timers w')\<rparr> else w');
          t = editor_text (shown (files w2))
      in if editor_text (shown (files w)) \<noteq> t \<and> buffer w2 \<noteq> t then set_value t w2 else w2)"

text \<open>The user types.\<close>

definition onContentChange :: "(file_state \<Rightarrow> js) \<Rightarrow> string \<Rightarrow> editor_state \<Rightarrow> editor_state" where
  "onContentChange shown t w =
     (if \<not> truthy (active w) then w
      else commit_file shown (SetFileContent (Str t)) (w\<lparr>buffer := t\<rparr>))"

text \<open>The timer of \<open>update\<close>.\<close>

definition update_timer :: "(file_state \<Rightarrow> js) \<Rightarrow> editor_state \<Rightarrow> editor_state" where
  "update_timer shown w =
     (if timers w = 0 then w
      else set_value (editor_text (shown (files w))) (w\<lparr>timers := timers w - 1\<rparr>))"

definition updateTabs :: "(file_state \<Rightarrow> js) \<Rightarrow> jobj \<Rightarrow> editor_state \<Rightarrow> editor_state" where
  "updateTabs shown item w =
     (if \<exists>t \<in> set (tabs w). oget t ''path'' = oget item ''path'' then w
      else (let w' = (if tabs w = [] then commit_file shown (SetActiveFileNavItem (Obj item)) w else w)
            in w'\<lparr>tabs := tabs w' @ [item]\<rparr>))"

text \<open>Opening a file: its information, its text, then its tab.\<close>

definition openFile :: "js \<Rightarrow> editor_state \<Rightarrow> editor_state" where
  "openFile path w = w\<lparr>informed := informed w @ [path]\<rparr>"

definition openFile_info :: "js \<Rightarrow> js \<Rightarrow> editor_state \<Rightarrow> editor_state" where
  "openFile_info path data w =
     (if path \<notin> set (informed w) then w
      else (let w' = w\<lparr>informed := remove1 path (informed w)\<rparr> in
            case data of
              Obj item \<Rightarrow> w'\<lparr>awaited := awaited w' @ [(path, Some item)]\<rparr>
            | _ \<Rightarrow> w'))"

definition getFile :: "js \<Rightarrow> editor_state \<Rightarrow> editor_state" where
  "getFile path w = w\<lparr>awaited := awaited w @ [(path, None)]\<rparr>"

definition getFile_done :: "(file_state \<Rightarrow> js) \<Rightarrow> js \<times> jobj option \<Rightarrow> js \<Rightarrow> editor_state \<Rightarrow> editor_state" where
  "getFile_done shown r data w =
     (if r \<notin> set (awaited w) then w
      else (let w' = commit_file shown (SetFileContent data) (w\<lparr>awaited := remove1 r (awaited w)\<rparr>) in
            case snd r of None \<Rightarrow> w' | Some item \<Rightarrow> updateTabs shown item w'))"

definition onNavItemDbClick :: "(file_state \<Rightarrow> js) \<Rightarrow> jobj \<Rightarrow> editor_state \<Rightarrow> editor_state" where
  "onNavItemDbClick shown item w =
     (let w1 = commit_file shown (SetActiveFileNavItem (Obj item)) w;
          w2 = (if truthy (oget item ''path'') then openFile (oget item ''path'') w1 else w1)
      in updateTabs shown item w2)"

definition onTabClick :: "(file_state \<Rightarrow> js) \<Rightarrow> jobj \<Rightarrow> editor_state \<Rightarrow> editor_state" where
  "onTabClick shown tab w =
     getFile (oget tab ''path'') (commit_file shown (SetActiveFileNavItem (Obj tab)) w)"

definition tab_at :: "jobj list \<Rightarrow> nat \<Rightarrow> js" where
  "tab_at ts i = (if i < length ts then Obj (ts ! i) else Undef)"

definition closeTab :: "(file_state \<Rightarrow> js) \<Rightarrow> jobj \<Rightarrow> editor_state \<Rightarrow> editor_state" where
  "closeTab shown tab w =
     (let idx = find_index (\<lambda>t. oget t ''path'' = oget tab ''path'') (tabs w);
          w' = (case idx of None \<Rightarrow> w | Some i \<Rightarrow> w\<lparr>tabs := take i (tabs w) @ drop (Suc i) (tabs w)\<rparr>)
      in if truthy (active w') \<and> js_get_opt (active w') ''path'' = oget tab ''path'' then
           commit_file shown
             (SetActiveFileNavItem
               (case idx of None \<Rightarrow> Undef | Some 0 \<Rightarrow> tab_at (tabs w') 0 | Some (Suc i) \<Rightarrow> tab_at (tabs w') i)) w'
         else w')"

definition onTabCloseOthers :: "(file_state \<Rightarrow> js) \<Rightarrow> jobj \<Rightarrow> editor_state \<Rightarrow> editor_state" where
  "onTabCloseOthers shown tab w = commit_file shown (SetActiveFileNavItem (Obj tab)) (w\<lparr>tabs := [tab]\<rparr>)"

definition onTabCloseAll :: "(file_state \<Rightarrow> js) \<Rightarrow> editor_state \<Rightarrow> editor_state" where
  "onTabCloseAll shown w = commit_file shown ResetActiveFileNavItem (w\<lparr>tabs := []\<rparr>)"

text \<open>The key to save, and what happens when the save has succeeded.\<close>

definition onSaveFile :: "(file_state \<Rightarrow> js) \<Rightarrow> editor_state \<Rightarrow> editor_state" where
  "onSaveFile shown w =
     (let path = js_get_opt (active w) ''path'' in
      if \<not> truthy (active w) \<or> \<not> truthy path then w
      else (let r = (path, shown (files w)) in w\<lparr>saving := saving w @ [r], saves := saves w @ [r]\<rparr>))"

definition onSaveFile_done :: "(file_state \<Rightarrow> js) \<Rightarrow> js \<times> js \<Rightarrow> editor_state \<Rightarrow> editor_state" where
  "onSaveFile_done shown r w =
     (if r \<notin> set (saving w) then w
      else commit_file shown (SetEditorFileContentCache (js_str (fst r)) (snd r)) (w\<lparr>saving := remove1 r (saving w)\<rparr>))"

text \<open>\<open>saveActiveFile\<close> of \<^verbatim>\<open>services/utils/file.ts\<close>, which runs after the page has saved its form.\<close>

definition saveActiveFile :: "editor_state \<Rightarrow> editor_state" where
  "saveActiveFile w =
     (let path = js_get_opt (active w) ''path'' in
      if \<not> truthy path then w else w\<lparr>saves := saves w @ [(path, fileContent_getter (files w))]\<rparr>)"

definition onContextMenuUploadFiles :: "(file_state \<Rightarrow> js) \<Rightarrow> jobj \<Rightarrow> editor_state \<Rightarrow> editor_state" where
  "onContextMenuUploadFiles shown item w = commit_file shown (SetActiveFileNavItem (Obj item)) w"

text \<open>A new file is saved empty and then opened, when both the save and the list have been answered.\<close>

definition onContextMenuNewFile :: "jobj \<Rightarrow> string \<Rightarrow> editor_state \<Rightarrow> editor_state" where
  "onContextMenuNewFile item name w =
     (if \<not> truthy (oget item ''path'') then w
      else openFile (Str (getPath item name)) (w\<lparr>saves := saves w @ [(Str (getPath item name), Str [])]\<rparr>))"

datatype editor_event =
    Types string
  | TimerRuns
  | NavDbClick jobj
  | TabClick jobj
  | TabClose jobj
  | TabCloseOthers jobj
  | TabCloseAll
  | TabDragEnd "jobj list"
  | InfoAnswer js js
  | FileAnswer "js \<times> jobj option" js
  | SaveKey
  | SaveAnswer "js \<times> js"
  | PageSaved
  | NewFile jobj string
  | UploadFiles jobj
  | OpenByRoute js

fun editor_step :: "(file_state \<Rightarrow> js) \<Rightarrow> editor_event \<Rightarrow> editor_state \<Rightarrow> editor_state" where
  "editor_step shown (Types t) w = onContentChange shown t w"
| "editor_step shown TimerRuns w = update_timer shown w"
| "editor_step shown (NavDbClick item) w = onNavItemDbClick shown item w"
| "editor_step shown (TabClick tab) w = onTabClick shown tab w"
| "editor_step shown (TabClose tab) w = closeTab shown tab w"
| "editor_step shown (TabCloseOthers tab) w = onTabCloseOthers shown tab w"
| "editor_step shown TabCloseAll w = onTabCloseAll shown w"
| "editor_step shown (TabDragEnd ts) w = w\<lparr>tabs := ts\<rparr>"
| "editor_step shown (InfoAnswer path data) w = openFile_info path data w"
| "editor_step shown (FileAnswer r data) w = getFile_done shown r data w"
| "editor_step shown SaveKey w = onSaveFile shown w"
| "editor_step shown (SaveAnswer r) w = onSaveFile_done shown r w"
| "editor_step shown PageSaved w = saveActiveFile w"
| "editor_step shown (NewFile item name) w = onContextMenuNewFile item name w"
| "editor_step shown (UploadFiles item) w = onContextMenuUploadFiles shown item w"
| "editor_step shown (OpenByRoute path) w = (if truthy path then openFile path w else w)"

lemmas editor_defs =
  onContentChange_def update_timer_def updateTabs_def openFile_def openFile_info_def getFile_def getFile_done_def
  onNavItemDbClick_def onTabClick_def closeTab_def onTabCloseOthers_def onTabCloseAll_def onSaveFile_def
  onSaveFile_done_def saveActiveFile_def onContextMenuUploadFiles_def onContextMenuNewFile_def

section \<open>What is saved is what is in the editor\<close>

text \<open>On the page of a spider the editor and the store have the same text.\<close>

definition in_step :: "editor_state \<Rightarrow> bool" where
  "in_step w \<longleftrightarrow> editor_text (fileContent (files w)) = buffer w"

lemma set_value_in_step: "editor_text (fileContent (files w)) = t \<or> truthy (active w) \<Longrightarrow> in_step (set_value t w)"
  by (auto simp: in_step_def set_value_def)

lemma commit_in_step:
  assumes "in_step w \<or> (\<exists>v. m = SetFileContent v \<and> editor_text v = buffer w)"
  shows "in_step (commit_file fileContent m w)"
  using assms by (cases m) (auto simp: commit_file_def Let_def in_step_def set_value_def)

lemma in_step_irrelevant [simp]:
  "in_step (w\<lparr>tabs := ts\<rparr>) = in_step w"
  "in_step (w\<lparr>informed := is'\<rparr>) = in_step w"
  "in_step (w\<lparr>awaited := as\<rparr>) = in_step w"
  "in_step (w\<lparr>saves := rs\<rparr>) = in_step w"
  "in_step (w\<lparr>saving := rs\<rparr>) = in_step w"
  "in_step (w\<lparr>timers := n\<rparr>) = in_step w"
  by (simp_all add: in_step_def)

lemma updateTabs_in_step: "in_step w \<Longrightarrow> in_step (updateTabs fileContent item w)"
  by (simp add: updateTabs_def Let_def commit_in_step)

lemma step_in_step: "in_step w \<Longrightarrow> in_step (editor_step fileContent e w)"
proof (cases e)
  case (Types t)
  assume "in_step w"
  then show ?thesis by (simp add: Types onContentChange_def commit_in_step)
next
  case TimerRuns
  assume "in_step w"
  then show ?thesis by (auto simp: TimerRuns update_timer_def intro!: set_value_in_step)
qed (auto simp: editor_defs Let_def updateTabs_in_step [unfolded editor_defs Let_def] commit_in_step
    split: option.split js.split nat.split)


lemma steps_in_step: "in_step w \<Longrightarrow> in_step (fold (editor_step fileContent) es w)"
  by (induction es arbitrary: w) (simp_all add: step_in_step)

text \<open>The cache has texts of earlier visits and texts that were sent to be saved.\<close>

definition cache_saved :: "(string \<Rightarrow> js option) \<Rightarrow> editor_state \<Rightarrow> bool" where
  "cache_saved cache w \<longleftrightarrow>
     set (saving w) \<subseteq> set (saves w) \<and>
     (\<forall>p c. editorFileContentCache (files w) p = Some c \<longrightarrow>
        cache p = Some c \<or> (\<exists>q. js_str q = p \<and> (q, c) \<in> set (saves w)))"

text \<open>The parts of a state after a commit.\<close>

lemma commit_parts [simp]:
  "tabs (commit_file shown m w) = tabs w"
  "saves (commit_file shown m w) = saves w"
  "saving (commit_file shown m w) = saving w"
  "awaited (commit_file shown m w) = awaited w"
  "informed (commit_file shown m w) = informed w"
  by (simp_all add: commit_file_def set_value_def Let_def)

lemma commit_cache:
  "editorFileContentCache (files (commit_file shown m w)) = editorFileContentCache (mutate_file m (files w))"
  by (simp add: commit_file_def set_value_def Let_def)

lemma set_value_cache [simp]:
  "saves (set_value t w) = saves w" "saving (set_value t w) = saving w"
  "editorFileContentCache (files (set_value t w)) = editorFileContentCache (files w)"
  by (simp_all add: set_value_def)

lemma cache_saved_same:
  "saving w' = saving w \<Longrightarrow> set (saves w) \<subseteq> set (saves w') \<Longrightarrow>
   editorFileContentCache (files w') = editorFileContentCache (files w) \<Longrightarrow> cache_saved cache w \<Longrightarrow> cache_saved cache w'"
  by (auto simp: cache_saved_def) blast

lemma updateTabs_cache [simp]:
  "saves (updateTabs shown item w) = saves w" "saving (updateTabs shown item w) = saving w"
  "editorFileContentCache (files (updateTabs shown item w)) = editorFileContentCache (files w)"
  by (simp_all add: updateTabs_def commit_cache Let_def)

lemma saves_kept:
  assumes "e \<noteq> SaveKey" "\<And>r. e \<noteq> SaveAnswer r"
  shows "saving (editor_step shown e w) = saving w" "set (saves w) \<subseteq> set (saves (editor_step shown e w))"
    "editorFileContentCache (files (editor_step shown e w)) = editorFileContentCache (files w)"
  using assms
  by (cases e; auto simp: onContentChange_def update_timer_def openFile_def openFile_info_def getFile_def getFile_done_def
      onNavItemDbClick_def onTabClick_def closeTab_def onTabCloseOthers_def onTabCloseAll_def saveActiveFile_def
      onContextMenuUploadFiles_def onContextMenuNewFile_def commit_cache Let_def split: js.split option.split)+

lemma cache_saved_step: "cache_saved cache w \<Longrightarrow> cache_saved cache (editor_step shown e w)"
proof (cases e)
  case SaveKey
  assume "cache_saved cache w"
  then show ?thesis by (auto simp: SaveKey onSaveFile_def cache_saved_def Let_def)
next
  case (SaveAnswer r)
  assume w: "cache_saved cache w"
  show ?thesis
  proof (cases "r \<in> set (saving w)")
    case True
    then have "r \<in> set (saves w)" using w by (auto simp: cache_saved_def)
    then show ?thesis
      using w True set_remove1_subset [of r "saving w"]
      by (cases r) (auto simp: SaveAnswer onSaveFile_done_def cache_saved_def commit_cache)
  qed (use w in \<open>simp add: SaveAnswer onSaveFile_done_def\<close>)
qed (rule cache_saved_same, rule saves_kept(1); simp add: saves_kept del: editor_step.simps)+

lemma cache_saved_steps: "cache_saved cache w \<Longrightarrow> cache_saved cache (fold (editor_step shown) es w)"
  by (induction es arbitrary: w) (simp_all add: cache_saved_step)

text \<open>
  C28: On the page of a spider, after any clicks, loads, timers, edits and saves of a visit, the key to
  save sends the text that is in the editor at that moment, for the path of the file that is active at
  that moment. The save of the whole page sends the same as long as the cache has no text for that
  path; once it has one, it sends the cached text instead of the editor's, and the cached text is one
  that was sent before for that path, or was left by an earlier visit.
\<close>

theorem file_tab_saves_buffer:
  assumes "w = fold (editor_step fileContent) es (editor_visit cache)"
    and "truthy (active w)" and "path = js_get_opt (active w) ''path''" and "truthy path"
  shows "\<exists>d. editor_text d = buffer w \<and>
    saves (editor_step fileContent SaveKey w) = saves w @ [(path, d)] \<and>
    (case editorFileContentCache (files w) (js_str path) of
       None \<Rightarrow> saves (editor_step fileContent PageSaved w) = saves w @ [(path, d)]
     | Some c \<Rightarrow> saves (editor_step fileContent PageSaved w) = saves w @ [(path, if c = Undef then d else c)] \<and>
         (cache (js_str path) = Some c \<or> (\<exists>q. js_str q = js_str path \<and> (q, c) \<in> set (saves w))))"
proof -
  have "in_step (editor_visit cache)" "cache_saved cache (editor_visit cache)"
    by (simp_all add: in_step_def cache_saved_def editor_visit_def editor_init_def getBaseFileStoreState_def)
  then have "in_step w" "cache_saved cache w" using steps_in_step cache_saved_steps assms(1) by blast+
  then show ?thesis
    using assms(2-4)
    by (intro exI [of _ "fileContent (files w)"])
      (auto simp: in_step_def cache_saved_def onSaveFile_def saveActiveFile_def fileContent_getter_def active_def Let_def
        split: option.split)
qed

definition example_file :: "string \<Rightarrow> jobj" where
  "example_file p = [(''path'', Str p)]"

lemma commit_active:
  "activeFileNavItem (files (commit_file shown m w)) =
     (case m of SetActiveFileNavItem x \<Rightarrow> x | ResetActiveFileNavItem \<Rightarrow> Undef | _ \<Rightarrow> activeFileNavItem (files w))"
  by (cases m) (simp_all add: commit_file_def set_value_def Let_def)

lemma commit_buffer:
  "buffer (commit_file shown m w) =
     (let t = editor_text (shown (mutate_file m (files w))) in
      if editor_text (shown (files w)) \<noteq> t then t else buffer w)"
  by (simp add: commit_file_def set_value_def Let_def)

lemma commit_content:
  "fileContent (files (commit_file shown m w)) =
     (let f = mutate_file m (files w); t = editor_text (shown f) in
      if editor_text (shown (files w)) \<noteq> t \<and> buffer w \<noteq> t \<and> truthy (activeFileNavItem f) then Str t else fileContent f)"
  by (simp add: commit_file_def set_value_def Let_def active_def)

lemmas editor_eval =
  editor_defs Let_def active_def example_file_def editor_init_def getBaseFileStoreState_def tab_at_def
  commit_active commit_cache commit_buffer commit_content fileContent_getter_def

lemma dbClick_parts:
  "activeFileNavItem (files (onNavItemDbClick shown item w)) = Obj item"
  "saves (onNavItemDbClick shown item w) = saves w"
  by (simp_all add: onNavItemDbClick_def updateTabs_def openFile_def commit_active Let_def)

text \<open>Two edits with a save by the key between them: the key then saves the second, the page the first.\<close>

theorem file_tab_saves_buffer_witness:
  "\<exists>d. editor_text d = ''x=2'' \<and>
    saves (editor_step fileContent SaveKey (fold (editor_step fileContent)
      [NavDbClick (example_file ''/a''), Types ''x=2''] (editor_visit [''/a'' \<mapsto> Str ''x=1'']))) = [(Str ''/a'', d)] \<and>
    saves (editor_step fileContent PageSaved (fold (editor_step fileContent)
      [NavDbClick (example_file ''/a''), Types ''x=2''] (editor_visit [''/a'' \<mapsto> Str ''x=1'']))) = [(Str ''/a'', Str ''x=1'')]"
proof -
  define w1 where "w1 = editor_step fileContent (NavDbClick (example_file ''/a'')) (editor_visit [''/a'' \<mapsto> Str ''x=1''])"
  have w1: "activeFileNavItem (files w1) = Obj (example_file ''/a'')" "saves w1 = []"
    "editorFileContentCache (files w1) = [''/a'' \<mapsto> Str ''x=1'']"
    unfolding w1_def by (simp_all add: dbClick_parts)
      (simp_all add: editor_visit_def editor_init_def onNavItemDbClick_def openFile_def commit_cache Let_def)
  define w where "w = fold (editor_step fileContent) [NavDbClick (example_file ''/a''), Types ''x=2''] (editor_visit [''/a'' \<mapsto> Str ''x=1''])"
  have w: "w = editor_step fileContent (Types ''x=2'') w1" by (simp add: w_def w1_def)
  have "active w = Obj (example_file ''/a'')" "buffer w = ''x=2''" "saves w = []"
    "editorFileContentCache (files w) = [''/a'' \<mapsto> Str ''x=1'']"
    unfolding w using w1 by (simp_all add: onContentChange_def active_def commit_active commit_buffer commit_cache Let_def)
  note w_facts = this
  have act: "truthy (active w)" "Str ''/a'' = js_get_opt (active w) ''path''" "truthy (Str ''/a'')"
    unfolding w_facts by (simp_all add: example_file_def)
  show ?thesis
    using file_tab_saves_buffer [OF w_def act] w_facts unfolding w_def [symmetric] by auto
qed

section \<open>The tabs\<close>

definition tabs_ok :: "editor_state \<Rightarrow> bool" where
  "tabs_ok w \<longleftrightarrow>
     distinct (map (\<lambda>t. oget t ''path'') (tabs w)) \<and>
     (tabs w = [] \<longleftrightarrow> \<not> truthy (active w)) \<and>
     (truthy (active w) \<longrightarrow> js_get_opt (active w) ''path'' \<in> (\<lambda>t. oget t ''path'') ` set (tabs w))"

text \<open>
  The tabs that can be clicked or closed are those shown, and dragging permutes them. A visit has the
  events so far.
\<close>

fun editor_allowed :: "editor_event \<Rightarrow> editor_state \<Rightarrow> bool" where
  "editor_allowed (TabClick tab) w = (tab \<in> set (tabs w))"
| "editor_allowed (TabClose tab) w = (tab \<in> set (tabs w))"
| "editor_allowed (TabCloseOthers tab) w = (tab \<in> set (tabs w))"
| "editor_allowed (TabDragEnd ts) w = (mset ts = mset (tabs w))"
| "editor_allowed _ w = True"

inductive editor_reach :: "(file_state \<Rightarrow> js) \<Rightarrow> editor_event list \<Rightarrow> editor_state \<Rightarrow> bool" for shown where
  reach_init: "editor_reach shown [] (editor_visit cache)"
| reach_step: "editor_reach shown es w \<Longrightarrow> editor_allowed e w \<Longrightarrow> editor_reach shown (es @ [e]) (editor_step shown e w)"

text \<open>The events that make a file active, or none.\<close>

fun activates :: "editor_event \<Rightarrow> bool" where
  "activates (NavDbClick item) = True"
| "activates (TabClick tab) = True"
| "activates (TabCloseOthers tab) = True"
| "activates TabCloseAll = True"
| "activates _ = False"

lemma set_value_tabs [simp]: "tabs (set_value t w) = tabs w" "active (set_value t w) = active w"
  by (simp_all add: set_value_def active_def)

lemma tabs_ok_same: "tabs w' = tabs w \<Longrightarrow> active w' = active w \<Longrightarrow> tabs_ok w' = tabs_ok w"
  by (simp add: tabs_ok_def)

lemma open_tab_ok:
  assumes "distinct (map (\<lambda>t. oget t ''path'') (tabs w))"
    and "tabs_ok w \<or> activeFileNavItem (files w) = Obj item"
  shows "tabs_ok (updateTabs shown item w)"
proof (cases "\<exists>t \<in> set (tabs w). oget t ''path'' = oget item ''path''")
  case True
  then have "oget item ''path'' \<in> (\<lambda>t. oget t ''path'') ` set (tabs w)" by (simp add: image_iff) metis
  with True assms show ?thesis by (auto simp: updateTabs_def tabs_ok_def active_def)
next
  case False
  then show ?thesis using assms
    by (auto simp: updateTabs_def Let_def tabs_ok_def active_def commit_active)
qed

lemma distinct_without: "distinct (map f xs) \<Longrightarrow> distinct (map f (take i xs @ drop (Suc i) xs))"
proof -
  assume "distinct (map f xs)"
  then have "distinct (map f (take i xs @ drop i xs))" by simp
  then show ?thesis by (cases "drop i xs") (auto simp: drop_Suc simp flip: tl_drop)
qed

lemma nth_other:
  assumes "distinct (map f xs)" "i < length xs" "y \<in> set xs" "f y \<noteq> f (xs ! i)"
  shows "y \<in> set (take i xs @ drop (Suc i) xs)"
proof -
  have "y \<in> set (take i xs @ xs ! i # drop (Suc i) xs)" using assms(2,3) by (simp flip: id_take_nth_drop)
  then show ?thesis using assms(4) by auto
qed

lemma closeTab_ok:
  assumes ok: "tabs_ok w"
  shows "tabs_ok (closeTab shown tab w)"
proof (cases "find_index (\<lambda>t. oget t ''path'' = oget tab ''path'') (tabs w)")
  case None
  then have "\<not> (truthy (active w) \<and> js_get_opt (active w) ''path'' = oget tab ''path'')"
    using ok by (auto simp: find_index_None tabs_ok_def)
  then have "closeTab shown tab w = w" using None by (cases "truthy (active w)") (auto simp: closeTab_def Let_def)
  then show ?thesis using ok by simp
next
  case (Some i)
  note i = find_index_Some [OF Some]
  let ?ts = "take i (tabs w) @ drop (Suc i) (tabs w)"
  have d: "distinct (map (\<lambda>t. oget t ''path'') ?ts)" using ok by (simp add: tabs_ok_def distinct_without del: map_append)
  have act: "truthy (active w)" "js_get_opt (active w) ''path'' \<in> (\<lambda>t. oget t ''path'') ` set (tabs w)"
    using ok i by (auto simp: tabs_ok_def)
  show ?thesis
  proof (cases "js_get_opt (active w) ''path'' = oget tab ''path''")
    case True
    let ?x = "case i of 0 \<Rightarrow> tab_at ?ts 0 | Suc j \<Rightarrow> tab_at ?ts j"
    have eq: "closeTab shown tab w = commit_file shown (SetActiveFileNavItem ?x) (w\<lparr>tabs := ?ts\<rparr>)"
      using True Some act(1) by (auto simp: closeTab_def Let_def active_def split: nat.split)
    have "if ?ts = [] then ?x = Undef else \<exists>t \<in> set ?ts. ?x = Obj t"
    proof (cases i)
      case 0
      then show ?thesis by (cases ?ts) (auto simp: tab_at_def)
    next
      case (Suc j)
      then have "j < length ?ts" using i by auto
      then have "?x = Obj (?ts ! j)" "?ts ! j \<in> set ?ts" using Suc by (simp_all only: tab_at_def nat.case if_True nth_mem)
      then show ?thesis using Suc i by auto
    qed
    then show ?thesis using d by (auto simp: eq tabs_ok_def active_def commit_active split: if_splits)
  next
    case False
    have eq: "closeTab shown tab w = w\<lparr>tabs := ?ts\<rparr>"
      using False Some by (simp add: closeTab_def Let_def active_def)
    obtain t where t: "t \<in> set (tabs w)" "oget t ''path'' = js_get_opt (active w) ''path''" using act(2) by auto
    then have t': "t \<in> set ?ts"
      using nth_other [of "\<lambda>t. oget t ''path''" "tabs w" i t] ok i False by (simp add: tabs_ok_def)
    then have "js_get_opt (active w) ''path'' \<in> (\<lambda>t. oget t ''path'') ` set ?ts"
      unfolding t(2) [symmetric] by (rule imageI)
    moreover have "?ts \<noteq> []" using t' by (metis empty_iff list.set(1))
    ultimately show ?thesis using d act(1) unfolding eq tabs_ok_def
      by (simp add: active_def del: map_append set_append append_is_Nil_conv)
  qed
qed

lemma step_tabs_ok:
  "tabs_ok w \<Longrightarrow> editor_allowed e w \<Longrightarrow> (\<And>item. e \<noteq> UploadFiles item) \<Longrightarrow> tabs_ok (editor_step shown e w)"
proof (cases e)
  case (TabDragEnd ts)
  assume "tabs_ok w" "editor_allowed e w"
  then have "mset (map (\<lambda>t. oget t ''path'') ts) = mset (map (\<lambda>t. oget t ''path'') (tabs w))" "set ts = set (tabs w)"
    "ts = [] \<longleftrightarrow> tabs w = []"
    using mset_eq_setD [of ts "tabs w"] by (auto simp: TabDragEnd)
  then show ?thesis using \<open>tabs_ok w\<close> mset_eq_imp_distinct_iff [of "map (\<lambda>t. oget t ''path'') ts"]
    by (auto simp: TabDragEnd tabs_ok_def active_def)
next
  case (NavDbClick item)
  assume ok: "tabs_ok w"
  then have d: "distinct (map (\<lambda>t. oget t ''path'') (tabs w))" by (simp add: tabs_ok_def)
  show ?thesis
    unfolding NavDbClick editor_step.simps onNavItemDbClick_def Let_def
    by (rule open_tab_ok) (simp_all add: d openFile_def commit_active)
next
  case (FileAnswer r data)
  assume ok: "tabs_ok w"
  let ?w = "commit_file shown (SetFileContent data) (w\<lparr>awaited := remove1 r (awaited w)\<rparr>)"
  have ok': "tabs_ok ?w" using ok by (simp add: tabs_ok_def active_def commit_active)
  then have "tabs_ok (updateTabs shown item ?w)" for item
    by (intro open_tab_ok) (simp_all add: tabs_ok_def)
  then show ?thesis using ok ok' by (simp add: FileAnswer getFile_done_def Let_def split: option.split)
next
  case (TabClose tab)
  assume "tabs_ok w"
  then show ?thesis by (simp add: TabClose closeTab_ok)
qed (auto simp: tabs_ok_def onContentChange_def update_timer_def openFile_def openFile_info_def getFile_def
    onTabClick_def onTabCloseOthers_def onTabCloseAll_def onSaveFile_def onSaveFile_done_def saveActiveFile_def
    onContextMenuNewFile_def active_def commit_active set_value_def Let_def split: js.split)

text \<open>
  Uploading to a directory makes it the active item without a tab. Until another file is made active
  the tabs are still distinct, and nothing else is active.
\<close>

definition tabs_distinct :: "editor_state \<Rightarrow> bool" where
  "tabs_distinct w \<longleftrightarrow> distinct (map (\<lambda>t. oget t ''path'') (tabs w))"

lemma distinct_same: "tabs w' = tabs w \<Longrightarrow> tabs_distinct w \<Longrightarrow> tabs_distinct w'"
  by (simp add: tabs_distinct_def)

lemma activates_ok:
  assumes "tabs_distinct w" "editor_allowed e w" "activates e"
  shows "tabs_ok (editor_step shown e w)"
proof (cases e)
  case (NavDbClick item)
  show ?thesis
    unfolding NavDbClick editor_step.simps onNavItemDbClick_def Let_def
    using assms(1) by (intro open_tab_ok) (simp_all add: tabs_distinct_def openFile_def commit_active)
next
  case (TabClick tab)
  then show ?thesis using assms(1,2)
    by (auto simp: onTabClick_def getFile_def tabs_ok_def tabs_distinct_def active_def commit_active)
qed (use assms(3) in \<open>simp_all add: onTabCloseOthers_def onTabCloseAll_def tabs_ok_def active_def commit_active\<close>)

lemma stray_updateTabs:
  assumes "tabs_distinct w"
  shows "tabs_distinct (updateTabs shown item w) \<and>
    (tabs_ok (updateTabs shown item w) \<or> active (updateTabs shown item w) = active w)"
proof (cases "tabs w = []")
  case True
  then show ?thesis by (simp add: updateTabs_def tabs_distinct_def tabs_ok_def active_def commit_active Let_def)
next
  case False
  then show ?thesis using assms by (auto simp: updateTabs_def tabs_distinct_def active_def Let_def)
qed

lemma stray_closeTab:
  assumes "tabs_distinct w" "tab \<in> set (tabs w)" "truthy (active w)"
  shows "tabs_ok (closeTab shown tab w) \<or>
    tabs_distinct (closeTab shown tab w) \<and> active (closeTab shown tab w) = active w"
proof (cases "js_get_opt (active w) ''path'' = oget tab ''path''")
  case True
  then have "tabs_ok w" using assms by (auto simp: tabs_ok_def tabs_distinct_def)
  then show ?thesis by (blast intro: closeTab_ok)
next
  case False
  then show ?thesis
    using assms(1) distinct_without [of "\<lambda>t. oget t ''path''" "tabs w"]
    by (auto simp: closeTab_def tabs_distinct_def active_def Let_def simp del: map_append split: option.split)
qed

lemma stray_step:
  assumes "tabs_distinct w" "truthy (active w)" "editor_allowed e w" "\<not> activates e" "\<And>item. e \<noteq> UploadFiles item"
  shows "tabs_ok (editor_step shown e w) \<or>
    tabs_distinct (editor_step shown e w) \<and> active (editor_step shown e w) = active w"
proof (cases e)
  case (FileAnswer r data)
  let ?w = "commit_file shown (SetFileContent data) (w\<lparr>awaited := remove1 r (awaited w)\<rparr>)"
  have "tabs_distinct ?w" "active ?w = active w" using assms(1) by (simp_all add: tabs_distinct_def active_def commit_active)
  then show ?thesis
    using stray_updateTabs [of ?w shown] assms(1) by (auto simp: FileAnswer getFile_done_def Let_def split: option.split)
next
  case (TabClose tab)
  then show ?thesis using stray_closeTab [OF assms(1) _ assms(2)] assms(3) by simp
next
  case (TabDragEnd ts)
  then have "mset (map (\<lambda>t. oget t ''path'') ts) = mset (map (\<lambda>t. oget t ''path'') (tabs w))" using assms(3) by simp
  then show ?thesis
    using assms(1) mset_eq_imp_distinct_iff [of "map (\<lambda>t. oget t ''path'') ts" "map (\<lambda>t. oget t ''path'') (tabs w)"]
    by (simp add: TabDragEnd tabs_distinct_def active_def del: mset_map)
qed (use assms in \<open>auto simp: tabs_distinct_def onContentChange_def update_timer_def openFile_def openFile_info_def
    onSaveFile_def onSaveFile_done_def saveActiveFile_def onContextMenuNewFile_def active_def commit_active set_value_def
    Let_def split: js.split\<close>)

lemma reach_tabs:
  "editor_reach shown es w \<Longrightarrow>
   tabs_ok w \<or> tabs_distinct w \<and> (\<exists>xs item ys. es = xs @ UploadFiles item # ys \<and> list_all (\<lambda>e. \<not> activates e) ys \<and> active w = Obj item)"
proof (induction rule: editor_reach.induct)
  case (reach_init cache)
  then show ?case by (simp add: tabs_ok_def editor_visit_def editor_init_def active_def getBaseFileStoreState_def)
next
  case (reach_step es w e)
  have d: "tabs_distinct w" using reach_step.IH by (auto simp: tabs_ok_def tabs_distinct_def)
  consider item where "e = UploadFiles item" | "\<And>item. e \<noteq> UploadFiles item" "activates e"
    | "\<And>item. e \<noteq> UploadFiles item" "\<not> activates e" by (metis activates.simps)
  then show ?case
  proof cases
    case (1 item)
    then have "active (editor_step shown e w) = Obj item" "tabs_distinct (editor_step shown e w)"
      using d by (simp_all add: onContextMenuUploadFiles_def active_def commit_active tabs_distinct_def)
    then show ?thesis using 1 by (intro disjI2 conjI exI [of _ es] exI [of _ item] exI [of _ "[]"]) simp_all
  next
    case 2
    then show ?thesis using activates_ok [OF d reach_step.hyps(2)] by blast
  next
    case 3
    show ?thesis
    proof (cases "tabs_ok w")
      case True
      then show ?thesis using step_tabs_ok [OF True reach_step.hyps(2)] 3(1) by blast
    next
      case False
      then obtain xs item ys where i: "es = xs @ UploadFiles item # ys" "list_all (\<lambda>e. \<not> activates e) ys" "active w = Obj item"
        using reach_step.IH by blast
      then have "truthy (active w)" by simp
      from stray_step [OF d this reach_step.hyps(2) 3(2) 3(1), of shown] i(3)
      have "tabs_ok (editor_step shown e w) \<or>
        tabs_distinct (editor_step shown e w) \<and> active (editor_step shown e w) = Obj item" by simp
      moreover have "es @ [e] = xs @ UploadFiles item # (ys @ [e])" "list_all (\<lambda>e. \<not> activates e) (ys @ [e])"
        using i 3(2) by simp_all
      ultimately show ?thesis by blast
    qed
  qed
qed

text \<open>
  C29: During a visit no file is open in two tabs, whatever is clicked, opened, dragged and closed. A
  file is active if and only if some tab is open, and the active file is one of the open tabs, also
  after the active tab or other tabs are closed or dragged, with one exception: choosing to upload
  files makes the chosen item active, with a tab or not, and it stays so at most until a file is double
  clicked, a tab is clicked, or the other tabs or all tabs are closed, each of which leads back.
\<close>

theorem file_tabs_consistent:
  assumes "editor_reach shown es w"
  shows "distinct (map (\<lambda>t. oget t ''path'') (tabs w)) \<and>
    ((tabs w = [] \<longleftrightarrow> \<not> truthy (active w)) \<and>
     (tabs w \<noteq> [] \<longrightarrow> js_get_opt (active w) ''path'' \<in> (\<lambda>t. oget t ''path'') ` set (tabs w)) \<or>
     (\<exists>xs item ys. es = xs @ UploadFiles item # ys \<and> list_all (\<lambda>e. \<not> activates e) ys \<and> active w = Obj item))"
  using reach_tabs [OF assms] by (auto simp: tabs_ok_def tabs_distinct_def)

theorem file_tabs_consistent_witness:
  "tabs (editor_step fileContent (NavDbClick (example_file ''/a'')) (editor_visit Map.empty)) = [] \<longleftrightarrow>
   \<not> truthy (active (editor_step fileContent (NavDbClick (example_file ''/a'')) (editor_visit Map.empty)))"
  using file_tabs_consistent [OF reach_step [OF reach_init, of "NavDbClick (example_file ''/a'')" Map.empty fileContent]]
  by (auto simp: Cons_eq_append_conv)

section \<open>Where the editor loses text\<close>

text \<open>
  On the page of a git repository the text shown comes from the cache once the file was saved, so
  the editor of a saved file can change while the property cannot: the next save sends the text of
  the save before.
\<close>

lemma git_save_after_save:
  assumes "active w = Obj item" "oget item ''path'' = Str p" "p \<noteq> []"
    and "editorFileContentCache (files w) p = Some (Str old)"
  shows "buffer (editor_step fileContent_getter (Types new) w) = new \<and>
    saves (editor_step fileContent_getter SaveKey (editor_step fileContent_getter (Types new) w)) =
      saves w @ [(Str p, Str old)]"
  using assms
  by (simp add: onContentChange_def onSaveFile_def active_def commit_active commit_buffer commit_cache
      fileContent_getter_def Let_def)

text \<open>
  On the page of a spider the key to save works, but the save of the page takes the text from the
  cache, and so writes back the text of the last save by the key.
\<close>

lemma page_save_reverts:
  assumes "active w = Obj item" "oget item ''path'' = Str p" "p \<noteq> []"
    and "editorFileContentCache (files w) p = Some (Str old)"
  shows "buffer (editor_step fileContent (Types new) w) = new \<and>
    saves (editor_step fileContent PageSaved (editor_step fileContent (Types new) w)) = saves w @ [(Str p, Str old)]"
  using assms
  by (simp add: onContentChange_def saveActiveFile_def active_def commit_active commit_buffer commit_cache
      fileContent_getter_def Let_def)

text \<open>
  The text of a file that is opened in a new tab replaces the text of the active file, which stays
  active: after a new, empty file was created, the key to save empties the active file.
\<close>

lemma opening_overwrites_active:
  assumes "active w = Obj item" "oget item ''path'' = Str p" "p \<noteq> []" "tabs w \<noteq> []"
    and "(path, Some new) \<in> set (awaited w)" and "in_step w" and "buffer w \<noteq> []"
  shows "saves (editor_step fileContent SaveKey (editor_step fileContent (FileAnswer (path, Some new) (Str [])) w)) =
    saves w @ [(Str p, Str [])]"
  using assms
  by (simp add: getFile_done_def updateTabs_def onSaveFile_def active_def commit_active commit_content in_step_def Let_def)

text \<open>
  The texts of two files whose answers come in the other order: the text of the first file is shown,
  and saved, as the text of the second.
\<close>

lemma late_answer_saved:
  assumes "active w = Obj item" "oget item ''path'' = Str p" "p \<noteq> []"
    and "(other, None) \<in> set (awaited w)" and "in_step w" and "buffer w \<noteq> t"
  shows "saves (editor_step fileContent SaveKey (editor_step fileContent (FileAnswer (other, None) (Str t)) w)) =
    saves w @ [(Str p, Str t)]"
  using assms
  by (simp add: getFile_done_def onSaveFile_def active_def commit_active commit_content in_step_def Let_def)

end
