(* ===== verification/UI_Stats.thy ===== *)
theory UI_Stats
  imports Hub_JS "HOL-Library.List_Lexorder" "HOL-Library.Char_ord"
begin

text \<open>
  \<^verbatim>\<open>utils/stats.ts\<close>: filling the gaps in daily statistics.

  A date is a day number. The library dayjs is a parameter: \<open>fmt\<close> is the format \<^verbatim>\<open>YYYY-MM-DD\<close> of a
  day, and adding a day is adding one. The loop compares formatted dates as strings; it ends only
  if that order follows the days, so it is a partial function.
\<close>

definition DEFAULT_DATE_FORMAT :: string where
  "DEFAULT_DATE_FORMAT = ''YYYY-MM-DD''"

definition date_cache :: "string \<Rightarrow> jobj list \<Rightarrow> js \<Rightarrow> jobj option" where
  "date_cache key data = fold (\<lambda>d m. m(oget d key \<mapsto> d)) data Map.empty"

definition date_item :: "(int \<Rightarrow> string) \<Rightarrow> string \<Rightarrow> (js \<Rightarrow> jobj option) \<Rightarrow> int \<Rightarrow> jobj" where
  "date_item fmt key cache date =
     aset key (Str (fmt date)) (case cache (Str (fmt date)) of None \<Rightarrow> [] | Some item \<Rightarrow> item)"

partial_function (option) span_from ::
    "(int \<Rightarrow> string) \<Rightarrow> string \<Rightarrow> (js \<Rightarrow> jobj option) \<Rightarrow> int \<Rightarrow> string \<Rightarrow> jobj list option" where
  "span_from fmt key cache date last_text =
     (if fmt date \<le> last_text
      then Option.bind (span_from fmt key cache (date + 1) last_text)
             (\<lambda>rs. Some (date_item fmt key cache date # rs))
      else Some [])"

definition spanDateRange :: "(int \<Rightarrow> string) \<Rightarrow> int \<Rightarrow> int \<Rightarrow> jobj list \<Rightarrow> string option \<Rightarrow> jobj list option" where
  "spanDateRange fmt start finish data dateKey =
     (let key = (case dateKey of None \<Rightarrow> ''date'' | Some k \<Rightarrow> if k = [] then ''date'' else k)
      in span_from fmt key (date_cache key data) start (fmt finish))"

text \<open>The format follows the days from \<open>a\<close> to the day after \<open>b\<close>, or tells that \<open>a\<close> is after \<open>b\<close>.\<close>

definition ordered_format :: "(int \<Rightarrow> string) \<Rightarrow> int \<Rightarrow> int \<Rightarrow> bool" where
  "ordered_format fmt a b \<longleftrightarrow> (\<forall>d. a \<le> d \<and> (d \<le> b + 1 \<or> d = a) \<longrightarrow> (fmt d \<le> fmt b \<longleftrightarrow> d \<le> b))"

lemma span_from_days:
  assumes "\<And>d. a \<le> d \<Longrightarrow> d \<le> b + 1 \<Longrightarrow> fmt d \<le> fmt b \<longleftrightarrow> d \<le> b" and "a \<le> b + 1"
  shows "span_from fmt key cache a (fmt b) = Some (map (\<lambda>i. date_item fmt key cache (a + int i)) [0..<nat (b + 1 - a)])"
  using assms
proof (induction "nat (b + 1 - a)" arbitrary: a)
  case 0
  then have "a = b + 1" by simp
  then have "\<not> fmt a \<le> fmt b" using 0 by simp
  then show ?case using 0 by (subst span_from.simps) simp
next
  case (Suc n)
  then have "a \<le> b" by simp
  then have le: "fmt a \<le> fmt b" using Suc.prems by simp
  have n: "nat (b + 1 - a) = Suc (nat (b + 1 - (a + 1)))" using \<open>a \<le> b\<close> by simp
  have "span_from fmt key cache (a + 1) (fmt b) =
      Some (map (\<lambda>i. date_item fmt key cache (a + 1 + int i)) [0..<nat (b + 1 - (a + 1))])"
    using Suc.hyps(2) Suc.prems \<open>a \<le> b\<close> by (intro Suc.hyps(1)) simp_all
  then show ?case using le
    by (subst span_from.simps) (simp add: n upt_conv_Cons del: upt_Suc flip: map_Suc_upt, simp add: ac_simps)
qed

lemma find_append: "find P (xs @ ys) = (case find P xs of None \<Rightarrow> find P ys | Some x \<Rightarrow> Some x)"
  by (induction xs) auto

lemma date_cache_find: "date_cache key data k = find (\<lambda>d. oget d key = k) (rev data)"
proof -
  have "fold (\<lambda>d m. m(oget d key \<mapsto> d)) data m k =
      (case find (\<lambda>d. oget d key = k) (rev data) of None \<Rightarrow> m k | Some d \<Rightarrow> Some d)" for m
    by (induction data arbitrary: m) (auto simp: find_append split: option.split)
  then show ?thesis by (auto simp: date_cache_def split: option.split)
qed

text \<open>
  C30: The loop over the days ends, whenever the format follows the days, and the result has one entry
  for every day from the first to the last, in order and no other: the last of the given entries for
  that day with all its values, or an entry that has only the date. If the last day is before the first the
  result is empty.
\<close>

theorem dates_spanned:
  assumes "ordered_format fmt start finish"
    and "key = (case dateKey of None \<Rightarrow> ''date'' | Some k \<Rightarrow> if k = [] then ''date'' else k)"
  shows "\<exists>rs. spanDateRange fmt start finish data dateKey = Some rs \<and>
    length rs = nat (finish + 1 - start) \<and>
    (\<forall>i < length rs. oget (rs ! i) key = Str (fmt (start + int i)) \<and>
      (\<forall>k. k \<noteq> key \<longrightarrow> oget (rs ! i) k =
        (case find (\<lambda>d. oget d key = Str (fmt (start + int i))) (rev data) of None \<Rightarrow> Undef | Some d \<Rightarrow> oget d k)))"
proof (cases "start \<le> finish + 1")
  case True
  then show ?thesis
    using span_from_days [of start finish fmt key "date_cache key data"] assms
    by (auto simp: spanDateRange_def ordered_format_def Let_def date_item_def date_cache_find split: option.split)
next
  case False
  then have "\<not> fmt start \<le> fmt finish" using assms(1) by (simp add: ordered_format_def)
  then have "span_from fmt k cache start (fmt finish) = Some []" for k cache
    by (subst span_from.simps) simp
  then show ?thesis using False by (simp add: spanDateRange_def Let_def)
qed

text \<open>A format for the examples, of the days from 2 to 5.\<close>

definition digit_format :: "int \<Rightarrow> string" where
  "digit_format d = (if d \<le> 2 then ''2'' else if d = 3 then ''3'' else if d = 4 then ''4'' else ''5'')"

theorem dates_spanned_witness:
  "\<exists>rs. spanDateRange digit_format 2 4 [[(''date'', Str ''3''), (''tasks'', Num 7)]] None = Some rs \<and> length rs = 3 \<and>
    oget (rs ! 0) ''date'' = Str ''2'' \<and> oget (rs ! 1) ''tasks'' = Num 7 \<and> oget (rs ! 2) ''tasks'' = Undef"
proof -
  have "ordered_format digit_format 2 4"
    unfolding ordered_format_def
  proof (intro allI impI)
    fix d :: int assume "2 \<le> d \<and> (d \<le> 4 + 1 \<or> d = 2)"
    then have "d = 2 \<or> d = 3 \<or> d = 4 \<or> d = 5" by auto
    then show "digit_format d \<le> digit_format 4 \<longleftrightarrow> d \<le> 4"
      by (auto simp: digit_format_def less_eq_char_def less_char_def)
  qed
  from dates_spanned [OF this refl, of "[[(''date'', Str ''3''), (''tasks'', Num 7)]]" None]
  obtain rs where rs: "spanDateRange digit_format 2 4 [[(''date'', Str ''3''), (''tasks'', Num 7)]] None = Some rs" "length rs = 3"
    and all: "\<forall>i < length rs. oget (rs ! i) ''date'' = Str (digit_format (2 + int i)) \<and>
      (\<forall>k. k \<noteq> ''date'' \<longrightarrow> oget (rs ! i) k =
        (case find (\<lambda>d. oget d ''date'' = Str (digit_format (2 + int i))) (rev [[(''date'', Str ''3''), (''tasks'', Num 7)]])
         of None \<Rightarrow> Undef | Some d \<Rightarrow> oget d k))"
    by auto
  have "oget (rs ! 0) ''date'' = Str ''2''" "oget (rs ! 1) ''tasks'' = Num 7" "oget (rs ! 2) ''tasks'' = Undef"
    using all rs(2) by (simp_all add: digit_format_def)
  then show ?thesis using rs by blast
qed

text \<open>
  When the last day is not a date, its format \<^verbatim>\<open>Invalid Date\<close> is after every format of a day, as a
  capital letter is after every digit, and the loop does not end.
\<close>

lemma invalid_end_hangs:
  assumes "\<And>d. a \<le> d \<Longrightarrow> fmt d \<le> last_text"
  shows "span_from fmt key cache a last_text = None"
proof -
  have "\<not> (a \<le> d \<and> fmt' = fmt \<and> txt' = last_text)" if "span_from fmt' key' cache' d txt' = Some r" for fmt' key' cache' d txt' r
    by (rule span_from.raw_induct [of "\<lambda>fmt' key' cache' d txt' r. \<not> (a \<le> d \<and> fmt' = fmt \<and> txt' = last_text)", OF _ that])
      (use assms in \<open>fastforce split: if_splits option.splits bind_splits\<close>)
  then show ?thesis by fastforce
qed

end
