(* ===== verification/UI_Table.thy ===== *)
theory UI_Table
  imports UI_Store
begin

text \<open>
  The editor of database tables: \<^verbatim>\<open>utils/database.ts\<close>, the tabs of columns, indexes and rows
  (\<^verbatim>\<open>components/core/database/tables\<close>) and the page around them (\<^verbatim>\<open>DatabaseTableDetail.vue\<close>).

  A table that is edited is a copy of the table of the server; each column, index and row is new,
  updated, deleted or as it was, by its \<open>status\<close> or by comparison. A commit of the rows sends one
  operation per row that is not as it was (\<open>commit_rows\<close>); what these operations do to the rows of
  the server is in \<^verbatim>\<open>UI_Table_Edit\<close>. \<open>number\<close>, the conversion of a text to a number, is a
  parameter, as the values here have no fractions.
\<close>

section \<open>Tables\<close>

record db_table =
  t_name :: js
  t_columns :: "jobj list option"
  t_indexes :: "jobj list option"

definition own_status :: "jobj \<Rightarrow> bool" where
  "own_status x \<longleftrightarrow> truthy (oget x ''status'') \<and> oget x ''status'' \<noteq> Str ''updated''"

definition same_column :: "jobj \<Rightarrow> jobj \<Rightarrow> bool" where
  "same_column column c \<longleftrightarrow>
     list_all (\<lambda>k. strict_eq (oget column k) (oget c k))
       [''name'', ''type'', ''not_null'', ''default'', ''primary'', ''auto_increment'']"

definition getColumnStatus :: "jobj \<Rightarrow> db_table option \<Rightarrow> js" where
  "getColumnStatus column originalTable =
     (if own_status column then oget column ''status''
      else if (case originalTable of
                 None \<Rightarrow> False
               | Some t \<Rightarrow> (case t_columns t of
                   None \<Rightarrow> False
                 | Some cs \<Rightarrow> list_ex (same_column column) cs))
      then Undef
      else Str ''updated'')"

definition getIndexStatus :: "jobj \<Rightarrow> db_table option \<Rightarrow> js" where
  "getIndexStatus index originalTable =
     (if own_status index then oget index ''status''
      else if (case originalTable of
                 None \<Rightarrow> False
               | Some t \<Rightarrow> (case t_indexes t of
                   None \<Rightarrow> False
                 | Some is' \<Rightarrow> list_ex (\<lambda>i. list_all (\<lambda>k. strict_eq (oget index k) (oget i k)) [''name'', ''type''] \<and>
                     json_stringify (oget index ''columns'') = json_stringify (oget i ''columns'') \<and>
                     strict_eq (oget index ''unique'') (oget i ''unique'')) is'))
      then Undef
      else Str ''updated'')"

definition empty_list :: "js \<Rightarrow> bool" where
  "empty_list v \<longleftrightarrow> (case v of Arr xs \<Rightarrow> xs = [] | _ \<Rightarrow> True)"

definition isValidTable :: "db_table option \<Rightarrow> bool" where
  "isValidTable tbl =
     (case tbl of
        None \<Rightarrow> False
      | Some t \<Rightarrow>
          truthy (t_name t) \<and>
          t_columns t \<noteq> Some [] \<and>
          (case t_columns t of
             None \<Rightarrow> True
           | Some cs \<Rightarrow> list_all (\<lambda>c. truthy (oget c ''name'') \<and> truthy (oget c ''type'')) cs) \<and>
          (case t_indexes t of
             None \<Rightarrow> True
           | Some is' \<Rightarrow> list_all (\<lambda>i. truthy (oget i ''name'') \<and> \<not> empty_list (oget i ''columns'')) is'))"

definition getDefaultIndexName :: "db_table \<Rightarrow> jobj list \<Rightarrow> string" where
  "getDefaultIndexName table columns =
     js_str (t_name table) @ ''_'' @ js_join ''_'' (map (\<lambda>c. oget c ''name'') columns) @ ''_idx''"

section \<open>Editing columns and indexes\<close>

text \<open>\<open>xs.splice(i, n, ...ins)\<close>; a negative start counts from the end.\<close>

definition js_splice :: "int \<Rightarrow> nat \<Rightarrow> 'a list \<Rightarrow> 'a list \<Rightarrow> 'a list" where
  "js_splice start n ins xs =
     (let i = (if start < 0 then nat (int (length xs) + start) else min (nat start) (length xs))
      in take i xs @ ins @ drop (i + n) xs)"

definition index_of :: "js \<Rightarrow> jobj list \<Rightarrow> int" where
  "index_of name xs =
     (case find_index (\<lambda>x. strict_eq (oget x ''name'') name) xs of None \<Rightarrow> -1 | Some i \<Rightarrow> int i)"

definition newColumn :: jobj where
  "newColumn = [(''name'', Str []), (''type'', Str []), (''not_null'', Bool True), (''default'', Str []), (''status'', Str ''new'')]"

definition newIndex :: jobj where
  "newIndex = [(''name'', Str []), (''type'', Str []), (''columns'', Arr []), (''unique'', Bool False), (''status'', Str ''new'')]"

definition insert_at :: "jobj \<Rightarrow> jobj option \<Rightarrow> bool \<Rightarrow> jobj list \<Rightarrow> jobj list" where
  "insert_at x at before xs =
     (case at of
        None \<Rightarrow> xs @ [x]
      | Some y \<Rightarrow> (let idx = index_of (oget y ''name'') xs in
          if before then js_splice idx 0 [x] xs else js_splice (idx + 1) 0 [x] xs))"

definition onAddColumn :: "jobj option \<Rightarrow> bool \<Rightarrow> db_table \<Rightarrow> db_table" where
  "onAddColumn column before t = t\<lparr>t_columns := map_option (insert_at newColumn column before) (t_columns t)\<rparr>"

definition onAddIndex :: "jobj option \<Rightarrow> bool \<Rightarrow> db_table \<Rightarrow> db_table" where
  "onAddIndex index before t = t\<lparr>t_indexes := map_option (insert_at newIndex index before) (t_indexes t)\<rparr>"

text \<open>The row clicked is the \<open>n\<close>-th; its status is changed in place.\<close>

definition set_status :: "js \<Rightarrow> nat \<Rightarrow> jobj list \<Rightarrow> jobj list" where
  "set_status v n xs = (if n < length xs then xs[n := aset ''status'' v (xs ! n)] else xs)"

definition onDeleteColumn :: "nat \<Rightarrow> db_table \<Rightarrow> db_table" where
  "onDeleteColumn n t =
     (case t_columns t of
        None \<Rightarrow> t
      | Some cs \<Rightarrow>
          if n \<ge> length cs then t
          else if oget (cs ! n) ''status'' = Str ''new''
          then t\<lparr>t_columns := Some (js_splice (index_of (oget (cs ! n) ''name'') cs) 1 [] cs)\<rparr>
          else t\<lparr>t_columns := Some (set_status (Str ''deleted'') n cs)\<rparr>)"

definition onRevertColumn :: "nat \<Rightarrow> db_table \<Rightarrow> db_table" where
  "onRevertColumn n t = t\<lparr>t_columns := map_option (set_status Undef n) (t_columns t)\<rparr>"

text \<open>Deleting a new index looks for it among the columns.\<close>

definition onDeleteIndex :: "nat \<Rightarrow> db_table \<Rightarrow> db_table" where
  "onDeleteIndex n t =
     (case t_indexes t of
        None \<Rightarrow> t
      | Some is' \<Rightarrow>
          if n \<ge> length is' then t
          else if oget (is' ! n) ''status'' = Str ''new''
          then (case t_columns t of
                  None \<Rightarrow> t
                | Some cs \<Rightarrow> t\<lparr>t_columns := Some (js_splice (index_of (oget (is' ! n) ''name'') cs) 1 [] cs)\<rparr>)
          else t\<lparr>t_indexes := Some (set_status (Str ''deleted'') n is')\<rparr>)"

definition onRevertIndex :: "nat \<Rightarrow> db_table \<Rightarrow> db_table" where
  "onRevertIndex n t = t\<lparr>t_indexes := map_option (set_status Undef n) (t_indexes t)\<rparr>"

text \<open>A new index that is deleted stays, and the last column of the table is removed instead.\<close>

lemma delete_new_index_drops_column:
  assumes "t_indexes t = Some is'" "n < length is'" "oget (is' ! n) ''status'' = Str ''new''"
    and "t_columns t = Some cs" "\<forall>c \<in> set cs. \<not> strict_eq (oget c ''name'') (oget (is' ! n) ''name'')"
  shows "t_indexes (onDeleteIndex n t) = Some is' \<and> t_columns (onDeleteIndex n t) = Some (butlast cs)"
proof -
  have "index_of (oget (is' ! n) ''name'') cs = -1"
    using assms(5) by (simp add: index_of_def find_index_None split: option.split)
  then show ?thesis
    using assms by (cases cs rule: rev_cases) (simp_all add: onDeleteIndex_def js_splice_def)
qed

text \<open>Deleting a column and reverting that gives back the column, and its status.\<close>

lemma same_column_status: "same_column (aset ''status'' v c) = same_column c"
  by (rule ext) (simp add: same_column_def)

lemma getColumnStatus_cleared:
  "\<not> own_status c \<Longrightarrow> getColumnStatus (aset ''status'' Undef c) orig = getColumnStatus c orig"
  by (auto simp: getColumnStatus_def own_status_def same_column_status split: option.split)

lemma revert_deleted_column:
  assumes "t_columns t = Some cs" "n < length cs" "\<not> own_status (cs ! n)"
  shows "t_columns (onRevertColumn n (onDeleteColumn n t)) = Some (cs[n := aset ''status'' Undef (cs ! n)]) \<and>
    getColumnStatus (aset ''status'' Undef (cs ! n)) orig = getColumnStatus (cs ! n) orig"
proof -
  have "oget (cs ! n) ''status'' \<noteq> Str ''new''" using assms(3) by (auto simp: own_status_def)
  then show ?thesis
    using assms by (simp add: onRevertColumn_def onDeleteColumn_def set_status_def getColumnStatus_cleared)
qed

section \<open>The types of a database\<close>

text \<open>The regular expressions: an alternative without \<open>^\<close> or \<open>$\<close> matches anywhere.\<close>

definition getDataType :: "string \<Rightarrow> string" where
  "getDataType typ =
     (let l = lower typ in
      if starts_with ''int'' l \<or> str_includes ''integer'' l \<or> str_includes ''smallint'' l \<or>
         str_includes ''bigint'' l \<or> str_includes ''tinyint'' l \<or> ends_with ''mediumint'' l then ''number''
      else if starts_with ''float'' l \<or> str_includes ''real'' l \<or> str_includes ''double'' l \<or>
         str_includes ''numeric'' l \<or> str_includes ''decimal'' l then ''number''
      else if starts_with ''bool'' l \<or> ends_with ''bit'' l then ''boolean''
      else if starts_with ''char'' l \<or> str_includes ''text'' l \<or> ends_with ''string'' l then ''string''
      else if l \<in> {''timestamp'', ''datetime'', ''timestamptz''} then ''datetime''
      else if l = ''date'' then ''date''
      else if l = ''time'' then ''string''
      else if l \<in> {''json'', ''jsonb''} then ''object''
      else if l = ''array'' \<or> ends_with ''[]'' l then ''array''
      else if l \<in> {''uuid'', ''uniqueidentifier''} then ''string''
      else if l \<in> {''bytea'', ''blob'', ''binary'', ''varbinary'', ''image''} then ''object''
      else if l \<in> {''long'', ''decimal128''} then ''number''
      else if l = ''objectid'' then ''objectid''
      else if l = ''object'' then ''object''
      else if l = ''isodate'' then ''datetime''
      else ''null'')"

text \<open>\<open>Number(v)\<close>; what is not a number is sent as \<open>null\<close>.\<close>

definition js_Number :: "(string \<Rightarrow> js) \<Rightarrow> js \<Rightarrow> js" where
  "js_Number number v =
     (case v of
        Num n \<Rightarrow> Num n
      | Bool b \<Rightarrow> Num (if b then 1 else 0)
      | Null \<Rightarrow> Num 0
      | Undef \<Rightarrow> Null
      | Str s \<Rightarrow> number s
      | Arr xs \<Rightarrow> number (js_str v)
      | Obj ps \<Rightarrow> number (js_str v))"

definition normalizeDataType :: "(string \<Rightarrow> js) \<Rightarrow> js \<Rightarrow> string \<Rightarrow> thrown + js" where
  "normalizeDataType number v typ =
     (let d = getDataType typ in
      if d = ''number'' then Inr (js_Number number v)
      else if d = ''boolean'' then
        Inr (case v of
               Bool b \<Rightarrow> v
             | Str s \<Rightarrow> Bool (lower s = ''true'' \<or> s = ''1'')
             | _ \<Rightarrow> Bool (truthy v))
      else if d = ''string'' then Inr (Str (js_str v))
      else if d = ''array'' then Inr (case v of Arr xs \<Rightarrow> v | _ \<Rightarrow> Arr [v])
      else if d = ''object'' then
        (case v of
           Null \<Rightarrow> Inr v | Arr xs \<Rightarrow> Inr v | Obj ps \<Rightarrow> Inr v
         | _ \<Rightarrow> json_parse (js_str v))
      else Inr v)"

text \<open>
  The alternatives of the regular expressions are not grouped: an \<^verbatim>\<open>interval\<close> is a number, a
  \<^verbatim>\<open>varchar\<close> has no type. A cell that is emptied is not sent as \<open>null\<close> but as 0, \<open>false\<close> or a text.
\<close>

lemma data_type_examples:
  "getDataType ''interval'' = ''number''" "getDataType ''varchar'' = ''null''" "getDataType ''VARCHAR(255)'' = ''null''"
  "getDataType ''int'' = ''number''" "getDataType ''boolean'' = ''boolean''" "getDataType ''text'' = ''string''"
  by code_simp+

lemma null_is_replaced:
  "normalizeDataType number Null ''int'' = Inr (Num 0)"
  "normalizeDataType number Null ''boolean'' = Inr (Bool False)"
  "normalizeDataType number Null ''text'' = Inr (Str ''null'')"
  by (simp_all add: normalizeDataType_def data_type_examples js_Number_def)

section \<open>Rows\<close>

text \<open>
  \<open>columns\<close> are those of the table of the server, \<open>rows\<close> the rows of the editor and \<open>originals\<close> the
  rows of the server, with their hashes.
\<close>

record data_state =
  columns :: "jobj list"
  rows :: "jobj list"
  originals :: "jobj list"

definition primaryColumnName :: "jobj list \<Rightarrow> js" where
  "primaryColumnName cs = (case find (\<lambda>c. truthy (oget c ''primary'')) cs of None \<Rightarrow> Undef | Some c \<Rightarrow> oget c ''name'')"

definition getRowHash :: "(string \<Rightarrow> string) \<Rightarrow> jobj list \<Rightarrow> jobj \<Rightarrow> js" where
  "getRowHash md5 cs row =
     (if truthy (oget row ''__hash__'') then oget row ''__hash__''
      else if truthy (primaryColumnName cs) then Str (getMd5 md5 (oget row (js_str (primaryColumnName cs))))
      else Str (getMd5 md5 (Obj row)))"

definition original_of :: "(string \<Rightarrow> string) \<Rightarrow> data_state \<Rightarrow> jobj \<Rightarrow> jobj option" where
  "original_of md5 s row =
     find (\<lambda>o'. js_str (getRowHash md5 (columns s) o') = js_str (getRowHash md5 (columns s) row)) (rev (originals s))"

definition getTableData_done :: "(string \<Rightarrow> string) \<Rightarrow> jobj list \<Rightarrow> data_state \<Rightarrow> data_state" where
  "getTableData_done md5 data s =
     (let os = map (\<lambda>row. aset ''__hash__'' (getRowHash md5 (columns s) row) row) data in
      s\<lparr>originals := os, rows := map clone_obj os\<rparr>)"

definition column_names :: "data_state \<Rightarrow> string list" where
  "column_names s = map (\<lambda>c. js_str (oget c ''name'')) (columns s)"

definition getDataRowStatus :: "(string \<Rightarrow> string) \<Rightarrow> data_state \<Rightarrow> jobj \<Rightarrow> js" where
  "getDataRowStatus md5 s row =
     (case original_of md5 s row of
        None \<Rightarrow> Str ''new''
      | Some o' \<Rightarrow>
          if truthy (oget row ''__status__'') then oget row ''__status__''
          else if list_ex (\<lambda>k. json_stringify (oget row k) \<noteq> json_stringify (oget o' k)) (column_names s)
          then Str ''updated'' else Undef)"

definition onAddDataRow :: "(string \<Rightarrow> string) \<Rightarrow> string \<Rightarrow> data_state \<Rightarrow> data_state" where
  "onAddDataRow md5 now s =
     s\<lparr>rows := rows s @ [[(''__hash__'', Str (getMd5 md5 (Str now))), (''__status__'', Str ''new'')]]\<rparr>"

definition setCell :: "nat \<Rightarrow> string \<Rightarrow> js \<Rightarrow> data_state \<Rightarrow> data_state" where
  "setCell n k v s = (if n < length (rows s) then s\<lparr>rows := (rows s)[n := aset k v (rows s ! n)]\<rparr> else s)"

text \<open>
  The selected rows, by their places in the table. A new row is looked for by its hash and removed;
  \<open>es\<close> are the rows that are left with the places they had.
\<close>

definition delete_row ::
    "(string \<Rightarrow> string) \<Rightarrow> data_state \<Rightarrow> nat \<Rightarrow> (nat \<times> jobj) list \<Rightarrow> (nat \<times> jobj) list" where
  "delete_row md5 s i es =
     (let row = rows s ! i; hash = (\<lambda>r. getRowHash md5 (columns s) r) in
      if getDataRowStatus md5 s row = Str ''new''
      then js_splice (case find_index (\<lambda>e. hash (snd e) = hash row) es of None \<Rightarrow> -1 | Some j \<Rightarrow> int j) 1 [] es
      else map (\<lambda>(j, r). (j, if j = i then aset ''__status__'' (Str ''deleted'') r else r)) es)"

definition onDeleteDataRows :: "(string \<Rightarrow> string) \<Rightarrow> nat list \<Rightarrow> data_state \<Rightarrow> data_state" where
  "onDeleteDataRows md5 selected s =
     s\<lparr>rows := map snd (fold (delete_row md5 s) selected (enumerate 0 (rows s)))\<rparr>"

definition rollback :: "data_state \<Rightarrow> data_state" where
  "rollback s = s\<lparr>rows := map clone_obj (originals s)\<rparr>"

definition has_data_changes :: "(string \<Rightarrow> string) \<Rightarrow> data_state \<Rightarrow> bool" where
  "has_data_changes md5 s \<longleftrightarrow> list_ex (\<lambda>r. getDataRowStatus md5 s r \<noteq> Undef) (rows s)"

section \<open>The commit of the rows\<close>

datatype row_op =
    NewRow jobj
  | UpdateRow jobj jobj
  | DeleteRow jobj
  | NoRow

fun op_js :: "row_op \<Rightarrow> js" where
  "op_js (NewRow d) = Obj [(''row'', Obj d), (''status'', Str ''new'')]"
| "op_js (UpdateRow f u) = Obj [(''filter'', Obj f), (''update'', Obj u), (''status'', Str ''updated'')]"
| "op_js (DeleteRow f) = Obj [(''filter'', Obj f), (''status'', Str ''deleted'')]"
| "op_js NoRow = Undef"

fun set_cells ::
    "(string \<Rightarrow> js) \<Rightarrow> (string \<Rightarrow> bool) \<Rightarrow> jobj \<Rightarrow> jobj list \<Rightarrow> jobj \<Rightarrow> thrown + jobj" where
  "set_cells number wanted row [] d = Inr d"
| "set_cells number wanted row (c # cs) d =
     (let k = js_str (oget c ''name'') in
      if \<not> wanted k then set_cells number wanted row cs d
      else (case normalizeDataType number (oget row k) (js_str (oget c ''type'')) of
              Inl e \<Rightarrow> Inl e
            | Inr v \<Rightarrow> set_cells number wanted row cs (aset k v d)))"

definition primary_filter :: "jobj list \<Rightarrow> jobj option \<Rightarrow> thrown + jobj" where
  "primary_filter cs original =
     (if truthy (primaryColumnName cs) then
        (case original of
           None \<Rightarrow> Inl (type_error ''undefined'' (js_str (primaryColumnName cs)))
         | Some o' \<Rightarrow> Inr [(js_str (primaryColumnName cs), oget o' (js_str (primaryColumnName cs)))])
      else Inl (ErrorObj ''Primary column not found''))"

definition row_operation :: "(string \<Rightarrow> string) \<Rightarrow> (string \<Rightarrow> js) \<Rightarrow> data_state \<Rightarrow> jobj \<Rightarrow> thrown + row_op" where
  "row_operation md5 number s row =
     (let status = getDataRowStatus md5 s row; orig = original_of md5 s row in
      if status = Str ''new'' then
        (case set_cells number (\<lambda>k. \<not> nullish (oget row k)) row (columns s) [] of
           Inl e \<Rightarrow> Inl e
         | Inr d \<Rightarrow> Inr (NewRow d))
      else if status = Str ''updated'' then
        (case set_cells number
                (\<lambda>k. \<not> strict_eq (oget row k) (case orig of None \<Rightarrow> Undef | Some o' \<Rightarrow> oget o' k)) row (columns s) [] of
           Inl e \<Rightarrow> Inl e
         | Inr u \<Rightarrow> (case primary_filter (columns s) orig of Inl e \<Rightarrow> Inl e | Inr f \<Rightarrow> Inr (UpdateRow f u)))
      else if status = Str ''deleted'' then
        (case primary_filter (columns s) orig of Inl e \<Rightarrow> Inl e | Inr f \<Rightarrow> Inr (DeleteRow f))
      else Inr NoRow)"

fun map_result :: "('a \<Rightarrow> thrown + 'b) \<Rightarrow> 'a list \<Rightarrow> thrown + 'b list" where
  "map_result f [] = Inr []"
| "map_result f (x # xs) =
     (case f x of
        Inl e \<Rightarrow> Inl e
      | Inr y \<Rightarrow> (case map_result f xs of Inl e \<Rightarrow> Inl e | Inr ys \<Rightarrow> Inr (y # ys)))"

definition commit_rows :: "(string \<Rightarrow> string) \<Rightarrow> (string \<Rightarrow> js) \<Rightarrow> data_state \<Rightarrow> thrown + row_op list" where
  "commit_rows md5 number s =
     map_result (row_operation md5 number s) (filter (\<lambda>r. truthy (getDataRowStatus md5 s r)) (rows s))"

section \<open>The page of a table\<close>

text \<open>
  \<open>nav_table\<close> and \<open>nav_new\<close> are the item selected in the sidebar, \<open>active_table\<close> is the table of the
  server and \<open>internal_table\<close> the one edited. Whenever the table of the server is replaced the edits
  are rolled back. (The time stamp put on each answer, which makes it a new object, is left out.)
\<close>

record table_page =
  nav_table :: "db_table option"
  nav_new :: bool
  active_table :: "db_table option"
  internal_table :: "db_table option"
  tab_name :: string

definition clone_table :: "db_table \<Rightarrow> db_table" where
  "clone_table t = t\<lparr>t_columns := map_option (map clone_obj) (t_columns t), t_indexes := map_option (map clone_obj) (t_indexes t)\<rparr>"

definition page_setup :: "table_page \<Rightarrow> table_page" where
  "page_setup p =
     p\<lparr>active_table := map_option clone_table (nav_table p), internal_table := map_option clone_table (nav_table p)\<rparr>"

definition name_changed :: "table_page \<Rightarrow> table_page" where
  "name_changed p =
     p\<lparr>internal_table := map_option (\<lambda>t. t\<lparr>t_name := (case nav_table p of None \<Rightarrow> Undef | Some u \<Rightarrow> t_name u)\<rparr>) (internal_table p)\<rparr>"

definition resetTable :: "table_page \<Rightarrow> table_page" where
  "resetTable p = p\<lparr>internal_table := map_option clone_table (active_table p)\<rparr>"

definition getTable_done :: "db_table \<Rightarrow> table_page \<Rightarrow> table_page" where
  "getTable_done answer p =
     resetTable (p\<lparr>active_table := (if nav_new p then map_option clone_table (nav_table p) else Some answer)\<rparr>)"

definition set_tab :: "string \<Rightarrow> table_page \<Rightarrow> table_page" where
  "set_tab name p =
     (if name = tab_name p then p
      else if name = ''data'' then resetTable (p\<lparr>tab_name := name\<rparr>)
      else if name \<in> {''columns'', ''indexes''} \<and> \<not> nav_new p then resetTable (p\<lparr>tab_name := name\<rparr>)
      else p\<lparr>tab_name := name\<rparr>)"

definition with_status :: "(jobj \<Rightarrow> js) \<Rightarrow> jobj \<Rightarrow> jobj" where
  "with_status st x = aset ''status'' (st x) x"

definition createTable_body :: "table_page \<Rightarrow> db_table option" where
  "createTable_body p = internal_table p"

definition modifyTable_body :: "table_page \<Rightarrow> db_table option" where
  "modifyTable_body p =
     map_option (\<lambda>t. t\<lparr>
       t_columns := map_option (map (with_status (\<lambda>c. getColumnStatus c (active_table p)))) (t_columns t),
       t_indexes := map_option (map (with_status (\<lambda>i. getIndexStatus i (active_table p)))) (t_indexes t)\<rparr>) (internal_table p)"

datatype page_request = PostRows | CreateTable "db_table option" | ModifyTable "db_table option"

definition onCommit :: "table_page \<Rightarrow> page_request option" where
  "onCommit p =
     (if tab_name p = ''data'' then Some PostRows
      else if tab_name p \<in> {''columns'', ''indexes''}
      then Some (if nav_new p then CreateTable (createTable_body p) else ModifyTable (modifyTable_body p))
      else None)"

definition some_row :: "(jobj \<Rightarrow> bool) \<Rightarrow> jobj list option \<Rightarrow> bool" where
  "some_row P xs \<longleftrightarrow> (case xs of None \<Rightarrow> False | Some ys \<Rightarrow> list_ex P ys)"

definition hasColumnsChange :: "table_page \<Rightarrow> bool" where
  "hasColumnsChange p \<longleftrightarrow>
     (case internal_table p of None \<Rightarrow> False
      | Some t \<Rightarrow> some_row (\<lambda>c. truthy (getColumnStatus c (active_table p))) (t_columns t))"

definition hasIndexesChange :: "table_page \<Rightarrow> bool" where
  "hasIndexesChange p \<longleftrightarrow>
     (case internal_table p of None \<Rightarrow> False
      | Some t \<Rightarrow> some_row (\<lambda>i. truthy (getIndexStatus i (active_table p))) (t_indexes t))"

definition canSave :: "bool \<Rightarrow> table_page \<Rightarrow> bool" where
  "canSave hasDataChange p \<longleftrightarrow>
     isValidTable (internal_table p) \<and> (hasDataChange \<or> hasColumnsChange p \<or> hasIndexesChange p)"

text \<open>After a rollback there is nothing to save: the table edited differs from that of the server in no column and no index.\<close>

definition clean_items :: "jobj list option \<Rightarrow> bool" where
  "clean_items xs \<longleftrightarrow>
     (case xs of None \<Rightarrow> True
      | Some ys \<Rightarrow> list_all (\<lambda>x. plain (Obj x) \<and> oget x ''status'' = Undef \<and>
          list_all (\<lambda>k. strict_eq (oget x k) (oget x k))
            [''name'', ''type'', ''not_null'', ''default'', ''primary'', ''auto_increment'', ''unique'']) ys)"

lemma clean_items_clone: "clean_items xs \<Longrightarrow> map_option (map clone_obj) xs = xs"
  by (cases xs) (auto simp: clean_items_def list_all_iff clone_obj_plain simp del: plain.simps intro!: map_idI)

lemma reset_no_changes:
  assumes "active_table p = Some t" "clean_items (t_columns t)" "clean_items (t_indexes t)"
  shows "\<not> hasColumnsChange (resetTable p) \<and> \<not> hasIndexesChange (resetTable p) \<and> \<not> canSave False (resetTable p)"
proof -
  have t: "active_table (resetTable p) = Some t" "internal_table (resetTable p) = Some t"
    using assms by (simp_all add: resetTable_def clone_table_def clean_items_clone)
  have "getColumnStatus c (Some t) = Undef" if "t_columns t = Some cs" "c \<in> set cs" for c cs
  proof -
    have "same_column c c" "\<not> own_status c"
      using assms(2) that by (auto simp: clean_items_def same_column_def own_status_def list_all_iff)
    then show ?thesis using that by (auto simp: getColumnStatus_def list_ex_iff)
  qed
  moreover have "getIndexStatus i (Some t) = Undef" if "t_indexes t = Some xs" "i \<in> set xs" for i xs
  proof -
    have "list_all (\<lambda>k. strict_eq (oget i k) (oget i k)) [''name'', ''type''] \<and> strict_eq (oget i ''unique'') (oget i ''unique'')"
      "\<not> own_status i"
      using assms(3) that by (auto simp: clean_items_def own_status_def list_all_iff)
    then show ?thesis using that by (auto simp: getIndexStatus_def list_ex_iff)
  qed
  ultimately show ?thesis
    using t by (auto simp: hasColumnsChange_def hasIndexesChange_def canSave_def some_row_def list_ex_iff split: option.split)
qed

end
