(* ===== verification/UI_Table_Edit.thy ===== *)
theory UI_Table_Edit
  imports UI_Table
begin

text \<open>
  Editing the rows of a table, against a specification: a database is a list of rows, and the
  operations of a commit insert, change and remove rows by the primary key. Any sequence of edits of a
  loaded table keeps an invariant (\<open>editing\<close>: the rows loaded come first, in their order, with their hashes,
  and the new rows follow, with hashes of their own), and from it the operations of the commit,
  carried out by the specification, give the rows of the editor with the changed cells converted by the
  types of their columns (\<open>commit_describes_edit\<close>).
\<close>

section \<open>What the operations mean\<close>

text \<open>
  The specification: the database has a list of rows, a filter selects the rows with its cells, and
  each operation changes the rows selected.
\<close>

definition row_matches :: "jobj \<Rightarrow> jobj \<Rightarrow> bool" where
  "row_matches f r \<longleftrightarrow> list_all (\<lambda>(k, v). oget r k = v) f"

fun apply_op :: "row_op \<Rightarrow> jobj list \<Rightarrow> jobj list" where
  "apply_op (NewRow d) rs = rs @ [d]"
| "apply_op (UpdateRow f u) rs = map (\<lambda>r. if row_matches f r then amerge r u else r) rs"
| "apply_op (DeleteRow f) rs = filter (\<lambda>r. \<not> row_matches f r) rs"
| "apply_op NoRow rs = rs"

text \<open>The cells of a row, in the order of the columns; a missing cell is \<open>null\<close>.\<close>

definition row_cells :: "jobj list \<Rightarrow> jobj \<Rightarrow> js list" where
  "row_cells cs r = map (\<lambda>c. js_coalesce (oget r (js_str (oget c ''name''))) Null) cs"

section \<open>What the user edits\<close>

definition scalar :: "js \<Rightarrow> bool" where
  "scalar v \<longleftrightarrow> (case v of Arr _ \<Rightarrow> False | Obj _ \<Rightarrow> False | _ \<Rightarrow> True)"

datatype row_edit = EditCell nat string js | AddRow string | DeleteRows "nat list"

fun edit_rows :: "(string \<Rightarrow> string) \<Rightarrow> row_edit \<Rightarrow> data_state \<Rightarrow> data_state" where
  "edit_rows md5 (EditCell n k v) s = setCell n k v s"
| "edit_rows md5 (AddRow now) s = onAddDataRow md5 now s"
| "edit_rows md5 (DeleteRows sel) s = onDeleteDataRows md5 sel s"

text \<open>
  A cell is set to any value JSON has, a new row gets a hash that no row has, and a row is selected
  once.
\<close>

fun edit_ok :: "(string \<Rightarrow> string) \<Rightarrow> row_edit \<Rightarrow> data_state \<Rightarrow> bool" where
  "edit_ok md5 (EditCell n k v) s \<longleftrightarrow> n < length (rows s) \<and> k \<in> set (column_names s) \<and> plain v"
| "edit_ok md5 (AddRow now) s \<longleftrightarrow>
     list_all (\<lambda>r. getRowHash md5 (columns s) r \<noteq> Str (getMd5 md5 (Str now))) (rows s)"
| "edit_ok md5 (DeleteRows sel) s \<longleftrightarrow> distinct sel \<and> list_all (\<lambda>n. n < length (rows s)) sel"

fun edits_ok :: "(string \<Rightarrow> string) \<Rightarrow> row_edit list \<Rightarrow> data_state \<Rightarrow> bool" where
  "edits_ok md5 [] s \<longleftrightarrow> True"
| "edits_ok md5 (e # es) s \<longleftrightarrow> edit_ok md5 e s \<and> edits_ok md5 es (edit_rows md5 e s)"

definition edit_all :: "(string \<Rightarrow> string) \<Rightarrow> row_edit list \<Rightarrow> data_state \<Rightarrow> data_state" where
  "edit_all md5 es s = fold (edit_rows md5) es s"

text \<open>
  A table whose rows can be edited: a primary column, columns with different names that are not
  marks of the editor, and rows that JSON has, without these marks and with different primary keys.
\<close>

definition col_name :: "jobj \<Rightarrow> string" where
  "col_name c = js_str (oget c ''name'')"

definition col_type :: "jobj \<Rightarrow> string" where
  "col_type c = js_str (oget c ''type'')"

definition editable :: "(string \<Rightarrow> string) \<Rightarrow> jobj list \<Rightarrow> jobj list \<Rightarrow> bool" where
  "editable md5 cs data \<longleftrightarrow>
     truthy (primaryColumnName cs) \<and> distinct (map col_name cs) \<and>
     list_all (\<lambda>c. js_str (oget c ''name'') \<notin> {''__hash__'', ''__status__''}) cs \<and>
     list_all (\<lambda>r. plain (Obj r) \<and> oget r ''__hash__'' = Undef \<and> oget r ''__status__'' = Undef) data \<and>
     distinct (map (\<lambda>r. getMd5 md5 (oget r (js_str (primaryColumnName cs)))) data)"

lemma primary_name:
  assumes "truthy (primaryColumnName cs)"
  shows "\<exists>c \<in> set cs. js_str (primaryColumnName cs) = js_str (oget c ''name'')"
proof -
  obtain c where c: "find (\<lambda>c. truthy (oget c ''primary'')) cs = Some c"
    using assms by (auto simp: primaryColumnName_def split: option.splits)
  then have "c \<in> set cs" by (auto simp: find_Some_iff)
  then show ?thesis using c by (auto simp: primaryColumnName_def)
qed

section \<open>The rows while they are edited\<close>

definition hash_of :: "jobj \<Rightarrow> js" where
  "hash_of r = oget r ''__hash__''"

definition hashed :: "jobj \<Rightarrow> bool" where
  "hashed r \<longleftrightarrow> (\<exists>h. hash_of r = Str h \<and> h \<noteq> [])"

definition kept_row :: "jobj list \<Rightarrow> jobj \<Rightarrow> jobj \<Rightarrow> bool" where
  "kept_row cs r o' \<longleftrightarrow>
     hash_of r = hash_of o' \<and> hashed r \<and> oget r ''__status__'' \<in> {Undef, Str ''deleted''} \<and>
     (\<forall>c \<in> set cs. let v = oget r (js_str (oget c ''name'')) in v = Undef \<or> plain v)"

definition original_row :: "jobj list \<Rightarrow> jobj \<Rightarrow> bool" where
  "original_row cs o' \<longleftrightarrow>
     hashed o' \<and>
     (\<forall>c \<in> set cs. let v = oget o' (js_str (oget c ''name'')) in v = Undef \<or> plain v)"

definition editing :: "jobj list \<Rightarrow> jobj list \<Rightarrow> data_state \<Rightarrow> bool" where
  "editing cs os s \<longleftrightarrow>
     columns s = cs \<and> originals s = os \<and>
     (\<forall>o' \<in> set os. original_row cs o') \<and>
     distinct (map (\<lambda>o'. oget o' (js_str (primaryColumnName cs))) os) \<and>
     distinct (map hash_of (rows s)) \<and>
     (\<exists>kept new. rows s = kept @ new \<and> list_all2 (kept_row cs) kept os \<and> (\<forall>r \<in> set new. hashed r))"

lemma hash_hashed: "hashed r \<Longrightarrow> getRowHash md5 cs r = hash_of r"
  by (auto simp: hashed_def getRowHash_def hash_of_def)

lemma hashed_inj: "hashed r \<Longrightarrow> hashed r' \<Longrightarrow> js_str (hash_of r) = js_str (hash_of r') \<longleftrightarrow> hash_of r = hash_of r'"
  by (auto simp: hashed_def)

lemma find_rev_unique:
  assumes "x \<in> set xs" "p x" "\<And>y. y \<in> set xs \<Longrightarrow> p y \<Longrightarrow> y = x"
  shows "find p (rev xs) = Some x"
proof (cases "find p (rev xs)")
  case None
  then show ?thesis using assms(1,2) by (simp add: find_None_iff)
next
  case (Some y)
  then have "y \<in> set xs \<and> p y" by (metis find_Some_iff nth_mem set_rev)
  then show ?thesis using Some assms(3) by simp
qed

lemma kept_hashes: "list_all2 (kept_row cs) kept os \<Longrightarrow> map hash_of kept = map hash_of os"
  by (induction rule: list_all2_induct) (auto simp: kept_row_def)

lemma original_of_found:
  assumes "\<forall>o' \<in> set (originals s). hashed o'" "distinct (map hash_of (originals s))"
    and "o' \<in> set (originals s)" "hashed r" "hash_of r = hash_of o'"
  shows "original_of md5 s r = Some o'"
  unfolding original_of_def
  using assms by (intro find_rev_unique) (auto simp: hash_hashed hashed_inj distinct_map inj_on_def)

lemma original_of_none:
  assumes "\<forall>o' \<in> set (originals s). hashed o'" "hashed r" "\<forall>o' \<in> set (originals s). hash_of o' \<noteq> hash_of r"
  shows "original_of md5 s r = None"
  using assms by (auto simp: original_of_def find_None_iff hash_hashed hashed_inj)

text \<open>While the rows are edited, a row kept has its original, and a new row has none.\<close>

lemma editing_rows:
  assumes "editing cs os s"
  obtains kept new where "rows s = kept @ new" "list_all2 (kept_row cs) kept os"
    "\<forall>r \<in> set new. hashed r" "map (original_of md5 s) kept = map Some os"
    "\<forall>r \<in> set new. original_of md5 s r = None"
proof -
  obtain kept new where r: "rows s = kept @ new" and k: "list_all2 (kept_row cs) kept os"
    and n: "\<forall>r \<in> set new. hashed r"
    using assms by (auto simp: editing_def)
  note h = kept_hashes [OF k]
  have os: "\<forall>o' \<in> set (originals s). hashed o'" "distinct (map hash_of (originals s))" "originals s = os"
    using assms h r by (auto simp: editing_def original_row_def)
  have "original_of md5 s (kept ! i) = Some (os ! i)" if "i < length os" for i
    using that list_all2_nthD2 [OF k that] os by (intro original_of_found) (auto simp: kept_row_def)
  then have "map (original_of md5 s) kept = map Some os"
    using list_all2_lengthD [OF k] by (intro nth_equalityI) simp_all
  moreover have "original_of md5 s r = None" if "r \<in> set new" for r
  proof (rule original_of_none)
    have "distinct (map hash_of os @ map hash_of new)"
      using assms r h by (simp add: editing_def)
    then show "\<forall>o' \<in> set (originals s). hash_of o' \<noteq> hash_of r"
      using that os(3) by (metis distinct_append disjoint_iff image_eqI list.set_map)
  qed (use os n that in \<open>auto simp: \<close>)
  ultimately show ?thesis using that r k n by blast
qed

lemma list_all2_kept_update:
  assumes "list_all2 P xs ys" "n < length xs" "P x (ys ! n)"
  shows "list_all2 P (xs[n := x]) ys"
  using assms by (auto simp: list_all2_conv_all_nth nth_list_update)

text \<open>Setting a cell.\<close>

lemma editing_setCell:
  assumes "editing cs os s" "edit_ok md5 (EditCell n k v) s"
    and names: "list_all (\<lambda>c. js_str (oget c ''name'') \<notin> {''__hash__'', ''__status__''}) cs"
  shows "editing cs os (setCell n k v s)"
proof -
  have cs: "columns s = cs" using assms(1) by (simp add: editing_def)
  obtain kept new where r: "rows s = kept @ new" "list_all2 (kept_row cs) kept os"
    "\<forall>r \<in> set new. hashed r" "map (original_of md5 s) kept = map Some os"
    using editing_rows [OF assms(1)] .
  have k: "k \<noteq> ''__hash__''" "k \<noteq> ''__status__''" "plain v" "n < length (rows s)"
    using assms(2) names cs by (auto simp: column_names_def list_all_iff)
  have hash: "hash_of (aset k v r) = hash_of r" "hashed (aset k v r) = hashed r" for r
    using k(1) by (simp_all add: hash_of_def hashed_def)
  let ?r = "aset k v (rows s ! n)"
  have distinct: "map hash_of ((rows s)[n := ?r]) = map hash_of (rows s)"
    using k(4) hash by (simp add: map_update list_update_same_conv)
  have "\<exists>kept new. (rows s)[n := ?r] = kept @ new \<and> list_all2 (kept_row cs) kept os \<and> (\<forall>r \<in> set new. hashed r)"
  proof (cases "n < length kept")
    case True
    then have "original_of md5 s (rows s ! n) = Some (os ! n)" "kept_row cs (kept ! n) (os ! n)"
      using r(1) arg_cong [OF r(4), of "\<lambda>xs. xs ! n"] list_all2_lengthD [OF r(2)] list_all2_nthD [OF r(2)]
      by (simp_all add: nth_append)
    then have "kept_row cs ?r (os ! n)"
      using True r(1) k assms(2) hash cs
      by (auto simp: kept_row_def Let_def nth_append)
    then show ?thesis
      using True r by (intro exI [of _ "kept[n := ?r]"] exI [of _ new]) (simp add: list_update_append list_all2_kept_update)
  next
    case False
    then have n: "n - length kept < length new" using k(4) r(1) by simp
    then have "hashed (rows s ! n)" using False r by (simp add: nth_append)
    then have "hashed ?r"
      using k hash by (auto simp: Let_def)
    then have "\<forall>r \<in> set (new[n - length kept := ?r]). hashed r"
      using r(3) by (blast dest: set_update_subset_insert [THEN subsetD])
    then show ?thesis
      using False r by (intro exI [of _ kept] exI [of _ "new[n - length kept := ?r]"]) (simp add: list_update_append)
  qed
  then show ?thesis using assms(1) k(4) distinct by (simp add: editing_def setCell_def)
qed

lemma editing_hashed:
  assumes "editing cs os s" and "r \<in> set (rows s)"
  shows "hashed r"
proof -
  obtain kept new where "rows s = kept @ new" "list_all2 (kept_row cs) kept os" "\<forall>r \<in> set new. hashed r"
    using assms(1) by (auto simp: editing_def)
  then show ?thesis
    using assms(2) by (auto simp: kept_row_def list_all2_conv_all_nth in_set_conv_nth [of r kept])
qed

text \<open>Adding a row.\<close>

lemma editing_onAddDataRow:
  assumes "editing cs os s" "edit_ok md5 (AddRow now) s"
    and names: "list_all (\<lambda>c. js_str (oget c ''name'') \<notin> {''__hash__'', ''__status__''}) cs"
    and md5: "\<And>x. md5 x \<noteq> []"
  shows "editing cs os (onAddDataRow md5 now s)"
proof -
  let ?r = "[(''__hash__'', Str (getMd5 md5 (Str now))), (''__status__'', Str ''new'')]"
  have "columns s = cs" using assms(1) by (simp add: editing_def)
  moreover note editing_hashed [OF assms(1)]
  ultimately have h: "Str (getMd5 md5 (Str now)) \<notin> hash_of ` set (rows s)"
    using assms(2) by (auto simp: list_all_iff hash_hashed)
  have "hashed ?r"
    using names by (auto simp: hashed_def hash_of_def getMd5_def md5 nullish_def list_all_iff)
  moreover have "hash_of ?r = Str (getMd5 md5 (Str now))" by (simp add: hash_of_def)
  moreover obtain kept new where r: "rows s = kept @ new" "list_all2 (kept_row cs) kept os"
    "\<forall>r \<in> set new. hashed r"
    using assms(1) by (auto simp: editing_def)
  ultimately have "rows (onAddDataRow md5 now s) = kept @ (new @ [?r]) \<and> list_all2 (kept_row cs) kept os \<and>
      (\<forall>r \<in> set (new @ [?r]). hashed r)"
    by (simp add: onAddDataRow_def)
  then have "\<exists>kept new. rows (onAddDataRow md5 now s) = kept @ new \<and> list_all2 (kept_row cs) kept os \<and>
      (\<forall>r \<in> set new. hashed r)" by blast
  moreover have "distinct (map hash_of (rows (onAddDataRow md5 now s)))"
    using assms(1) h by (auto simp: editing_def onAddDataRow_def hash_of_def)
  ultimately show ?thesis using assms(1) by (simp add: editing_def onAddDataRow_def)
qed

text \<open>Deleting rows: a new row goes, a row kept is marked.\<close>

definition mark_row :: "nat \<Rightarrow> nat \<times> jobj \<Rightarrow> nat \<times> jobj" where
  "mark_row i e = (fst e, if fst e = i then aset ''__status__'' (Str ''deleted'') (snd e) else snd e)"

lemma mark_row_simps:
  "fst (mark_row i e) = fst e" "hash_of (snd (mark_row i e)) = hash_of (snd e)"
  "hashed (snd (mark_row i e)) = hashed (snd e)"
  "k \<noteq> ''__status__'' \<Longrightarrow> oget (snd (mark_row i e)) k = oget (snd e) k"
  "oget (snd (mark_row i e)) ''__status__'' = (if fst e = i then Str ''deleted'' else oget (snd e) ''__status__'')"
  by (auto simp: mark_row_def hash_of_def hashed_def)

definition tracked :: "data_state \<Rightarrow> (nat \<times> jobj) list \<Rightarrow> bool" where
  "tracked s es \<longleftrightarrow>
     distinct (map fst es) \<and>
     (\<forall>e \<in> set es. fst e < length (rows s) \<and> hash_of (snd e) = hash_of (rows s ! fst e) \<and> hashed (snd e))"

lemma remove_key:
  "distinct (map fst es) \<Longrightarrow> j < length es \<Longrightarrow> take j es @ drop (Suc j) es = filter (\<lambda>e. fst e \<noteq> fst (es ! j)) es"
proof -
  assume d: "distinct (map fst es)" and j: "j < length es"
  have es: "es = take j es @ es ! j # drop (Suc j) es" by (rule id_take_nth_drop [OF j])
  have "fst (es ! j) \<notin> fst ` set (take j es)" "fst (es ! j) \<notin> fst ` set (drop (Suc j) es)"
    using d by (subst (asm) es; auto)+
  then have "filter (\<lambda>e. fst e \<noteq> fst (es ! j)) (take j es) = take j es"
    "filter (\<lambda>e. fst e \<noteq> fst (es ! j)) (drop (Suc j) es) = drop (Suc j) es"
    unfolding filter_id_conv by (metis image_eqI)+
  then show ?thesis by (subst (3) es) simp
qed

lemma delete_row_step:
  assumes w: "tracked s es" and d: "distinct (map hash_of (rows s))" and i: "i < length (rows s)" "hashed (rows s ! i)"
    and new: "getDataRowStatus md5 s (rows s ! i) = Str ''new'' \<Longrightarrow> i \<in> fst ` set es"
  shows "delete_row md5 s i es =
    (if getDataRowStatus md5 s (rows s ! i) = Str ''new'' then filter (\<lambda>e. fst e \<noteq> i) es else map (mark_row i) es)"
proof (cases "getDataRowStatus md5 s (rows s ! i) = Str ''new''")
  case True
  let ?p = "\<lambda>e. getRowHash md5 (columns s) (snd e) = getRowHash md5 (columns s) (rows s ! i)"
  have p: "?p e \<longleftrightarrow> fst e = i" if "e \<in> set es" for e
    using w d i that by (auto simp: tracked_def hash_hashed distinct_conv_nth)
  have "find_index ?p es \<noteq> None" using new [OF True] p by (auto simp: find_index_None)
  then obtain j where j: "find_index ?p es = Some j" by blast
  then have "j < length es" "fst (es ! j) = i" using find_index_Some [OF j] p nth_mem by blast+
  then show ?thesis
    using True j w remove_key [of es j] by (simp add: delete_row_def js_splice_def tracked_def)
qed (auto simp: delete_row_def mark_row_def split_beta)

lemma tracked_step:
  "tracked s es \<Longrightarrow> tracked s (filter P es)" "tracked s es \<Longrightarrow> tracked s (map (mark_row i) es)"
proof -
  assume w: "tracked s es"
  have "map fst (map (mark_row i) es) = map fst es" by (simp add: mark_row_simps)
  then show "tracked s (map (mark_row i) es)" using w by (simp add: tracked_def mark_row_simps del: map_map)
  show "tracked s (filter P es)" using w by (auto simp: tracked_def distinct_map_filter)
qed

text \<open>The rows kept come first, with their places; the new rows follow.\<close>

definition deleting :: "jobj list \<Rightarrow> jobj list \<Rightarrow> data_state \<Rightarrow> (nat \<times> jobj) list \<Rightarrow> bool" where
  "deleting cs os s es \<longleftrightarrow>
     tracked s es \<and>
     (\<exists>ks ns. es = ks @ ns \<and> map fst ks = [0..<length os] \<and> list_all2 (kept_row cs) (map snd ks) os \<and>
        (\<forall>e \<in> set ns. hashed (snd e) \<and> length os \<le> fst e))"

lemma status_new:
  assumes "editing cs os s" "i < length (rows s)"
  shows "getDataRowStatus md5 s (rows s ! i) = Str ''new'' \<longleftrightarrow> length os \<le> i"
proof -
  obtain kept new where r: "rows s = kept @ new" "list_all2 (kept_row cs) kept os"
    "\<forall>r \<in> set new. hashed r" "map (original_of md5 s) kept = map Some os"
    "\<forall>r \<in> set new. original_of md5 s r = None"
    using editing_rows [OF assms(1)] .
  show ?thesis
  proof (cases "i < length os")
    case True
    then have "original_of md5 s (rows s ! i) = Some (os ! i)" "kept_row cs (rows s ! i) (os ! i)"
      using r(1) arg_cong [OF r(4), of "\<lambda>xs. xs ! i"] list_all2_lengthD [OF r(2)] list_all2_nthD [OF r(2)]
      by (simp_all add: nth_append)
    then show ?thesis using True by (auto simp: getDataRowStatus_def kept_row_def)
  next
    case False
    then have "rows s ! i \<in> set new"
      using assms(2) r(1) list_all2_lengthD [OF r(2)] by (simp add: nth_append)
    then show ?thesis using False r(5) by (simp add: getDataRowStatus_def)
  qed
qed

lemma deleting_step:
  assumes "editing cs os s" "deleting cs os s es" "i < length (rows s)" "length os \<le> i \<longrightarrow> i \<in> fst ` set es"
    and names: "list_all (\<lambda>c. js_str (oget c ''name'') \<notin> {''__hash__'', ''__status__''}) cs" "truthy (primaryColumnName cs)"
  shows "deleting cs os s (delete_row md5 s i es) \<and>
    fst ` set (delete_row md5 s i es) \<supseteq> fst ` set es - {i}"
proof -
  obtain ks ns where es: "es = ks @ ns" "map fst ks = [0..<length os]" "list_all2 (kept_row cs) (map snd ks) os"
    "\<forall>e \<in> set ns. hashed (snd e) \<and> length os \<le> fst e" and w: "tracked s es"
    using assms(2) by (auto simp: deleting_def)
  have step: "delete_row md5 s i es = (if length os \<le> i then filter (\<lambda>e. fst e \<noteq> i) es else map (mark_row i) es)"
    using delete_row_step [OF w _ assms(3)] assms editing_hashed [OF assms(1)] status_new [OF assms(1,3)]
    by (simp add: editing_def)
  show ?thesis
  proof (cases "length os \<le> i")
    case True
    have "fst e < length os" if "e \<in> set ks" for e
      using es(2) that by (metis atLeastLessThan_iff image_eqI list.set_map set_upt)
    then have "filter (\<lambda>e. fst e \<noteq> i) es = ks @ filter (\<lambda>e. fst e \<noteq> i) ns"
      using True es(1) by (force intro!: filter_True)
    then show ?thesis
      using True es step tracked_step(1) [OF w, of "\<lambda>e. fst e \<noteq> i"] unfolding deleting_def
      by (intro conjI exI [of _ ks] exI [of _ "filter (\<lambda>e. fst e \<noteq> i) ns"]) auto
  next
    case False
    have key: "js_str (primaryColumnName cs) \<notin> {''__hash__'', ''__status__''}"
      using primary_name [OF names(2)] names(1) by (auto simp: list_all_iff)
    have k: "kept_row cs (snd (mark_row i e)) o'" if "kept_row cs (snd e) o'" for e o'
      using that names(1) key by (auto simp: kept_row_def mark_row_simps list_all_iff Let_def)
    have "map (mark_row i) es = map (mark_row i) ks @ ns"
      using es(1,4) False by (auto simp: mark_row_def intro!: map_idI)
    moreover have "map fst (map (mark_row i) ks) = [0..<length os]"
      using es(2) by (simp add: mark_row_def comp_def)
    moreover have "list_all2 (kept_row cs) (map snd (map (mark_row i) ks)) os"
      using es(3) k by (auto simp: list_all2_conv_all_nth)
    moreover have "fst ` set (map (mark_row i) es) = fst ` set es" by (force simp: mark_row_def)
    ultimately show ?thesis
      using False es(4) step tracked_step(2) [OF w, of i] unfolding deleting_def by (metis Diff_subset)
  qed
qed

lemma deleting_fold:
  assumes "editing cs os s"
    and names: "list_all (\<lambda>c. js_str (oget c ''name'') \<notin> {''__hash__'', ''__status__''}) cs" "truthy (primaryColumnName cs)"
    and "distinct sel" "\<forall>n \<in> set sel. n < length (rows s)" "set sel \<subseteq> fst ` set es" "deleting cs os s es"
  shows "deleting cs os s (fold (delete_row md5 s) sel es)"
  using assms(4-)
proof (induction sel arbitrary: es)
  case (Cons i sel)
  have "deleting cs os s (delete_row md5 s i es) \<and> fst ` set es - {i} \<subseteq> fst ` set (delete_row md5 s i es)"
    using Cons.prems by (intro deleting_step [OF assms(1)] names) auto
  moreover have "set sel \<subseteq> fst ` set es - {i}"
    using Cons.prems by (simp add: subset_Diff_insert)
  ultimately have "deleting cs os s (delete_row md5 s i es)" "set sel \<subseteq> fst ` set (delete_row md5 s i es)"
    by blast+
  then show ?case using Cons.IH [of "delete_row md5 s i es"] Cons.prems by simp
qed simp

lemma editing_onDeleteDataRows:
  assumes "editing cs os s" "edit_ok md5 (DeleteRows sel) s"
    and names: "list_all (\<lambda>c. js_str (oget c ''name'') \<notin> {''__hash__'', ''__status__''}) cs" "truthy (primaryColumnName cs)"
  shows "editing cs os (onDeleteDataRows md5 sel s)"
proof -
  obtain kept new where r: "rows s = kept @ new" "list_all2 (kept_row cs) kept os" "\<forall>r \<in> set new. hashed r"
    using assms(1) by (auto simp: editing_def)
  note len = list_all2_lengthD [OF r(2)]
  have "tracked s (enumerate 0 (rows s))"
    using editing_hashed [OF assms(1)] by (auto simp: tracked_def in_set_enumerate_eq)
  moreover have "enumerate 0 (rows s) = enumerate 0 kept @ enumerate (length os) new"
    using r(1) len by (simp add: enumerate_append_eq)
  ultimately have "deleting cs os s (enumerate 0 (rows s))"
    using r len unfolding deleting_def
    by (intro conjI exI [of _ "enumerate 0 kept"] exI [of _ "enumerate (length os) new"])
      (auto simp: in_set_enumerate_eq)
  then have "deleting cs os s (fold (delete_row md5 s) sel (enumerate 0 (rows s)))"
    using assms(2) map_fst_enumerate [of 0 "rows s"]
    by (intro deleting_fold [OF assms(1) names]) (auto simp: list_all_iff simp flip: set_map)
  then obtain ks ns where d: "tracked s (ks @ ns)" "fold (delete_row md5 s) sel (enumerate 0 (rows s)) = ks @ ns"
    "list_all2 (kept_row cs) (map snd ks) os" "\<forall>e \<in> set ns. hashed (snd e)"
    unfolding deleting_def by metis
  have "map hash_of (map snd (ks @ ns)) = map (\<lambda>i. map hash_of (rows s) ! i) (map fst (ks @ ns))"
    using d(1) by (simp add: tracked_def)
  moreover have "distinct (map (\<lambda>i. map hash_of (rows s) ! i) (map fst (ks @ ns)))"
  proof (subst distinct_map, intro conjI inj_on_nth ballI)
    show "distinct (map fst (ks @ ns))" "distinct (map hash_of (rows s))"
      using d(1) assms(1) by (simp_all add: tracked_def editing_def)
    show "i < length (map hash_of (rows s))" if "i \<in> set (map fst (ks @ ns))" for i
      using d(1) that by (force simp: tracked_def)
  qed
  ultimately have "distinct (map hash_of (map snd (ks @ ns)))" by metis
  moreover have "\<exists>kept new. map snd (ks @ ns) = kept @ new \<and> list_all2 (kept_row cs) kept os \<and>
      (\<forall>r \<in> set new. hashed r)"
    using d(3,4) by (intro exI [of _ "map snd ks"] exI [of _ "map snd ns"]) auto
  ultimately show ?thesis
    using assms(1) d(2) by (simp add: editing_def onDeleteDataRows_def)
qed

section \<open>Loading\<close>

lemma plain_oget: "plain (Obj r) \<Longrightarrow> oget r k = Undef \<or> plain (oget r k)"
  by (auto simp: oget_def list_all_iff split: option.split dest!: map_of_SomeD)

definition loaded_rows :: "(string \<Rightarrow> string) \<Rightarrow> jobj list \<Rightarrow> jobj list \<Rightarrow> jobj list" where
  "loaded_rows md5 cs data =
     map (\<lambda>r. aset ''__hash__'' (Str (getMd5 md5 (oget r (js_str (primaryColumnName cs))))) r) data"

definition load_table :: "(string \<Rightarrow> string) \<Rightarrow> jobj list \<Rightarrow> jobj list \<Rightarrow> data_state" where
  "load_table md5 cs data = getTableData_done md5 data \<lparr>columns = cs, rows = [], originals = []\<rparr>"

lemma load_table_eq:
  assumes "editable md5 cs data"
  shows "load_table md5 cs data = \<lparr>columns = cs, rows = loaded_rows md5 cs data, originals = loaded_rows md5 cs data\<rparr>"
proof -
  have r: "aset ''__hash__'' (getRowHash md5 cs r) r = aset ''__hash__'' (Str (getMd5 md5 (oget r (js_str (primaryColumnName cs))))) r"
    if "r \<in> set data" for r
    using assms that by (auto simp: editable_def getRowHash_def list_all_iff)
  have p: "plain (Obj (aset ''__hash__'' (Str h) r))" if "r \<in> set data" for r h
  proof -
    have "plain (Obj r)" using assms that by (simp add: editable_def list_all_iff del: plain.simps)
    then show ?thesis by (simp add: plain_pairs_aset)
  qed
  from r have "map (\<lambda>r. aset ''__hash__'' (getRowHash md5 cs r) r) data = loaded_rows md5 cs data"
    by (simp add: loaded_rows_def)
  moreover have "clone_obj o' = o'" if "o' \<in> set (loaded_rows md5 cs data)" for o'
    using p that unfolding loaded_rows_def by (auto simp: clone_obj_plain simp del: plain.simps)
  ultimately show ?thesis by (simp add: load_table_def getTableData_done_def map_idI Let_def)
qed

lemma editing_load:
  assumes e: "editable md5 cs data" and md5: "\<And>x. md5 x \<noteq> []"
  shows "editing cs (loaded_rows md5 cs data) (load_table md5 cs data)"
proof -
  let ?h = "\<lambda>r. aset ''__hash__'' (Str (getMd5 md5 (oget r (js_str (primaryColumnName cs))))) r"
  have p: "js_str (primaryColumnName cs) \<noteq> ''__hash__''"
    using primary_name e by (force simp: editable_def list_all_iff)
  have n: "js_str (oget c ''name'') \<noteq> ''__hash__''" if "c \<in> set cs" for c
    using e that by (auto simp: editable_def list_all_iff)
  have h: "hashed (?h r)" for r by (simp add: hashed_def hash_of_def getMd5_def md5)
  have "kept_row cs (?h r) (?h r)" "original_row cs (?h r)" if "r \<in> set data" for r
    using e that h n plain_oget [of r]
    by (auto simp: editable_def kept_row_def original_row_def list_all_iff Let_def simp del: plain.simps)
  moreover have "distinct (map hash_of (map ?h data))"
  proof -
    have "distinct (map Str (map (\<lambda>r. getMd5 md5 (oget r (js_str (primaryColumnName cs)))) data))"
      using e by (intro distinct_map [THEN iffD2]) (auto simp: editable_def inj_on_def)
    then show ?thesis by (simp add: hash_of_def comp_def)
  qed
  moreover have "distinct (map (\<lambda>o'. oget o' (js_str (primaryColumnName cs))) (map ?h data))"
  proof -
    have "distinct (map (getMd5 md5) (map (\<lambda>r. oget r (js_str (primaryColumnName cs))) data))"
      using e by (simp add: editable_def comp_def)
    then have "distinct (map (\<lambda>r. oget r (js_str (primaryColumnName cs))) data)"
      unfolding distinct_map [of "getMd5 md5"] by simp
    then show ?thesis using p by (simp add: comp_def)
  qed
  moreover have "\<exists>kept new. map ?h data = kept @ new \<and> list_all2 (kept_row cs) kept (map ?h data) \<and>
      (\<forall>r \<in> set new. hashed r)"
    using calculation(1) by (intro exI [of _ "map ?h data"] exI [of _ "[]"]) (simp add: list.rel_map list.rel_refl_strong)
  ultimately show ?thesis
    unfolding load_table_eq [OF e] editing_def by (simp add: loaded_rows_def comp_def)
qed

lemma editing_edits:
  assumes e: "editable md5 cs data" and md5: "\<And>x. md5 x \<noteq> []"
  shows "editing cs os s \<Longrightarrow> edits_ok md5 es s \<Longrightarrow> editing cs os (edit_all md5 es s)"
proof (induction es arbitrary: s)
  case (Cons a es)
  have names: "list_all (\<lambda>c. js_str (oget c ''name'') \<notin> {''__hash__'', ''__status__''}) cs" "truthy (primaryColumnName cs)"
    using e by (simp_all add: editable_def)
  have "editing cs os (edit_rows md5 a s)"
    using Cons.prems editing_setCell [OF _ _ names(1)] editing_onAddDataRow [OF _ _ names(1) md5]
      editing_onDeleteDataRows [OF _ _ names]
    by (cases a) (simp_all del: edit_ok.simps, blast+)
  then show ?case using Cons by (simp add: edit_all_def)
qed (simp add: edit_all_def)

section \<open>What a commit means\<close>

text \<open>
  A cell whose JSON text is as it was and that is no array or object keeps its value; every other
  cell of a row that is sent is converted by the type of its column (\<open>normalizeDataType\<close>), which
  fails for a column of objects and a text that is not JSON. Of a new row, the cells that are missing
  or \<open>null\<close> are left out.
\<close>

definition unchanged :: "js \<Rightarrow> js \<Rightarrow> bool" where
  "unchanged v w \<longleftrightarrow> json_stringify v = json_stringify w \<and> scalar v"

definition converted :: "(string \<Rightarrow> js) \<Rightarrow> jobj option \<Rightarrow> jobj \<Rightarrow> jobj \<Rightarrow> thrown + js" where
  "converted number orig r c =
     (let v = oget r (col_name c) in
      if (case orig of None \<Rightarrow> nullish v | Some o' \<Rightarrow> unchanged v (oget o' (col_name c))) then Inr v
      else normalizeDataType number v (col_type c))"

definition committed_row :: "(string \<Rightarrow> string) \<Rightarrow> (string \<Rightarrow> js) \<Rightarrow> data_state \<Rightarrow> jobj \<Rightarrow> thrown + js list" where
  "committed_row md5 number s r =
     (if getDataRowStatus md5 s r = Undef then Inr (row_cells (columns s) r)
      else map_result (\<lambda>c. case converted number (original_of md5 s r) r c of
                             Inl e \<Rightarrow> Inl e | Inr v \<Rightarrow> Inr (js_coalesce v Null)) (columns s))"

definition committed :: "(string \<Rightarrow> string) \<Rightarrow> (string \<Rightarrow> js) \<Rightarrow> data_state \<Rightarrow> thrown + js list list" where
  "committed md5 number s =
     map_result (committed_row md5 number s) (filter (\<lambda>r. getDataRowStatus md5 s r \<noteq> Str ''deleted'') (rows s))"

definition pk :: "jobj list \<Rightarrow> jobj \<Rightarrow> js" where
  "pk cs r = oget r (js_str (primaryColumnName cs))"

text \<open>No primary key of a loaded row is changed to the key of another loaded row.\<close>

definition key_apart :: "(string \<Rightarrow> js) \<Rightarrow> jobj list \<Rightarrow> jobj list \<Rightarrow> jobj \<Rightarrow> jobj \<Rightarrow> bool" where
  "key_apart number cs os r o' \<longleftrightarrow>
     list_all (\<lambda>c. col_name c = js_str (primaryColumnName cs) \<longrightarrow>
       list_all (\<lambda>q. pk cs q = pk cs o' \<or> converted number (Some o') r c \<noteq> Inr (pk cs q)) os) cs"

definition keys_apart :: "(string \<Rightarrow> string) \<Rightarrow> (string \<Rightarrow> js) \<Rightarrow> data_state \<Rightarrow> bool" where
  "keys_apart md5 number s \<longleftrightarrow>
     list_all (\<lambda>r. case original_of md5 s r of None \<Rightarrow> True
       | Some o' \<Rightarrow> key_apart number (columns s) (originals s) r o') (rows s)"

text \<open>An object in a column of texts is replaced when another cell of its row is edited.\<close>

lemma object_cell_replaced:
  assumes "oget r (col_name c) = Obj ps" "oget o' (col_name c) = Obj ps" "getDataType (col_type c) = ''string''"
  shows "converted number (Some o') r c = Inr (Str ''[object Object]'')"
  using assms by (simp add: converted_def unchanged_def scalar_def normalizeDataType_def)

section \<open>Committing\<close>

lemma map_result_fails:
  "\<forall>c \<in> set cs1. \<exists>v. f c = Inr v \<Longrightarrow> f c = Inl e \<Longrightarrow> map_result f (cs1 @ c # cs2) = Inl e"
  by (induction cs1) auto

lemma map_result_all: "\<forall>c \<in> set cs. f c = Inr (g c) \<Longrightarrow> map_result f cs = Inr (map g cs)"
  by (induction cs) auto

lemma map_result_append:
  "map_result f xs = Inr ys \<Longrightarrow> map_result f xs' = Inr ys' \<Longrightarrow> map_result f (xs @ xs') = Inr (ys @ ys')"
  "map_result f xs = Inl e \<Longrightarrow> map_result f (xs @ xs') = Inl e"
  "map_result f xs = Inr ys \<Longrightarrow> map_result f xs' = Inl e \<Longrightarrow> map_result f (xs @ xs') = Inl e"
  by (induction xs arbitrary: ys) (auto split: sum.splits)

abbreviation normal :: "(string \<Rightarrow> js) \<Rightarrow> jobj \<Rightarrow> jobj \<Rightarrow> thrown + js" where
  "normal number row c \<equiv> normalizeDataType number (oget row (col_name c)) (col_type c)"

lemma set_cells_Cons:
  "set_cells number wanted row (c # cs) d =
     (if \<not> wanted (col_name c) then set_cells number wanted row cs d
      else (case normal number row c of Inl e \<Rightarrow> Inl e | Inr v \<Rightarrow> set_cells number wanted row cs (aset (col_name c) v d)))"
  by (simp add: col_name_def col_type_def Let_def split: sum.split)

lemma set_cells_fails:
  "set_cells number wanted row cs d = Inl e \<Longrightarrow>
   \<exists>cs1 c cs2. cs = cs1 @ c # cs2 \<and> wanted (col_name c) \<and> normal number row c = Inl e \<and>
     (\<forall>c \<in> set cs1. wanted (col_name c) \<longrightarrow> (\<exists>v. normal number row c = Inr v))"
proof (induction cs arbitrary: d)
  case (Cons c cs)
  show ?case
  proof (cases "wanted (col_name c) \<and> (\<exists>e. normal number row c = Inl e)")
    case True
    then show ?thesis using Cons.prems
      by (intro exI [of _ "[]"] exI [of _ c] exI [of _ cs]) (auto simp: set_cells_Cons simp del: set_cells.simps)
  next
    case False
    then obtain d' where "set_cells number wanted row cs d' = Inl e"
      "wanted (col_name c) \<longrightarrow> (\<exists>v. normal number row c = Inr v)"
      using Cons.prems by (auto simp: set_cells_Cons simp del: set_cells.simps split: if_splits sum.splits)
    with Cons.IH [of d'] obtain cs1 c' cs2 where "cs = cs1 @ c' # cs2" "wanted (col_name c')" "normal number row c' = Inl e"
      "\<forall>c \<in> set cs1. wanted (col_name c) \<longrightarrow> (\<exists>v. normal number row c = Inr v)" by blast
    then show ?thesis
      using \<open>wanted (col_name c) \<longrightarrow> (\<exists>v. normal number row c = Inr v)\<close>
      by (intro exI [of _ "c # cs1"] exI [of _ c'] exI [of _ cs2]) simp
  qed
qed simp

lemma set_cells_sets:
  "set_cells number wanted row cs d = Inr d' \<Longrightarrow> distinct (map col_name cs) \<Longrightarrow>
   (distinct (map fst d) \<longrightarrow> distinct (map fst d')) \<and>
   (\<forall>c \<in> set cs. wanted (col_name c) \<longrightarrow> (\<exists>v. normal number row c = Inr v \<and> map_of d' (col_name c) = Some v)) \<and>
   (\<forall>k. k \<notin> col_name ` set cs \<or> \<not> wanted k \<longrightarrow> map_of d' k = map_of d k)"
proof (induction cs arbitrary: d)
  case (Cons c cs)
  show ?case
  proof (cases "wanted (col_name c)")
    case True
    then obtain v where v: "normal number row c = Inr v" "set_cells number wanted row cs (aset (col_name c) v d) = Inr d'"
      using Cons.prems(1) by (auto simp: set_cells_Cons simp del: set_cells.simps split: sum.splits)
    from Cons.IH [OF v(2)] Cons.prems(2) True v(1) show ?thesis by auto
  next
    case False
    then have "set_cells number wanted row cs d = Inr d'"
      using Cons.prems(1) by (simp add: set_cells_Cons del: set_cells.simps)
    from Cons.IH [OF this] Cons.prems(2) False show ?thesis by auto
  qed
qed simp

text \<open>The two tests for a cell that is sent, of the code and of \<open>converted\<close>, are the same.\<close>

lemma unchanged_strict:
  "v = Undef \<or> plain v \<Longrightarrow> w = Undef \<or> plain w \<Longrightarrow> unchanged v w \<longleftrightarrow> strict_eq v w"
  using json_stringify_inj [of v w] by (auto simp: unchanged_def strict_eq_def scalar_def split: js.split)

lemma row_cells_name: "row_cells cs r = map (\<lambda>c. js_coalesce (oget r (col_name c)) Null) cs"
  by (simp add: row_cells_def col_name_def)

definition sent_test :: "jobj option \<Rightarrow> jobj \<Rightarrow> string \<Rightarrow> bool" where
  "sent_test orig r k \<longleftrightarrow>
     (case orig of None \<Rightarrow> \<not> nullish (oget r k) | Some o' \<Rightarrow> \<not> strict_eq (oget r k) (oget o' k))"

text \<open>The cells a row sends are the cells converted, put over the row as it was.\<close>

lemma cells_sent:
  assumes cs: "distinct (map col_name cs)"
    and test: "\<And>c. c \<in> set cs \<Longrightarrow> converted number orig r c =
      (if sent_test orig r (col_name c) then normal number r c else Inr (oget r (col_name c)))"
    and keep: "\<And>c. c \<in> set cs \<Longrightarrow> \<not> sent_test orig r (col_name c) \<Longrightarrow>
      js_coalesce (oget base (col_name c)) Null = js_coalesce (oget r (col_name c)) Null"
  shows "case set_cells number (sent_test orig r) r cs [] of
      Inl e \<Rightarrow> map_result (\<lambda>c. case converted number orig r c of Inl e \<Rightarrow> Inl e | Inr v \<Rightarrow> Inr (js_coalesce v Null)) cs = Inl e
    | Inr u \<Rightarrow> map_result (\<lambda>c. case converted number orig r c of Inl e \<Rightarrow> Inl e | Inr v \<Rightarrow> Inr (js_coalesce v Null)) cs
          = Inr (row_cells cs (amerge base u)) \<and>
        (\<forall>c \<in> set cs. sent_test orig r (col_name c) \<longrightarrow> converted number orig r c = Inr (oget (amerge base u) (col_name c))) \<and>
        (\<forall>k. k \<notin> col_name ` set cs \<or> \<not> sent_test orig r k \<longrightarrow> oget (amerge base u) k = oget base k)"
proof (cases "set_cells number (sent_test orig r) r cs []")
  case (Inl e)
  obtain cs1 c cs2 where c: "cs = cs1 @ c # cs2" "sent_test orig r (col_name c)" "normal number r c = Inl e"
    "\<forall>c \<in> set cs1. sent_test orig r (col_name c) \<longrightarrow> (\<exists>v. normal number r c = Inr v)"
    using set_cells_fails [OF Inl] by blast
  have "converted number orig r c = Inl e" "\<forall>c \<in> set cs1. \<exists>v. converted number orig r c = Inr v"
    using c test by auto
  then have "map_result (\<lambda>c. case converted number orig r c of Inl e \<Rightarrow> Inl e | Inr v \<Rightarrow> Inr (js_coalesce v Null)) cs = Inl e"
    unfolding c(1) by (intro map_result_fails) auto
  then show ?thesis using Inl by simp
next
  case (Inr u)
  note u = set_cells_sets [OF Inr cs, THEN conjunct1] set_cells_sets [OF Inr cs, THEN conjunct2, THEN conjunct1]
    set_cells_sets [OF Inr cs, THEN conjunct2, THEN conjunct2]
  have "distinct (map fst u)" using u(1) by simp
  then have o1: "oget (amerge base u) k = (case map_of u k of None \<Rightarrow> oget base k | Some v \<Rightarrow> v)" for k
    by (simp add: oget_def map_of_amerge map_add_def split: option.split)
  have sent: "converted number orig r c = Inr (oget (amerge base u) (col_name c))"
    if "c \<in> set cs" "sent_test orig r (col_name c)" for c
    using u(2) that test by (auto simp: o1)
  have kept: "oget (amerge base u) k = oget base k" if "k \<notin> col_name ` set cs \<or> \<not> sent_test orig r k" for k
    using u(3) that by (simp add: o1)
  have "map_result (\<lambda>c. case converted number orig r c of Inl e \<Rightarrow> Inl e | Inr v \<Rightarrow> Inr (js_coalesce v Null)) cs
      = Inr (row_cells cs (amerge base u))"
    unfolding row_cells_name
  proof (rule map_result_all, rule ballI)
    fix c assume c: "c \<in> set cs"
    show "(case converted number orig r c of Inl e \<Rightarrow> Inl e | Inr v \<Rightarrow> Inr (js_coalesce v Null))
        = Inr (js_coalesce (oget (amerge base u) (col_name c)) Null)"
      using sent [OF c] kept [of "col_name c"] keep [OF c] test [OF c]
      by (cases "sent_test orig r (col_name c)") auto
  qed
  then show ?thesis using Inr sent kept by simp
qed

lemma row_cells_eq:
  "(\<And>c. c \<in> set cs \<Longrightarrow> oget r (js_str (oget c ''name'')) = oget r' (js_str (oget c ''name''))) \<Longrightarrow> row_cells cs r = row_cells cs r'"
  by (simp add: row_cells_def)

text \<open>The operation of a row changes the row's original and no other row.\<close>

definition row_ops :: "(string \<Rightarrow> string) \<Rightarrow> (string \<Rightarrow> js) \<Rightarrow> data_state \<Rightarrow> jobj list \<Rightarrow> thrown + row_op list" where
  "row_ops md5 number s rs =
     map_result (row_operation md5 number s) (filter (\<lambda>r. truthy (getDataRowStatus md5 s r)) rs)"

definition row_results :: "(string \<Rightarrow> string) \<Rightarrow> (string \<Rightarrow> js) \<Rightarrow> data_state \<Rightarrow> jobj list \<Rightarrow> thrown + js list list" where
  "row_results md5 number s rs =
     map_result (committed_row md5 number s) (filter (\<lambda>r. getDataRowStatus md5 s r \<noteq> Str ''deleted'') rs)"

lemma row_ops_append:
  "row_ops md5 number s xs = Inr ys \<Longrightarrow> row_ops md5 number s xs' = Inr ys' \<Longrightarrow> row_ops md5 number s (xs @ xs') = Inr (ys @ ys')"
  "row_ops md5 number s xs = Inl e \<Longrightarrow> row_ops md5 number s (xs @ xs') = Inl e"
  "row_ops md5 number s xs = Inr ys \<Longrightarrow> row_ops md5 number s xs' = Inl e \<Longrightarrow> row_ops md5 number s (xs @ xs') = Inl e"
  by (simp_all add: row_ops_def map_result_append)

lemma row_results_append:
  "row_results md5 number s (xs @ xs') =
     (case row_results md5 number s xs of Inl e \<Rightarrow> Inl e
      | Inr ys \<Rightarrow> (case row_results md5 number s xs' of Inl e \<Rightarrow> Inl e | Inr ys' \<Rightarrow> Inr (ys @ ys')))"
  by (simp add: row_results_def map_result_append split: sum.split)

lemma matches_pk: "row_matches [(js_str (primaryColumnName cs), pk cs o')] r \<longleftrightarrow> pk cs r = pk cs o'"
  by (simp add: row_matches_def pk_def)

lemma apply_update:
  "\<forall>r \<in> set done' \<union> set rest. pk cs r \<noteq> pk cs o' \<Longrightarrow>
    apply_op (UpdateRow [(js_str (primaryColumnName cs), pk cs o')] u) (done' @ o' # rest) = done' @ amerge o' u # rest"
  by (auto simp: matches_pk intro!: map_idI)

lemma apply_delete:
  "\<forall>r \<in> set done' \<union> set rest. pk cs r \<noteq> pk cs o' \<Longrightarrow>
    apply_op (DeleteRow [(js_str (primaryColumnName cs), pk cs o')]) (done' @ o' # rest) = done' @ rest"
  by (auto simp: matches_pk Un_iff filter_id_conv[THEN iffD2])

text \<open>The key that a row may get: its own, or the one entered for it, converted.\<close>

definition key_given :: "(string \<Rightarrow> js) \<Rightarrow> jobj list \<Rightarrow> jobj \<Rightarrow> jobj \<Rightarrow> jobj \<Rightarrow> bool" where
  "key_given number cs r o' q \<longleftrightarrow>
     pk cs q = pk cs o' \<or>
     (\<exists>c \<in> set cs. col_name c = js_str (primaryColumnName cs) \<and> converted number (Some o') r c = Inr (pk cs q))"

lemma updated_row:
  assumes k: "kept_row cs r o'" "original_row cs o'" and "columns s = cs" "truthy (primaryColumnName cs)" "distinct (map col_name cs)"
    and "original_of md5 s r = Some o'" "getDataRowStatus md5 s r = Str ''updated''"
  shows "case committed_row md5 number s r of
      Inl e \<Rightarrow> row_operation md5 number s r = Inl e
    | Inr cells \<Rightarrow> \<exists>u. row_operation md5 number s r = Inr (UpdateRow [(js_str (primaryColumnName cs), pk cs o')] u) \<and>
        row_cells cs (amerge o' u) = cells \<and> key_given number cs r o' (amerge o' u)"
proof -
  have plain: "oget r (col_name c) = Undef \<or> plain (oget r (col_name c))" "oget o' (col_name c) = Undef \<or> plain (oget o' (col_name c))"
    if "c \<in> set cs" for c
    using k that by (auto simp: kept_row_def original_row_def col_name_def Let_def)
  have t: "converted number (Some o') r c = (if sent_test (Some o') r (col_name c) then normal number r c else Inr (oget r (col_name c)))"
    if "c \<in> set cs" for c
    using unchanged_strict [OF plain [OF that]] by (simp add: converted_def sent_test_def Let_def)
  have keep: "js_coalesce (oget o' (col_name c)) Null = js_coalesce (oget r (col_name c)) Null"
    if "c \<in> set cs" "\<not> sent_test (Some o') r (col_name c)" for c
    using that by (simp add: sent_test_def strict_eq_def)
  have test: "(\<lambda>k. \<not> strict_eq (oget r k) (oget o' k)) = sent_test (Some o') r"
    by (simp add: sent_test_def fun_eq_iff)
  note sent = cells_sent [OF assms(5) t keep]
  show ?thesis
  proof (cases "set_cells number (sent_test (Some o') r) r cs []")
    case (Inl e)
    then show ?thesis using sent assms(3,6,7) test by (simp add: committed_row_def row_operation_def)
  next
    case (Inr u)
    let ?q = "amerge o' u" and ?p = "js_str (primaryColumnName cs)"
    obtain c where c: "c \<in> set cs" "col_name c = ?p" using primary_name [OF assms(4)] by (auto simp: col_name_def)
    have "key_given number cs r o' ?q"
    proof (cases "sent_test (Some o') r ?p")
      case True
      then have "converted number (Some o') r c = Inr (pk cs ?q)" using sent Inr c by (simp add: pk_def)
      then show ?thesis using c by (auto simp: key_given_def)
    next
      case False
      then have "oget ?q ?p = oget o' ?p" using sent Inr by simp
      then show ?thesis by (simp add: key_given_def pk_def)
    qed
    moreover have "committed_row md5 number s r = Inr (row_cells cs ?q)"
      using sent Inr assms(3,6,7) by (simp add: committed_row_def)
    moreover have "row_operation md5 number s r = Inr (UpdateRow [(?p, pk cs o')] u)"
      using Inr assms(3,4,6,7) test by (simp add: row_operation_def primary_filter_def pk_def)
    ultimately show ?thesis by simp
  qed
qed

lemma unchanged_row:
  assumes "kept_row cs r o'" "original_row cs o'" "columns s = cs"
    and "\<not> list_ex (\<lambda>k. json_stringify (oget r k) \<noteq> json_stringify (oget o' k)) (column_names s)"
  shows "row_cells cs o' = row_cells cs r"
proof (rule row_cells_eq)
  fix c assume c: "c \<in> set cs"
  let ?k = "js_str (oget c ''name'')"
  have "oget r ?k = Undef \<or> plain (oget r ?k)" "oget o' ?k = Undef \<or> plain (oget o' ?k)"
    using assms(1,2) c by (auto simp: kept_row_def original_row_def Let_def)
  moreover have "json_stringify (oget r ?k) = json_stringify (oget o' ?k)"
    using assms(3,4) c by (auto simp: column_names_def list_ex_iff)
  ultimately show "oget o' ?k = oget r ?k" using json_stringify_inj by metis
qed

lemma kept_effect:
  assumes k: "kept_row cs r o'" "original_row cs o'"
    and s: "columns s = cs" "truthy (primaryColumnName cs)" "distinct (map col_name cs)"
    and o: "original_of md5 s r = Some o'"
    and fresh: "\<forall>r \<in> set done' \<union> set rest. pk cs r \<noteq> pk cs o'"
  shows "case row_results md5 number s [r] of
      Inl e \<Rightarrow> row_ops md5 number s [r] = Inl e
    | Inr cells \<Rightarrow> \<exists>ops res. row_ops md5 number s [r] = Inr ops \<and> fold apply_op ops (done' @ o' # rest) = done' @ res @ rest \<and>
        map (row_cells cs) res = cells \<and> (\<forall>q \<in> set res. key_given number cs r o' q)"
proof -
  have "oget r ''__status__'' = Undef \<or> oget r ''__status__'' = Str ''deleted''" using k by (simp add: kept_row_def)
  then consider "getDataRowStatus md5 s r = Str ''deleted''" | "getDataRowStatus md5 s r = Str ''updated''" |
    "getDataRowStatus md5 s r = Undef" "\<not> list_ex (\<lambda>k. json_stringify (oget r k) \<noteq> json_stringify (oget o' k)) (column_names s)"
    using o by (cases "list_ex (\<lambda>k. json_stringify (oget r k) \<noteq> json_stringify (oget o' k)) (column_names s)")
      (auto simp: getDataRowStatus_def)
  then show ?thesis
  proof cases
    case 1
    then have "row_ops md5 number s [r] = Inr [DeleteRow [(js_str (primaryColumnName cs), pk cs o')]]"
      using s o by (simp add: row_ops_def row_operation_def primary_filter_def pk_def Let_def)
    then show ?thesis using 1 apply_delete [OF fresh]
      by (simp add: row_results_def del: apply_op.simps)
  next
    case 2
    note u = updated_row [OF k s o 2, of number]
    show ?thesis
    proof (cases "committed_row md5 number s r")
      case (Inl e)
      then show ?thesis using u 2 by (simp add: row_results_def row_ops_def)
    next
      case (Inr cells)
      then obtain u where u: "row_operation md5 number s r = Inr (UpdateRow [(js_str (primaryColumnName cs), pk cs o')] u)"
        "row_cells cs (amerge o' u) = cells" "key_given number cs r o' (amerge o' u)"
        using u by auto
      then show ?thesis
        using 2 Inr apply_update [OF fresh, of u]
        by (auto simp: row_results_def row_ops_def simp del: apply_op.simps intro!: exI [of _ "[amerge o' u]"])
    qed
  next
    case 3
    then show ?thesis
      using unchanged_row [OF k s(1) 3(2)] s(1)
      by (auto simp: row_results_def row_ops_def committed_row_def key_given_def intro!: exI [of _ "[o']"])
  qed
qed

lemma kept_effects:
  assumes s: "columns s = cs" "truthy (primaryColumnName cs)" "distinct (map col_name cs)"
    and "list_all2 (\<lambda>r o'. kept_row cs r o' \<and> original_row cs o' \<and> original_of md5 s r = Some o' \<and> key_apart number cs all r o') kept os"
    and "distinct (map (pk cs) os)" "pk cs ` set done' \<inter> pk cs ` set os = {}" "set os \<subseteq> set all"
  shows "case row_results md5 number s kept of
      Inl e \<Rightarrow> row_ops md5 number s kept = Inl e
    | Inr cells \<Rightarrow> \<exists>ops res. row_ops md5 number s kept = Inr ops \<and> fold apply_op ops (done' @ os) = done' @ res \<and>
        map (row_cells cs) res = cells"
  using assms(4-)
proof (induction kept os arbitrary: done' rule: list_all2_induct)
  case Nil
  show ?case by (simp add: row_ops_def row_results_def)
next
  case (Cons r rs o' os)
  have fresh: "\<forall>r \<in> set done' \<union> set os. pk cs r \<noteq> pk cs o'" using Cons.prems by (auto simp: image_iff)
  have one: "case row_results md5 number s [r] of
      Inl e \<Rightarrow> row_ops md5 number s [r] = Inl e
    | Inr cells \<Rightarrow> \<exists>ops res. row_ops md5 number s [r] = Inr ops \<and> fold apply_op ops (done' @ o' # os) = done' @ res @ os \<and>
        map (row_cells cs) res = cells \<and> (\<forall>q \<in> set res. key_given number cs r o' q)"
    using kept_effect [OF _ _ s _ fresh] Cons.hyps(1) by blast
  note split = row_results_append [of md5 number s "[r]" rs]
  show ?case
  proof (cases "row_results md5 number s [r]")
    case (Inl e)
    then show ?thesis using one split row_ops_append(2) [of md5 number s "[r]" e rs] by simp
  next
    case (Inr cells)
    then obtain ops res where 1: "row_ops md5 number s [r] = Inr ops" "fold apply_op ops (done' @ o' # os) = done' @ res @ os"
      "map (row_cells cs) res = cells" "\<forall>q \<in> set res. key_given number cs r o' q"
      using one by auto
    have "pk cs q \<noteq> pk cs o2" if "q \<in> set res" "o2 \<in> set os" for q o2
    proof -
      have "pk cs o2 \<noteq> pk cs o'" "o2 \<in> set all" using fresh that Cons.prems(3) by auto
      then show ?thesis
        using 1(4) that Cons.hyps(1) unfolding key_apart_def key_given_def list_all_iff by metis
    qed
    then have "pk cs ` set (done' @ res) \<inter> pk cs ` set os = {}" using Cons.prems(2) by auto
    from Cons.IH [OF _ this] Cons.prems
    have IH: "case row_results md5 number s rs of
        Inl e \<Rightarrow> row_ops md5 number s rs = Inl e
      | Inr cells \<Rightarrow> \<exists>ops' res'. row_ops md5 number s rs = Inr ops' \<and> fold apply_op ops' ((done' @ res) @ os) = (done' @ res) @ res' \<and>
          map (row_cells cs) res' = cells" by simp
    show ?thesis
    proof (cases "row_results md5 number s rs")
      case (Inl e)
      then show ?thesis using IH Inr split row_ops_append(3) [OF 1(1), of rs e] by simp
    next
      case (Inr cells')
      with IH obtain ops' res' where 2: "row_ops md5 number s rs = Inr ops'"
        "fold apply_op ops' ((done' @ res) @ os) = (done' @ res) @ res'" "map (row_cells cs) res' = cells'" by auto
      then show ?thesis
        using 1 Inr \<open>row_results md5 number s [r] = Inr cells\<close> split row_ops_append(1) [OF 1(1) 2(1)]
        by (auto intro!: exI [of _ "res @ res'"])
    qed
  qed
qed

lemma new_effect:
  assumes "columns s = cs" "distinct (map col_name cs)" "original_of md5 s r = None"
  shows "case row_results md5 number s [r] of
      Inl e \<Rightarrow> row_ops md5 number s [r] = Inl e
    | Inr cells \<Rightarrow> \<exists>d. row_ops md5 number s [r] = Inr [NewRow d] \<and> [row_cells cs d] = cells"
proof -
  have status: "getDataRowStatus md5 s r = Str ''new''" using assms(3) by (simp add: getDataRowStatus_def)
  have t: "converted number None r c = (if sent_test None r (col_name c) then normal number r c else Inr (oget r (col_name c)))" for c
    by (simp add: converted_def sent_test_def Let_def)
  have keep: "js_coalesce (oget [] (col_name c)) Null = js_coalesce (oget r (col_name c)) Null"
    if "\<not> sent_test None r (col_name c)" for c
    using that by (auto simp: sent_test_def js_coalesce_def nullish_def)
  have test: "(\<lambda>k. \<not> nullish (oget r k)) = sent_test None r" by (simp add: sent_test_def fun_eq_iff)
  note sent = cells_sent [OF assms(2) t keep]
  show ?thesis
  proof (cases "set_cells number (sent_test None r) r cs []")
    case (Inl e)
    then show ?thesis
      using sent assms status test by (simp add: row_results_def row_ops_def committed_row_def row_operation_def)
  next
    case (Inr u)
    have "row_cells cs (amerge [] u) = row_cells cs u"
      using set_cells_sets [OF Inr assms(2)] by (simp add: row_cells_name oget_def map_of_amerge map_add_def split: option.split)
    then show ?thesis
      using Inr sent assms status test by (simp add: row_results_def row_ops_def committed_row_def row_operation_def)
  qed
qed

lemma new_effects:
  assumes s: "columns s = cs" "distinct (map col_name cs)" and "\<forall>r \<in> set new. original_of md5 s r = None"
  shows "case row_results md5 number s new of
      Inl e \<Rightarrow> row_ops md5 number s new = Inl e
    | Inr cells \<Rightarrow> \<exists>ops res. row_ops md5 number s new = Inr ops \<and> (\<forall>rs. fold apply_op ops rs = rs @ res) \<and>
        map (row_cells cs) res = cells"
  using assms(3)
proof (induction new)
  case Nil
  show ?case by (auto simp: row_ops_def row_results_def intro!: exI [of _ "[]"])
next
  case (Cons r rs)
  have one: "case row_results md5 number s [r] of
      Inl e \<Rightarrow> row_ops md5 number s [r] = Inl e
    | Inr cells \<Rightarrow> \<exists>d. row_ops md5 number s [r] = Inr [NewRow d] \<and> [row_cells cs d] = cells"
    using new_effect [OF s] Cons.prems by simp
  have IH: "case row_results md5 number s rs of
      Inl e \<Rightarrow> row_ops md5 number s rs = Inl e
    | Inr cells \<Rightarrow> \<exists>ops res. row_ops md5 number s rs = Inr ops \<and> (\<forall>rs. fold apply_op ops rs = rs @ res) \<and>
        map (row_cells cs) res = cells"
    using Cons by simp
  note split = row_results_append [of md5 number s "[r]" rs]
  show ?case
  proof (cases "row_results md5 number s [r]")
    case (Inl e)
    then show ?thesis using one split row_ops_append(2) [of md5 number s "[r]" e rs] by simp
  next
    case (Inr cells)
    then obtain d where d: "row_ops md5 number s [r] = Inr [NewRow d]" "[row_cells cs d] = cells" using one by auto
    show ?thesis
    proof (cases "row_results md5 number s rs")
      case (Inl e)
      then show ?thesis using IH Inr split row_ops_append(3) [OF d(1), of rs e] by simp
    next
      case (Inr cells')
      with IH obtain ops res where 2: "row_ops md5 number s rs = Inr ops" "\<forall>rs. fold apply_op ops rs = rs @ res"
        "map (row_cells cs) res = cells'" by auto
      then show ?thesis
        using d Inr \<open>row_results md5 number s [r] = Inr cells\<close> split row_ops_append(1) [OF d(1) 2(1)]
        by (auto intro!: exI [of _ "d # res"])
    qed
  qed
qed

text \<open>
  C3: Whatever the user edits in a loaded table, cells set to any JSON value, primary keys included, new
  rows and deleted rows, the commit sends operations that, carried out on the rows of the database,
  give the rows of the editor that are not deleted, in their order (a missing cell and \<open>null\<close> are the
  same), each changed cell converted by the type of its column. \<open>converted\<close> says which cells are
  converted: those of a new row that are not empty, and of a changed row those whose JSON text
  changed and those that hold an array or object. If a conversion fails, the commit throws the error
  of the first one that does and sends nothing. The table has a primary column whose values have
  different MD5 hashes, columns with different names and no column named as a mark of the editor; MD5
  hashes are not empty, the hash of an added row (made from the time) is that of no other row, and no
  key of a loaded row is changed to that of another loaded row (\<open>keys_apart\<close>).
\<close>

theorem commit_describes_edit:
  assumes "\<And>x. md5 x \<noteq> []" and "editable md5 cs data" and "edits_ok md5 es (load_table md5 cs data)"
    and "s = edit_all md5 es (load_table md5 cs data)" and "keys_apart md5 number s"
  shows "(case committed md5 number s of
      Inl e \<Rightarrow> commit_rows md5 number s = Inl e
    | Inr cells \<Rightarrow> \<exists>ops. commit_rows md5 number s = Inr ops \<and> map (row_cells cs) (fold apply_op ops (originals s)) = cells) \<and>
    columns s = cs \<and> map (row_cells cs) (originals s) = map (row_cells cs) data"
proof -
  let ?os = "loaded_rows md5 cs data"
  have e: "editing cs ?os s"
    using editing_edits [OF assms(2,1) editing_load [OF assms(2,1)] assms(3)] assms(4) by simp
  have s: "columns s = cs" "originals s = ?os" "truthy (primaryColumnName cs)" "distinct (map col_name cs)"
    using e assms(2) by (simp_all add: editing_def editable_def)
  obtain kept new where r: "rows s = kept @ new" "list_all2 (kept_row cs) kept ?os"
    "\<forall>r \<in> set new. hashed r" "map (original_of md5 s) kept = map Some ?os"
    "\<forall>r \<in> set new. original_of md5 s r = None"
    using editing_rows [OF e] .
  have o: "original_of md5 s (kept ! i) = Some (?os ! i)" if "i < length ?os" for i
    using that arg_cong [OF r(4), of "\<lambda>xs. xs ! i"] list_all2_lengthD [OF r(2)] by simp
  have "key_apart number cs ?os (kept ! i) (?os ! i)" if "i < length ?os" for i
  proof -
    have "kept ! i \<in> set (rows s)" using that r(1) list_all2_lengthD [OF r(2)] by simp
    then show ?thesis using assms(5) o [OF that] s(1,2) unfolding keys_apart_def list_all_iff by fastforce
  qed
  with o have "list_all2 (\<lambda>r o'. kept_row cs r o' \<and> original_row cs o' \<and> original_of md5 s r = Some o' \<and> key_apart number cs ?os r o') kept ?os"
    using r(2) e by (auto simp: list_all2_conv_all_nth editing_def)
  moreover have "distinct (map (pk cs) ?os)" using e by (simp add: editing_def pk_def [abs_def])
  ultimately have 1: "case row_results md5 number s kept of
      Inl e \<Rightarrow> row_ops md5 number s kept = Inl e
    | Inr cells \<Rightarrow> \<exists>ops res. row_ops md5 number s kept = Inr ops \<and> fold apply_op ops ?os = res \<and> map (row_cells cs) res = cells"
    using kept_effects [OF s(1,3,4), of md5 number ?os kept ?os "[]"] by (auto split: sum.splits)
  note 2 = new_effects [OF s(1,4) r(5), of number]
  have commit: "commit_rows md5 number s = row_ops md5 number s (kept @ new)"
    "committed md5 number s = row_results md5 number s (kept @ new)"
    by (simp_all add: commit_rows_def row_ops_def committed_def row_results_def r(1))
  have "map (row_cells cs) ?os = map (row_cells cs) data"
    using assms(2) by (auto simp: loaded_rows_def editable_def list_all_iff intro!: row_cells_eq)
  moreover have "case committed md5 number s of
      Inl e \<Rightarrow> commit_rows md5 number s = Inl e
    | Inr cells \<Rightarrow> \<exists>ops. commit_rows md5 number s = Inr ops \<and> map (row_cells cs) (fold apply_op ops (originals s)) = cells"
    using 1 2 row_ops_append [of md5 number s kept _ new] unfolding commit row_results_append s(2)
    by (auto split: sum.splits)
  ultimately show ?thesis using s by simp
qed

definition demo_columns :: "jobj list" where
  "demo_columns = [[(''name'', Str ''id''), (''type'', Str ''int''), (''primary'', Bool True)],
     [(''name'', Str ''title''), (''type'', Str ''text'')]]"

definition demo_rows :: "jobj list" where
  "demo_rows = [[(''id'', Num 1), (''title'', Str ''a'')], [(''id'', Num 2), (''title'', Str ''b'')]]"

definition demo_number :: "string \<Rightarrow> js" where
  "demo_number t = (if t = ''5'' then Num 5 else if t = ''3'' then Num 3 else Null)"

definition demo_edits :: "row_edit list" where
  "demo_edits = [EditCell 1 ''title'' (Num 7), EditCell 1 ''id'' (Str ''5''), AddRow ''7'', EditCell 2 ''id'' (Str ''3''), DeleteRows [0]]"

lemma demo_ok:
  "editable (Cons CHR ''h'') demo_columns demo_rows"
  "edits_ok (Cons CHR ''h'') demo_edits (load_table (Cons CHR ''h'') demo_columns demo_rows)"
  "keys_apart (Cons CHR ''h'') demo_number (edit_all (Cons CHR ''h'') demo_edits (load_table (Cons CHR ''h'') demo_columns demo_rows))"
  by code_simp+

lemma demo_committed:
  "committed (Cons CHR ''h'') demo_number (edit_all (Cons CHR ''h'') demo_edits (load_table (Cons CHR ''h'') demo_columns demo_rows)) =
    Inr [[Num 5, Str ''7''], [Num 3, Null]]"
  by code_simp

text \<open>A number typed as text, in a key and in a new row, and a number in a column of texts.\<close>

theorem commit_describes_edit_witness:
  "\<exists>ops. commit_rows (Cons CHR ''h'') demo_number
      (edit_all (Cons CHR ''h'') demo_edits (load_table (Cons CHR ''h'') demo_columns demo_rows)) = Inr ops \<and>
    map (row_cells demo_columns) (fold apply_op ops
      (originals (edit_all (Cons CHR ''h'') demo_edits (load_table (Cons CHR ''h'') demo_columns demo_rows)))) =
      [[Num 5, Str ''7''], [Num 3, Null]]"
  using commit_describes_edit [OF _ demo_ok(1,2) refl demo_ok(3)] demo_committed by auto

end
