(* ===== verification/UI_Database.thy ===== *)
theory UI_Database
  imports UI_Table
begin

text \<open>
  The pages of a database: \<^verbatim>\<open>store/modules/database.ts\<close>, the statements of \<^verbatim>\<open>utils/database.ts\<close> and the
  sidebar with its tree of databases, tables, columns and indexes (\<^verbatim>\<open>DatabaseSidebar.vue\<close>).

  The identifiers of the tree are paths with colons; selecting a node sets the database and the
  table the other parts of the page work on, among them the requests that create, rename and drop
  tables. The texts shown (\<open>tr\<close>) and the nodes of the tree component (\<open>getNode\<close>) are parameters.
\<close>

section \<open>Metadata and the items of the tree\<close>

record db_database =
  d_name :: js
  d_tables :: "db_table list option"

datatype nav_content = NoContent | DatabaseContent db_database | TableContent db_table | ItemContent jobj

record nav_info =
  ni_id :: string
  ni_type :: string
  ni_name :: js
  ni_label :: js
  ni_data :: nav_content
  ni_new :: bool
  ni_edit :: bool
  ni_edit_name :: string

datatype nav_node = Node (node_info: nav_info) (node_children: "nav_node list option")

definition nav_item :: "string \<Rightarrow> string \<Rightarrow> js \<Rightarrow> js \<Rightarrow> nav_content \<Rightarrow> nav_info" where
  "nav_item i typ name label content =
     \<lparr>ni_id = i, ni_type = typ, ni_name = name, ni_label = label, ni_data = content,
      ni_new = False, ni_edit = False, ni_edit_name = []\<rparr>"

definition sub_id :: "string \<Rightarrow> js \<Rightarrow> string" where
  "sub_id i name = i @ CHR '':'' # js_str name"

definition count_label :: "string \<Rightarrow> 'a list option \<Rightarrow> js" where
  "count_label l xs = Str (l @ '' ('' @ dec_nat (case xs of None \<Rightarrow> 0 | Some ys \<Rightarrow> length ys) @ '')'')"

definition leaf_node :: "string \<Rightarrow> string \<Rightarrow> jobj \<Rightarrow> nav_node" where
  "leaf_node i typ x = Node (nav_item (sub_id i (oget x ''name'')) typ (oget x ''name'') (oget x ''name'') (ItemContent x)) None"

definition table_info :: "js \<Rightarrow> db_table \<Rightarrow> nav_info" where
  "table_info db t = nav_item (sub_id (js_str db) (t_name t)) ''table'' (t_name t) (t_name t) (TableContent t)"

definition table_node :: "(string \<Rightarrow> string) \<Rightarrow> js \<Rightarrow> db_table \<Rightarrow> nav_node" where
  "table_node tr db t =
     (let i = sub_id (js_str db) (t_name t); ci = i @ '':columns''; ii = i @ '':indexes'' in
      Node (table_info db t)
        (Some
          [Node (nav_item ci ''columns'' Undef (count_label (tr ''columns'') (t_columns t)) NoContent)
             (map_option (map (leaf_node ci ''column'')) (t_columns t)),
           Node (nav_item ii ''indexes'' Undef (count_label (tr ''indexes'') (t_indexes t)) NoContent)
             (map_option (map (leaf_node ii ''index'')) (t_indexes t))]))"

definition database_info :: "db_database \<Rightarrow> nav_info" where
  "database_info d = nav_item (js_str (d_name d)) ''database'' (d_name d) (count_label (js_str (d_name d)) (d_tables d)) (DatabaseContent d)"

definition database_node :: "(string \<Rightarrow> string) \<Rightarrow> db_database \<Rightarrow> nav_node" where
  "database_node tr d = Node (database_info d) (map_option (map (table_node tr (d_name d))) (d_tables d))"

definition computedTreeItems :: "(string \<Rightarrow> string) \<Rightarrow> db_database list option \<Rightarrow> nav_node list" where
  "computedTreeItems tr metadata = (case metadata of None \<Rightarrow> [] | Some ds \<Rightarrow> map (database_node tr) ds)"

section \<open>The store\<close>

text \<open>What the store has beyond the base store of lists.\<close>

record db_state =
  metadata :: "db_database list option"
  tablePreviewData :: js
  tablePreviewPagination :: jobj
  tablePreviewTotal :: js
  activeTable :: js
  activeDatabaseName :: string
  activeNavItem :: "nav_info option"
  defaultTabName :: string
  consoleContent :: string
  consoleSelectedContent :: js
  consoleQueryLoading :: bool
  consoleQueryResults :: js
  consoleQueryResultsActiveTabName :: js

definition db_init :: db_state where
  "db_init =
     \<lparr>metadata = None, tablePreviewData = Arr [], tablePreviewPagination = [(''page'', Num 1), (''size'', Num 10)],
      tablePreviewTotal = Num 0, activeTable = Undef, activeDatabaseName = [], activeNavItem = None,
      defaultTabName = ''data'', consoleContent = [], consoleSelectedContent = Undef, consoleQueryLoading = False,
      consoleQueryResults = Undef, consoleQueryResultsActiveTabName = Undef\<rparr>"

datatype db_mutation =
    SetMetadata "db_database list option"
  | SetTablePreviewData js
  | SetTablePreviewTotal js
  | SetTablePreviewPagination jobj
  | SetActiveTable js
  | ResetActiveTable
  | SetActiveDatabaseName string
  | SetActiveNavItem "nav_info option"
  | SetDefaultTabName string
  | SetConsoleContent string
  | SetConsoleSelectedContent js
  | SetConsoleQueryLoading bool
  | SetConsoleQueryResults js
  | SetConsoleQueryResultsActiveTabName js

fun db_mutate :: "db_mutation \<Rightarrow> db_state \<Rightarrow> db_state" where
  "db_mutate (SetMetadata m) s = s\<lparr>metadata := m\<rparr>"
| "db_mutate (SetTablePreviewData v) s = s\<lparr>tablePreviewData := v\<rparr>"
| "db_mutate (SetTablePreviewTotal v) s = s\<lparr>tablePreviewTotal := v\<rparr>"
| "db_mutate (SetTablePreviewPagination p) s = s\<lparr>tablePreviewPagination := p\<rparr>"
| "db_mutate (SetActiveTable t) s = s\<lparr>activeTable := t\<rparr>"
| "db_mutate ResetActiveTable s = s\<lparr>activeTable := Undef\<rparr>"
| "db_mutate (SetActiveDatabaseName n) s = s\<lparr>activeDatabaseName := n\<rparr>"
| "db_mutate (SetActiveNavItem i) s = s\<lparr>activeNavItem := i\<rparr>"
| "db_mutate (SetDefaultTabName n) s = s\<lparr>defaultTabName := n\<rparr>"
| "db_mutate (SetConsoleContent c) s = s\<lparr>consoleContent := c\<rparr>"
| "db_mutate (SetConsoleSelectedContent v) s = s\<lparr>consoleSelectedContent := v\<rparr>"
| "db_mutate (SetConsoleQueryLoading b) s = s\<lparr>consoleQueryLoading := b\<rparr>"
| "db_mutate (SetConsoleQueryResults v) s = s\<lparr>consoleQueryResults := v\<rparr>"
| "db_mutate (SetConsoleQueryResultsActiveTabName v) s = s\<lparr>consoleQueryResultsActiveTabName := v\<rparr>"

subsection \<open>Actions\<close>

definition databases_url :: "string \<Rightarrow> string \<Rightarrow> string" where
  "databases_url i rest = ''/databases/'' @ i @ rest"

definition changePassword_request :: "string \<Rightarrow> js \<Rightarrow> service_request" where
  "changePassword_request i password = post_request (databases_url i ''/change-password'') (Obj [(''password'', password)])"

definition getMetadata_start :: "string \<Rightarrow> service_request" where
  "getMetadata_start i = get_request (databases_url i ''/metadata'') Undef"

definition getMetadata_done :: "db_database list option \<Rightarrow> db_state \<Rightarrow> db_state" where
  "getMetadata_done answer s = db_mutate (SetMetadata answer) s"

definition getTablePreview_start :: "string \<Rightarrow> js \<Rightarrow> js \<Rightarrow> db_state \<Rightarrow> service_request" where
  "getTablePreview_start i database table s =
     get_request (databases_url i ''/tables/preview'')
       (Obj [(''page'', oget (tablePreviewPagination s) ''page''), (''size'', oget (tablePreviewPagination s) ''size''),
             (''database'', database), (''table'', table)])"

definition getTablePreview_done :: "js \<Rightarrow> js \<Rightarrow> db_state \<Rightarrow> db_state" where
  "getTablePreview_done data tot s = db_mutate (SetTablePreviewTotal tot) (db_mutate (SetTablePreviewData data) s)"

definition getTable_start :: "string \<Rightarrow> js \<Rightarrow> js \<Rightarrow> service_request" where
  "getTable_start i database table =
     get_request (databases_url i ''/tables/metadata'') (Obj [(''database'', database), (''table'', table)])"

definition getTable_answer :: "js \<Rightarrow> db_state \<Rightarrow> db_state" where
  "getTable_answer data s = db_mutate (SetActiveTable data) s"

text \<open>Without a query the text selected in the console is run; without that nothing is.\<close>

definition runQuery_start :: "string \<Rightarrow> js \<Rightarrow> js \<Rightarrow> db_state \<Rightarrow> db_state \<times> service_request option" where
  "runQuery_start i database query s =
     (let q = js_or query (consoleSelectedContent s) in
      if \<not> truthy q then (s, None)
      else (db_mutate (SetConsoleQueryLoading True) s,
            Some (post_request (databases_url i ''/query'') (Obj [(''database'', database), (''query'', q)]))))"

definition runQuery_done :: "thrown + js \<Rightarrow> db_state \<Rightarrow> db_state" where
  "runQuery_done result s =
     db_mutate (SetConsoleQueryLoading False)
       (case result of
          Inl e \<Rightarrow> s
        | Inr data \<Rightarrow>
            db_mutate (SetConsoleQueryResultsActiveTabName
                (Str (if truthy (js_get_opt (js_get_opt data ''columns'') ''length'') then ''results'' else ''output'')))
              (db_mutate (SetConsoleQueryResults data) s))"

datatype db_event = RunQuery string js js | QueryAnswered "thrown + js" | DbCommit db_mutation

fun on_db_event :: "db_event \<Rightarrow> db_state \<Rightarrow> db_state" where
  "on_db_event (RunQuery i d q) s = fst (runQuery_start i d q s)"
| "on_db_event (QueryAnswered r) s = runQuery_done r s"
| "on_db_event (DbCommit m) s = db_mutate m s"

fun db_event_kind :: "db_event \<Rightarrow> flag_event" where
  "db_event_kind (RunQuery i d q) = (if truthy q then Begins else SetsFlag)"
| "db_event_kind (QueryAnswered r) = Finishes"
| "db_event_kind (DbCommit (SetConsoleQueryLoading b)) = SetsFlag"
| "db_event_kind (DbCommit m) = Unrelated"

lemma console_results_flag: "consoleQueryLoading (runQuery_done r s) = False"
  by (simp add: runQuery_done_def)

interpretation query_flag: loading_flag on_db_event db_event_kind consoleQueryLoading
proof
  show "consoleQueryLoading (on_db_event e s)" if "db_event_kind e = Begins" for e s
    using that by (cases e rule: db_event_kind.cases) (auto simp: runQuery_start_def js_or_def split: if_splits)
  show "\<not> consoleQueryLoading (on_db_event e s)" if "db_event_kind e = Finishes" for e s
    using that by (cases e rule: db_event_kind.cases) (auto simp: console_results_flag split: if_splits)
  show "consoleQueryLoading (on_db_event e s) = consoleQueryLoading s" if "db_event_kind e = Unrelated" for e s
    using that by (cases e rule: db_event_kind.cases) (auto split: if_splits)
qed

lemma query_loading_while_pending:
  "pending_after (consoleQueryLoading s) (map db_event_kind es) = Some p \<Longrightarrow> consoleQueryLoading (fold on_db_event es s) = p"
  by (rule query_flag.flag_while_pending)

section \<open>Selecting a node\<close>

text \<open>\<open>getNodeIdParts\<close>: the names of the database and the table of a path, and the nodes with these names.\<close>

definition node_named :: "js \<Rightarrow> nav_node list option \<Rightarrow> nav_node option" where
  "node_named name nodes = (case nodes of None \<Rightarrow> None | Some xs \<Rightarrow> find (\<lambda>n. strict_eq (ni_name (node_info n)) name) xs)"

definition id_part :: "nat \<Rightarrow> string \<Rightarrow> js" where
  "id_part k i = (if k < length (split_on CHR '':'' i) then Str (split_on CHR '':'' i ! k) else Undef)"

definition node_table :: "nav_node list \<Rightarrow> string \<Rightarrow> nav_node option" where
  "node_table tree i =
     (case node_named (id_part 0 i) (Some tree) of
        None \<Rightarrow> None
      | Some d \<Rightarrow> node_named (id_part 1 i) (node_children d))"

definition js_or_text :: "string option \<Rightarrow> string \<Rightarrow> string" where
  "js_or_text a b = (case a of None \<Rightarrow> b | Some s \<Rightarrow> if s = [] then b else s)"

definition selectNodeDatabases :: "nav_node list \<Rightarrow> nav_info \<Rightarrow> string option \<Rightarrow> db_state \<Rightarrow> db_state" where
  "selectNodeDatabases tree item tabName s =
     (let s1 = db_mutate (SetActiveDatabaseName (js_str (id_part 0 (ni_id item)))) s;
          table = map_option node_info (node_table tree (ni_id item)) in
      if ni_type item = ''table'' then
        db_mutate (SetActiveNavItem (Some item))
          (db_mutate (SetDefaultTabName (js_or_text tabName (if \<not> ni_new item then ''data'' else ''columns''))) s1)
      else if ni_type item \<in> {''columns'', ''column''} then
        db_mutate (SetActiveNavItem table) (db_mutate (SetDefaultTabName (js_or_text tabName ''columns'')) s1)
      else if ni_type item \<in> {''indexes'', ''index''} then
        db_mutate (SetActiveNavItem table) (db_mutate (SetDefaultTabName (js_or_text tabName ''indexes'')) s1)
      else db_mutate (SetActiveNavItem (Some item)) s1)"

definition selectNode :: "string \<Rightarrow> nav_node list \<Rightarrow> nav_info \<Rightarrow> string option \<Rightarrow> db_state \<Rightarrow> db_state" where
  "selectNode page tree item tabName s = (if page = ''databases'' then selectNodeDatabases tree item tabName s else s)"

definition sidebar_reset :: "db_state \<Rightarrow> db_state" where
  "sidebar_reset s =
     db_mutate (SetTablePreviewPagination [(''page'', Num 1), (''size'', Num 10)])
       (db_mutate (SetTablePreviewTotal (Num 0)) (db_mutate (SetTablePreviewData (Arr [])) (db_mutate (SetActiveNavItem None) s)))"

section \<open>Creating, renaming and dropping tables\<close>

text \<open>
  The new table is put below the database selected, or else the one of the last selection, or else the
  first; its identifier begins with the database of the last selection.
\<close>

definition createTable_database :: "nav_node list \<Rightarrow> db_state \<Rightarrow> js" where
  "createTable_database tree s =
     (case activeNavItem s of
        Some i \<Rightarrow>
          if ni_type i = ''database'' then ni_name i
          else if activeDatabaseName s \<noteq> [] then Str (activeDatabaseName s)
          else (case tree of [] \<Rightarrow> Undef | n # _ \<Rightarrow> ni_name (node_info n))
      | None \<Rightarrow>
          if activeDatabaseName s \<noteq> [] then Str (activeDatabaseName s)
          else (case tree of [] \<Rightarrow> Undef | n # _ \<Rightarrow> ni_name (node_info n)))"

definition newTableNode :: "string \<Rightarrow> db_state \<Rightarrow> nav_info" where
  "newTableNode tableId s =
     \<lparr>ni_id = sub_id (activeDatabaseName s) (Str tableId), ni_type = ''table'', ni_name = Undef, ni_label = Str [],
      ni_data = TableContent \<lparr>t_name = Str [], t_columns = Some [], t_indexes = Some []\<rparr>,
      ni_new = True, ni_edit = True, ni_edit_name = []\<rparr>"

fun add_child :: "js \<Rightarrow> nav_info \<Rightarrow> nav_node list \<Rightarrow> nav_node list" where
  "add_child name i [] = []"
| "add_child name i (Node d cs # nodes) =
     (if strict_eq (ni_name d) name then Node d (Some (Node i (Some []) # (case cs of None \<Rightarrow> [] | Some xs \<Rightarrow> xs))) # nodes
      else Node d cs # add_child name i nodes)"

definition sidebar_createTable :: "string \<Rightarrow> string \<Rightarrow> nav_node list \<Rightarrow> db_state \<Rightarrow> nav_node list \<times> db_state" where
  "sidebar_createTable page tableId tree s =
     (let name = createTable_database tree s in
      case node_named name (Some tree) of
        None \<Rightarrow> (tree, s)
      | Some d \<Rightarrow>
          (let i = newTableNode tableId s; tree' = add_child name i tree in (tree', selectNode page tree' i None s)))"

definition content_name :: "nav_content \<Rightarrow> js" where
  "content_name c =
     (case c of NoContent \<Rightarrow> Undef | DatabaseContent d \<Rightarrow> d_name d | TableContent t \<Rightarrow> t_name t | ItemContent x \<Rightarrow> oget x ''name'')"

text \<open>Dropping selects the table, asks for its name, and sends the request when the name typed is the same.\<close>

definition drop_start :: "string \<Rightarrow> nav_node list \<Rightarrow> nav_info \<Rightarrow> db_state \<Rightarrow> db_state \<times> js" where
  "drop_start page tree item s =
     (let s' = selectNode page tree item None s in
      (s', case activeNavItem s' of None \<Rightarrow> Undef | Some i \<Rightarrow> content_name (ni_data i)))"

definition drop_typed :: "string \<Rightarrow> js \<Rightarrow> string \<Rightarrow> db_state \<Rightarrow> service_request option" where
  "drop_typed i tableName typed s =
     (if typed = [] \<or> Str typed \<noteq> tableName then None
      else Some (del_request (databases_url i ''/tables/drop'')
             (Obj [(''database_name'', Str (activeDatabaseName s)), (''table_name'', tableName)])))"

definition drop_done :: "string \<Rightarrow> db_state \<Rightarrow> db_state \<times> service_request" where
  "drop_done i s = (db_mutate (SetActiveNavItem None) s, getMetadata_start i)"

text \<open>
  Renaming: \<open>item\<close> is the node that is edited and \<open>valid\<close> says whether its form is. Whether the table is
  new is read from the node selected.
\<close>

definition renameTable_request :: "string \<Rightarrow> nav_info \<Rightarrow> db_state \<Rightarrow> service_request" where
  "renameTable_request i item s =
     post_request (databases_url i ''/tables/rename'')
       (Obj [(''database_name'', Str (activeDatabaseName s)), (''table_name'', content_name (ni_data item)),
             (''new_table_name'', Str (ni_edit_name item))])"

definition set_table_name :: "nav_info \<Rightarrow> nav_info" where
  "set_table_name item =
     item\<lparr>ni_label := Str (ni_edit_name item),
       ni_data := (case ni_data item of TableContent t \<Rightarrow> TableContent (t\<lparr>t_name := Str (ni_edit_name item)\<rparr>) | c \<Rightarrow> c)\<rparr>"

datatype save_outcome = SaveStopped nav_info | SaveAsks nav_info service_request | SaveDone nav_info db_state

definition rename_saved :: "nav_info \<Rightarrow> db_state \<Rightarrow> save_outcome" where
  "rename_saved item s = SaveDone item (db_mutate (SetActiveNavItem (Some item)) s)"

definition validateAndSave :: "(string \<Rightarrow> nav_info option) \<Rightarrow> string \<Rightarrow> bool \<Rightarrow> nav_info \<Rightarrow> db_state \<Rightarrow> save_outcome" where
  "validateAndSave getNode i valid item s =
     (if \<not> valid then SaveStopped item
      else
        (let item' = item\<lparr>ni_edit := False\<rparr> in
         if content_name (ni_data item') = Str (ni_edit_name item') then rename_saved item' s
         else (case activeNavItem s of
                 None \<Rightarrow> SaveStopped item'
               | Some a \<Rightarrow> (case getNode (ni_id a) of
                   None \<Rightarrow> SaveStopped item'
                 | Some n \<Rightarrow>
                     if \<not> ni_new n then SaveAsks item' (renameTable_request i item' s)
                     else rename_saved (set_table_name item') s))))"

definition renameTable_done :: "thrown + js \<Rightarrow> nav_info \<Rightarrow> db_state \<Rightarrow> save_outcome" where
  "renameTable_done result item s =
     (case result of Inl _ \<Rightarrow> SaveStopped item | Inr _ \<Rightarrow> rename_saved (set_table_name item) s)"

section \<open>Statements for the console\<close>

definition is_sql :: "string \<Rightarrow> bool" where
  "is_sql ds \<longleftrightarrow> ds \<in> {''mysql'', ''postgres'', ''mssql''}"

definition getTableManipulationStatementsByDataSource :: "string \<Rightarrow> js \<Rightarrow> (string \<times> string) list" where
  "getTableManipulationStatementsByDataSource ds tableName =
     (let n = js_str tableName in
      if ds = ''mongo'' then
        [(''select'', ''db.'' @ n @ ''.find({});''), (''truncate'', ''db.'' @ n @ ''.deleteMany({});''), (''drop'', ''db.'' @ n @ ''.drop();'')]
      else if is_sql ds then
        [(''select'', ''SELECT * FROM '' @ n @ '';''),
         (''create'', ''CREATE TABLE new_table_name (id INT PRIMARY KEY ...);''),
         (''alter'', ''ALTER TABLE ${tableName} ...''),
         (''truncate'', ''TRUNCATE TABLE '' @ n @ '';''), (''drop'', ''DROP TABLE '' @ n @ '';'')]
      else [])"

definition getDatabaseEditorLanguage :: "string \<Rightarrow> string" where
  "getDatabaseEditorLanguage ds = (if ds = ''mongo'' then ''javascript'' else if is_sql ds then ''sql'' else ''plaintext'')"

text \<open>The entries of the menu of a node on the console page; each appends its statement on a line of its own.\<close>

definition console_menu :: "string \<Rightarrow> nav_info \<Rightarrow> (string \<times> string) list" where
  "console_menu ds item =
     (let keys = (if ni_type item = ''database'' then [''create''] else if ni_type item = ''table'' then [''select'', ''truncate'', ''drop''] else []);
          st = getTableManipulationStatementsByDataSource ds (if ni_type item = ''table'' then ni_name item else Undef) in
      List.map_filter (\<lambda>k. map_option (Pair k) (map_of st k)) keys)"

definition console_append :: "string \<Rightarrow> db_state \<Rightarrow> db_state" where
  "console_append statement s =
     db_mutate (SetConsoleContent ((if consoleContent s \<noteq> [] then consoleContent s @ [CHR 0x0A] else []) @ statement)) s"

section \<open>The tree and the table selected\<close>

text \<open>
  A path is split at colons, so its database is the name up to the first colon. In metadata whose names
  are strings without colons, each once, the nodes below a table are found again by their paths.
\<close>

definition before_colon :: "string \<Rightarrow> string" where
  "before_colon n = takeWhile (\<lambda>c. c \<noteq> CHR '':'') n"

lemma id_part_database: "id_part 0 (n @ CHR '':'' # rest) = Str (before_colon n)"
proof -
  have "split_on CHR '':'' s \<noteq> [] \<and> hd (split_on CHR '':'' s) = before_colon s" for s
    by (induction s) (auto simp: before_colon_def hd_append split: list.split)
  from this [of "n @ CHR '':'' # rest"] show ?thesis
    by (simp add: id_part_def before_colon_def hd_conv_nth takeWhile_tail)
qed

lemma before_colon_id: "before_colon n = n \<longleftrightarrow> CHR '':'' \<notin> set n"
  by (auto simp: before_colon_def takeWhile_eq_all_conv)


definition clean_name :: "js \<Rightarrow> bool" where
  "clean_name v \<longleftrightarrow> (case v of Str n \<Rightarrow> CHR '':'' \<notin> set n | _ \<Rightarrow> False)"

definition clean_names :: "db_database list \<Rightarrow> bool" where
  "clean_names ds \<longleftrightarrow>
     distinct (map d_name ds) \<and>
     list_all (\<lambda>d. clean_name (d_name d) \<and>
       (case d_tables d of None \<Rightarrow> True
        | Some ts \<Rightarrow> distinct (map t_name ts) \<and> list_all (\<lambda>t. clean_name (t_name t)) ts)) ds"

text \<open>The node of a table and the nodes below it.\<close>

definition nodes_below :: "nav_node \<Rightarrow> nav_node list" where
  "nodes_below n = (case node_children n of None \<Rightarrow> [] | Some xs \<Rightarrow> xs)"

definition table_items :: "(string \<Rightarrow> string) \<Rightarrow> js \<Rightarrow> db_table \<Rightarrow> nav_info list" where
  "table_items tr db t =
     (let n = table_node tr db t in
      node_info n # concat (map (\<lambda>c. node_info c # map node_info (nodes_below c)) (nodes_below n)))"

lemma path_parts:
  assumes "CHR '':'' \<notin> set n" "CHR '':'' \<notin> set m" "rest = [] \<or> hd rest = CHR '':''"
  shows "id_part 0 (sub_id n (Str m) @ rest) = Str n \<and> id_part 1 (sub_id n (Str m) @ rest) = Str m"
proof (cases rest)
  case Nil
  then show ?thesis using assms by (simp add: sub_id_def id_part_def split_on_append split_on_none)
next
  case (Cons c r)
  then show ?thesis using assms by (simp add: sub_id_def id_part_def split_on_append split_on_none)
qed

lemma find_unique_name:
  assumes "x \<in> set xs" "distinct (map f xs)" "\<And>y. name (g y) = f y" "strict_eq (f x) (f x)"
  shows "find (\<lambda>n. strict_eq (name n) (f x)) (map g xs) = Some (g x)"
  using assms by (induction xs) (auto simp: strict_eq_def rev_image_eqI)

lemma clean_name_refl: "clean_name v \<Longrightarrow> strict_eq v v \<and> (\<exists>n. v = Str n \<and> CHR '':'' \<notin> set n)"
  by (auto simp: clean_name_def strict_eq_def split: js.splits)

lemma node_table_found:
  assumes "clean_names ds" "d \<in> set ds" "d_tables d = Some ts" "t \<in> set ts" "rest = [] \<or> hd rest = CHR '':''"
  shows "node_table (computedTreeItems tr (Some ds)) (sub_id (js_str (d_name d)) (t_name t) @ rest) = Some (table_node tr (d_name d) t)"
    and "id_part 0 (sub_id (js_str (d_name d)) (t_name t) @ rest) = d_name d"
proof -
  have d: "distinct (map d_name ds)" "clean_name (d_name d)" "distinct (map t_name ts)" "clean_name (t_name t)"
    using assms(1-4) by (auto simp: clean_names_def list_all_iff)
  obtain n m where n: "d_name d = Str n" "CHR '':'' \<notin> set n" and m: "t_name t = Str m" "CHR '':'' \<notin> set m"
    using clean_name_refl [OF d(2)] clean_name_refl [OF d(4)] by auto
  have p: "id_part 0 (sub_id (js_str (d_name d)) (t_name t) @ rest) = d_name d"
    "id_part 1 (sub_id (js_str (d_name d)) (t_name t) @ rest) = t_name t"
    using path_parts [OF n(2) m(2) assms(5)] n m by simp_all
  have "node_named (d_name d) (Some (map (database_node tr) ds)) = Some (database_node tr d)"
    using find_unique_name [OF assms(2) d(1), of "\<lambda>n. ni_name (node_info n)" "database_node tr"] clean_name_refl [OF d(2)]
    by (simp add: node_named_def database_node_def database_info_def nav_item_def)
  moreover have "node_named (t_name t) (node_children (database_node tr d)) = Some (table_node tr (d_name d) t)"
    using find_unique_name [OF assms(4) d(3), of "\<lambda>n. ni_name (node_info n)" "table_node tr (d_name d)"] clean_name_refl [OF d(4)]
    by (simp add: node_named_def database_node_def assms(3) table_node_def table_info_def nav_item_def Let_def)
  ultimately show "node_table (computedTreeItems tr (Some ds)) (sub_id (js_str (d_name d)) (t_name t) @ rest) = Some (table_node tr (d_name d) t)"
    by (simp add: node_table_def computedTreeItems_def p p(2) [unfolded One_nat_def])
  show "id_part 0 (sub_id (js_str (d_name d)) (t_name t) @ rest) = d_name d" by (rule p)
qed

lemma table_items_paths:
  assumes "item \<in> set (table_items tr db t)"
  shows "item = table_info db t \<or>
    (ni_type item \<in> {''columns'', ''column'', ''indexes'', ''index''} \<and>
     (\<exists>rest. ni_id item = sub_id (js_str db) (t_name t) @ rest \<and> hd rest = CHR '':''))"
  using assms
  by (auto simp: table_items_def table_node_def nodes_below_def Let_def nav_item_def leaf_node_def sub_id_def
      split: option.splits)

text \<open>
  C33: On the databases page, clicking a table in the sidebar, or any of the columns and indexes below
  it, makes the name of its database up to the first colon the database selected, which is its database
  if the name has no colon, and opens the rows, the columns or the indexes. The table itself selects that
  table whatever the names are, and so does a node below it if no name of the metadata has a colon
  or occurs twice. Dropping the table then sends a request only if its name was typed, and the request
  names that table and that database: the right one exactly if its name has no colon.
\<close>

theorem sidebar_acts_on_table:
  assumes "d \<in> set ds" "d_name d = Str n" "d_tables d = Some ts" "t \<in> set ts" "item \<in> set (table_items tr (d_name d) t)"
    and "s' = selectNode ''databases'' (computedTreeItems tr (Some ds)) item None s"
  shows "activeDatabaseName s' = before_colon n \<and> (before_colon n = n \<longleftrightarrow> CHR '':'' \<notin> set n) \<and>
    (ni_type item = ''table'' \<or> clean_names ds \<longrightarrow> activeNavItem s' = Some (table_info (d_name d) t)) \<and>
    defaultTabName s' = (if ni_type item = ''table'' then ''data'' else if ni_type item \<in> {''columns'', ''column''} then ''columns'' else ''indexes'') \<and>
    (ni_type item = ''table'' \<longrightarrow> drop_start ''databases'' (computedTreeItems tr (Some ds)) item s = (s', t_name t)) \<and>
    (\<forall>i typed. drop_typed i (t_name t) typed s' =
       (if typed \<noteq> [] \<and> Str typed = t_name t
        then Some (del_request (databases_url i ''/tables/drop'')
               (Obj [(''database_name'', Str (before_colon n)), (''table_name'', t_name t)]))
        else None))"
proof -
  obtain rest where rest: "ni_id item = sub_id (js_str (d_name d)) (t_name t) @ rest" "rest = [] \<or> hd rest = CHR '':''"
    using table_items_paths [OF assms(5)] by (auto simp: table_info_def nav_item_def)
  have part: "id_part 0 (ni_id item) = Str (before_colon n)"
    using rest(1) id_part_database [of n] assms(2) by (simp add: sub_id_def)
  have info: "ni_type (table_info (d_name d) t) = ''table''" "\<not> ni_new (table_info (d_name d) t)"
    "content_name (ni_data (table_info (d_name d) t)) = t_name t" "node_info (table_node tr (d_name d) t) = table_info (d_name d) t"
    by (simp_all add: table_info_def nav_item_def content_name_def table_node_def Let_def)
  have "activeDatabaseName s' = before_colon n"
    "defaultTabName s' = (if ni_type item = ''table'' then ''data'' else if ni_type item \<in> {''columns'', ''column''} then ''columns'' else ''indexes'')"
    using table_items_paths [OF assms(5)] assms(6) part info
    by (auto simp: selectNode_def selectNodeDatabases_def Let_def js_or_text_def)
  moreover have "activeNavItem s' = Some (table_info (d_name d) t)" if "ni_type item = ''table'' \<or> clean_names ds"
    using table_items_paths [OF assms(5)]
  proof
    assume "item = table_info (d_name d) t"
    then show ?thesis using assms(6) info by (simp add: selectNode_def selectNodeDatabases_def Let_def)
  next
    assume below: "ni_type item \<in> {''columns'', ''column'', ''indexes'', ''index''} \<and>
      (\<exists>rest. ni_id item = sub_id (js_str (d_name d)) (t_name t) @ rest \<and> hd rest = CHR '':'')"
    then have "clean_names ds" using that by auto
    then show ?thesis
      using below assms(6) node_table_found(1) [OF _ assms(1,3,4) rest(2)] rest(1) info(4)
      by (auto simp: selectNode_def selectNodeDatabases_def Let_def)
  qed
  moreover have "ni_type item = ''table'' \<longrightarrow> item = table_info (d_name d) t" using table_items_paths [OF assms(5)] by auto
  ultimately show ?thesis
    using assms(6) info before_colon_id by (auto simp: drop_start_def drop_typed_def Let_def)
qed

definition demo_databases :: "db_database list" where
  "demo_databases =
     [\<lparr>d_name = Str ''a'', d_tables = Some [\<lparr>t_name = Str ''u'', t_columns = None, t_indexes = None\<rparr>]\<rparr>,
      \<lparr>d_name = Str ''b'', d_tables = Some [\<lparr>t_name = Str ''u'', t_columns = Some [[(''name'', Str ''c'')]], t_indexes = None\<rparr>]\<rparr>]"

definition demo_item :: nav_info where
  "demo_item = nav_item ''b:u:columns:c'' ''column'' (Str ''c'') (Str ''c'') (ItemContent [(''name'', Str ''c'')])"

text \<open>A column of one of two tables with the same name, in different databases.\<close>

theorem sidebar_acts_on_table_witness:
  "activeDatabaseName (selectNode ''databases'' (computedTreeItems (\<lambda>k. k) (Some demo_databases)) demo_item None db_init) = ''b'' \<and>
   activeNavItem (selectNode ''databases'' (computedTreeItems (\<lambda>k. k) (Some demo_databases)) demo_item None db_init)
     = Some (table_info (Str ''b'') \<lparr>t_name = Str ''u'', t_columns = Some [[(''name'', Str ''c'')]], t_indexes = None\<rparr>)"
proof -
  let ?t = "\<lparr>t_name = Str ''u'', t_columns = Some [[(''name'', Str ''c'')]], t_indexes = None\<rparr>"
  let ?d = "\<lparr>d_name = Str ''b'', d_tables = Some [?t]\<rparr>"
  have "clean_names demo_databases" by code_simp
  moreover have "before_colon ''b'' = ''b''" by code_simp
  moreover have "?d \<in> set demo_databases" by (simp add: demo_databases_def)
  moreover have "demo_item \<in> set (table_items (\<lambda>k. k) (d_name ?d) ?t)"
    by (simp add: demo_item_def table_items_def table_node_def nodes_below_def leaf_node_def sub_id_def)
  ultimately show ?thesis
    using sidebar_acts_on_table [OF _ _ _ _ _ refl, of ?d demo_databases "''b''" "[?t]" ?t demo_item "\<lambda>k. k" db_init] by simp
qed

text \<open>
  The requests of a table name the database of the last selection. A rename that is confirmed after
  another database was selected is sent to that database; a name with a colon selects the part before it;
  and a table created before anything is selected is put below the first database but has none.
\<close>

lemma rename_uses_selected_database:
  "sr_data (renameTable_request i item (selectNode ''databases'' tree other None s)) =
    Obj [(''database_name'', id_part 0 (ni_id other)), (''table_name'', content_name (ni_data item)),
      (''new_table_name'', Str (ni_edit_name item))]"
  by (simp add: renameTable_request_def post_request_def selectNode_def selectNodeDatabases_def Let_def id_part_def)

lemma colon_truncated:
  "activeDatabaseName (selectNode ''databases'' (computedTreeItems tr (Some [d, e]))
     (table_info (Str ''a:b'') t) None s) = ''a''"
  by (simp add: selectNode_def selectNodeDatabases_def table_info_def nav_item_def sub_id_def id_part_def)

lemma created_without_database:
  assumes "activeNavItem s = None" "activeDatabaseName s = []"
  shows "createTable_database (database_node tr d # tree) s = d_name d \<and>
    activeDatabaseName (selectNode ''databases'' tree' (newTableNode tableId s) None s) = []"
  using assms
  by (simp add: createTable_database_def database_node_def database_info_def nav_item_def newTableNode_def selectNode_def
      selectNodeDatabases_def sub_id_def id_part_def)

end
