(* ===== verification/UI_Git.thy ===== *)
theory UI_Git
  imports UI_Store
begin

text \<open>
  The pages of a git repository: \<^verbatim>\<open>store/modules/git.ts\<close> and the handlers of
  \<^verbatim>\<open>views/git/detail/useGitDetail.ts\<close> and \<^verbatim>\<open>GitDetailActionsCommon.vue\<close>.

  The store has six slots that are filled from the API and replaced only when the answer differs
  from what they hold; the locale \<open>answered_slots\<close> states this once. A handler is a computation over
  the page, the store with its flags and the requests sent: \<open>answers n\<close> is what the \<open>n\<close>-th request
  resolves to. Handlers run one at a time. Messages and the navigation are left out, and the texts typed into
  message boxes are arguments.
\<close>

section \<open>The store\<close>

text \<open>What the store has beyond the base store and the state of files.\<close>

datatype git_slot = RemoteRefs | CurrentBranch | Branches | RemoteBranches | Changes | Logs

record git_state =
  gitChangeSelection :: "jobj list"
  git_slots :: "git_slot \<Rightarrow> js"
  gitDiff :: js
  activeFilePath :: js
  createSpiderLoading :: bool

definition slot_empty :: "git_slot \<Rightarrow> js" where
  "slot_empty k = (if k = CurrentBranch then Undef else Arr [])"

definition git_init :: git_state where
  "git_init = \<lparr>gitChangeSelection = [], git_slots = slot_empty, gitDiff = Obj [], activeFilePath = Undef, createSpiderLoading = False\<rparr>"

datatype git_mutation =
    SetGitChangeSelection "jobj list"
  | ResetGitChangeSelection
  | SetSlot git_slot js
  | ResetSlot git_slot
  | SetGitDiff js
  | ResetGitDiff
  | SetActiveFilePath js
  | ResetActiveFilePath
  | SetCreateSpiderLoading bool

fun git_mutate :: "git_mutation \<Rightarrow> git_state \<Rightarrow> git_state" where
  "git_mutate (SetGitChangeSelection xs) s = s\<lparr>gitChangeSelection := xs\<rparr>"
| "git_mutate ResetGitChangeSelection s = s\<lparr>gitChangeSelection := []\<rparr>"
| "git_mutate (SetSlot k v) s = s\<lparr>git_slots := (git_slots s)(k := v)\<rparr>"
| "git_mutate (ResetSlot k) s = s\<lparr>git_slots := (git_slots s)(k := slot_empty k)\<rparr>"
| "git_mutate (SetGitDiff v) s = s\<lparr>gitDiff := v\<rparr>"
| "git_mutate ResetGitDiff s = s\<lparr>gitDiff := Obj []\<rparr>"
| "git_mutate (SetActiveFilePath v) s = s\<lparr>activeFilePath := v\<rparr>"
| "git_mutate ResetActiveFilePath s = s\<lparr>activeFilePath := Undef\<rparr>"
| "git_mutate (SetCreateSpiderLoading b) s = s\<lparr>createSpiderLoading := b\<rparr>"

definition gitBranchSelectOptions :: "git_state \<Rightarrow> jobj list" where
  "gitBranchSelectOptions s =
     (case git_slots s RemoteRefs of
        Arr rs \<Rightarrow> map (\<lambda>r. [(''label'', js_get_opt r ''name''), (''value'', js_get_opt r ''name'')])
          (filter (\<lambda>r. js_get_opt r ''type'' = Str ''branch'') rs)
      | _ \<Rightarrow> [])"

subsection \<open>Requests\<close>

definition gits_url :: "string \<Rightarrow> string \<Rightarrow> string" where
  "gits_url i rest = ''/gits/'' @ i @ rest"

definition slot_path :: "git_slot \<Rightarrow> string" where
  "slot_path k =
     (case k of RemoteRefs \<Rightarrow> ''/git/remote-refs'' | CurrentBranch \<Rightarrow> ''/branches/current'' | Branches \<Rightarrow> ''/branches''
      | RemoteBranches \<Rightarrow> ''/branches/remote'' | Changes \<Rightarrow> ''/changes'' | Logs \<Rightarrow> ''/logs'')"

datatype git_call =
    GetSlot git_slot
  | CloneGit
  | NewBranch js js
  | DeleteBranch js
  | CheckoutBranch js
  | CheckoutRemoteBranch js
  | AddChanges "jobj list"
  | DeleteChanges "jobj list"
  | Commit js "jobj list"
  | Pull
  | Push
  | GitCheckoutTag js
  | GitPull
  | GitCommit "js list" js
  | GitFileDiff js
  | CreateSpider jobj

fun git_request :: "string \<Rightarrow> git_call \<Rightarrow> service_request" where
  "git_request i (GetSlot k) = get_request (gits_url i (slot_path k)) Undef"
| "git_request i CloneGit = post_request (gits_url i ''/clone'') Undef"
| "git_request i (NewBranch src trg) =
     post_request (gits_url i ''/branches/new'') (Obj [(''source_branch'', src), (''target_branch'', trg)])"
| "git_request i (DeleteBranch b) = del_request (gits_url i ''/branches'') (Obj [(''branch'', b)])"
| "git_request i (CheckoutBranch b) = post_request (gits_url i ''/branches/checkout'') (Obj [(''branch'', b)])"
| "git_request i (CheckoutRemoteBranch b) = post_request (gits_url i ''/branches/remote/checkout'') (Obj [(''branch'', b)])"
| "git_request i (AddChanges cs) = post_request (gits_url i ''/changes'') (Obj [(''changes'', Arr (map Obj cs))])"
| "git_request i (DeleteChanges cs) = del_request (gits_url i ''/changes'') (Obj [(''changes'', Arr (map Obj cs))])"
| "git_request i (Commit m cs) = post_request (gits_url i ''/commit'') (Obj [(''message'', m), (''changes'', Arr (map Obj cs))])"
| "git_request i Pull = post_request (gits_url i ''/pull'') (Obj [])"
| "git_request i Push = post_request (gits_url i ''/push'') (Obj [])"
| "git_request i (GitCheckoutTag tag) = post_request (gits_url i ''/tags/checkout'') (Obj [(''tag'', tag)])"
| "git_request i GitPull = post_request (gits_url i ''/git/pull'') (Obj [])"
| "git_request i (GitCommit paths m) = post_request (gits_url i ''/git/commit'') (Obj [(''paths'', Arr paths), (''commit_message'', m)])"
| "git_request i (GitFileDiff path) = get_request (gits_url i ''/files/diff'') (Obj [(''path'', path)])"
| "git_request i (CreateSpider sp) = post_request (gits_url i ''/spiders'') (Obj [(''data'', Obj sp)])"

text \<open>The answer to a slot; what the action returns is \<open>undefined\<close> when nothing changed.\<close>

definition slot_answer :: "git_slot \<Rightarrow> js \<Rightarrow> git_state \<Rightarrow> git_state \<times> js" where
  "slot_answer k res s =
     (let data = js_get_opt res ''data'' in
      if json_stringify (git_slots s k) = json_stringify data then (s, Undef)
      else (git_mutate (SetSlot k (if k = CurrentBranch then data else js_or data (Arr []))) s, res))"

definition gitCommit_call :: "js \<Rightarrow> git_state \<Rightarrow> git_call" where
  "gitCommit_call message s = GitCommit (map (\<lambda>d. oget d ''path'') (gitChangeSelection s)) message"

definition gitFileDiff_call :: "git_state \<Rightarrow> git_call" where
  "gitFileDiff_call s = GitFileDiff (activeFilePath s)"

definition gitFileDiff_done :: "js \<Rightarrow> git_state \<Rightarrow> git_state" where
  "gitFileDiff_done res s = git_mutate (SetGitDiff (js_get_opt res ''data'')) s"

section \<open>Slots that show their answers\<close>

text \<open>
  The interface: \<open>put\<close> is the effect of an answer for one of the slots, \<open>shown\<close> is what the answer is
  to show, and \<open>ok\<close> is an invariant of the slots. Values are compared by their JSON texts.
\<close>

locale answered_slots =
  fixes read :: "'k \<Rightarrow> 's \<Rightarrow> js"
    and put :: "'k \<Rightarrow> js \<Rightarrow> 's \<Rightarrow> 's"
    and shown :: "'k \<Rightarrow> js \<Rightarrow> js"
    and ok :: "'s \<Rightarrow> bool"
  assumes own: "ok s \<Longrightarrow> json_stringify (read k (put k v s)) = json_stringify (shown k v)"
    and others: "k \<noteq> k' \<Longrightarrow> read k' (put k v s) = read k' s"
    and keeps: "ok s \<Longrightarrow> ok (put k v s)"
begin

lemma keeps_all: "ok s \<Longrightarrow> ok (fold (\<lambda>(k, v). put k v) as s)"
  by (induction as arbitrary: s) (auto simp: keeps)

text \<open>After any answers in any order, a slot shows its last one, or is as it was.\<close>

lemma shows_last:
  "ok s \<Longrightarrow> json_stringify (read k (fold (\<lambda>(k, v). put k v) as s)) =
     (case find (\<lambda>a. fst a = k) (rev as) of None \<Rightarrow> json_stringify (read k s) | Some a \<Rightarrow> json_stringify (shown k (snd a)))"
proof (induction as rule: rev_induct)
  case (snoc a as)
  obtain k' v where a: "a = (k', v)" by (cases a)
  show ?case
    using snoc own [OF keeps_all [OF snoc.prems]] others [of k' k v] by (auto simp: a split: option.splits)
qed simp

end

definition slot_shown :: "git_slot \<Rightarrow> js \<Rightarrow> js" where
  "slot_shown k res = (let data = js_get_opt res ''data'' in if k = CurrentBranch then data else js_or data (Arr []))"

text \<open>The slots of lists never hold a falsy value.\<close>

definition slots_ok :: "git_state \<Rightarrow> bool" where
  "slots_ok s \<longleftrightarrow> (\<forall>k. k \<noteq> CurrentBranch \<longrightarrow> truthy (git_slots s k))"

lemma dec_nat_0: "dec_nat 0 = ''0''"
  by code_simp

lemma ser_falsy: "\<not> truthy d \<Longrightarrow> d \<noteq> Undef \<Longrightarrow> ser [] [] d \<in> {''null'', ''false'', ''0'', [CHR 0x22, CHR 0x22]}"
  by (cases d) (auto simp: dec_int_def quote_def dec_nat_0)

lemma ser_truthy:
  assumes "truthy v"
  shows "ser [] [] v \<notin> {''null'', ''false'', ''0'', [CHR 0x22, CHR 0x22]}"
proof (cases v)
  case (Num n)
  have d: "hd (dec_nat m) \<noteq> CHR ''n'' \<and> hd (dec_nat m) \<noteq> CHR ''f'' \<and> hd (dec_nat m) \<noteq> CHR 0x22" for m
    using hd_dec_nat_digit [of m] by (auto simp: is_digit_def)
  have "dec_nat m \<noteq> ''0''" if "m \<noteq> 0" for m using dec_nat_inject [of m 0] that by (simp add: dec_nat_0)
  then have "dec_nat (nat n) \<notin> {''null'', ''false'', ''0'', [CHR 0x22, CHR 0x22]}" if "0 < n"
    using d [of "nat n"] that by (auto dest!: arg_cong [of _ _ hd])
  then show ?thesis using assms Num by (auto simp: dec_int_def)
next
  case (Str s)
  have "esc ch \<noteq> []" for ch by (simp add: esc_def Let_def)
  then show ?thesis using assms Str by (cases s) (auto simp: quote_def)
qed (use assms in \<open>auto simp: Let_def\<close>)

lemma json_falsy: "truthy v \<Longrightarrow> \<not> truthy d \<Longrightarrow> json_stringify v \<noteq> json_stringify d"
  using ser_falsy [of d] ser_truthy [of v] by (auto simp: json_stringify_def)

interpretation git_slot: answered_slots "\<lambda>k s. git_slots s k" "\<lambda>k v s. fst (slot_answer k v s)" slot_shown slots_ok
proof
  show "json_stringify (git_slots (fst (slot_answer k v s)) k) = json_stringify (slot_shown k v)" if "slots_ok s" for s k v
    using that json_falsy by (auto simp: slot_answer_def slot_shown_def slots_ok_def Let_def js_or_def)
  show "git_slots (fst (slot_answer k v s)) k' = git_slots s k'" if "k \<noteq> k'" for k k' v s
    using that by (simp add: slot_answer_def Let_def)
  show "slots_ok (fst (slot_answer k v s))" if "slots_ok s" for s k v
    using that by (auto simp: slot_answer_def slots_ok_def Let_def js_or_def)
qed

section \<open>The pages of a repository\<close>

record git_page =
  gp_store :: git_state
  gp_sent :: "service_request list"
  pullLoading :: bool
  commitLoading :: bool
  rollbackLoading :: bool
  pushLoading :: bool
  branchSelectLoading :: bool

type_synonym 'a git_act = "git_page \<Rightarrow> (thrown + 'a) \<times> git_page"

definition git_send :: "(nat \<Rightarrow> thrown + js) \<Rightarrow> string \<Rightarrow> git_call \<Rightarrow> js git_act" where
  "git_send answers i c p = (answers (length (gp_sent p)), p\<lparr>gp_sent := gp_sent p @ [git_request i c]\<rparr>)"

definition git_bind :: "'a git_act \<Rightarrow> ('a \<Rightarrow> 'b git_act) \<Rightarrow> 'b git_act" where
  "git_bind m f p = (case m p of (Inl e, p') \<Rightarrow> (Inl e, p') | (Inr a, p') \<Rightarrow> f a p')"

text \<open>\<open>try { m } catch\<close> that shows the message, \<open>try { m } finally { f }\<close>, and \<open>Promise.all\<close> of two.\<close>

definition git_catch :: "'a git_act \<Rightarrow> unit git_act" where
  "git_catch m p = (Inr (), snd (m p))"

definition git_finally :: "'a git_act \<Rightarrow> 'b git_act \<Rightarrow> 'a git_act" where
  "git_finally m f p = (case m p of (r, p') \<Rightarrow> (case f p' of (Inl e, p'') \<Rightarrow> (Inl e, p'') | (Inr _, p'') \<Rightarrow> (r, p'')))"

definition git_both :: "'a git_act \<Rightarrow> 'a git_act \<Rightarrow> unit git_act" where
  "git_both m m' p =
     (case m p of (r, p') \<Rightarrow> (case m' p' of (r', p'') \<Rightarrow>
       (case r of Inl e \<Rightarrow> Inl e | Inr _ \<Rightarrow> (case r' of Inl e \<Rightarrow> Inl e | Inr _ \<Rightarrow> Inr ()), p'')))"

definition git_set :: "(git_page \<Rightarrow> git_page) \<Rightarrow> unit git_act" where
  "git_set f p = (Inr (), f p)"

abbreviation git_then :: "'a git_act \<Rightarrow> 'b git_act \<Rightarrow> 'b git_act" where
  "git_then m m' \<equiv> git_bind m (\<lambda>_. m')"

definition fetch_slot :: "(nat \<Rightarrow> thrown + js) \<Rightarrow> string \<Rightarrow> git_slot \<Rightarrow> js git_act" where
  "fetch_slot answers i k =
     git_bind (git_send answers i (GetSlot k))
       (\<lambda>res p. case slot_answer k res (gp_store p) of (s, r) \<Rightarrow> (Inr r, p\<lparr>gp_store := s\<rparr>))"

text \<open>\<open>message\<close> is the text typed, \<open>None\<close> when the box is cancelled (which throws).\<close>

definition cancelled :: thrown where
  "cancelled = OtherThrown (Str ''cancel'')"

definition onCommit :: "(nat \<Rightarrow> thrown + js) \<Rightarrow> string \<Rightarrow> string option \<Rightarrow> unit git_act" where
  "onCommit answers i message p =
     (if gitChangeSelection (gp_store p) = [] then (Inr (), p)
      else case message of
        None \<Rightarrow> (Inl cancelled, p)
      | Some m \<Rightarrow>
          git_then (git_set (\<lambda>p. p\<lparr>commitLoading := True\<rparr>))
            (git_finally
              (git_catch
                (git_then (git_send answers i (Commit (Str m) (gitChangeSelection (gp_store p))))
                  (git_both (fetch_slot answers i Changes) (fetch_slot answers i Logs))))
              (git_set (\<lambda>p. p\<lparr>commitLoading := False\<rparr>))) p)"

definition onRollback :: "(nat \<Rightarrow> thrown + js) \<Rightarrow> string \<Rightarrow> unit git_act" where
  "onRollback answers i p =
     (if gitChangeSelection (gp_store p) = [] then (Inr (), p)
      else
        git_then (git_set (\<lambda>p. p\<lparr>rollbackLoading := True\<rparr>))
          (git_finally
            (git_catch
              (git_then (git_send answers i (DeleteChanges (gitChangeSelection (gp_store p)))) (fetch_slot answers i Changes)))
            (git_set (\<lambda>p. p\<lparr>rollbackLoading := False\<rparr>))) p)"

text \<open>\<open>list_files\<close> is the request for the root directory that the page of files sends after a pull.\<close>

definition list_files :: "(nat \<Rightarrow> thrown + js) \<Rightarrow> service_request \<Rightarrow> js git_act" where
  "list_files answers r p = (answers (length (gp_sent p)), p\<lparr>gp_sent := gp_sent p @ [r]\<rparr>)"

definition check_data :: "js \<Rightarrow> unit git_act" where
  "check_data res p = (case js_get res ''data'' of Inl e \<Rightarrow> (Inl e, p) | Inr _ \<Rightarrow> (Inr (), p))"

definition onPull :: "(nat \<Rightarrow> thrown + js) \<Rightarrow> string \<Rightarrow> string \<Rightarrow> service_request \<Rightarrow> unit git_act" where
  "onPull answers i activeTabName list_root =
     git_then (git_set (\<lambda>p. p\<lparr>pullLoading := True\<rparr>))
       (git_finally
         (git_catch
           (git_bind (git_send answers i Pull)
             (\<lambda>res. git_then (check_data res)
               (if activeTabName = ''files'' then list_files answers list_root
                else if activeTabName = ''logs'' then fetch_slot answers i Logs
                else (\<lambda>p. (Inr Undef, p))))))
         (git_set (\<lambda>p. p\<lparr>pullLoading := False\<rparr>)))"

definition onPush :: "(nat \<Rightarrow> thrown + js) \<Rightarrow> string \<Rightarrow> string \<Rightarrow> unit git_act" where
  "onPush answers i activeTabName =
     git_then (git_set (\<lambda>p. p\<lparr>pushLoading := True\<rparr>))
       (git_finally
         (git_catch
           (git_bind (git_send answers i Push)
             (\<lambda>res. git_then (check_data res)
               (if activeTabName = ''logs''
                then git_both (fetch_slot answers i Logs) (fetch_slot answers i RemoteBranches)
                else git_set (\<lambda>p. p)))))
         (git_set (\<lambda>p. p\<lparr>pushLoading := False\<rparr>)))"

subsection \<open>Branches\<close>

definition branch_loading :: "bool \<Rightarrow> unit git_act" where
  "branch_loading b = git_set (\<lambda>p. p\<lparr>branchSelectLoading := b\<rparr>)"

definition onLocalBranchChange :: "(nat \<Rightarrow> thrown + js) \<Rightarrow> string \<Rightarrow> js \<Rightarrow> unit git_act" where
  "onLocalBranchChange answers i branch =
     git_then (branch_loading True)
       (git_then
         (git_finally (git_send answers i (CheckoutBranch branch))
           (git_then (fetch_slot answers i CurrentBranch) (branch_loading False)))
         (git_set (\<lambda>p. p)))"

definition onRemoteBranchChange :: "(nat \<Rightarrow> thrown + js) \<Rightarrow> string \<Rightarrow> js \<Rightarrow> unit git_act" where
  "onRemoteBranchChange answers i branch =
     git_then (branch_loading True)
       (git_finally (git_catch (git_send answers i (CheckoutRemoteBranch branch)))
         (git_then (fetch_slot answers i CurrentBranch)
           (git_then (fetch_slot answers i Branches) (branch_loading False))))"

definition branch_name :: "git_page \<Rightarrow> js" where
  "branch_name p = js_get_opt (git_slots (gp_store p) CurrentBranch) ''name''"

text \<open>The box of a new branch accepts a name that is not empty and not that of the current branch.\<close>

definition onNewBranch :: "(nat \<Rightarrow> thrown + js) \<Rightarrow> string \<Rightarrow> string option \<Rightarrow> unit git_act" where
  "onNewBranch answers i targetBranch p =
     (case targetBranch of
        None \<Rightarrow> (Inl cancelled, p)
      | Some b \<Rightarrow>
          if b = [] \<or> Str b = branch_name p then (Inr (), p)
          else
            git_then (branch_loading True)
              (git_finally
                (git_catch
                  (git_then (git_send answers i (NewBranch (branch_name p) (Str b)))
                    (git_both (fetch_slot answers i CurrentBranch) (fetch_slot answers i Branches))))
                (branch_loading False)) p)"

definition onDeleteBranch :: "(nat \<Rightarrow> thrown + js) \<Rightarrow> string \<Rightarrow> bool \<Rightarrow> js \<Rightarrow> unit git_act" where
  "onDeleteBranch answers i confirm branch p =
     (if \<not> confirm then (Inl cancelled, p)
      else
        git_then (branch_loading True)
          (git_finally
            (git_catch (git_then (git_send answers i (DeleteBranch branch)) (fetch_slot answers i Branches)))
            (branch_loading False)) p)"

section \<open>What the handlers leave\<close>

definition git_flags :: "git_page \<Rightarrow> bool list" where
  "git_flags p = [pullLoading p, commitLoading p, rollbackLoading p, pushLoading p, branchSelectLoading p]"

text \<open>A computation that is quiet leaves every flag as it is.\<close>

definition quiet :: "'a git_act \<Rightarrow> bool" where
  "quiet m \<longleftrightarrow> (\<forall>p. git_flags (snd (m p)) = git_flags p)"

named_theorems quiet_intros

lemma quiet_send [quiet_intros]: "quiet (git_send answers i c)"
  by (simp add: quiet_def git_send_def git_flags_def)

lemma quiet_list [quiet_intros]: "quiet (list_files answers r)"
  by (simp add: quiet_def list_files_def git_flags_def)

lemma quiet_check [quiet_intros]: "quiet (check_data res)"
  by (simp add: quiet_def check_data_def git_flags_def split: sum.split)

lemma quiet_pure [quiet_intros]: "quiet (\<lambda>p. (r, p))" "quiet (git_set (\<lambda>p. p))"
  by (simp_all add: quiet_def git_set_def)

lemma quiet_bind [quiet_intros]: "quiet m \<Longrightarrow> (\<And>a. quiet (f a)) \<Longrightarrow> quiet (git_bind m f)"
proof -
  assume m: "quiet m" and f: "\<And>a. quiet (f a)"
  show "quiet (git_bind m f)"
    unfolding quiet_def
  proof
    fix p
    obtain r p' where mp: "m p = (r, p')" by (cases "m p")
    then have "git_flags p' = git_flags p" using m by (metis quiet_def snd_conv)
    then show "git_flags (snd (git_bind m f p)) = git_flags p"
      using f mp by (cases r) (simp_all add: git_bind_def quiet_def)
  qed
qed

lemma quiet_both [quiet_intros]: "quiet m \<Longrightarrow> quiet m' \<Longrightarrow> quiet (git_both m m')"
  by (simp add: quiet_def git_both_def split_beta)

lemma quiet_fetch [quiet_intros]: "quiet (fetch_slot answers i k)"
  unfolding fetch_slot_def
  by (intro quiet_intros) (simp add: quiet_def git_flags_def split: prod.split)

lemma quiet_if [quiet_intros]: "quiet m \<Longrightarrow> quiet m' \<Longrightarrow> quiet (if b then m else m')"
  by simp

text \<open>A handler raises its flag, does its work and lowers the flag, whether the work fails or not.\<close>

lemma flag_lowered:
  assumes "quiet m" and "\<And>q. git_flags q = git_flags (up p) \<Longrightarrow> git_flags (down q) = git_flags p"
  shows "git_flags (snd (git_then (git_set up) (git_finally (git_catch m) (git_set down)) p)) = git_flags p"
proof -
  have "git_flags (snd (m (up p))) = git_flags (up p)" using assms(1) by (simp add: quiet_def)
  then show ?thesis using assms(2) by (simp add: git_bind_def git_set_def git_finally_def git_catch_def)
qed

lemma flags_idle:
  assumes "git_flags p = [False, False, False, False, False]"
  shows "git_flags (snd (onCommit answers i message p)) = git_flags p"
    and "git_flags (snd (onRollback answers i p)) = git_flags p"
    and "git_flags (snd (onPull answers i tabname root p)) = git_flags p"
    and "git_flags (snd (onPush answers i tabname p)) = git_flags p"
    and "git_flags (snd (onNewBranch answers i target p)) = git_flags p"
    and "git_flags (snd (onDeleteBranch answers i confirm branch p)) = git_flags p"
proof -
  have idle: "\<not> pullLoading p" "\<not> commitLoading p" "\<not> rollbackLoading p" "\<not> pushLoading p" "\<not> branchSelectLoading p"
    using assms by (simp_all add: git_flags_def)
  note start = flag_lowered [where p = p]
  show "git_flags (snd (onCommit answers i message p)) = git_flags p"
    by (cases message) (simp_all add: onCommit_def, intro impI start quiet_intros, simp add: git_flags_def idle)
  show "git_flags (snd (onRollback answers i p)) = git_flags p"
    by (simp add: onRollback_def) (intro impI start quiet_intros, simp add: git_flags_def idle)
  show "git_flags (snd (onPull answers i tabname root p)) = git_flags p"
    unfolding onPull_def by (intro start quiet_intros) (simp add: git_flags_def idle)
  show "git_flags (snd (onPush answers i tabname p)) = git_flags p"
    unfolding onPush_def by (intro start quiet_intros) (simp add: git_flags_def idle)
  show "git_flags (snd (onNewBranch answers i target p)) = git_flags p"
    by (cases target) (simp_all add: onNewBranch_def branch_loading_def, intro impI start quiet_intros, simp add: git_flags_def idle)
  show "git_flags (snd (onDeleteBranch answers i confirm branch p)) = git_flags p"
    by (simp add: onDeleteBranch_def branch_loading_def) (intro impI start quiet_intros, simp add: git_flags_def idle)
qed

lemma fetch_slot_eq:
  "fetch_slot answers i k p =
     (case answers (length (gp_sent p)) of
        Inl e \<Rightarrow> (Inl e, p\<lparr>gp_sent := gp_sent p @ [git_request i (GetSlot k)]\<rparr>)
      | Inr res \<Rightarrow> (Inr (snd (slot_answer k res (gp_store p))),
          p\<lparr>gp_sent := gp_sent p @ [git_request i (GetSlot k)], gp_store := fst (slot_answer k res (gp_store p))\<rparr>))"
  by (simp add: fetch_slot_def git_bind_def git_send_def split_beta split: sum.split)

lemma branch_flags:
  assumes "git_flags p = [False, False, False, False, False]"
  shows "git_flags (snd (onLocalBranchChange answers i branch p)) = git_flags p \<longleftrightarrow> \<not> isl (answers (Suc (length (gp_sent p))))"
    and "git_flags (snd (onRemoteBranchChange answers i branch p)) = git_flags p \<longleftrightarrow>
      \<not> isl (answers (Suc (length (gp_sent p)))) \<and> \<not> isl (answers (Suc (Suc (length (gp_sent p)))))"
  using assms unfolding onLocalBranchChange_def onRemoteBranchChange_def branch_loading_def
  by (auto simp: git_bind_def git_set_def git_finally_def git_catch_def git_send_def fetch_slot_eq git_flags_def split_beta
      split: sum.split)

text \<open>
  C27: When nothing is loading, nothing is loading after a commit, a rollback, a pull, a push, a new or a deleted
  branch, whatever their requests are answered. After the current branch is changed the branches are
  still marked as loading if, and only if, the refresh that follows fails.
\<close>

theorem git_handlers_settle:
  assumes "git_flags p = [False, False, False, False, False]"
  shows "git_flags (snd (onCommit answers i message p)) = git_flags p \<and>
    git_flags (snd (onRollback answers i p)) = git_flags p \<and>
    git_flags (snd (onPull answers i tabname root p)) = git_flags p \<and>
    git_flags (snd (onPush answers i tabname p)) = git_flags p \<and>
    git_flags (snd (onNewBranch answers i target p)) = git_flags p \<and>
    git_flags (snd (onDeleteBranch answers i confirm branch p)) = git_flags p \<and>
    (git_flags (snd (onLocalBranchChange answers i branch p)) = git_flags p \<longleftrightarrow>
       \<not> isl (answers (Suc (length (gp_sent p))))) \<and>
    (git_flags (snd (onRemoteBranchChange answers i branch p)) = git_flags p \<longleftrightarrow>
       \<not> isl (answers (Suc (length (gp_sent p)))) \<and> \<not> isl (answers (Suc (Suc (length (gp_sent p))))))"
  by (simp add: flags_idle [OF assms] branch_flags [OF assms])

theorem git_handlers_settle_witness:
  "git_flags (snd (onCommit (\<lambda>n. Inl cancelled) ''1'' (Some ''m'')
     \<lparr>gp_store = git_init\<lparr>gitChangeSelection := [[(''path'', Str ''a'')]]\<rparr>, gp_sent = [], pullLoading = False,
      commitLoading = False, rollbackLoading = False, pushLoading = False, branchSelectLoading = False\<rparr>)) =
    [False, False, False, False, False]"
  using git_handlers_settle [of "\<lparr>gp_store = git_init\<lparr>gitChangeSelection := [[(''path'', Str ''a'')]]\<rparr>, gp_sent = [],
      pullLoading = False, commitLoading = False, rollbackLoading = False, pushLoading = False, branchSelectLoading = False\<rparr>"]
  by (simp add: git_flags_def)

text \<open>A commit sends the message and the selection, and when it succeeds the changes and the logs are requested.\<close>

lemma commit_requests:
  assumes "gitChangeSelection (gp_store p) = c # cs"
  shows "gp_sent (snd (onCommit answers i (Some m) p)) =
    gp_sent p @ git_request i (Commit (Str m) (c # cs)) #
      (if \<not> isl (answers (length (gp_sent p))) then [git_request i (GetSlot Changes), git_request i (GetSlot Logs)] else [])"
  using assms
  by (simp add: onCommit_def git_bind_def git_set_def git_finally_def git_catch_def git_send_def git_both_def fetch_slot_eq
      split_beta split: sum.split)

text \<open>The slots show their last answers.\<close>

lemma git_slots_show_last:
  "slots_ok s \<Longrightarrow> json_stringify (git_slots (fold (\<lambda>(k, v) s. fst (slot_answer k v s)) as s) k) =
    (case find (\<lambda>a. fst a = k) (rev as) of None \<Rightarrow> json_stringify (git_slots s k)
     | Some a \<Rightarrow> json_stringify (slot_shown k (snd a)))"
  by (rule git_slot.shows_last)


end
