(* ===== verification/UI_Login.thy ===== *)
theory UI_Login
  imports UI_Access
begin

text \<open>
  The session of a user: the login page (\<^verbatim>\<open>views/login/Login.vue\<close>) with the password change the API can
  require, and the logout of \<^verbatim>\<open>layouts/components/Header.vue\<close>. The page is a state machine: \<open>stage\<close> says what
  it waits for, and each event is an input or an answer; the prompt for the new password can be confirmed
  or cancelled, and a cancel throws. One login is under way at a time: a second one, started with the
  Enter key while the first is pending, is not modelled. Messages and the canvas are left out; \<open>active_path\<close> is the
  path of the active tab, if there is one.
\<close>

section \<open>The login page\<close>

datatype login_stage =
    LoginForm
  | AwaitLogin
  | AskPassword
  | AwaitPassword
  | Entered string
  | Unauthorized
  | LoginFailed thrown

record login_page =
  stage :: login_stage
  login_loading :: bool
  login_storage :: local_storage
  login_requests :: "(string \<times> string \<times> js) list"

definition isValidUsername :: "string \<Rightarrow> bool" where
  "isValidUsername s \<longleftrightarrow> s \<noteq> [] \<and> length s \<le> 100"

definition validatePass :: "string \<Rightarrow> bool" where
  "validatePass s \<longleftrightarrow> \<not> length s < 5"

definition validateConfirmPass :: "bool \<Rightarrow> string \<Rightarrow> string \<Rightarrow> bool" where
  "validateConfirmPass isSignup password s \<longleftrightarrow> \<not> isSignup \<or> s = password"

definition login_valid :: "bool \<Rightarrow> string \<Rightarrow> string \<Rightarrow> string \<Rightarrow> bool" where
  "login_valid isSignup username password confirmation \<longleftrightarrow>
     isValidUsername username \<and> validatePass password \<and> validateConfirmPass isSignup password confirmation"

datatype login_event =
    SubmitLogin bool string string string
  | LoginAnswered "thrown + js"
  | PasswordTyped string
  | PromptCancelled
  | PasswordAnswered "thrown + js"

definition request_login :: "string \<Rightarrow> string \<Rightarrow> string \<times> string \<times> js" where
  "request_login username password =
     (''POST'', ''/login'', Obj [(''username'', Str username), (''password'', Str password)])"

definition request_change :: "string \<Rightarrow> string \<times> string \<times> js" where
  "request_change password = (''POST'', ''/users/me/change-password'', Obj [(''password'', Str password)])"

text \<open>The end of the \<open>try\<close>: the page that is opened, and the request for the user that follows.\<close>

definition request_me :: "string \<times> string \<times> js" where
  "request_me = (''GET'', ''/users/me'', Undef)"

definition enter :: "string option \<Rightarrow> login_page \<Rightarrow> login_page" where
  "enter active_path p =
     p\<lparr>stage := Entered (case active_path of None \<Rightarrow> ''/'' | Some t \<Rightarrow> t), login_loading := False,
       login_requests := login_requests p @ [request_me]\<rparr>"

definition login_failed :: "thrown \<Rightarrow> login_page \<Rightarrow> login_page" where
  "login_failed e p = p\<lparr>stage := LoginFailed e, login_loading := False\<rparr>"

definition store_tokens :: "js \<Rightarrow> local_storage \<Rightarrow> local_storage" where
  "store_tokens data ls =
     setItem ''refresh_token'' (js_str (js_get_opt data ''refresh_token'')) (setItem ''token'' (js_str (js_get_opt data ''token'')) ls)"

definition login_answer :: "string option \<Rightarrow> thrown + js \<Rightarrow> login_page \<Rightarrow> login_page" where
  "login_answer active_path result p =
     (case result of
        Inl e \<Rightarrow> login_failed e p
      | Inr res \<Rightarrow>
          (let data = js_get_opt res ''data'' in
           if \<not> truthy data then
             p\<lparr>stage := Unauthorized, login_loading := False, login_requests := login_requests p @ [request_me]\<rparr>
           else
             (let p' = p\<lparr>login_storage := store_tokens data (login_storage p)\<rparr> in
              if truthy (js_get_opt data ''password_change_required'') then p'\<lparr>stage := AskPassword\<rparr> else enter active_path p')))"

fun login_step :: "string option \<Rightarrow> login_event \<Rightarrow> login_page \<Rightarrow> login_page" where
  "login_step active_path (SubmitLogin isSignup username password confirmation) p =
     (if stage p \<in> {AwaitLogin, AskPassword, AwaitPassword} \<or> \<not> login_valid isSignup username password confirmation then p
      else p\<lparr>stage := AwaitLogin, login_loading := True,
             login_requests := login_requests p @ [request_login username password]\<rparr>)"
| "login_step active_path (LoginAnswered result) p = (if stage p = AwaitLogin then login_answer active_path result p else p)"
| "login_step active_path (PasswordTyped password) p =
     (if stage p = AskPassword \<and> 5 \<le> length password
      then p\<lparr>stage := AwaitPassword, login_requests := login_requests p @ [request_change password]\<rparr>
      else p)"
| "login_step active_path PromptCancelled p =
     (if stage p = AskPassword then login_failed (OtherThrown (Str ''cancel'')) p else p)"
| "login_step active_path (PasswordAnswered result) p =
     (if stage p = AwaitPassword
      then (case result of Inl e \<Rightarrow> login_failed e p | Inr _ \<Rightarrow> enter active_path p)
      else p)"

definition login_run :: "string option \<Rightarrow> login_event list \<Rightarrow> login_page \<Rightarrow> login_page" where
  "login_run active_path es p = fold (login_step active_path) es p"

section \<open>Logout\<close>

definition logout_request :: "local_storage \<Rightarrow> string \<times> string \<times> js" where
  "logout_request ls =
     (''POST'', ''/logout'', Obj [(''refresh_token'', Str (case getItem ''refresh_token'' ls of None \<Rightarrow> [] | Some t \<Rightarrow> t))])"

definition onLogout_done :: "thrown + js \<Rightarrow> local_storage \<Rightarrow> local_storage \<times> string" where
  "onLogout_done answer ls = (removeItem ''refresh_token'' (removeItem ''token'' ls), ''/login'')"

section \<open>What a session needs\<close>

text \<open>
  \<open>login_grants es data ys\<close>: the login was answered with \<open>data\<close> and the events \<open>ys\<close> followed. A new
  password is accepted by \<open>ys\<close> when it was typed and a later answer accepted it.
\<close>

definition login_grants :: "login_event list \<Rightarrow> js \<Rightarrow> login_event list \<Rightarrow> bool" where
  "login_grants es data ys \<longleftrightarrow>
     truthy data \<and> (\<exists>xs res. es = xs @ LoginAnswered (Inr res) # ys \<and> js_get_opt res ''data'' = data)"

definition change_required :: "js \<Rightarrow> bool" where
  "change_required data \<longleftrightarrow> truthy (js_get_opt data ''password_change_required'')"

definition password_accepted :: "login_event list \<Rightarrow> string \<Rightarrow> bool" where
  "password_accepted ys pw \<longleftrightarrow>
     5 \<le> length pw \<and> (\<exists>us vs r ws. ys = us @ PasswordTyped pw # vs @ PasswordAnswered (Inr r) # ws)"

definition tokens_stored :: "js \<Rightarrow> local_storage \<Rightarrow> bool" where
  "tokens_stored data ls \<longleftrightarrow>
     getItem ''token'' ls = Some (js_str (js_get_opt data ''token'')) \<and>
     getItem ''refresh_token'' ls = Some (js_str (js_get_opt data ''refresh_token''))"

text \<open>The requests of the last login: a valid name and password, and \<open>rest\<close> after them.\<close>

definition login_sent :: "login_page \<Rightarrow> (string \<times> string \<times> js) list \<Rightarrow> bool" where
  "login_sent p rest \<longleftrightarrow>
     (\<exists>rs username password. isValidUsername username \<and> validatePass password \<and>
        login_requests p = rs @ request_login username password # rest)"

definition login_open :: "login_event list \<Rightarrow> login_page \<Rightarrow> js \<Rightarrow> login_event list \<Rightarrow> (string \<times> string \<times> js) list \<Rightarrow> bool" where
  "login_open es p data ys rest \<longleftrightarrow>
     login_grants es data ys \<and> tokens_stored data (login_storage p) \<and> login_sent p rest"

definition page_entered :: "login_event list \<Rightarrow> login_page \<Rightarrow> bool" where
  "page_entered es p \<longleftrightarrow>
     (\<exists>data ys. (\<not> change_required data \<and> login_open es p data ys [request_me]) \<or>
        (\<exists>pw. change_required data \<and> password_accepted ys pw \<and> login_open es p data ys [request_change pw, request_me]))"

definition password_asked :: "login_event list \<Rightarrow> login_page \<Rightarrow> bool" where
  "password_asked es p \<longleftrightarrow> (\<exists>data ys. change_required data \<and> login_open es p data ys [])"

definition password_sent :: "login_event list \<Rightarrow> login_page \<Rightarrow> bool" where
  "password_sent es p \<longleftrightarrow>
     (\<exists>data ys pw. change_required data \<and> 5 \<le> length pw \<and> PasswordTyped pw \<in> set ys \<and> login_open es p data ys [request_change pw])"

definition session_inv :: "string option \<Rightarrow> local_storage \<Rightarrow> login_event list \<Rightarrow> login_page \<Rightarrow> bool" where
  "session_inv active_path ls es p \<longleftrightarrow>
     (\<forall>path. stage p = Entered path \<longrightarrow> path = (case active_path of None \<Rightarrow> ''/'' | Some t \<Rightarrow> t) \<and> page_entered es p) \<and>
     (stage p = AwaitLogin \<longrightarrow> login_sent p []) \<and>
     (stage p = AskPassword \<longrightarrow> password_asked es p) \<and>
     (stage p = AwaitPassword \<longrightarrow> password_sent es p) \<and>
     (login_storage p = ls \<or> (\<exists>data ys. login_grants es data ys \<and> tokens_stored data (login_storage p))) \<and>
     (login_loading p \<longleftrightarrow> stage p \<in> {AwaitLogin, AskPassword, AwaitPassword})"

lemma tokens_are_stored: "tokens_stored data (store_tokens data ls)"
  by (simp add: tokens_stored_def store_tokens_def item_defs)

lemma login_grants_mono: "login_grants es data ys \<Longrightarrow> login_grants (es @ [e]) data (ys @ [e])"
  by (fastforce simp: login_grants_def)

lemma login_open_mono: "login_open es p data ys rest \<Longrightarrow> login_open (es @ [e]) p data (ys @ [e]) rest"
  by (simp add: login_open_def login_grants_mono)

lemma password_accepted_mono: "password_accepted ys pw \<Longrightarrow> password_accepted (ys @ [e]) pw"
  by (fastforce simp: password_accepted_def)

lemma page_entered_mono: "page_entered es p \<Longrightarrow> page_entered (es @ [e]) p"
  unfolding page_entered_def by (meson login_open_mono password_accepted_mono)

lemma password_asked_mono: "password_asked es p \<Longrightarrow> password_asked (es @ [e]) p"
  unfolding password_asked_def by (meson login_open_mono)

lemma password_sent_mono: "password_sent es p \<Longrightarrow> password_sent (es @ [e]) p"
proof -
  assume "password_sent es p"
  then obtain data ys pw where "change_required data" "5 \<le> length pw" "PasswordTyped pw \<in> set ys"
    "login_open es p data ys [request_change pw]" unfolding password_sent_def by blast
  then show ?thesis unfolding password_sent_def
    by (intro exI [of _ data] exI [of _ "ys @ [e]"] exI [of _ pw]) (simp add: login_open_mono)
qed

lemmas session_monos = page_entered_mono password_asked_mono password_sent_mono

lemma stored_mono:
  "\<exists>data ys. login_grants es data ys \<and> tokens_stored data ls \<Longrightarrow>
   \<exists>data ys. login_grants (es @ [e]) data ys \<and> tokens_stored data ls"
  by (meson login_grants_mono)

lemma session_inv_skip: "session_inv active_path ls es p \<Longrightarrow> session_inv active_path ls (es @ [e]) p"
  unfolding session_inv_def by (intro conjI) (simp_all add: session_monos, meson stored_mono)

lemma session_inv_failed: "session_inv active_path ls es p \<Longrightarrow> session_inv active_path ls (es @ [e]) (login_failed err p)"
  unfolding session_inv_def login_failed_def by (simp, meson stored_mono)

lemma session_inv_submit:
  assumes "session_inv active_path ls es p"
  shows "session_inv active_path ls (es @ [e]) (login_step active_path (SubmitLogin isSignup u pw c) p)"
proof (cases "stage p \<in> {AwaitLogin, AskPassword, AwaitPassword} \<or> \<not> login_valid isSignup u pw c")
  case True
  then show ?thesis by (simp add: session_inv_skip assms)
next
  case False
  then have "login_step active_path (SubmitLogin isSignup u pw c) p =
      p\<lparr>stage := AwaitLogin, login_loading := True, login_requests := login_requests p @ [request_login u pw]\<rparr>" by simp
  moreover have "login_sent (p\<lparr>stage := AwaitLogin, login_loading := True, login_requests := login_requests p @ [request_login u pw]\<rparr>) []"
    using False by (auto simp: login_sent_def login_valid_def)
  ultimately show ?thesis using assms stored_mono [of es "login_storage p" e] by (auto simp: session_inv_def)
qed

lemma granted_now:
  assumes "truthy (js_get_opt res ''data'')"
  shows "login_grants (es @ [LoginAnswered (Inr res)]) (js_get_opt res ''data'') []"
  using assms by (auto simp: login_grants_def)

lemma session_inv_answered:
  assumes inv: "session_inv active_path ls es p" and st: "stage p = AwaitLogin"
  shows "session_inv active_path ls (es @ [LoginAnswered result]) (login_answer active_path result p)"
proof (cases result)
  case (Inl e)
  then show ?thesis using session_inv_failed [OF inv] by (simp add: login_answer_def)
next
  case (Inr res)
  let ?data = "js_get_opt res ''data''" and ?es = "es @ [LoginAnswered result]"
  have sent: "login_sent p []" using inv st by (simp add: session_inv_def)
  show ?thesis
  proof (cases "truthy ?data")
    case False
    then show ?thesis using inv stored_mono [of es "login_storage p" "LoginAnswered result"] Inr
      by (auto simp: login_answer_def session_inv_def Let_def)
  next
    case True
    note g = granted_now [OF True, of es]
    show ?thesis
    proof (cases "change_required ?data")
      case True
      let ?p = "p\<lparr>login_storage := store_tokens ?data (login_storage p), stage := AskPassword\<rparr>"
      have "login_open ?es ?p ?data [] []"
        using g sent Inr by (simp add: login_open_def tokens_are_stored login_sent_def)
      then have "password_asked ?es ?p" using True unfolding password_asked_def by blast
      moreover have "login_answer active_path result p = ?p"
        using True \<open>truthy ?data\<close> Inr by (simp add: login_answer_def change_required_def Let_def)
      ultimately show ?thesis using g inv st Inr tokens_are_stored by (auto simp: session_inv_def)
    next
      case False
      let ?p = "enter active_path (p\<lparr>login_storage := store_tokens ?data (login_storage p)\<rparr>)"
      have "login_open ?es ?p ?data [] [request_me]"
        using g sent Inr by (auto simp: login_open_def tokens_are_stored login_sent_def enter_def)
      then have "page_entered ?es ?p" using False unfolding page_entered_def by blast
      moreover have "login_answer active_path result p = ?p"
        using False \<open>truthy ?data\<close> Inr by (simp add: login_answer_def change_required_def Let_def)
      ultimately show ?thesis using g Inr tokens_are_stored by (auto simp: session_inv_def enter_def)
    qed
  qed
qed

lemma session_inv_typed:
  assumes inv: "session_inv active_path ls es p"
  shows "session_inv active_path ls (es @ [PasswordTyped pw]) (login_step active_path (PasswordTyped pw) p)"
proof (cases "stage p = AskPassword \<and> 5 \<le> length pw")
  case True
  let ?p = "p\<lparr>stage := AwaitPassword, login_requests := login_requests p @ [request_change pw]\<rparr>"
  from inv True obtain data ys where d: "change_required data" "login_open es p data ys []"
    by (auto simp: session_inv_def password_asked_def)
  from login_open_mono [OF d(2)] have "login_open (es @ [PasswordTyped pw]) ?p data (ys @ [PasswordTyped pw]) [request_change pw]"
    by (auto simp: login_open_def login_sent_def)
  then have "password_sent (es @ [PasswordTyped pw]) ?p"
    using d(1) True unfolding password_sent_def
    by (intro exI [of _ data] exI [of _ "ys @ [PasswordTyped pw]"] exI [of _ pw]) simp
  then show ?thesis using True inv stored_mono [of es "login_storage p" "PasswordTyped pw"] by (auto simp: session_inv_def)
qed (auto simp: session_inv_skip inv)

lemma session_inv_accepted:
  assumes inv: "session_inv active_path ls es p" and st: "stage p = AwaitPassword"
  shows "session_inv active_path ls (es @ [PasswordAnswered (Inr r)]) (enter active_path p)"
proof -
  let ?e = "PasswordAnswered (Inr r)"
  from inv st obtain data ys pw where d: "change_required data" "5 \<le> length pw" "PasswordTyped pw \<in> set ys"
    "login_open es p data ys [request_change pw]"
    by (auto simp: session_inv_def password_sent_def)
  from d(2,3) have "password_accepted (ys @ [?e]) pw"
    unfolding password_accepted_def by (metis append_Cons append_assoc split_list)
  moreover from login_open_mono [OF d(4)] have "login_open (es @ [?e]) (enter active_path p) data (ys @ [?e]) [request_change pw, request_me]"
    by (auto simp: login_open_def login_sent_def enter_def)
  ultimately have "page_entered (es @ [?e]) (enter active_path p)" using d(1) unfolding page_entered_def by blast
  then show ?thesis using inv stored_mono [of es "login_storage p" ?e] by (auto simp: session_inv_def enter_def)
qed

lemma session_inv_step:
  assumes "session_inv active_path ls es p"
  shows "session_inv active_path ls (es @ [e]) (login_step active_path e p)"
proof (cases e)
  case (SubmitLogin isSignup u pw c)
  then show ?thesis by (simp only: session_inv_submit [OF assms])
next
  case (PasswordTyped pw)
  then show ?thesis by (simp only: session_inv_typed [OF assms])
next
  case (PasswordAnswered result)
  then show ?thesis
    by (cases result) (auto simp: assms session_inv_skip session_inv_failed session_inv_accepted)
qed (simp_all add: assms session_inv_skip session_inv_failed session_inv_answered)

lemma session_inv_run:
  assumes "stage p = LoginForm" "\<not> login_loading p" "login_storage p = ls"
  shows "session_inv active_path ls es (login_run active_path es p)"
proof (induction es rule: rev_induct)
  case Nil
  then show ?case using assms by (simp add: session_inv_def login_run_def)
next
  case (snoc e es)
  then show ?case using session_inv_step [of active_path ls es _ e] by (simp add: login_run_def)
qed

lemma page_entered_iff:
  "page_entered es p \<longleftrightarrow>
     (\<exists>data ys. login_grants es data ys \<and> tokens_stored data (login_storage p) \<and>
        (if change_required data then \<exists>pw. password_accepted ys pw \<and> login_sent p [request_change pw, request_me]
         else login_sent p [request_me]))"
  unfolding page_entered_def login_open_def by (intro ex_cong1) auto

lemma guard_lets_through:
  "settle 2 None ls path prev = Some (if path = ''/login'' \<or> \<not> no_token ls then path else ''/login'')"
  by (auto simp: numeral_2_eq_2 router_guard_def Let_def ANOMALOUS_ROUTES_def)

lemma stored_token_passes:
  "tokens_stored data ls \<Longrightarrow> js_str (js_get_opt data ''token'') \<noteq> [] \<Longrightarrow> settle 2 None ls path prev = Some path"
  by (simp add: guard_lets_through tokens_stored_def no_token_def getToken_def)

lemma logout_guarded: "settle 2 None (fst (onLogout_done answer ls)) to prev = Some ''/login''"
  by (simp add: guard_lets_through onLogout_done_def no_token_def getToken_def item_defs)

text \<open>
  C8: Whatever happens on the login page, with one login at a time, a page of the application is
  opened only after a valid name and password were sent and answered with data and, if that answer
  asks for a new password, one of at least five characters was typed afterwards, sent and accepted;
  the tokens of that answer are then stored and, if the token is not empty, the guard of the router
  lets the user through. The tokens are stored before the new password is asked for: while the page
  asks or waits, and after the prompt is cancelled or the new password refused, which ends the login
  with an error and opens no page, they stay stored and the guard lets every page through although
  the password was not changed. Nothing but an answered login stores tokens, the page is marked as
  loading exactly while it waits, and after a logout every page leads to the login.
\<close>

theorem login_guards_session:
  assumes "stage p = LoginForm" "\<not> login_loading p" "p' = login_run active_path es p"
  shows "(\<forall>path. stage p' = Entered path \<longrightarrow> path = (case active_path of None \<Rightarrow> ''/'' | Some t \<Rightarrow> t) \<and>
      (\<exists>data ys. login_grants es data ys \<and> tokens_stored data (login_storage p') \<and>
         (if change_required data then \<exists>pw. password_accepted ys pw \<and> login_sent p' [request_change pw, request_me]
          else login_sent p' [request_me]) \<and>
         (js_str (js_get_opt data ''token'') \<noteq> [] \<longrightarrow> settle 2 None (login_storage p') path ''/login'' = Some path))) \<and>
    (stage p' \<in> {AskPassword, AwaitPassword} \<longrightarrow>
      (\<exists>data ys. login_grants es data ys \<and> change_required data \<and> tokens_stored data (login_storage p') \<and>
         (js_str (js_get_opt data ''token'') \<noteq> [] \<longrightarrow> (\<forall>path prev. settle 2 None (login_storage p') path prev = Some path)))) \<and>
    (stage p' = AskPassword \<longrightarrow>
      login_step active_path PromptCancelled p' = p'\<lparr>stage := LoginFailed (OtherThrown (Str ''cancel'')), login_loading := False\<rparr>) \<and>
    (stage p' = AwaitPassword \<longrightarrow> (\<forall>e.
      login_step active_path (PasswordAnswered (Inl e)) p' = p'\<lparr>stage := LoginFailed e, login_loading := False\<rparr>)) \<and>
    ((\<nexists>data ys. login_grants es data ys) \<longrightarrow> login_storage p' = login_storage p) \<and>
    (login_loading p' \<longleftrightarrow> stage p' \<in> {AwaitLogin, AskPassword, AwaitPassword}) \<and>
    (\<forall>answer to prev. settle 2 None (fst (onLogout_done answer (login_storage p'))) to prev = Some ''/login'')"
proof -
  have inv: "session_inv active_path (login_storage p) es p'" using session_inv_run [OF assms(1,2) refl] assms(3) by simp
  have "path = (case active_path of None \<Rightarrow> ''/'' | Some t \<Rightarrow> t) \<and>
      (\<exists>data ys. login_grants es data ys \<and> tokens_stored data (login_storage p') \<and>
         (if change_required data then \<exists>pw. password_accepted ys pw \<and> login_sent p' [request_change pw, request_me]
          else login_sent p' [request_me]) \<and>
         (js_str (js_get_opt data ''token'') \<noteq> [] \<longrightarrow> settle 2 None (login_storage p') path ''/login'' = Some path))"
    if "stage p' = Entered path" for path
    using inv that stored_token_passes unfolding session_inv_def page_entered_iff by blast
  moreover have "\<exists>data ys. login_grants es data ys \<and> change_required data \<and> tokens_stored data (login_storage p') \<and>
         (js_str (js_get_opt data ''token'') \<noteq> [] \<longrightarrow> (\<forall>path prev. settle 2 None (login_storage p') path prev = Some path))"
    if "stage p' \<in> {AskPassword, AwaitPassword}"
    using inv that stored_token_passes
    unfolding session_inv_def password_asked_def password_sent_def login_open_def by blast
  moreover have "(\<nexists>data ys. login_grants es data ys) \<longrightarrow> login_storage p' = login_storage p"
    "login_loading p' \<longleftrightarrow> stage p' \<in> {AwaitLogin, AskPassword, AwaitPassword}"
    using inv unfolding session_inv_def by blast+
  ultimately show ?thesis using logout_guarded by (simp add: login_failed_def)
qed

theorem login_guards_session_witness:
  "\<exists>data ys pw. login_grants [SubmitLogin False ''admin'' ''secret'' [],
      LoginAnswered (Inr (Obj [(''data'', Obj [(''token'', Str ''t''), (''refresh_token'', Str ''r''), (''password_change_required'', Bool True)])])),
      PasswordTyped ''newsecret'', PasswordAnswered (Inr Undef)] data ys \<and> password_accepted ys pw"
proof -
  let ?data = "Obj [(''token'', Str ''t''), (''refresh_token'', Str ''r''), (''password_change_required'', Bool True)]"
  let ?es = "[SubmitLogin False ''admin'' ''secret'' [], LoginAnswered (Inr (Obj [(''data'', ?data)])),
    PasswordTyped ''newsecret'', PasswordAnswered (Inr Undef)]"
  let ?p = "\<lparr>stage = LoginForm, login_loading = False, login_storage = Map.empty, login_requests = []\<rparr>"
  have "stage (login_run None ?es ?p) = Entered ''/''"
    by (simp add: login_run_def login_valid_def isValidUsername_def validatePass_def validateConfirmPass_def login_answer_def
        enter_def Let_def)
  then obtain data ys where d: "login_grants ?es data ys"
    "if change_required data then \<exists>pw. password_accepted ys pw \<and> login_sent (login_run None ?es ?p) [request_change pw, request_me]
     else login_sent (login_run None ?es ?p) [request_me]"
    using login_guards_session [of ?p _ None ?es, OF _ _ refl] by auto
  have "data = ?data" using d(1) by (auto simp: login_grants_def Cons_eq_append_conv)
  then show ?thesis using d by (auto simp: change_required_def)
qed

end
