(* ===== verification/UI_Notification.thy ===== *)
theory UI_Notification
  imports UI_Store
begin

text \<open>
  The notifications of the user interface: \<^verbatim>\<open>utils/notification.ts\<close> with its tables of variables,
  templates and triggers, the default texts of the templates in
  \<^verbatim>\<open>i18n/lang/en/components/notification.ts\<close>, the stores \<^verbatim>\<open>store/modules/notificationSetting.ts\<close>,
  \<^verbatim>\<open>notificationChannel.ts\<close> and \<^verbatim>\<open>notificationAlert.ts\<close>, the trigger selection
  \<^verbatim>\<open>NotificationSettingTriggerSelect.vue\<close>, and the validation of addresses in
  \<^verbatim>\<open>NotificationSettingDetailTabMailConfig.vue\<close>.

  A label is kept as the key that the code translates; \<open>t\<close>, where a text is needed, is the
  translation. A dictionary of channels is the function that its \<open>get\<close> computes, and \<open>None\<close> is a
  dictionary that is \<open>undefined\<close>.
\<close>

section \<open>Variables\<close>

record notification_variable =
  vcategory :: string
  vname :: string
  vlabel :: string
  vicon :: "string list"

definition variable :: "string \<Rightarrow> string \<Rightarrow> string \<Rightarrow> string \<Rightarrow> string \<Rightarrow> notification_variable" where
  "variable c n l i j = \<lparr>vcategory = c, vname = n, vlabel = l, vicon = [i, j]\<rparr>"

definition task_variables :: "notification_variable list" where
  "task_variables =
    [variable ''task'' ''id'' ''components.notification.variables.common.id'' ''fa'' ''hashtag'',
     variable ''task'' ''status'' ''components.notification.variables.task.status'' ''fa'' ''check-square'',
     variable ''task'' ''mode'' ''components.notification.variables.task.mode'' ''fa'' ''cog'',
     variable ''task'' ''cmd'' ''components.notification.variables.task.cmd'' ''fa'' ''terminal'',
     variable ''task'' ''param'' ''components.notification.variables.task.param'' ''fa'' ''dollar'',
     variable ''task'' ''priority'' ''components.notification.variables.task.priority'' ''fa'' ''exclamation-circle'',
     variable ''task'' ''error'' ''components.notification.variables.task.error'' ''fa'' ''exclamation-triangle'',
     variable ''task'' ''pid'' ''components.notification.variables.task.pid'' ''fa'' ''microchip'',
     variable ''task'' ''created_at'' ''components.notification.variables.common.createdAt'' ''fa'' ''clock'',
     variable ''task'' ''created_by'' ''components.notification.variables.common.createdBy'' ''fa'' ''user'',
     variable ''task'' ''updated_at'' ''components.notification.variables.common.updatedAt'' ''fa'' ''clock'',
     variable ''task'' ''updated_by'' ''components.notification.variables.common.updatedBy'' ''fa'' ''user'']"

definition task_stat_variables :: "notification_variable list" where
  "task_stat_variables =
    [variable ''task_stat'' ''started_at'' ''components.notification.variables.taskStat.startTs'' ''fa'' ''clock'',
     variable ''task_stat'' ''ended_at'' ''components.notification.variables.taskStat.endTs'' ''fa'' ''clock'',
     variable ''task_stat'' ''wait_duration'' ''components.notification.variables.taskStat.waitDuration'' ''fa'' ''hourglass'',
     variable ''task_stat'' ''runtime_duration'' ''components.notification.variables.taskStat.runtimeDuration'' ''fa'' ''hourglass-half'',
     variable ''task_stat'' ''total_duration'' ''components.notification.variables.taskStat.totalDuration'' ''fa'' ''hourglass-end'',
     variable ''task_stat'' ''result_count'' ''components.notification.variables.taskStat.resultCount'' ''fa'' ''chart-bar'']"

definition spider_variables :: "notification_variable list" where
  "spider_variables =
    [variable ''spider'' ''id'' ''components.notification.variables.common.id'' ''fa'' ''hashtag'',
     variable ''spider'' ''name'' ''components.notification.variables.spider.name'' ''fa'' ''font'',
     variable ''spider'' ''description'' ''components.notification.variables.spider.description'' ''fa'' ''comment'',
     variable ''spider'' ''mode'' ''components.notification.variables.spider.mode'' ''fa'' ''cog'',
     variable ''spider'' ''cmd'' ''components.notification.variables.spider.cmd'' ''fa'' ''terminal'',
     variable ''spider'' ''param'' ''components.notification.variables.spider.param'' ''fa'' ''dollar'',
     variable ''spider'' ''priority'' ''components.notification.variables.spider.priority'' ''fa'' ''exclamation-circle'',
     variable ''spider'' ''created_at'' ''components.notification.variables.common.createdAt'' ''fa'' ''clock'',
     variable ''spider'' ''created_by'' ''components.notification.variables.common.createdBy'' ''fa'' ''user'',
     variable ''spider'' ''updated_at'' ''components.notification.variables.common.updatedAt'' ''fa'' ''clock'',
     variable ''spider'' ''updated_by'' ''components.notification.variables.common.updatedBy'' ''fa'' ''user'']"

definition spider_stat_variables :: "notification_variable list" where
  "spider_stat_variables =
    [variable ''spider_stat'' ''results'' ''components.notification.variables.spiderStat.results'' ''fa'' ''chart-bar'',
     variable ''spider_stat'' ''wait_duration'' ''components.notification.variables.spiderStat.waitDuration'' ''fa'' ''hourglass'',
     variable ''spider_stat'' ''runtime_duration'' ''components.notification.variables.spiderStat.runtimeDuration'' ''fa'' ''hourglass-half'',
     variable ''spider_stat'' ''total_duration'' ''components.notification.variables.spiderStat.totalDuration'' ''fa'' ''hourglass-end'',
     variable ''spider_stat'' ''average_wait_duration'' ''components.notification.variables.spiderStat.averageWaitDuration'' ''fa'' ''hourglass'',
     variable ''spider_stat'' ''average_runtime_duration'' ''components.notification.variables.spiderStat.averageRuntimeDuration'' ''fa'' ''hourglass-half'']"

definition schedule_variables :: "notification_variable list" where
  "schedule_variables =
    [variable ''schedule'' ''id'' ''components.notification.variables.common.id'' ''fa'' ''hashtag'',
     variable ''schedule'' ''name'' ''components.notification.variables.schedule.name'' ''fa'' ''font'',
     variable ''schedule'' ''description'' ''components.notification.variables.schedule.description'' ''fa'' ''comment'',
     variable ''schedule'' ''cron'' ''components.notification.variables.schedule.cron'' ''fa'' ''clock'',
     variable ''schedule'' ''cmd'' ''components.notification.variables.schedule.cmd'' ''fa'' ''terminal'',
     variable ''schedule'' ''param'' ''components.notification.variables.schedule.param'' ''fa'' ''dollar'',
     variable ''schedule'' ''priority'' ''components.notification.variables.schedule.priority'' ''fa'' ''exclamation-circle'',
     variable ''schedule'' ''mode'' ''components.notification.variables.schedule.mode'' ''fa'' ''cog'',
     variable ''schedule'' ''enabled'' ''components.notification.variables.schedule.enabled'' ''fa'' ''check-square'',
     variable ''schedule'' ''created_at'' ''components.notification.variables.common.createdAt'' ''fa'' ''clock'',
     variable ''schedule'' ''created_by'' ''components.notification.variables.common.createdBy'' ''fa'' ''user'',
     variable ''schedule'' ''updated_at'' ''components.notification.variables.common.updatedAt'' ''fa'' ''clock'',
     variable ''schedule'' ''updated_by'' ''components.notification.variables.common.updatedBy'' ''fa'' ''user'']"

definition node_variables :: "notification_variable list" where
  "node_variables =
    [variable ''node'' ''id'' ''components.notification.variables.common.id'' ''fa'' ''hashtag'',
     variable ''node'' ''key'' ''components.notification.variables.node.key'' ''fa'' ''key'',
     variable ''node'' ''name'' ''components.notification.variables.node.name'' ''fa'' ''font'',
     variable ''node'' ''description'' ''components.notification.variables.node.description'' ''fa'' ''comment'',
     variable ''node'' ''status'' ''components.notification.variables.node.status'' ''fa'' ''check-square'',
     variable ''node'' ''created_at'' ''components.notification.variables.common.createdAt'' ''fa'' ''clock'',
     variable ''node'' ''created_by'' ''components.notification.variables.common.createdBy'' ''fa'' ''user'',
     variable ''node'' ''updated_at'' ''components.notification.variables.common.updatedAt'' ''fa'' ''clock'',
     variable ''node'' ''updated_by'' ''components.notification.variables.common.updatedBy'' ''fa'' ''user'']"

definition alert_variables :: "notification_variable list" where
  "alert_variables =
    [variable ''alert'' ''name'' ''components.notification.variables.alert.name'' ''fa'' ''font'',
     variable ''alert'' ''name'' ''components.notification.variables.alert.description'' ''fa'' ''comment'',
     variable ''alert'' ''enabled'' ''components.notification.variables.alert.enabled'' ''fa'' ''check-square'',
     variable ''alert'' ''metric_name'' ''components.notification.variables.alert.metricName'' ''fa'' ''chart-bar'',
     variable ''alert'' ''operator'' ''components.notification.variables.alert.operator'' ''fa'' ''equals'',
     variable ''alert'' ''lasting_seconds'' ''components.notification.variables.alert.lastingDuration'' ''fa'' ''hourglass'',
     variable ''alert'' ''target_value'' ''components.notification.variables.alert.targetValue'' ''fa'' ''bullseye'',
     variable ''alert'' ''level'' ''components.notification.variables.alert.level'' ''fa'' ''exclamation-triangle'',
     variable ''alert'' ''created_at'' ''components.notification.variables.common.createdAt'' ''fa'' ''clock'',
     variable ''alert'' ''created_by'' ''components.notification.variables.common.createdBy'' ''fa'' ''user'',
     variable ''alert'' ''updated_at'' ''components.notification.variables.common.updatedAt'' ''fa'' ''clock'',
     variable ''alert'' ''updated_by'' ''components.notification.variables.common.updatedBy'' ''fa'' ''user'']"

definition metric_variables :: "notification_variable list" where
  "metric_variables =
    [variable ''metric'' ''cpu_usage_percent'' ''components.metric.metrics.cpu_usage_percent'' ''fa'' ''microchip'',
     variable ''metric'' ''total_memory'' ''components.metric.metrics.total_memory'' ''fa'' ''memory'',
     variable ''metric'' ''available_memory'' ''components.metric.metrics.available_memory'' ''fa'' ''memory'',
     variable ''metric'' ''used_memory'' ''components.metric.metrics.used_memory'' ''fa'' ''memory'',
     variable ''metric'' ''used_memory_percent'' ''components.metric.metrics.used_memory_percent'' ''fa'' ''memory'',
     variable ''metric'' ''total_disk'' ''components.metric.metrics.total_disk'' ''fa'' ''hdd'',
     variable ''metric'' ''available_disk'' ''components.metric.metrics.available_disk'' ''fa'' ''hdd'',
     variable ''metric'' ''used_disk'' ''components.metric.metrics.used_disk'' ''fa'' ''hdd'',
     variable ''metric'' ''used_disk_percent'' ''components.metric.metrics.used_disk_percent'' ''fa'' ''hdd'',
     variable ''metric'' ''disk_read_bytes_rate'' ''components.metric.metrics.disk_read_bytes_rate'' ''fa'' ''hdd'',
     variable ''metric'' ''disk_write_bytes_rate'' ''components.metric.metrics.disk_write_bytes_rate'' ''fa'' ''hdd'',
     variable ''metric'' ''network_bytes_sent_rate'' ''components.metric.metrics.network_bytes_sent_rate'' ''fa'' ''network-wired'',
     variable ''metric'' ''network_bytes_recv_rate'' ''components.metric.metrics.network_bytes_recv_rate'' ''fa'' ''network-wired'']"

definition allVariables :: "notification_variable list" where
  "allVariables =
     task_variables @ task_stat_variables @ spider_variables @ spider_stat_variables @
     schedule_variables @ node_variables @ alert_variables @ metric_variables"

text \<open>\<open>getTriggerTarget\<close>: \<open>task\<close> and \<open>node\<close> by prefix, \<open>alert\<close> exactly. A trigger is a string or missing.\<close>

definition getTriggerTarget :: "js \<Rightarrow> string option" where
  "getTriggerTarget trigger =
     (case trigger of
        Str s \<Rightarrow>
          if starts_with ''task'' s then Some ''task''
          else if starts_with ''node'' s then Some ''node''
          else if s = ''alert'' then Some ''alert''
          else None
      | _ \<Rightarrow> None)"

definition triggerTargetVariableCategoryMap :: "(string \<times> string list) list" where
  "triggerTargetVariableCategoryMap =
     [(''task'', [''task'', ''task_stat'', ''node'', ''spider'', ''spider_stat'', ''git'', ''project'',
        ''schedule'', ''user'']),
      (''node'', [''node'']),
      (''alert'', [''alert'', ''node'', ''metric''])]"

definition isValidVariable :: "js \<Rightarrow> string \<Rightarrow> bool" where
  "isValidVariable category nm =
     (if \<not> truthy category then list_ex (\<lambda>v. vcategory v @ '':'' @ vname v = nm) allVariables
      else list_ex (\<lambda>v. Str (vcategory v) = category \<and> vname v = nm) allVariables)"

section \<open>Templates and triggers\<close>

definition allTemplates :: "jobj list" where
  "allTemplates =
    [[(''key'', Str ''task_finish''),
      (''name'', Str ''components.notification.setting.templates.task_finish.name''),
      (''description'', Str ''components.notification.setting.templates.task_finish.description''),
      (''trigger'', Str ''task_finish''),
      (''template_mode'', Str ''markdown''),
      (''title'', Str ''components.notification.setting.templates.task_finish.title''),
      (''template_markdown'', Str ''components.notification.setting.templates.task_finish.template_markdown'')],
     [(''key'', Str ''task_error''),
      (''name'', Str ''components.notification.setting.templates.task_error.name''),
      (''description'', Str ''components.notification.setting.templates.task_error.description''),
      (''trigger'', Str ''task_error''),
      (''template_mode'', Str ''markdown''),
      (''title'', Str ''components.notification.setting.templates.task_error.title''),
      (''template_markdown'', Str ''components.notification.setting.templates.task_error.template_markdown'')],
     [(''key'', Str ''node_status_change''),
      (''name'', Str ''components.notification.setting.templates.node_status_change.name''),
      (''description'', Str ''components.notification.setting.templates.node_status_change.description''),
      (''trigger'', Str ''node_status_change''),
      (''template_mode'', Str ''markdown''),
      (''title'', Str ''components.notification.setting.templates.node_status_change.title''),
      (''template_markdown'', Str ''components.notification.setting.templates.node_status_change.template_markdown'')],
     [(''key'', Str ''node_offline''),
      (''name'', Str ''components.notification.setting.templates.node_offline.name''),
      (''description'', Str ''components.notification.setting.templates.node_offline.description''),
      (''trigger'', Str ''node_offline''),
      (''template_mode'', Str ''markdown''),
      (''title'', Str ''components.notification.setting.templates.node_offline.title''),
      (''template_markdown'', Str ''components.notification.setting.templates.node_offline.template_markdown'')],
     [(''key'', Str ''alert_cpu_critical''),
      (''name'', Str ''components.notification.setting.templates.alert_cpu_critical.name''),
      (''description'', Str ''components.notification.setting.templates.alert_cpu_critical.description''),
      (''trigger'', Str ''alert''),
      (''template_mode'', Str ''markdown''),
      (''title'', Str ''components.notification.setting.templates.alert_cpu_critical.title''),
      (''template_markdown'', Str ''components.notification.setting.templates.alert_cpu_critical.template_markdown'')],
     [(''key'', Str ''alert_memory_warning''),
      (''name'', Str ''components.notification.setting.templates.alert_memory_warning.name''),
      (''description'', Str ''components.notification.setting.templates.alert_memory_warning.description''),
      (''trigger'', Str ''alert''),
      (''template_mode'', Str ''markdown''),
      (''title'', Str ''components.notification.setting.templates.alert_memory_warning.title''),
      (''template_markdown'', Str ''components.notification.setting.templates.alert_memory_warning.template_markdown'')]]"

definition alertTemplates :: "jobj list" where
  "alertTemplates =
    [[(''key'', Str ''alert_cpu_critical''),
      (''name'', Str ''components.notification.setting.templates.alert_cpu_critical.name''),
      (''description'', Str ''components.notification.setting.templates.alert_cpu_critical.description''),
      (''metric_name'', Str ''cpu_usage_percent''),
      (''operator'', Str ''gt''),
      (''target_value'', Num 90),
      (''lasting_seconds'', Num 300),
      (''level'', Str ''critical'')],
     [(''key'', Str ''alert_cpu_warning''),
      (''name'', Str ''components.notification.setting.templates.alert_cpu_warning.name''),
      (''description'', Str ''components.notification.setting.templates.alert_cpu_warning.description''),
      (''metric_name'', Str ''cpu_usage_percent''),
      (''operator'', Str ''gt''),
      (''target_value'', Num 80),
      (''lasting_seconds'', Num 300),
      (''level'', Str ''warning'')],
     [(''key'', Str ''alert_memory_critical''),
      (''name'', Str ''components.notification.setting.templates.alert_memory_critical.name''),
      (''description'', Str ''components.notification.setting.templates.alert_memory_critical.description''),
      (''metric_name'', Str ''used_memory_percent''),
      (''operator'', Str ''gt''),
      (''target_value'', Num 90),
      (''lasting_seconds'', Num 300),
      (''level'', Str ''critical'')],
     [(''key'', Str ''alert_memory_warning''),
      (''name'', Str ''components.notification.setting.templates.alert_memory_warning.name''),
      (''description'', Str ''components.notification.setting.templates.alert_memory_warning.description''),
      (''metric_name'', Str ''used_memory_percent''),
      (''operator'', Str ''gt''),
      (''target_value'', Num 70),
      (''lasting_seconds'', Num 300),
      (''level'', Str ''warning'')],
     [(''key'', Str ''alert_disk_critical''),
      (''name'', Str ''components.notification.setting.templates.alert_disk_critical.name''),
      (''description'', Str ''components.notification.setting.templates.alert_disk_critical.description''),
      (''metric_name'', Str ''used_disk_percent''),
      (''operator'', Str ''gt''),
      (''target_value'', Num 90),
      (''lasting_seconds'', Num 300),
      (''level'', Str ''critical'')],
     [(''key'', Str ''alert_disk_warning''),
      (''name'', Str ''components.notification.setting.templates.alert_disk_warning.name''),
      (''description'', Str ''components.notification.setting.templates.alert_disk_warning.description''),
      (''metric_name'', Str ''used_disk_percent''),
      (''operator'', Str ''gt''),
      (''target_value'', Num 70),
      (''lasting_seconds'', Num 300),
      (''level'', Str ''warning'')]]"

definition en_task_finish :: string where
  "en_task_finish = join [CHR 0x0A]
     [''- Spider Name: ${spider:name}'',
      ''- Schedule Name: ${schedule:name}'',
      ''- Node Name: ${node:name}'',
      ''- Task ID: ${task:id}'',
      ''- Task Status: ${task:status}'',
      ''- Task Error: ${task:error}'',
      ''- Task Mode: ${task:mode}'',
      ''- Task Command: ${task:cmd}'',
      ''- Task Parameter: ${task:param}'',
      ''- Task Priority: ${task:priority}'',
      ''- Task Created By: ${task:created_by}'',
      ''- Task Created At: ${task:created_at}'',
      ''- Task Started At: ${task_stat:started_at}'',
      ''- Task Ended At: ${task_stat:ended_at}'',
      ''- Task Wait Duration: ${task_stat:wait_duration}'',
      ''- Task Runtime Duration: ${task_stat:runtime_duration}'',
      ''- Task Total Duration: ${task_stat:total_duration}'',
      ''- Task Result Count: ${task_stat:result_count}'']"

definition en_task_error :: string where
  "en_task_error = join [CHR 0x0A]
     [''- Spider Name: ${spider:name}'',
      ''- Schedule Name: ${schedule:name}'',
      ''- Node Name: ${node:name}'',
      ''- Task ID: ${task:id}'',
      ''- Task Status: ${task:status}'',
      ''- Task Error: ${task:error}'',
      ''- Task Mode: ${task:mode}'',
      ''- Task Command: ${task:cmd}'',
      ''- Task Parameter: ${task:param}'',
      ''- Task Priority: ${task:priority}'',
      ''- Task Created By: ${task:created_by}'',
      ''- Task Created At: ${task:created_at}'',
      ''- Task Started At: ${task_stat:started_at}'',
      ''- Task Ended At: ${task_stat:ended_at}'',
      ''- Task Wait Duration: ${task_stat:wait_duration}'',
      ''- Task Runtime Duration: ${task_stat:runtime_duration}'',
      ''- Task Total Duration: ${task_stat:total_duration}'',
      ''- Task Result Count: ${task_stat:result_count}'']"

definition en_node_status_change :: string where
  "en_node_status_change = join [CHR 0x0A]
     [''- Node Name: ${node:name}'',
      ''- Node Status: ${node:status}'',
      ''- Node Is Master: ${node:is_master}'',
      ''- Node IP Address: ${node:ip}'',
      ''- Node MAC Address: ${node:mac}'',
      ''- Node Hostname: ${node:hostname}'',
      ''- Node Enabled: ${node:enabled}'',
      ''- Node Active: ${node:active}'',
      ''- Node Active At: ${node:active_at}'',
      ''- Node Current Runners: ${node:current_runners}'',
      ''- Node Max Runners: ${node:max_runners}'']"

definition en_node_offline :: string where
  "en_node_offline = join [CHR 0x0A]
     [''The node ${node:name} is offline. Please check the node status.'',
      [],
      ''- Node Name: ${node:name}'',
      ''- Node Status: ${node:status}'',
      ''- Node Is Master: ${node:is_master}'',
      ''- Node IP Address: ${node:ip}'',
      ''- Node MAC Address: ${node:mac}'',
      ''- Node Hostname: ${node:hostname}'',
      ''- Node Enabled: ${node:enabled}'',
      ''- Node Active: ${node:active}'',
      ''- Node Active At: ${node:active_at}'',
      ''- Node Current Runners: ${node:current_runners}'',
      ''- Node Max Runners: ${node:max_runners}'']"

definition en_alert_cpu_critical :: string where
  "en_alert_cpu_critical = join [CHR 0x0A]
     [''CPU usage is critical. Please check.'',
      [],
      ''- Alert Name: ${alert:name}'',
      ''- Alert Level: ${alert:level}'',
      ''- Alert Threshold: ${alert:target_value}'',
      ''- Current CPU Usage: ${metric:cpu_usage_percent}'',
      ''- Node: ${node:name}'',
      []]"

definition en_alert_memory_warning :: string where
  "en_alert_memory_warning = join [CHR 0x0A]
     [''Memory usage is high. Please check.'',
      [],
      ''- Alert Name: ${alert:name}'',
      ''- Alert Level: ${alert:level}'',
      ''- Alert Threshold: ${alert:target_value}'',
      ''- Current Memory Usage: ${metric:used_memory_percent} (${metric:used_memory} / ${metric:total_memory})'',
      ''- Node: ${node:name}'',
      ''- Node Is Master: ${node:is_master}'',
      []]"

definition en_templates :: "(string \<times> string) list" where
  "en_templates =
    [(''task_finish'', en_task_finish),
     (''task_error'', en_task_error),
     (''node_status_change'', en_node_status_change),
     (''node_offline'', en_node_offline),
     (''alert_cpu_critical'', en_alert_cpu_critical),
     (''alert_memory_warning'', en_alert_memory_warning)]"

text \<open>\<open>getTriggerOptions\<close>: an option with a label, an icon, a value, and possibly children.\<close>

definition trigger_option :: "(string \<Rightarrow> string) \<Rightarrow> string \<Rightarrow> string \<Rightarrow> string \<Rightarrow> js" where
  "trigger_option t l v i =
     Obj [(''label'', Str (t l)), (''value'', Str v), (''icon'', strings [''fa'', i])]"

definition getTriggerOptions :: "(string \<Rightarrow> string) \<Rightarrow> js list" where
  "getTriggerOptions t =
     [Obj [(''label'', Str (t ''views.notification.settings.triggerTargets.task'')),
           (''icon'', strings [''fa'', ''tasks'']), (''value'', Str ''task''),
           (''children'', Arr
             [trigger_option t ''views.notification.settings.triggers.task.finish'' ''task_finish'' ''flag-checkered'',
              trigger_option t ''views.notification.settings.triggers.task.error'' ''task_error'' ''times'',
              trigger_option t ''views.notification.settings.triggers.task.emptyResults'' ''task_empty_results''
                ''exclamation-circle''])],
      Obj [(''label'', Str (t ''views.notification.settings.triggerTargets.node'')),
           (''icon'', strings [''fa'', ''server'']), (''value'', Str ''node''),
           (''children'', Arr
             [trigger_option t ''views.notification.settings.triggers.node.statusChange'' ''node_status_change''
                ''exchange-alt'',
              trigger_option t ''views.notification.settings.triggers.node.online'' ''node_online'' ''check-circle'',
              trigger_option t ''views.notification.settings.triggers.node.offline'' ''node_offline''
                ''times-circle''])],
      Obj [(''label'', Str (t ''views.notification.settings.triggerTargets.alert'')),
           (''icon'', strings [''fa'', ''bell'']), (''value'', Str ''alert'')]]"

text \<open>
  \<^verbatim>\<open>NotificationSettingTriggerSelect.vue\<close>: its own \<open>getTriggerTarget\<close> knows only two targets. A
  trigger has the icon of the option with its value among the children of all options;
  \<open>flatMap\<close> keeps the missing children of an option as one \<open>undefined\<close>.
\<close>

definition trigger_select_target :: "js \<Rightarrow> string option" where
  "trigger_select_target trigger =
     (case trigger of
        Str s \<Rightarrow>
          if starts_with ''task'' s then Some ''task''
          else if starts_with ''node'' s then Some ''node''
          else None
      | _ \<Rightarrow> None)"

definition getTriggerTargetIcon :: "js \<Rightarrow> js" where
  "getTriggerTargetIcon value =
     (if trigger_select_target value = Some ''task'' then strings [''fa'', ''tasks'']
      else if trigger_select_target value = Some ''node'' then strings [''fa'', ''server'']
      else Undef)"

definition trigger_children :: "js \<Rightarrow> js list" where
  "trigger_children option = (case js_get_opt option ''children'' of Arr xs \<Rightarrow> xs | v \<Rightarrow> [v])"

definition getTriggerIcon :: "(string \<Rightarrow> string) \<Rightarrow> js \<Rightarrow> js" where
  "getTriggerIcon t value =
     (case find (\<lambda>x. js_get_opt x ''value'' = value) (concat (map trigger_children (getTriggerOptions t))) of
        None \<Rightarrow> Undef
      | Some x \<Rightarrow> js_get_opt x ''icon'')"

section \<open>Warnings of a setting\<close>

type_synonym channel_dict = "js \<Rightarrow> js"

text \<open>\<open>new Map(channels.map(channel => [channel._id, channel]))\<close>: a later entry replaces an earlier one.\<close>

definition allChannelsDict :: "js list \<Rightarrow> channel_dict" where
  "allChannelsDict channels k =
     (case find (\<lambda>c. js_get_opt c ''_id'' = k) (rev channels) of None \<Rightarrow> Undef | Some c \<Rightarrow> c)"

fun any_mail :: "channel_dict option \<Rightarrow> js list \<Rightarrow> thrown + bool" where
  "any_mail d [] = Inr False"
| "any_mail None (x # xs) = Inl (type_error ''undefined'' ''get'')"
| "any_mail (Some d) (x # xs) =
     (if js_get_opt (d x) ''type'' = Str ''mail'' then Inr True else any_mail (Some d) xs)"

definition hasNotificationSettingMailChannel :: "js \<Rightarrow> channel_dict option \<Rightarrow> thrown + js" where
  "hasNotificationSettingMailChannel f d =
     (case js_get f ''channel_ids'' of
        Inl e \<Rightarrow> Inl e
      | Inr ids \<Rightarrow> (case ids of Arr xs \<Rightarrow> map_sum id Bool (any_mail d xs) | _ \<Rightarrow> Inr Undef))"

definition missing_mail_fields :: "js \<Rightarrow> channel_dict option \<Rightarrow> thrown + bool" where
  "missing_mail_fields f d =
     (case hasNotificationSettingMailChannel f d of
        Inl e \<Rightarrow> Inl e
      | Inr b \<Rightarrow>
          Inr (truthy b \<and> (\<not> truthy (js_get_opt f ''sender_email'') \<or> \<not> truthy (js_get_opt f ''mail_to''))))"

text \<open>\<open>f.k?.length\<close>.\<close>

definition length_of :: "js \<Rightarrow> string \<Rightarrow> js" where
  "length_of f k = js_get_opt (js_get_opt f k) ''length''"

definition with_badge :: "jobj \<Rightarrow> string \<Rightarrow> bool \<Rightarrow> jobj" where
  "with_badge tab kind hasWarning =
     amerge tab [(''badgeType'', Str kind), (''badge'', if hasWarning then Str ''!'' else Undef)]"

definition mail_warning :: "js \<Rightarrow> channel_dict option \<Rightarrow> thrown + bool" where
  "mail_warning f d =
     (case hasNotificationSettingMailChannel f d of
        Inl e \<Rightarrow> Inl e
      | Inr b \<Rightarrow>
          Inr (truthy b \<and>
            (truthy (js_get_opt f ''use_custom_sender_email'') \<and> \<not> truthy (js_get_opt f ''sender_email'')
             \<or> \<not> truthy (length_of f ''mail_to''))))"

definition template_warning :: "js \<Rightarrow> thrown + bool" where
  "template_warning f =
     (case js_get f ''title'' of
        Inl e \<Rightarrow> Inl e
      | Inr title \<Rightarrow> Inr (\<not> truthy title \<or> \<not> truthy (js_get_opt f ''template_markdown'')))"

definition channels_warning :: "js \<Rightarrow> channel_dict option \<Rightarrow> thrown + bool" where
  "channels_warning f d =
     (case missing_mail_fields f d of
        Inl e \<Rightarrow> Inl e
      | Inr b \<Rightarrow> Inr (b \<or> \<not> truthy (length_of f ''channel_ids'')))"

definition setting_tab :: "js \<Rightarrow> channel_dict option \<Rightarrow> jobj \<Rightarrow> thrown + jobj" where
  "setting_tab f d tab =
     (if oget tab ''id'' = Str ''mail'' then map_sum id (with_badge tab ''warning'') (mail_warning f d)
      else if oget tab ''id'' = Str ''template'' then map_sum id (with_badge tab ''danger'') (template_warning f)
      else if oget tab ''id'' = Str ''channels'' then map_sum id (with_badge tab ''warning'') (channels_warning f d)
      else Inr tab)"

text \<open>\<open>xs.map(f)\<close> for an \<open>f\<close> that may throw.\<close>

fun map_try :: "('a \<Rightarrow> thrown + 'b) \<Rightarrow> 'a list \<Rightarrow> thrown + 'b list" where
  "map_try f [] = Inr []"
| "map_try f (x # xs) =
     (case f x of
        Inl e \<Rightarrow> Inl e
      | Inr y \<Rightarrow> (case map_try f xs of Inl e \<Rightarrow> Inl e | Inr ys \<Rightarrow> Inr (y # ys)))"

definition setting_tabs :: "channel_dict option \<Rightarrow> base_state \<Rightarrow> thrown + jobj list" where
  "setting_tabs d s = map_try (setting_tab (form s) d) (nav_tabs s)"

text \<open>
  The getter reads the dictionary from \<open>rootGetters['notificationChannel/allDict']\<close>. The getters
  of the channel store are exactly those of \<open>getDefaultStoreGetters\<close>.
\<close>

definition getDefaultStoreGetters :: "string list" where
  "getDefaultStoreGetters = [''dialogVisible'', ''formListIds'']"

definition channel_getter :: "string \<Rightarrow> channel_dict \<Rightarrow> channel_dict option" where
  "channel_getter g d = (if g \<in> set getDefaultStoreGetters then Some d else None)"

definition notificationSetting_tabs :: "js list \<Rightarrow> base_state \<Rightarrow> thrown + jobj list" where
  "notificationSetting_tabs channels s =
     setting_tabs (channel_getter ''allDict'' (allChannelsDict channels)) s"

section \<open>Stores\<close>

text \<open>\<^verbatim>\<open>store/modules/notificationSetting.ts\<close>: the state, and the mutations of the template in the form.\<close>

definition notificationSetting_state :: "(string \<Rightarrow> string) \<Rightarrow> local_storage \<Rightarrow> thrown + base_state" where
  "notificationSetting_state t ls =
     map_sum id (\<lambda>s. s\<lparr>
       newFormFn := (\<lambda>_. Obj [(''enabled'', Bool True), (''template_mode'', Str ''markdown'')]),
       nav_tabs :=
         [[(''id'', Str ''overview''), (''title'', Str (t ''common.tabs.overview''))],
          [(''id'', Str ''mail''), (''title'', Str (t ''common.tabs.mail''))],
          [(''id'', Str ''template''), (''title'', Str (t ''common.tabs.template''))],
          [(''id'', Str ''channels''), (''title'', Str (t ''common.tabs.channels''))]]\<rparr>)
       (getDefaultStoreState t ''notificationSetting'' ls)"

datatype setting_mutation =
    SetTemplateTitle js
  | ResetTemplateTitle
  | SetTemplateContent js
  | ResetTemplateContent

fun template_field :: "setting_mutation \<Rightarrow> string \<times> js" where
  "template_field (SetTemplateTitle title) = (''title'', title)"
| "template_field ResetTemplateTitle = (''title'', Str [])"
| "template_field (SetTemplateContent template) = (''template_markdown'', template)"
| "template_field ResetTemplateContent = (''template_markdown'', Str [])"

definition mutate_setting :: "setting_mutation \<Rightarrow> base_state \<Rightarrow> thrown + base_state" where
  "mutate_setting m s =
     (case template_field m of (k, x) \<Rightarrow> map_sum id (\<lambda>f. s\<lparr>form := f\<rparr>) (set_property k x (form s)))"

text \<open>
  \<^verbatim>\<open>store/modules/notificationChannel.ts\<close> and \<^verbatim>\<open>notificationAlert.ts\<close>: besides the base list store they
  keep all channels and all alerts, which an action requests and \<open>commit\<close>s from the answer.
\<close>

record listing_state =
  listing_store :: base_state
  listed :: js

definition notificationChannel_state :: "(string \<Rightarrow> string) \<Rightarrow> local_storage \<Rightarrow> thrown + listing_state" where
  "notificationChannel_state t ls =
     map_sum id (\<lambda>s. \<lparr>listing_store = s\<lparr>
         nav_tabs := [[(''id'', Str ''overview''), (''title'', Str (t ''common.tabs.overview''))]]\<rparr>, listed = Arr []\<rparr>)
       (getDefaultStoreState t ''notificationChannel'' ls)"

definition notificationAlert_state :: "(string \<Rightarrow> string) \<Rightarrow> local_storage \<Rightarrow> thrown + listing_state" where
  "notificationAlert_state t ls =
     map_sum id (\<lambda>s. \<lparr>listing_store = s\<lparr>
         newFormFn := (\<lambda>_. Obj
           [(''name'', Str []), (''enabled'', Bool True), (''has_metric_target'', Bool False),
            (''operator'', Str ''ge''), (''lasting_seconds'', Num (60 * 5)), (''level'', Str ''warning'')]),
         nav_tabs := [[(''id'', Str ''overview''), (''title'', Str (t ''common.tabs.overview''))]]\<rparr>, listed = Arr []\<rparr>)
       (getDefaultStoreState t ''notificationAlert'' ls)"

datatype listing_mutation =
    ListingBase base_mutation
  | SetAllChannels js
  | ResetAllChannels
  | SetAllAlerts js
  | ResetAllAlerts

fun mutate_listing :: "listing_mutation \<Rightarrow> listing_state \<Rightarrow> listing_state" where
  "mutate_listing (ListingBase m) s = s\<lparr>listing_store := mutate m (listing_store s)\<rparr>"
| "mutate_listing (SetAllChannels cs) s = s\<lparr>listed := cs\<rparr>"
| "mutate_listing ResetAllChannels s = s\<lparr>listed := Arr []\<rparr>"
| "mutate_listing (SetAllAlerts as) s = s\<lparr>listed := as\<rparr>"
| "mutate_listing ResetAllAlerts s = s\<lparr>listed := Arr []\<rparr>"

definition getAllChannels_request :: service_request where
  "getAllChannels_request = get_request ''/notifications/channels'' (Obj [(''limit'', Num 10000)])"

definition getAllAlerts_request :: service_request where
  "getAllAlerts_request = get_request ''/notifications/alerts'' (Obj [(''size'', Num 10000)])"

definition getAllChannels_done :: "js \<Rightarrow> listing_state \<Rightarrow> thrown + listing_state" where
  "getAllChannels_done res s =
     map_sum id (\<lambda>data. mutate_listing (SetAllChannels (js_or data (Arr []))) s) (js_get res ''data'')"

definition getAllAlerts_done :: "js \<Rightarrow> listing_state \<Rightarrow> thrown + listing_state" where
  "getAllAlerts_done res s =
     map_sum id (\<lambda>data. mutate_listing (SetAllAlerts (js_or data (Arr []))) s) (js_get res ''data'')"

definition sendTestMessage :: "string \<Rightarrow> string \<Rightarrow> string option \<Rightarrow> service_request" where
  "sendTestMessage locale ident toMail =
     post_request (''/notifications/channels/'' @ ident @ ''/test'')
       (Obj [(''locale'', Str locale),
             (''to_mail'', case toMail of
                None \<Rightarrow> Undef
              | Some s \<Rightarrow> if s = [] then Undef else strings (map trim (split_on (CHR '','') s)))])"

section \<open>Addresses\<close>

text \<open>
  The pattern \<open>^[a-zA-Z0-9._%+-]+@[a-zA-Z0-9.-]+\.[a-zA-Z]{2,}$\<close>: the local part ends at the only
  at sign, and the last label at the last dot.
\<close>

definition is_letter :: "char \<Rightarrow> bool" where
  "is_letter ch \<longleftrightarrow> (let n = of_char ch :: nat in 65 \<le> n \<and> n \<le> 90 \<or> 97 \<le> n \<and> n \<le> 122)"

definition domain_char :: "char \<Rightarrow> bool" where
  "domain_char ch \<longleftrightarrow> is_letter ch \<or> is_digit ch \<or> ch \<in> set ''.-''"

definition local_char :: "char \<Rightarrow> bool" where
  "local_char ch \<longleftrightarrow> is_letter ch \<or> is_digit ch \<or> ch \<in> set ''._%+-''"

definition is_email :: "string \<Rightarrow> bool" where
  "is_email s =
     (let user = takeWhile (\<lambda>ch. ch \<noteq> CHR ''@'') s;
          rest = dropWhile (\<lambda>ch. ch \<noteq> CHR ''@'') s;
          domain = tl rest;
          top = rev (takeWhile (\<lambda>ch. ch \<noteq> CHR ''.'') (rev domain));
          before = dropWhile (\<lambda>ch. ch \<noteq> CHR ''.'') (rev domain) in
      user \<noteq> [] \<and> list_all local_char user \<and> rest \<noteq> [] \<and> list_all domain_char domain
      \<and> length before \<ge> 2 \<and> length top \<ge> 2 \<and> list_all is_letter top)"

text \<open>The callback receives the first error, or none; a missing list cannot be iterated.\<close>

definition emailValidator :: "(string \<Rightarrow> string) \<Rightarrow> js \<Rightarrow> thrown + string option" where
  "emailValidator t value =
     (case value of
        Arr vs \<Rightarrow>
          Inr (if list_all (\<lambda>v. is_email (js_str v)) vs then None
               else Some (t ''views.notification.settings.formRules.invalidEmail''))
      | Str s \<Rightarrow>
          Inr (if list_all (\<lambda>ch. is_email [ch]) s then None
               else Some (t ''views.notification.settings.formRules.invalidEmail''))
      | _ \<Rightarrow> Inl (ErrorObj ''value is not iterable''))"

lemma is_email_parts:
  "is_email s \<longleftrightarrow> (\<exists>u d e. s = u @ CHR ''@'' # d @ CHR ''.'' # e \<and> u \<noteq> [] \<and> list_all local_char u
     \<and> d \<noteq> [] \<and> list_all domain_char d \<and> length e \<ge> 2 \<and> list_all is_letter e)"
proof
  assume a: "is_email s"
  define u where "u = takeWhile (\<lambda>ch. ch \<noteq> CHR ''@'') s"
  define r where "r = dropWhile (\<lambda>ch. ch \<noteq> CHR ''@'') s"
  define e where "e = rev (takeWhile (\<lambda>ch. ch \<noteq> CHR ''.'') (rev (tl r)))"
  define b where "b = dropWhile (\<lambda>ch. ch \<noteq> CHR ''.'') (rev (tl r))"
  have f: "u \<noteq> []" "list_all local_char u" "r \<noteq> []" "list_all domain_char (tl r)" "length b \<ge> 2" "length e \<ge> 2"
    "list_all is_letter e"
    using a by (simp_all add: is_email_def Let_def u_def r_def e_def b_def)
  obtain r' where r: "r = CHR ''@'' # r'"
  proof -
    have "hd r = CHR ''@''" using hd_dropWhile [of "\<lambda>ch. ch \<noteq> CHR ''@''" s] f(3) unfolding r_def by blast
    then show ?thesis using f(3) that by (cases r) auto
  qed
  obtain b' where b: "b = CHR ''.'' # b'"
  proof -
    have ne: "b \<noteq> []" using f(5) by auto
    then have "hd b = CHR ''.''" using hd_dropWhile [of "\<lambda>ch. ch \<noteq> CHR ''.''" "rev (tl r)"] unfolding b_def by blast
    then show ?thesis using ne that by (cases b) auto
  qed
  have s: "s = u @ r" by (simp add: u_def r_def)
  have "rev r' = rev e @ b" using takeWhile_dropWhile_id [of "\<lambda>ch. ch \<noteq> CHR ''.''" "rev (tl r)"]
    by (simp add: e_def b_def r)
  then have "r' = rev b @ e" by (metis rev_append rev_rev_ident)
  then have d: "r' = rev b' @ CHR ''.'' # e" by (simp add: b)
  with s r have "s = u @ CHR ''@'' # rev b' @ CHR ''.'' # e" by simp
  moreover have "rev b' \<noteq> []" "list_all domain_char (rev b')" using f(4,5) by (auto simp: b r d)
  ultimately show "\<exists>u d e. s = u @ CHR ''@'' # d @ CHR ''.'' # e \<and> u \<noteq> [] \<and> list_all local_char u
     \<and> d \<noteq> [] \<and> list_all domain_char d \<and> length e \<ge> 2 \<and> list_all is_letter e"
    using f by blast
next
  assume "\<exists>u d e. s = u @ CHR ''@'' # d @ CHR ''.'' # e \<and> u \<noteq> [] \<and> list_all local_char u
     \<and> d \<noteq> [] \<and> list_all domain_char d \<and> length e \<ge> 2 \<and> list_all is_letter e"
  then obtain u d e where s: "s = u @ CHR ''@'' # d @ CHR ''.'' # e" and f: "u \<noteq> []" "list_all local_char u"
    "d \<noteq> []" "list_all domain_char d" "length e \<ge> 2" "list_all is_letter e" by blast
  have "\<not> local_char (CHR ''@'')" by (simp add: local_char_def is_letter_def is_digit_def)
  then have u: "CHR ''@'' \<notin> set u" using f(2) by (auto simp: list_all_iff)
  have "\<not> is_letter (CHR ''.'')" by (simp add: is_letter_def)
  then have e: "CHR ''.'' \<notin> set e" using f(6) by (auto simp: list_all_iff)
  have split: "takeWhile (\<lambda>ch. ch \<noteq> c) (xs @ c # ys) = xs" "dropWhile (\<lambda>ch. ch \<noteq> c) (xs @ c # ys) = c # ys"
    if "c \<notin> set xs" for c :: char and xs ys
    using that by (induction xs) auto
  have "takeWhile (\<lambda>ch. ch \<noteq> CHR ''@'') s = u" "dropWhile (\<lambda>ch. ch \<noteq> CHR ''@'') s = CHR ''@'' # d @ CHR ''.'' # e"
    using split [OF u] by (simp_all add: s)
  moreover have "takeWhile (\<lambda>ch. ch \<noteq> CHR ''.'') (rev e @ CHR ''.'' # rev d) = rev e"
    "dropWhile (\<lambda>ch. ch \<noteq> CHR ''.'') (rev e @ CHR ''.'' # rev d) = CHR ''.'' # rev d"
    using split [of "CHR ''.''" "rev e"] e by simp_all
  moreover have "list_all domain_char e" "domain_char (CHR ''.'')" "Suc 0 \<le> length d"
    using f(3,6) by (auto simp: list_all_iff domain_char_def Suc_le_eq)
  ultimately show "is_email s"
    using f by (simp add: is_email_def Let_def)
qed

section \<open>Which settings show their tabs\<close>

lemma any_mail_known: "any_mail (Some d) xs = Inr (list_ex (\<lambda>x. js_get_opt (d x) ''type'' = Str ''mail'') xs)"
  by (induction xs) auto

lemma any_mail_unknown: "any_mail None xs = (if xs = [] then Inr False else Inl (type_error ''undefined'' ''get''))"
  by (cases xs) auto

lemma map_try_fails: "\<not> isl (map_try f xs) \<longleftrightarrow> list_all (\<lambda>x. \<not> isl (f x)) xs"
  by (induction xs) (auto split: sum.splits)

lemma isl_map_sum [simp]: "isl (map_sum f g x) \<longleftrightarrow> isl x"
  by (cases x) auto

lemma channel_getter_missing: "channel_getter ''allDict'' d = None"
  by (simp add: channel_getter_def getDefaultStoreGetters_def)

lemma setting_tab_fails:
  "isl (setting_tab (Obj ps) None tab) \<longleftrightarrow>
     (\<exists>x xs. oget ps ''channel_ids'' = Arr (x # xs)) \<and> (oget tab ''id'' = Str ''mail'' \<or> oget tab ''id'' = Str ''channels'')"
proof -
  have has: "isl (hasNotificationSettingMailChannel (Obj ps) None) \<longleftrightarrow> (\<exists>x xs. oget ps ''channel_ids'' = Arr (x # xs))"
  proof (cases "oget ps ''channel_ids''")
    case (Arr xs)
    then show ?thesis by (cases xs) (auto simp: hasNotificationSettingMailChannel_def any_mail_unknown)
  qed (simp_all add: hasNotificationSettingMailChannel_def)
  have "isl (mail_warning (Obj ps) None) \<longleftrightarrow> isl (hasNotificationSettingMailChannel (Obj ps) None)"
    "isl (channels_warning (Obj ps) None) \<longleftrightarrow> isl (hasNotificationSettingMailChannel (Obj ps) None)"
    "\<not> isl (template_warning (Obj ps))"
    by (auto simp: mail_warning_def channels_warning_def missing_mail_fields_def template_warning_def split: sum.splits)
  with has show ?thesis by (simp add: setting_tab_def)
qed

text \<open>
  The tabs of a setting cannot be computed exactly when it has a channel: the getter looks
  channels up in a dictionary that no store provides. Without channels no tab fails.
\<close>
theorem setting_tabs_fail_iff:
  assumes "notificationSetting_state t ls = Inr s0" "form s = Obj ps" "nav_tabs s = nav_tabs s0"
  shows "isl (notificationSetting_tabs channels s) \<longleftrightarrow> (\<exists>x xs. oget ps ''channel_ids'' = Arr (x # xs))"
proof -
  have tabs: "\<exists>tab \<in> set (nav_tabs s). oget tab ''id'' = Str ''mail''"
  proof -
    obtain s1 where "s0 = s1\<lparr>
       newFormFn := (\<lambda>_. Obj [(''enabled'', Bool True), (''template_mode'', Str ''markdown'')]),
       nav_tabs :=
         [[(''id'', Str ''overview''), (''title'', Str (t ''common.tabs.overview''))],
          [(''id'', Str ''mail''), (''title'', Str (t ''common.tabs.mail''))],
          [(''id'', Str ''template''), (''title'', Str (t ''common.tabs.template''))],
          [(''id'', Str ''channels''), (''title'', Str (t ''common.tabs.channels''))]]\<rparr>"
      using assms(1) unfolding notificationSetting_state_def
      by (cases "getDefaultStoreState t ''notificationSetting'' ls") auto
    then show ?thesis using assms(3) by simp
  qed
  have "isl (notificationSetting_tabs channels s) \<longleftrightarrow> (\<exists>tab \<in> set (nav_tabs s). isl (setting_tab (form s) None tab))"
    using map_try_fails [of "setting_tab (form s) None" "nav_tabs s"]
    by (auto simp: notificationSetting_tabs_def setting_tabs_def channel_getter_missing list_all_iff)
  also have "\<dots> \<longleftrightarrow> (\<exists>x xs. oget ps ''channel_ids'' = Arr (x # xs))"
    unfolding assms(2) setting_tab_fails using tabs by auto
  finally show ?thesis .
qed

text \<open>With a dictionary, the mail tab and the alert of the channels tab disagree without a sender of one's own.\<close>

lemma warnings_disagree:
  "mail_warning (Obj [(''channel_ids'', Arr [Str ''c'']), (''mail_to'', Arr [Str ''a@b.cc''])])
     (Some (allChannelsDict [Obj [(''_id'', Str ''c''), (''type'', Str ''mail'')]])) = Inr False"
  "missing_mail_fields (Obj [(''channel_ids'', Arr [Str ''c'']), (''mail_to'', Arr [Str ''a@b.cc''])])
     (Some (allChannelsDict [Obj [(''_id'', Str ''c''), (''type'', Str ''mail'')]])) = Inr True"
  by code_simp+

theorem setting_tabs_fail_iff_witness: "\<exists>s. isl (notificationSetting_tabs [] s)"
proof -
  have "\<not> isl (notificationSetting_state (\<lambda>k. k) Map.empty)"
    by (simp add: notificationSetting_state_def getDefaultStoreState_def loadNamespaceLocalStorage_def
        loadLocalStorage_def getItem_def)
  then obtain s0 where s0: "notificationSetting_state (\<lambda>k. k) Map.empty = Inr s0"
    by (cases "notificationSetting_state (\<lambda>k. k) Map.empty") auto
  let ?s = "s0\<lparr>form := Obj [(''channel_ids'', Arr [Str ''c''])]\<rparr>"
  have "isl (notificationSetting_tabs [] ?s)"
    using setting_tabs_fail_iff [OF s0, of ?s "[(''channel_ids'', Arr [Str ''c''])]" "[]"] by simp
  then show ?thesis by blast
qed

end
