(* ===== verification/UI_Variables.thy ===== *)
theory UI_Variables
  imports UI_Notification
begin

text \<open>
  Variables in the texts of notifications: \<^verbatim>\<open>composables/useVariableSetup.ts\<close>,
  \<^verbatim>\<open>nodes/VariableNode.tsx\<close>, \<^verbatim>\<open>utils/node.ts\<close> and \<^verbatim>\<open>components/InsertVariableDialog.vue\<close> of the
  rich text editor (\<^verbatim>\<open>components/ui/lexical\<close>).

  The content of the editor is the tree of its nodes. \<open>highlightVariables\<close> runs after every update
  of the editor, so also after its own changes; one pass is \<open>highlight\<close>. Replacing a node by
  new siblings (\<open>insertBefore\<close> for each, then \<open>remove\<close>) puts the list of them in its place.
\<close>

section \<open>Nodes\<close>

record variable_node =
  category :: js
  var_name :: string
  bold :: bool
  italic :: bool
  underline :: bool
  strikethrough :: bool
  selected :: bool

text \<open>A text node has the bits of its format and its text.\<close>

datatype lnode =
    TextNode nat string
  | VariableNode variable_node
  | ElementNode "lnode list"
  | OtherNode

text \<open>The constructor, from the properties of \<open>params\<close>; a new node is not selected.\<close>

definition new_variable_node :: "js \<Rightarrow> string \<Rightarrow> jobj \<Rightarrow> variable_node" where
  "new_variable_node c n params =
     \<lparr>category = c, var_name = n, bold = truthy (oget params ''__bold''),
      italic = truthy (oget params ''__italic''), underline = truthy (oget params ''__underline''),
      strikethrough = truthy (oget params ''__strikethrough''), selected = False\<rparr>"

definition clone_variable :: "variable_node \<Rightarrow> variable_node" where
  "clone_variable v = new_variable_node (category v) (var_name v) []"

definition exportJSON :: "variable_node \<Rightarrow> jobj" where
  "exportJSON v =
     [(''type'', Str ''variable''), (''version'', Num 1), (''category'', category v),
      (''name'', Str (var_name v)), (''__bold'', Bool (bold v)), (''__italic'', Bool (italic v)),
      (''__underline'', Bool (underline v)), (''__strikethrough'', Bool (strikethrough v)),
      (''__selected'', Bool (selected v))]"

definition importJSON :: "jobj \<Rightarrow> variable_node" where
  "importJSON ps = new_variable_node (oget ps ''category'') (js_str (oget ps ''name'')) ps"

definition variable_text :: "variable_node \<Rightarrow> string" where
  "variable_text v =
     (if truthy (category v) then ''${'' @ js_str (category v) @ '':'' @ var_name v @ ''}''
      else ''${'' @ var_name v @ ''}'')"

text \<open>
  \<open>toggle\<close> copies the properties whose name starts with two underscores from the latest version to
  the writable one, which Lexical makes from the latest by \<open>clone\<close> or has made before, and then
  sets the property. \<open>field_of\<close> and \<open>set_field\<close> are the access to a property by its name.
\<close>

definition set_field :: "string \<Rightarrow> js \<Rightarrow> variable_node \<Rightarrow> variable_node" where
  "set_field k x v =
     (if k = ''__bold'' then v\<lparr>bold := truthy x\<rparr>
      else if k = ''__italic'' then v\<lparr>italic := truthy x\<rparr>
      else if k = ''__underline'' then v\<lparr>underline := truthy x\<rparr>
      else if k = ''__strikethrough'' then v\<lparr>strikethrough := truthy x\<rparr>
      else if k = ''__selected'' then v\<lparr>selected := truthy x\<rparr>
      else v)"

definition toggle :: "string \<Rightarrow> js \<Rightarrow> variable_node \<Rightarrow> variable_node \<Rightarrow> variable_node" where
  "toggle k x latest writable =
     (let ps = exportJSON latest;
          w = fold (\<lambda>(key, y) u. if starts_with ''__'' key then set_field key y u else u) ps writable in
      if x = Undef then set_field k (Bool (\<not> truthy (oget ps k))) w else set_field k x w)"

definition format_key :: "string \<Rightarrow> string option" where
  "format_key formatType =
     (if formatType = ''bold'' then Some ''__bold''
      else if formatType = ''italic'' then Some ''__italic''
      else if formatType = ''underline'' then Some ''__underline''
      else if formatType = ''strikethrough'' then Some ''__strikethrough''
      else None)"

definition toggleFormat :: "string \<Rightarrow> variable_node \<Rightarrow> variable_node" where
  "toggleFormat formatType v =
     (case format_key formatType of None \<Rightarrow> v | Some k \<Rightarrow> toggle k Undef v (clone_variable v))"

definition setSelected :: "bool \<Rightarrow> variable_node \<Rightarrow> variable_node" where
  "setSelected b v = toggle ''__selected'' (Bool b) v (clone_variable v)"

text \<open>How the node is drawn: the colour by validity and selection, and the style of its text.\<close>

definition decorate :: "variable_node \<Rightarrow> jobj \<times> string" where
  "decorate v =
     ([(''color'', Str (if isValidVariable (category v) (var_name v) then ''var(--cl-warning-color)''
                        else ''var(--cl-danger-color)'')),
       (''backgroundColor'', Str (if selected v then ''var(--cl-warning-plain-color)'' else [])),
       (''fontWeight'', Str (if bold v then ''bold'' else ''normal'')),
       (''fontStyle'', Str (if italic v then ''italic'' else ''normal'')),
       (''textDecoration'', Str (join '' ''
          ((if underline v then [''underline''] else []) @
           (if strikethrough v then [''line-through''] else []))))],
      variable_text v)"

section \<open>Highlighting\<close>

text \<open>The pattern \<open>(.*)\$\{(\w+):(\w+)\}(.*)\<close>: a variable at the start of a text, and the last one of a line.\<close>

definition is_word :: "char \<Rightarrow> bool" where
  "is_word ch \<longleftrightarrow>
     (let n = of_char ch :: nat in
      48 \<le> n \<and> n \<le> 57 \<or> 65 \<le> n \<and> n \<le> 90 \<or> 97 \<le> n \<and> n \<le> 122 \<or> n = 95)"

definition word_then :: "char \<Rightarrow> string \<Rightarrow> (string \<times> string) option" where
  "word_then ch s =
     (let w = takeWhile is_word s; r = dropWhile is_word s in
      if w \<noteq> [] \<and> r \<noteq> [] \<and> hd r = ch then Some (w, tl r) else None)"

definition var_at :: "string \<Rightarrow> (string \<times> string \<times> string) option" where
  "var_at s =
     (if starts_with ''${'' s then
        (case word_then (CHR '':'') (drop 2 s) of
           None \<Rightarrow> None
         | Some (c, r) \<Rightarrow>
             (case word_then (CHR ''}'') r of None \<Rightarrow> None | Some (n, q) \<Rightarrow> Some (c, n, q)))
      else None)"

fun last_var :: "string \<Rightarrow> (string \<times> string \<times> string \<times> string) option" where
  "last_var [] = None"
| "last_var (x # xs) =
     (case last_var xs of
        Some (p, c, n, q) \<Rightarrow> Some (x # p, c, n, q)
      | None \<Rightarrow> (case var_at (x # xs) of None \<Rightarrow> None | Some (c, n, q) \<Rightarrow> Some ([], c, n, q)))"

text \<open>The dot matches no line break, so the match lies in the first line that has a variable.\<close>

definition text_lines :: "string \<Rightarrow> string list" where
  "text_lines s = concat (map (split_on (CHR 0x0D)) (split_on (CHR 0x0A) s))"

definition variable_match :: "string \<Rightarrow> (string \<times> string \<times> string \<times> string) option" where
  "variable_match s =
     (case filter (\<lambda>l. last_var l \<noteq> None) (text_lines s) of [] \<Rightarrow> None | l # _ \<Rightarrow> last_var l)"

definition text_node :: "string \<Rightarrow> lnode list" where
  "text_node s = (if s = [] then [] else [TextNode 0 s])"

definition highlight_text :: "nat \<Rightarrow> string \<Rightarrow> lnode list" where
  "highlight_text f s =
     (case variable_match s of
        None \<Rightarrow> [TextNode f s]
      | Some (preText, c, n, postText) \<Rightarrow>
          text_node preText @ [VariableNode (new_variable_node (Str c) n [])] @ text_node postText)"

fun highlight_node :: "lnode \<Rightarrow> lnode list" where
  "highlight_node (TextNode f s) = highlight_text f s"
| "highlight_node (ElementNode xs) = [ElementNode (concat (map highlight_node xs))]"
| "highlight_node x = [x]"

definition highlight :: "lnode list \<Rightarrow> lnode list" where
  "highlight xs = concat (map highlight_node xs)"

text \<open>\<^verbatim>\<open>utils/node.ts\<close>: all nodes below the root that pass a test.\<close>

definition lnode_children :: "lnode \<Rightarrow> lnode list" where
  "lnode_children x = (case x of ElementNode xs \<Rightarrow> xs | _ \<Rightarrow> [])"

fun getAllNodesRecursively :: "(lnode \<Rightarrow> bool) \<Rightarrow> lnode \<Rightarrow> lnode list" where
  "getAllNodesRecursively check (ElementNode xs) =
     concat (map (\<lambda>x. if check x then [x] else getAllNodesRecursively check x) xs)"
| "getAllNodesRecursively check _ = []"

definition getAllNodes :: "(lnode \<Rightarrow> bool) \<Rightarrow> lnode list \<Rightarrow> lnode list" where
  "getAllNodes check root =
     concat (map (\<lambda>x. (if check x then [x] else []) @ getAllNodesRecursively check x) root)"

definition is_text_node :: "lnode \<Rightarrow> bool" where
  "is_text_node x \<longleftrightarrow> (case x of TextNode _ _ \<Rightarrow> True | _ \<Rightarrow> False)"

definition getAllTextNodes :: "lnode list \<Rightarrow> lnode list" where
  "getAllTextNodes = getAllNodes is_text_node"

section \<open>Formats and selection of a variable\<close>

lemma toggle_fields:
  assumes "category w = category v" "var_name w = var_name v"
  shows "toggle k x v w =
    (if x = Undef then set_field k (Bool (\<not> truthy (oget (exportJSON v) k))) v else set_field k x v)"
  using assms by (simp add: toggle_def exportJSON_def set_field_def starts_with_def)

lemma clone_same [simp]: "category (clone_variable v) = category v" "var_name (clone_variable v) = var_name v"
  by (simp_all add: clone_variable_def new_variable_node_def)

lemma setSelected_simp [simp]: "setSelected b v = v\<lparr>selected := b\<rparr>"
  by (simp add: setSelected_def toggle_fields set_field_def)

lemma toggleFormat_simps:
  "toggleFormat ''bold'' v = v\<lparr>bold := \<not> bold v\<rparr>"
  "toggleFormat ''italic'' v = v\<lparr>italic := \<not> italic v\<rparr>"
  "toggleFormat ''underline'' v = v\<lparr>underline := \<not> underline v\<rparr>"
  "toggleFormat ''strikethrough'' v = v\<lparr>strikethrough := \<not> strikethrough v\<rparr>"
  by (simp_all add: toggleFormat_def toggle_fields format_key_def set_field_def exportJSON_def)

lemma toggleFormat_other: "format_key f = None \<Longrightarrow> toggleFormat f v = v"
  by (simp add: toggleFormat_def)

lemma toggleFormat_keeps [simp]:
  "category (toggleFormat f v) = category v" "var_name (toggleFormat f v) = var_name v"
  "selected (toggleFormat f v) = selected v" "toggleFormat f (toggleFormat f v) = v"
  by (simp_all add: toggleFormat_def toggle_fields format_key_def set_field_def exportJSON_def
      split: option.splits if_splits)

lemma import_export: "importJSON (exportJSON v) = v\<lparr>selected := False\<rparr>"
  by (simp add: importJSON_def exportJSON_def new_variable_node_def)

section \<open>Highlighting\<close>

text \<open>The text that a tree shows.\<close>

fun lnode_text :: "lnode \<Rightarrow> string" where
  "lnode_text (TextNode f s) = s"
| "lnode_text (VariableNode v) = variable_text v"
| "lnode_text (ElementNode xs) = concat (map lnode_text xs)"
| "lnode_text OtherNode = []"

definition is_break :: "char \<Rightarrow> bool" where
  "is_break ch \<longleftrightarrow> ch = CHR 0x0A \<or> ch = CHR 0x0D"

definition single_line :: "string \<Rightarrow> bool" where
  "single_line s \<longleftrightarrow> list_all (\<lambda>ch. \<not> is_break ch) s"

lemma text_lines_single: "single_line s \<Longrightarrow> text_lines s = [s]"
proof -
  assume "single_line s"
  then have "CHR 0x0A \<notin> set s" "CHR 0x0D \<notin> set s"
    unfolding single_line_def is_break_def list_all_iff by blast+
  then show ?thesis by (simp add: text_lines_def split_on_none)
qed

lemma variable_match_single: "single_line s \<Longrightarrow> variable_match s = last_var s"
  by (cases "last_var s") (auto simp: variable_match_def text_lines_single)

definition var_string :: "string \<Rightarrow> string \<Rightarrow> string" where
  "var_string c n = ''${'' @ c @ '':'' @ n @ ''}''"

definition word :: "string \<Rightarrow> bool" where
  "word w \<longleftrightarrow> w \<noteq> [] \<and> list_all is_word w"

lemma word_thenD: "word_then ch s = Some (w, r) \<Longrightarrow> s = w @ ch # r \<and> word w"
proof -
  assume "word_then ch s = Some (w, r)"
  then have w: "w = takeWhile is_word s" "w \<noteq> []" and d: "dropWhile is_word s = ch # r"
    by (cases "dropWhile is_word s"; force simp: word_then_def Let_def split: if_splits)+
  have "s = w @ ch # r"
    unfolding w(1) d [symmetric] by simp
  moreover have "list_all is_word w"
    unfolding w(1) list_all_iff by (blast dest: set_takeWhileD)
  ultimately show ?thesis using w(2) by (simp add: word_def)
qed

lemma word_then_intro:
  "word w \<Longrightarrow> \<not> is_word ch \<Longrightarrow> word_then ch (w @ ch # r) = Some (w, r)"
  by (simp add: word_then_def word_def list_all_iff takeWhile_append2 dropWhile_append2)

lemma not_word [simp]: "\<not> is_word (CHR '':'')" "\<not> is_word (CHR ''}'')" "\<not> is_word (CHR ''$'')" "\<not> is_word (CHR ''{'')"
  by (simp_all add: is_word_def)

lemma var_atD: "var_at s = Some (c, n, q) \<Longrightarrow> s = var_string c n @ q \<and> word c \<and> word n"
proof -
  assume "var_at s = Some (c, n, q)"
  then obtain r where s: "starts_with ''${'' s" and a: "word_then (CHR '':'') (drop 2 s) = Some (c, r)"
    and b: "word_then (CHR ''}'') r = Some (n, q)"
    by (auto simp: var_at_def split: if_splits option.splits)
  have "s = ''${'' @ drop 2 s"
    using s append_take_drop_id [of 2 s] by (simp add: starts_with_def numeral_2_eq_2)
  with word_thenD [OF a] word_thenD [OF b] show ?thesis by (auto simp: var_string_def)
qed

lemma var_at_intro: "word c \<Longrightarrow> word n \<Longrightarrow> var_at (var_string c n @ q) = Some (c, n, q)"
  by (simp add: var_at_def var_string_def starts_with_def word_then_intro numeral_2_eq_2)

lemma last_varD:
  "last_var s = Some (p, c, n, q) \<Longrightarrow> s = p @ var_string c n @ q \<and> word c \<and> word n \<and> last_var q = None"
proof (induction s arbitrary: p)
  case (Cons x xs)
  show ?case
  proof (cases "last_var xs")
    case None
    with Cons.prems have p: "p = []" and v: "var_at (x # xs) = Some (c, n, q)"
      by (auto split: option.splits)
    have tail: "last_var ys = None" if "last_var (zs @ ys) = None" for zs ys
      using that by (induction zs) (auto split: option.splits)
    from var_atD [OF v] have xs: "xs = CHR ''{'' # c @ CHR '':'' # n @ CHR ''}'' # q"
      by (simp add: var_string_def)
    have "last_var q = None"
      using None tail [of "CHR ''{'' # c @ CHR '':'' # n @ [CHR ''}'']" q] by (simp add: xs)
    with p var_atD [OF v] show ?thesis by simp
  next
    case (Some a)
    with Cons show ?thesis by (cases a) auto
  qed
qed simp

lemma last_var_None_var: "last_var (a @ b) = None \<Longrightarrow> last_var b = None"
  by (induction a) (auto split: option.splits)

text \<open>Faster evaluation of the pattern.\<close>

lemma is_word_bits [code]:
  "is_word (Char b0 b1 b2 b3 b4 b5 b6 b7) \<longleftrightarrow>
     \<not> b7 \<and>
     (if b6 then
        (if b4 then (if b3 then (if b2 then b0 \<and> b1 \<and> \<not> b5 else \<not> (b1 \<and> b0)) else True)
         else b0 \<or> b1 \<or> b2 \<or> b3)
      else b5 \<and> b4 \<and> \<not> (b3 \<and> (b2 \<or> b1)))"
  by (cases b0; cases b1; cases b2; cases b3; cases b4; cases b5; cases b6; cases b7; simp add: is_word_def)

lemma var_at_start [code]:
  "var_at [] = None"
  "var_at [x] = None"
  "var_at (x # y # r) =
     (if x = CHR ''$'' then
        if y = CHR ''{'' then
          (case word_then (CHR '':'') r of
             None \<Rightarrow> None
           | Some (c, r) \<Rightarrow>
               (case word_then (CHR ''}'') r of None \<Rightarrow> None | Some (n, q) \<Rightarrow> Some (c, n, q)))
        else None
      else None)"
  by (simp_all add: var_at_def starts_with_def numeral_2_eq_2)

subsection \<open>Reference: the pieces of a text from left to right\<close>

definition add_char :: "char \<Rightarrow> lnode list \<Rightarrow> lnode list" where
  "add_char x ts =
     (case ts of TextNode f t # ts' \<Rightarrow> TextNode f (x # t) # ts' | _ \<Rightarrow> TextNode 0 [x] # ts)"

definition var_of :: "string \<Rightarrow> string \<Rightarrow> lnode" where
  "var_of c n = VariableNode (new_variable_node (Str c) n [])"

function pieces :: "string \<Rightarrow> lnode list" where
  "pieces [] = []"
| "pieces (x # xs) =
     (case var_at (x # xs) of
        None \<Rightarrow> add_char x (pieces xs)
      | Some (c, n, q) \<Rightarrow> var_of c n # pieces q)"
  by pat_completeness auto

termination
  by (relation "measure length") (auto dest!: var_atD simp: var_string_def)

lemma pieces_plain: "last_var s = None \<Longrightarrow> pieces s = text_node s"
proof (induction s)
  case (Cons x xs)
  then have "last_var xs = None" "var_at (x # xs) = None" by (auto split: option.splits)
  with Cons.IH show ?case by (auto simp: text_node_def add_char_def)
qed (simp add: text_node_def)

text \<open>A piece of text that ends before a dollar sign is read as if it ended there.\<close>

lemma word_then_before:
  assumes "\<not> is_word (CHR ''$'')" "ch \<noteq> CHR ''$''"
  shows "word_then ch (s @ CHR ''$'' # r) =
     (case word_then ch s of None \<Rightarrow> None | Some (w, t) \<Rightarrow> Some (w, t @ CHR ''$'' # r))"
proof (cases "list_all is_word s")
  case True
  then have "\<forall>ch \<in> set s. is_word ch" by (simp add: list_all_iff)
  then have "dropWhile is_word s = []" "takeWhile is_word s = s"
    "dropWhile is_word (s @ CHR ''$'' # r) = CHR ''$'' # r"
    by (auto simp: dropWhile_append2)
  with assms show ?thesis by (simp add: word_then_def)
next
  case False
  then obtain y where "y \<in> set s" "\<not> is_word y" by (auto simp: list_all_iff)
  then have "takeWhile is_word (s @ CHR ''$'' # r) = takeWhile is_word s"
    "dropWhile is_word (s @ CHR ''$'' # r) = dropWhile is_word s @ CHR ''$'' # r"
    "dropWhile is_word s \<noteq> []"
    by (auto simp: takeWhile_append1 dropWhile_append1 dropWhile_eq_Nil_conv)
  then show ?thesis by (simp add: word_then_def Let_def)
qed

lemma var_at_before:
  assumes "s \<noteq> []"
  shows "var_at (s @ CHR ''$'' # r) =
     (case var_at s of None \<Rightarrow> None | Some (c, n, q) \<Rightarrow> Some (c, n, q @ CHR ''$'' # r))"
proof (cases s)
  case (Cons x xs)
  show ?thesis
  proof (cases xs)
    case Nil
    then show ?thesis by (simp add: Cons var_at_def starts_with_def)
  next
    case (Cons y ys)
    then show ?thesis
      by (auto simp: \<open>s = x # xs\<close> var_at_def starts_with_def word_then_before numeral_2_eq_2 split: option.splits)
  qed
qed (use assms in simp)

lemma add_char_append: "ts \<noteq> [] \<or> (\<forall>f t us'. us \<noteq> TextNode f t # us') \<Longrightarrow> add_char x (ts @ us) = add_char x ts @ us"
  by (auto simp: add_char_def split: list.splits lnode.splits)

lemma pieces_var:
  assumes "word c" "word n"
  shows "pieces (p @ var_string c n @ q) = pieces p @ var_of c n # pieces q"
proof (induction p rule: pieces.induct)
  case 1
  have "pieces (var_string c n @ q) = var_of c n # pieces q"
    using var_at_intro [OF assms, of q] by (simp add: var_string_def)
  then show ?case by simp
next
  case (2 x xs)
  obtain r where r: "var_string c n @ q = CHR ''$'' # r" by (simp add: var_string_def)
  have v: "var_at (x # xs @ var_string c n @ q) =
     (case var_at (x # xs) of None \<Rightarrow> None | Some (d, m, t) \<Rightarrow> Some (d, m, t @ var_string c n @ q))"
    using var_at_before [of "x # xs" r] by (simp add: r split: option.split)
  show ?case
  proof (cases "var_at (x # xs)")
    case None
    with 2 v show ?thesis by (simp add: add_char_append var_of_def)
  next
    case (Some y)
    with 2 v show ?thesis by (cases y) auto
  qed
qed

subsection \<open>Repeated passes\<close>

lemma highlight_Nil [simp]: "highlight [] = []"
  by (simp add: highlight_def)

lemma highlight_append [simp]: "highlight (xs @ ys) = highlight xs @ highlight ys"
  by (simp add: highlight_def)

lemma passes_append: "(highlight ^^ n) (xs @ ys) = (highlight ^^ n) xs @ (highlight ^^ n) ys"
  by (induction n arbitrary: xs ys) (simp_all add: funpow_Suc_right del: funpow.simps)

lemma passes_fixed: "highlight xs = xs \<Longrightarrow> (highlight ^^ n) xs = xs"
  by (induction n) simp_all

lemma passes_Nil [simp]: "(highlight ^^ n) [] = []"
  by (simp add: passes_fixed)

lemma passes_element: "(highlight ^^ n) [ElementNode xs] = [ElementNode ((highlight ^^ n) xs)]"
  by (induction n arbitrary: xs) (simp_all add: funpow_Suc_right highlight_def del: funpow.simps)

lemma passes_Cons: "(highlight ^^ n) (x # xs) = (highlight ^^ n) [x] @ (highlight ^^ n) xs"
  using passes_append [of n "[x]" xs] by simp

lemma highlight_plain:
  "single_line s \<Longrightarrow> last_var s = None \<Longrightarrow> highlight [TextNode f s] = [TextNode f s]"
  by (simp add: highlight_def highlight_text_def variable_match_single)

lemma highlight_var:
  "single_line s \<Longrightarrow> last_var s = Some (p, c, n, q) \<Longrightarrow>
   highlight [TextNode f s] = text_node p @ var_of c n # text_node q"
  by (simp add: highlight_def highlight_text_def variable_match_single var_of_def)

lemma single_line_append [simp]: "single_line (a @ b) \<longleftrightarrow> single_line a \<and> single_line b"
  by (simp add: single_line_def)

lemma passes_text:
  "single_line s \<Longrightarrow> length s \<le> n \<Longrightarrow>
   (highlight ^^ n) [TextNode f s] = (if last_var s = None then [TextNode f s] else pieces s)"
proof (induction "length s" arbitrary: s f n rule: less_induct)
  case less
  show ?case
  proof (cases "last_var s")
    case None
    with less.prems show ?thesis by (simp add: passes_fixed highlight_plain)
  next
    case (Some a)
    then obtain p c m q where l: "last_var s = Some (p, c, m, q)" by (cases a) auto
    from last_varD [OF l] have s: "s = p @ var_string c m @ q" and w: "word c" "word m" "last_var q = None"
      by auto
    have "n \<noteq> 0" using less.prems(2) by (auto simp: s var_string_def)
    then obtain k where n: "n = Suc k" by (cases n) auto
    have k: "length p \<le> k" "length p < length s"
      using less.prems(2) by (auto simp: s n var_string_def)
    have lines: "single_line p" "single_line q" using less.prems(1) by (simp_all add: s)
    have p: "(highlight ^^ k) (text_node p) = pieces p"
      using less.hyps [of p k 0] k lines
      by (cases "last_var p") (auto simp: text_node_def pieces_plain)
    have q: "(highlight ^^ k) (text_node q) = pieces q"
      using w lines by (simp add: pieces_plain text_node_def passes_fixed highlight_plain)
    have v: "(highlight ^^ k) [var_of c m] = [var_of c m]"
      by (simp add: passes_fixed highlight_def var_of_def)
    have "(highlight ^^ n) [TextNode f s] = (highlight ^^ k) (text_node p @ [var_of c m] @ text_node q)"
      using less.prems(1) by (simp add: n funpow_Suc_right highlight_var [OF _ l] del: funpow.simps)
    also have "\<dots> = pieces p @ var_of c m # pieces q"
      by (simp only: passes_append p q v) simp
    also have "\<dots> = pieces s"
      using w by (simp add: s pieces_var)
    finally show ?thesis by (simp add: l)
  qed
qed

fun settled_node :: "lnode \<Rightarrow> lnode list" where
  "settled_node (TextNode f s) = (if last_var s = None then [TextNode f s] else pieces s)"
| "settled_node (ElementNode xs) = [ElementNode (concat (map settled_node xs))]"
| "settled_node x = [x]"

fun node_lines :: "lnode \<Rightarrow> bool" where
  "node_lines (TextNode f s) = single_line s"
| "node_lines (ElementNode xs) = list_all node_lines xs"
| "node_lines _ = True"

fun longest :: "lnode \<Rightarrow> nat" where
  "longest (TextNode f s) = length s"
| "longest (ElementNode xs) = foldr (\<lambda>x m. max (longest x) m) xs 0"
| "longest _ = 0"

lemma longest_le: "x \<in> set xs \<Longrightarrow> longest x \<le> foldr (\<lambda>x m. max (longest x) m) xs 0"
  by (induction xs) auto

lemma passes_concat:
  "(\<And>x. x \<in> set xs \<Longrightarrow> (highlight ^^ n) [x] = g x) \<Longrightarrow> (highlight ^^ n) xs = concat (map g xs)"
proof (induction xs)
  case (Cons x xs)
  then show ?case using passes_Cons [of n x xs] by simp
qed simp

lemma passes_node: "node_lines x \<Longrightarrow> longest x \<le> n \<Longrightarrow> (highlight ^^ n) [x] = settled_node x"
proof (induction x)
  case (TextNode f s)
  then show ?case by (simp add: passes_text)
next
  case (ElementNode xs)
  have "(highlight ^^ n) xs = concat (map settled_node xs)"
  proof (rule passes_concat)
    fix x assume "x \<in> set xs"
    with ElementNode longest_le [of x xs] show "(highlight ^^ n) [x] = settled_node x"
      by (auto simp: list_all_iff)
  qed
  then show ?case by (simp add: passes_element)
qed (simp_all add: passes_fixed highlight_def)

lemma var_text [simp]: "word c \<Longrightarrow> lnode_text (var_of c n) = var_string c n"
  by (simp add: var_of_def variable_text_def new_variable_node_def var_string_def word_def)

lemma add_char_text: "concat (map lnode_text (add_char x ts)) = x # concat (map lnode_text ts)"
  by (auto simp: add_char_def split: list.splits lnode.splits)

lemma pieces_text: "concat (map lnode_text (pieces s)) = s"
proof (induction s rule: pieces.induct)
  case (2 x xs)
  then show ?case
    by (cases "var_at (x # xs)") (auto simp: add_char_text dest: var_atD)
qed simp

lemma settled_text: "concat (map lnode_text (settled_node x)) = lnode_text x"
proof (induction x)
  case (TextNode f s)
  then show ?case by (simp add: pieces_text)
next
  case (ElementNode xs)
  then have "concat (map lnode_text (concat (map settled_node xs))) = concat (map lnode_text xs)"
    by (induction xs) auto
  then show ?case by simp
qed simp_all

text \<open>The text nodes that \<open>highlightVariables\<close> visits: every one once, in the order of the document.\<close>

fun text_leaves :: "lnode \<Rightarrow> lnode list" where
  "text_leaves (TextNode f s) = [TextNode f s]"
| "text_leaves (ElementNode xs) = concat (map text_leaves xs)"
| "text_leaves _ = []"

lemma is_text_node_simps [simp]:
  "is_text_node (TextNode f s)" "\<not> is_text_node (VariableNode v)" "\<not> is_text_node (ElementNode xs)"
  "\<not> is_text_node OtherNode"
  by (simp_all add: is_text_node_def)

lemma text_leaves_text: "is_text_node x \<Longrightarrow> text_leaves x = [x]"
  by (cases x) simp_all

lemma recursive_leaves: "getAllNodesRecursively is_text_node x = (if is_text_node x then [] else text_leaves x)"
proof (induction x)
  case (ElementNode xs)
  have "map (\<lambda>x. if is_text_node x then [x] else getAllNodesRecursively is_text_node x) xs = map text_leaves xs"
  proof (rule map_cong [OF refl])
    fix x assume "x \<in> set xs"
    with ElementNode show "(if is_text_node x then [x] else getAllNodesRecursively is_text_node x) = text_leaves x"
      by (simp add: text_leaves_text)
  qed
  then show ?case
    by (simp only: getAllNodesRecursively.simps text_leaves.simps is_text_node_simps if_False)
qed simp_all

lemma all_text_nodes: "getAllTextNodes root = concat (map text_leaves root)"
proof -
  have "(\<lambda>x. (if is_text_node x then [x] else []) @ getAllNodesRecursively is_text_node x) = text_leaves"
  proof
    fix x show "(if is_text_node x then [x] else []) @ getAllNodesRecursively is_text_node x = text_leaves x"
      by (simp add: recursive_leaves text_leaves_text)
  qed
  then show ?thesis by (simp add: getAllTextNodes_def getAllNodes_def)
qed

definition no_variable :: "lnode \<Rightarrow> bool" where
  "no_variable x \<longleftrightarrow> (case x of TextNode f t \<Rightarrow> last_var t = None | _ \<Rightarrow> True)"

lemma no_variable_simps [simp]:
  "no_variable (TextNode f t) \<longleftrightarrow> last_var t = None" "no_variable (VariableNode v)"
  by (simp_all add: no_variable_def)

lemma text_leaves_text_node [simp]: "concat (map text_leaves (text_node s)) = text_node s"
  by (simp add: text_node_def)

lemma pieces_no_variable: "list_all no_variable (concat (map text_leaves (pieces s)))"
proof (induction "length s" arbitrary: s rule: less_induct)
  case less
  show ?case
  proof (cases "last_var s")
    case None
    then show ?thesis by (auto simp: pieces_plain text_node_def)
  next
    case (Some a)
    then obtain p c m q where l: "last_var s = Some (p, c, m, q)" by (cases a) auto
    from last_varD [OF l] have s: "s = p @ var_string c m @ q" and w: "word c" "word m" "last_var q = None"
      by auto
    have "length p < length s" by (simp add: s var_string_def)
    from less [OF this] w show ?thesis
      by (auto simp: s pieces_var pieces_plain var_of_def text_node_def)
  qed
qed

lemma settled_no_variable: "list_all no_variable (concat (map text_leaves (settled_node x)))"
proof (induction x)
  case (TextNode f s)
  then show ?case by (simp add: pieces_no_variable)
next
  case (ElementNode xs)
  then show ?case by (auto simp: list_all_iff)
qed simp_all

text \<open>
  C13: Highlighting ends and loses nothing: after as many passes as the longest text has characters
  (one pass per variable is enough) a document whose texts have no line breaks is what reading each
  text once from left to right gives; no later pass changes it, no text has a variable left, and
  the document shows the same text as before.
\<close>
theorem highlighting_settles:
  assumes "list_all node_lines doc" "\<forall>x \<in> set doc. longest x \<le> n"
  shows "(highlight ^^ n) doc = concat (map settled_node doc)
    \<and> highlight ((highlight ^^ n) doc) = (highlight ^^ n) doc
    \<and> list_all no_variable (getAllTextNodes ((highlight ^^ n) doc))
    \<and> concat (map lnode_text ((highlight ^^ n) doc)) = concat (map lnode_text doc)"
proof -
  have enough: "(highlight ^^ m) doc = concat (map settled_node doc)" if "n \<le> m" for m
    using assms that by (intro passes_concat passes_node) (auto simp: list_all_iff)
  have "highlight ((highlight ^^ n) doc) = (highlight ^^ Suc n) doc" by simp
  then have again: "highlight ((highlight ^^ n) doc) = (highlight ^^ n) doc"
    using enough [of n] enough [of "Suc n"] by simp
  have "list_all no_variable (concat (map text_leaves (concat (map settled_node doc))))"
    using settled_no_variable by (induction doc) (auto simp: list_all_iff)
  moreover have "concat (map lnode_text (concat (map settled_node doc))) = concat (map lnode_text doc)"
    using settled_text by (induction doc) auto
  ultimately show ?thesis using again enough [of n] by (simp add: all_text_nodes)
qed

theorem highlighting_settles_witness:
  "(highlight ^^ 30) [ElementNode [TextNode 1 ''a ${task:id} b ${node:name}!'', OtherNode]]
     = concat (map settled_node [ElementNode [TextNode 1 ''a ${task:id} b ${node:name}!'', OtherNode]])"
  using highlighting_settles [of "[ElementNode [TextNode 1 ''a ${task:id} b ${node:name}!'', OtherNode]]" 30]
  by (simp add: single_line_def is_break_def)

text \<open>The new text nodes of a highlighted text have no format, and a line break cuts off the other lines.\<close>

lemma format_lost:
  "highlight [TextNode 1 ''a ${task:id}''] = [TextNode 0 ''a '', var_of ''task'' ''id'']"
  "highlight [TextNode 0 [CHR ''a'', CHR 0x0A, CHR ''$'', CHR ''{'', CHR ''t'', CHR '':'', CHR ''n'', CHR ''}'']]
     = [var_of ''t'' ''n'']"
  by code_simp+

section \<open>Inserting a variable\<close>

text \<open>\<^verbatim>\<open>InsertVariableDialog.vue\<close>: the categories and the variables that are offered for a trigger.\<close>

definition offered_categories :: "string list" where
  "offered_categories = [''task'', ''spider'', ''schedule'', ''node'', ''alert'', ''metric'']"

definition variableCategoryOptions :: "js \<Rightarrow> string list" where
  "variableCategoryOptions trigger =
     filter (\<lambda>c. case getTriggerTarget trigger of
               None \<Rightarrow> True
             | Some target \<Rightarrow>
                 (case map_of triggerTargetVariableCategoryMap target of None \<Rightarrow> False | Some cs \<Rightarrow> c \<in> set cs))
       offered_categories"

definition offered_variables :: "js \<Rightarrow> string option \<Rightarrow> notification_variable list" where
  "offered_variables trigger chosen =
     filter (\<lambda>v. case chosen of
               None \<Rightarrow> False
             | Some c \<Rightarrow>
                 c \<noteq> [] \<and> starts_with c (vcategory v) \<and>
                 (case getTriggerTarget trigger of
                    None \<Rightarrow> True
                  | Some target \<Rightarrow>
                      (case map_of triggerTargetVariableCategoryMap target of
                         None \<Rightarrow> True | Some cs \<Rightarrow> vname v \<notin> set cs)))
       allVariables"

text \<open>The chosen category after the options have changed.\<close>

definition first_category :: "js \<Rightarrow> string option" where
  "first_category trigger = (case variableCategoryOptions trigger of [] \<Rightarrow> None | c # _ \<Rightarrow> Some c)"

text \<open>The command inserts a paragraph with the variable at the selection, else at the end of the root.\<close>

definition insert_variable :: "notification_variable \<Rightarrow> lnode" where
  "insert_variable v = ElementNode [var_of (vcategory v) (vname v)]"

lemmas variable_tables =
  task_variables_def task_stat_variables_def spider_variables_def spider_stat_variables_def
  schedule_variables_def node_variables_def alert_variables_def metric_variables_def allVariables_def

lemma target_cases:
  "getTriggerTarget tr = None \<or> getTriggerTarget tr = Some ''task'' \<or> getTriggerTarget tr = Some ''node''
   \<or> getTriggerTarget tr = Some ''alert''"
  by (simp add: getTriggerTarget_def split: js.splits)

lemma all_words: "list_all (\<lambda>v. word (vcategory v) \<and> word (vname v)) allVariables"
  by code_simp

lemma allVariables_valid: "v \<in> set allVariables \<Longrightarrow> isValidVariable (Str (vcategory v)) (vname v)"
proof -
  assume v: "v \<in> set allVariables"
  with all_words have "vcategory v \<noteq> []" by (auto simp: list_all_iff word_def)
  with v show ?thesis by (auto simp: isValidVariable_def list_ex_iff)
qed

lemma variable_categories:
  "set (map vcategory allVariables) =
     {''task'', ''task_stat'', ''spider'', ''spider_stat'', ''schedule'', ''node'', ''alert'', ''metric''}"
  by (simp add: variable_tables variable_def insert_commute)

text \<open>With a known target, the categories of the offered variables are those of the target.\<close>

lemma category_offered:
  "c \<in> set offered_categories \<Longrightarrow> d \<in> set (map vcategory allVariables) \<Longrightarrow> starts_with c d \<Longrightarrow>
   d = c \<or> c = ''task'' \<and> d = ''task_stat'' \<or> c = ''spider'' \<and> d = ''spider_stat''"
  unfolding variable_categories
  by (elim insertE emptyE; simp add: offered_categories_def starts_with_def; elim disjE; simp)

lemma offered_of_target:
  assumes "getTriggerTarget tr = Some target" "c \<in> set (variableCategoryOptions tr)"
    "v \<in> set (offered_variables tr (Some c))"
  shows "vcategory v \<in> set (the (map_of triggerTargetVariableCategoryMap target))"
proof -
  have "vcategory v \<in> set (map vcategory allVariables)" "starts_with c (vcategory v)" "c \<in> set offered_categories"
    using assms by (auto simp: offered_variables_def variableCategoryOptions_def split: option.splits)
  then have v: "vcategory v = c \<or> c = ''task'' \<and> vcategory v = ''task_stat''
      \<or> c = ''spider'' \<and> vcategory v = ''spider_stat''"
    by (intro category_offered)
  have "target = ''task'' \<or> target = ''node'' \<or> target = ''alert''"
    using target_cases [of tr] assms(1) by simp
  then have "\<forall>c \<in> set (variableCategoryOptions tr). c \<in> set (the (map_of triggerTargetVariableCategoryMap target))
      \<and> (c = ''task'' \<or> c = ''spider'' \<longrightarrow> target = ''task'')"
    using assms(1)
    by (elim disjE) (simp_all add: variableCategoryOptions_def triggerTargetVariableCategoryMap_def offered_categories_def)
  with assms(2) have c: "c \<in> set (the (map_of triggerTargetVariableCategoryMap target))"
    "c = ''task'' \<or> c = ''spider'' \<longrightarrow> target = ''task''"
    by blast+
  from v show ?thesis
    by (elim disjE conjE) (simp_all add: c, use c in \<open>simp_all add: triggerTargetVariableCategoryMap_def\<close>)
qed

text \<open>
  C34: Every variable that the dialog offers, for any trigger and any of its categories, is valid,
  belongs to the variables of the trigger's target, and is recognised again when the text it stands
  for is read.
\<close>
theorem offered_variables_usable:
  assumes "c \<in> set (variableCategoryOptions tr)" "v \<in> set (offered_variables tr (Some c))"
  shows "isValidVariable (Str (vcategory v)) (vname v)
    \<and> (case getTriggerTarget tr of None \<Rightarrow> True
       | Some target \<Rightarrow> vcategory v \<in> set (the (map_of triggerTargetVariableCategoryMap target)))
    \<and> concat (map lnode_text [insert_variable v]) = var_string (vcategory v) (vname v)
    \<and> highlight [TextNode f (var_string (vcategory v) (vname v))] = [var_of (vcategory v) (vname v)]"
proof -
  have v: "v \<in> set allVariables" using assms(2) by (simp add: offered_variables_def)
  then have w: "word (vcategory v)" "word (vname v)"
    using all_words by (auto simp: list_all_iff)
  have line: "single_line (var_string (vcategory v) (vname v))"
  proof -
    have "\<not> is_break ch" if "is_word ch" for ch using that by (auto simp: is_break_def is_word_def)
    then show ?thesis using w by (auto simp: var_string_def single_line_def word_def list_all_iff is_break_def)
  qed
  have p: "pieces (var_string (vcategory v) (vname v)) = [var_of (vcategory v) (vname v)]"
    using pieces_var [OF w, of "[]" "[]"] by simp
  obtain p c' n q where l: "last_var (var_string (vcategory v) (vname v)) = Some (p, c', n, q)"
  proof (cases "last_var (var_string (vcategory v) (vname v))")
    case None
    then show ?thesis using pieces_plain [OF None] p by (auto simp: text_node_def var_of_def split: if_splits)
  next
    case (Some a)
    then show ?thesis using that by (cases a) auto
  qed
  have "pieces p @ var_of c' n # pieces q = [var_of (vcategory v) (vname v)]"
    using last_varD [OF l] pieces_var [of c' n p q] p by simp
  then have "pieces p = []" "pieces q = []" "var_of c' n = var_of (vcategory v) (vname v)"
    by (auto simp: append_eq_Cons_conv)
  moreover have "p = [] \<and> q = []"
    using calculation pieces_text [of p] pieces_text [of q] by simp
  ultimately have "highlight [TextNode f (var_string (vcategory v) (vname v))] = [var_of (vcategory v) (vname v)]"
    using highlight_var [OF line l, of f] by (simp add: text_node_def)
  moreover have "case getTriggerTarget tr of None \<Rightarrow> True
       | Some target \<Rightarrow> vcategory v \<in> set (the (map_of triggerTargetVariableCategoryMap target))"
    using offered_of_target assms by (auto split: option.split)
  ultimately show ?thesis
    using allVariables_valid [OF v] w by (simp add: insert_variable_def)
qed

theorem offered_variables_usable_witness:
  "isValidVariable (Str ''alert'') ''level''"
proof -
  have "''alert'' \<in> set (variableCategoryOptions (Str ''alert''))"
    "variable ''alert'' ''level'' ''components.notification.variables.alert.level'' ''fa'' ''exclamation-triangle''
       \<in> set (offered_variables (Str ''alert'') (Some ''alert''))"
    by code_simp+
  from offered_variables_usable [OF this] show ?thesis by (simp add: variable_def)
qed

section \<open>Variables of the default templates\<close>

definition variable_key :: "lnode \<Rightarrow> (string \<times> string) list" where
  "variable_key x = (case x of VariableNode v \<Rightarrow> [(js_str (category v), var_name v)] | _ \<Rightarrow> [])"

definition template_variables :: "string \<Rightarrow> (string \<times> string) list" where
  "template_variables s = concat (map (\<lambda>l. concat (map variable_key (pieces l))) (text_lines s))"

definition invalid_variables :: "string \<Rightarrow> (string \<times> string) list" where
  "invalid_variables s = filter (\<lambda>(c, n). \<not> isValidVariable (Str c) n) (template_variables s)"

text \<open>
  The texts of the task templates only use variables that exist; those of the node templates use
  nine that do not, and the memory alert one.
\<close>

lemma template_variables_eqs:
  "template_variables en_task_finish =
     [(''spider'', ''name''), (''schedule'', ''name''), (''node'', ''name''), (''task'', ''id''), (''task'', ''status''),
      (''task'', ''error''), (''task'', ''mode''), (''task'', ''cmd''), (''task'', ''param''), (''task'', ''priority''),
      (''task'', ''created_by''), (''task'', ''created_at''), (''task_stat'', ''started_at''), (''task_stat'', ''ended_at''),
      (''task_stat'', ''wait_duration''), (''task_stat'', ''runtime_duration''), (''task_stat'', ''total_duration''),
      (''task_stat'', ''result_count'')]"
  "template_variables en_node_status_change = map (Pair ''node'')
     [''name'', ''status'', ''is_master'', ''ip'', ''mac'', ''hostname'', ''enabled'', ''active'', ''active_at'',
      ''current_runners'', ''max_runners'']"
  "template_variables en_node_offline = map (Pair ''node'')
     [''name'', ''name'', ''status'', ''is_master'', ''ip'', ''mac'', ''hostname'', ''enabled'', ''active'', ''active_at'',
      ''current_runners'', ''max_runners'']"
  "template_variables en_alert_cpu_critical =
     [(''alert'', ''name''), (''alert'', ''level''), (''alert'', ''target_value''), (''metric'', ''cpu_usage_percent''),
      (''node'', ''name'')]"
  "template_variables en_alert_memory_warning =
     [(''alert'', ''name''), (''alert'', ''level''), (''alert'', ''target_value''), (''metric'', ''used_memory_percent''),
      (''metric'', ''used_memory''), (''metric'', ''total_memory''), (''node'', ''name''), (''node'', ''is_master'')]"
  by code_simp+

lemma task_error_text: "en_task_error = en_task_finish"
  by (simp add: en_task_error_def en_task_finish_def)

definition names_of :: "string \<Rightarrow> string list" where
  "names_of c = map vname (filter (\<lambda>v. vcategory v = c) allVariables)"

lemma valid_by_name: "c \<noteq> [] \<Longrightarrow> isValidVariable (Str c) n \<longleftrightarrow> n \<in> set (names_of c)"
  by (auto simp: isValidVariable_def names_of_def list_ex_iff)

lemma names_of_eqs:
  "names_of ''task'' =
     [''id'', ''status'', ''mode'', ''cmd'', ''param'', ''priority'', ''error'', ''pid'',
      ''created_at'', ''created_by'', ''updated_at'', ''updated_by'']"
  "names_of ''task_stat'' =
     [''started_at'', ''ended_at'', ''wait_duration'', ''runtime_duration'',
      ''total_duration'', ''result_count'']"
  "names_of ''spider'' =
     [''id'', ''name'', ''description'', ''mode'', ''cmd'', ''param'', ''priority'',
      ''created_at'', ''created_by'', ''updated_at'', ''updated_by'']"
  "names_of ''schedule'' =
     [''id'', ''name'', ''description'', ''cron'', ''cmd'', ''param'', ''priority'', ''mode'',
      ''enabled'', ''created_at'', ''created_by'', ''updated_at'', ''updated_by'']"
  "names_of ''node'' =
     [''id'', ''key'', ''name'', ''description'', ''status'', ''created_at'', ''created_by'',
      ''updated_at'', ''updated_by'']"
  "names_of ''alert'' =
     [''name'', ''name'', ''enabled'', ''metric_name'', ''operator'', ''lasting_seconds'',
      ''target_value'', ''level'', ''created_at'', ''created_by'', ''updated_at'',
      ''updated_by'']"
  "names_of ''metric'' =
     [''cpu_usage_percent'', ''total_memory'', ''available_memory'', ''used_memory'',
      ''used_memory_percent'', ''total_disk'', ''available_disk'', ''used_disk'',
      ''used_disk_percent'', ''disk_read_bytes_rate'', ''disk_write_bytes_rate'',
      ''network_bytes_sent_rate'', ''network_bytes_recv_rate'']"
  by code_simp+

lemma invalid_template_variables:
  "map (\<lambda>(k, s). (k, map snd (invalid_variables s))) en_templates =
     [(''task_finish'', []), (''task_error'', []),
      (''node_status_change'', [''is_master'', ''ip'', ''mac'', ''hostname'', ''enabled'', ''active'', ''active_at'',
         ''current_runners'', ''max_runners'']),
      (''node_offline'', [''is_master'', ''ip'', ''mac'', ''hostname'', ''enabled'', ''active'', ''active_at'',
         ''current_runners'', ''max_runners'']),
      (''alert_cpu_critical'', []), (''alert_memory_warning'', [''is_master''])]"
  unfolding en_templates_def invalid_variables_def task_error_text list.map prod.case template_variables_eqs
  by (simp add: valid_by_name names_of_eqs)

text \<open>The table has the name of an alert twice, once where its description is meant.\<close>

lemma alert_description_missing:
  "\<not> isValidVariable (Str ''alert'') ''description''"
  "filter (\<lambda>v. vcategory v = ''alert'' \<and> vlabel v = ''components.notification.variables.alert.description'') allVariables
     = [variable ''alert'' ''name'' ''components.notification.variables.alert.description'' ''fa'' ''comment'']"
  by code_simp+

section \<open>Selection\<close>

text \<open>
  The variables of the editor under their keys, the module variable \<open>activeVariableNodeKey\<close>, and the
  counter of the keys. \<open>RemoveNode\<close> is any edit that removes a variable.
\<close>

record variable_editor =
  var_nodes :: "(nat \<times> variable_node) list"
  activeVariableNodeKey :: "nat option"
  next_key :: nat

definition empty_editor :: variable_editor where
  "empty_editor = \<lparr>var_nodes = [], activeVariableNodeKey = None, next_key = 0\<rparr>"

datatype variable_command =
    SelectionChange bool
  | InsertVariable js string
  | SelectVariable nat
  | FormatText string
  | RemoveNode nat

definition map_nodes :: "(nat \<Rightarrow> variable_node \<Rightarrow> variable_node) \<Rightarrow> variable_editor \<Rightarrow> variable_editor" where
  "map_nodes f s = s\<lparr>var_nodes := map (\<lambda>(k, v). (k, f k v)) (var_nodes s)\<rparr>"

fun on_command :: "variable_command \<Rightarrow> variable_editor \<Rightarrow> variable_editor" where
  "on_command (SelectionChange is_range) s =
     (if is_range then (map_nodes (\<lambda>k. setSelected False) s)\<lparr>activeVariableNodeKey := None\<rparr> else s)"
| "on_command (InsertVariable c n) s =
     s\<lparr>var_nodes := var_nodes s @ [(next_key s, new_variable_node c n [])], next_key := Suc (next_key s)\<rparr>"
| "on_command (SelectVariable k) s =
     (if map_of (var_nodes s) k = None then s
      else map_nodes (\<lambda>key. setSelected (key = k)) (s\<lparr>activeVariableNodeKey := Some k\<rparr>))"
| "on_command (FormatText formatType) s =
     (case activeVariableNodeKey s of
        None \<Rightarrow> s
      | Some k \<Rightarrow> map_nodes (\<lambda>key v. if key = k then toggleFormat formatType v else v) s)"
| "on_command (RemoveNode k) s = s\<lparr>var_nodes := filter (\<lambda>p. fst p \<noteq> k) (var_nodes s)\<rparr>"

inductive editor_reachable :: "variable_editor \<Rightarrow> bool" where
  start: "editor_reachable empty_editor"
| step: "editor_reachable s \<Longrightarrow> editor_reachable (on_command c s)"

definition editor_ok :: "variable_editor \<Rightarrow> bool" where
  "editor_ok s \<longleftrightarrow>
     distinct (map fst (var_nodes s))
     \<and> list_all (\<lambda>(k, v). k < next_key s \<and> (selected v \<longleftrightarrow> activeVariableNodeKey s = Some k)) (var_nodes s)
     \<and> (case activeVariableNodeKey s of None \<Rightarrow> True | Some k \<Rightarrow> k < next_key s)"

lemma fst_map_nodes [simp]: "map fst (var_nodes (map_nodes f s)) = map fst (var_nodes s)"
  by (simp add: map_nodes_def case_prod_beta comp_def)

lemma map_nodes_simps [simp]:
  "activeVariableNodeKey (map_nodes f s) = activeVariableNodeKey s" "next_key (map_nodes f s) = next_key s"
  by (simp_all add: map_nodes_def)

lemma on_command_ok: "editor_ok s \<Longrightarrow> editor_ok (on_command c s)"
proof (induction c s rule: on_command.induct)
  case (5 k s)
  then show ?case
    by (auto simp: editor_ok_def list_all_iff distinct_map inj_on_def split: option.splits)
next
  case (3 k s)
  then show ?case
    by (auto simp: editor_ok_def list_all_iff map_nodes_def case_prod_beta comp_def
        dest: map_of_SomeD split: option.splits)
qed (auto simp: editor_ok_def list_all_iff map_nodes_def case_prod_beta comp_def new_variable_node_def split: option.splits)

lemma editor_reachable_ok: "editor_reachable s \<Longrightarrow> editor_ok s"
  by (induction rule: editor_reachable.induct)
    (simp_all add: on_command_ok, simp add: editor_ok_def empty_editor_def)

lemma map_of_map_values: "map_of (map (\<lambda>(k, v). (k, f k v)) xs) k = map_option (f k) (map_of xs k)"
  by (induction xs) auto

lemma map_of_map_nodes: "map_of (var_nodes (map_nodes f s)) k = map_option (f k) (map_of (var_nodes s) k)"
  by (simp add: map_nodes_def map_of_map_values)

lemma map_nodes_twice: "map_nodes f (map_nodes g s) = map_nodes (\<lambda>k v. f k (g k v)) s"
  by (simp add: map_nodes_def case_prod_beta comp_def)

lemma map_nodes_id: "(\<And>k v. f k v = v) \<Longrightarrow> map_nodes f s = s"
  by (simp add: map_nodes_def)

lemma selected_is_active:
  assumes "editor_ok s" "(k, v) \<in> set (var_nodes s)"
  shows "selected v \<longleftrightarrow> activeVariableNodeKey s = Some k"
  using assms by (auto simp: editor_ok_def list_all_iff)

text \<open>
  Whatever is inserted, removed, clicked, selected and formatted, at most one variable of the
  editor is selected; a format command changes exactly the selected one, and repeating it restores
  the editor.
\<close>
theorem format_changes_selected:
  assumes "editor_reachable s"
  shows "(\<forall>p \<in> set (var_nodes s). \<forall>q \<in> set (var_nodes s). selected (snd p) \<and> selected (snd q) \<longrightarrow> p = q)
    \<and> map_of (var_nodes (on_command (FormatText f) s)) =
        map_option (\<lambda>v. if selected v then toggleFormat f v else v) \<circ> map_of (var_nodes s)
    \<and> on_command (FormatText f) (on_command (FormatText f) s) = s"
proof -
  have ok: "editor_ok s" using assms by (rule editor_reachable_ok)
  have "p = q" if "p \<in> set (var_nodes s)" "q \<in> set (var_nodes s)" "selected (snd p)" "selected (snd q)" for p q
  proof -
    have "fst p = fst q"
      using that selected_is_active [OF ok, of "fst p" "snd p"] selected_is_active [OF ok, of "fst q" "snd q"] by simp
    moreover have "distinct (map fst (var_nodes s))" using ok by (simp add: editor_ok_def)
    ultimately show ?thesis using that by (auto simp: distinct_map inj_on_def)
  qed
  moreover have "map_of (var_nodes (on_command (FormatText f) s)) k =
      map_option (\<lambda>v. if selected v then toggleFormat f v else v) (map_of (var_nodes s) k)" for k
    using selected_is_active [OF ok, of k]
    by (cases "map_of (var_nodes s) k") (auto simp: map_of_map_nodes dest: map_of_SomeD split: option.split)
  moreover have "on_command (FormatText f) (on_command (FormatText f) s) = s"
    by (auto simp: map_nodes_twice intro!: map_nodes_id split: option.split)
  ultimately show ?thesis by (auto simp: fun_eq_iff)
qed

theorem format_changes_selected_witness:
  "on_command (FormatText ''bold'') (on_command (FormatText ''bold'')
     (on_command (SelectVariable 0) (on_command (InsertVariable (Str ''task'') ''id'') empty_editor)))
   = on_command (SelectVariable 0) (on_command (InsertVariable (Str ''task'') ''id'') empty_editor)"
proof -
  have "editor_reachable (on_command (SelectVariable 0) (on_command (InsertVariable (Str ''task'') ''id'') empty_editor))"
    by (intro editor_reachable.intros)
  from format_changes_selected [OF this, of "''bold''"] show ?thesis by simp
qed

end
