(* ===== verification/UI_Notify_Form.thy ===== *)
theory UI_Notify_Form
  imports UI_Notification "HOL-Library.Multiset"
begin

text \<open>
  The forms of notifications: \<^verbatim>\<open>components/core/notification/setting/NotificationSettingForm.vue\<close>,
  \<^verbatim>\<open>channel/NotificationChannelForm.vue\<close> with \<^verbatim>\<open>channel/useNotificationChannel.ts\<close>, and the channel
  selection of \<^verbatim>\<open>views/notification/setting/detail/tabs/NotificationSettingDetailTabChannels.vue\<close>.

  The form of a setting works on three stores: the setting being edited, the channels and the
  alerts, which it may create in dialogs of its own. Where a handler awaits an answer, the rest of
  it is an element of \<open>pending\<close>, and any events may happen before the answer arrives.
\<close>

section \<open>The form of a setting\<close>

datatype awaiting =
    AwaitChannels
  | AwaitNewChannel
  | AwaitChannelsWith js
  | AwaitNewAlert

record notify_form =
  setting :: base_state
  channels :: listing_state
  alerts :: listing_state
  createChannelVisible :: bool
  createAlertVisible :: bool
  pending :: "awaiting list"

definition set_setting_form :: "jobj \<Rightarrow> notify_form \<Rightarrow> notify_form" where
  "set_setting_form ps w = w\<lparr>setting := mutate (SetForm (Obj ps)) (setting w)\<rparr>"

text \<open>\<open>onCreateAlertClick\<close>: an alert of the same name, else a new one from the template or the default.\<close>

definition alert_template :: "(string \<Rightarrow> string) \<Rightarrow> js \<Rightarrow> jobj option" where
  "alert_template t template_key =
     (if truthy template_key then
        (case find (\<lambda>a. oget a ''key'' = template_key) alertTemplates of
           None \<Rightarrow> None
         | Some a \<Rightarrow>
             Some (amerge a
               [(''name'', Str (t (js_str (oget a ''name'')))),
                (''description'', Str (t (js_str (oget a ''description'')))),
                (''enabled'', Bool True), (''template_key'', template_key)]))
      else None)"

definition find_alert :: "js \<Rightarrow> js \<Rightarrow> js option" where
  "find_alert nm alerts_listed =
     (case alerts_listed of Arr xs \<Rightarrow> find (\<lambda>a. js_get_opt a ''name'' = nm) xs | _ \<Rightarrow> None)"

definition onCreateAlertClick :: "(string \<Rightarrow> string) \<Rightarrow> notify_form \<Rightarrow> notify_form" where
  "onCreateAlertClick t w =
     (let f = form (setting w) in
      case find_alert (js_get_opt f ''name'') (listed (alerts w)) of
        Some a \<Rightarrow> set_setting_form (aset ''alert_id'' (js_get_opt a ''_id'') (spread_js f)) w
      | None \<Rightarrow>
          (let alertForm =
             (case alert_template t (js_get_opt f ''template_key'') of
                Some a \<Rightarrow> Obj a
              | None \<Rightarrow> newFormFn (listing_store (alerts w)) ()) in
           w\<lparr>alerts := mutate_listing (ListingBase (SetForm (Obj (spread_js alertForm)))) (alerts w),
             createAlertVisible := True\<rparr>))"

definition onTemplateChange :: "(string \<Rightarrow> string) \<Rightarrow> notify_form \<Rightarrow> notify_form" where
  "onTemplateChange t w =
     (let f = form (setting w) in
      case find (\<lambda>tm. oget tm ''key'' = js_get_opt f ''template_key'') allTemplates of
        None \<Rightarrow> w
      | Some tm \<Rightarrow>
          (let w' = set_setting_form
             (amerge (amerge (spread_js f) tm)
                [(''name'', Str (t (js_str (oget tm ''name'')))),
                 (''description'', Str (t (js_str (oget tm ''description'')))),
                 (''title'', Str (t (js_str (oget tm ''title'')))),
                 (''template_markdown'', oget tm ''template_markdown''),
                 (''template_rich_text'', oget tm ''template_rich_text'')]) w in
           if starts_with ''alert'' (js_str (oget tm ''key'')) then onCreateAlertClick t w' else w'))"

text \<open>\<open>updateChannelIds\<close>, run when the dialog changes and before the form is mounted.\<close>

definition updateChannelIds :: "notify_form \<Rightarrow> notify_form" where
  "updateChannelIds w =
     (if activeDialogKey (setting w) = Some ''create'' then w\<lparr>pending := pending w @ [AwaitChannels]\<rparr>
      else if activeDialogKey (setting w) = None \<or> activeDialogKey (setting w) = Some []
      then w\<lparr>channels := mutate_listing ResetAllChannels (channels w)\<rparr>
      else w)"

definition listed_ids :: "listing_state \<Rightarrow> js list" where
  "listed_ids s = (case listed s of Arr cs \<Rightarrow> map (\<lambda>c. js_get_opt c ''_id'') cs | _ \<Rightarrow> [])"

definition channel_ids_of :: "js \<Rightarrow> js list" where
  "channel_ids_of f = (case js_or (js_get_opt f ''channel_ids'') (Arr []) of Arr xs \<Rightarrow> xs | _ \<Rightarrow> [])"

text \<open>The answers; a failed request leaves the handler at the \<open>await\<close> with an exception.\<close>

definition new_record :: "js \<Rightarrow> js" where
  "new_record res = js_get_opt res ''data''"

definition resume :: "awaiting \<Rightarrow> js \<Rightarrow> notify_form \<Rightarrow> notify_form" where
  "resume a res w =
     (case a of
        AwaitChannels \<Rightarrow>
          (case getAllChannels_done res (channels w) of
             Inl _ \<Rightarrow> w
           | Inr c \<Rightarrow>
               set_setting_form (aset ''channel_ids'' (Arr (listed_ids c)) (spread_js (form (setting w))))
                 (w\<lparr>channels := c\<rparr>))
      | AwaitNewChannel \<Rightarrow> w\<lparr>pending := pending w @ [AwaitChannelsWith (new_record res)]\<rparr>
      | AwaitChannelsWith newChannel \<Rightarrow>
          (case getAllChannels_done res (channels w) of
             Inl _ \<Rightarrow> w
           | Inr c \<Rightarrow>
               (case js_get newChannel ''_id'' of
                  Inl _ \<Rightarrow> w\<lparr>channels := c\<rparr>
                | Inr i \<Rightarrow>
                    (set_setting_form
                       (aset ''channel_ids'' (Arr (channel_ids_of (form (setting w)) @ [i])) (spread_js (form (setting w))))
                       (w\<lparr>channels := c\<rparr>))\<lparr>createChannelVisible := False\<rparr>))
      | AwaitNewAlert \<Rightarrow>
          (case js_get (new_record res) ''_id'' of
             Inl _ \<Rightarrow> w
           | Inr i \<Rightarrow>
               (set_setting_form (aset ''alert_id'' i (spread_js (form (setting w)))) w)\<lparr>createAlertVisible := False\<rparr>))"

definition onAnswer_form :: "nat \<Rightarrow> thrown + js \<Rightarrow> notify_form \<Rightarrow> notify_form" where
  "onAnswer_form i r w =
     (if i < length (pending w) then
        (let w' = w\<lparr>pending := take i (pending w) @ drop (Suc i) (pending w)\<rparr> in
         case r of Inl _ \<Rightarrow> w' | Inr res \<Rightarrow> resume (pending w ! i) res w')
      else w)"

text \<open>The requests of the pending handlers.\<close>

fun awaited_request :: "awaiting \<Rightarrow> notify_form \<Rightarrow> service_request" where
  "awaited_request AwaitChannels w = getAllChannels_request"
| "awaited_request AwaitNewChannel w =
     useService ''/notifications/channels'' (Create (form (listing_store (channels w))))"
| "awaited_request (AwaitChannelsWith _) w = getAllChannels_request"
| "awaited_request AwaitNewAlert w =
     useService ''/notifications/alerts'' (Create (form (listing_store (alerts w))))"

text \<open>The fields are enabled and required while creating only for a setting without a template.\<close>

definition formDisabled :: "notify_form \<Rightarrow> bool" where
  "formDisabled w \<longleftrightarrow>
     activeDialogKey (setting w) = Some ''create'' \<and> \<not> truthy (js_get_opt (form (setting w)) ''use_custom_setting'')"

definition formRequired :: "notify_form \<Rightarrow> bool" where
  "formRequired w \<longleftrightarrow>
     (activeDialogKey (setting w) = Some ''create'' \<longrightarrow> truthy (js_get_opt (form (setting w)) ''use_custom_setting''))"

text \<open>What may happen: edits by the user, the dialogs, confirmations of valid forms, and answers.\<close>

datatype notify_event =
    EditSetting js
  | EditChannel js
  | EditAlert js
  | ChangeDialog "string option"
  | ChooseTemplate
  | ClickCreateAlert
  | OpenChannelDialog
  | CloseDialogs
  | ConfirmChannel
  | ConfirmAlert
  | FormAnswer nat "thrown + js"
  | Unmount

fun notify_step :: "(string \<Rightarrow> string) \<Rightarrow> notify_event \<Rightarrow> notify_form \<Rightarrow> notify_form" where
  "notify_step t (EditSetting v) w = w\<lparr>setting := mutate (SetForm v) (setting w)\<rparr>"
| "notify_step t (EditChannel v) w = w\<lparr>channels := mutate_listing (ListingBase (SetForm v)) (channels w)\<rparr>"
| "notify_step t (EditAlert v) w = w\<lparr>alerts := mutate_listing (ListingBase (SetForm v)) (alerts w)\<rparr>"
| "notify_step t (ChangeDialog k) w =
     updateChannelIds (w\<lparr>setting := (case k of None \<Rightarrow> mutate HideDialog (setting w) | Some d \<Rightarrow> mutate (ShowDialog d) (setting w))\<rparr>)"
| "notify_step t ChooseTemplate w = onTemplateChange t w"
| "notify_step t ClickCreateAlert w = onCreateAlertClick t w"
| "notify_step t OpenChannelDialog w = w\<lparr>createChannelVisible := True\<rparr>"
| "notify_step t CloseDialogs w = w\<lparr>createChannelVisible := False, createAlertVisible := False\<rparr>"
| "notify_step t ConfirmChannel w = w\<lparr>pending := pending w @ [AwaitNewChannel]\<rparr>"
| "notify_step t ConfirmAlert w = w\<lparr>pending := pending w @ [AwaitNewAlert]\<rparr>"
| "notify_step t (FormAnswer i r) w = onAnswer_form i r w"
| "notify_step t Unmount w = w\<lparr>channels := mutate_listing ResetAllChannels (channels w)\<rparr>"

definition notify_init :: "base_state \<Rightarrow> listing_state \<Rightarrow> listing_state \<Rightarrow> notify_form" where
  "notify_init s c a =
     updateChannelIds \<lparr>setting = s, channels = c, alerts = a, createChannelVisible = False,
       createAlertVisible = False, pending = []\<rparr>"

section \<open>Choosing a template\<close>

lemma find_template: "tm \<in> set allTemplates \<Longrightarrow> find (\<lambda>x. oget x ''key'' = oget tm ''key'') allTemplates = Some tm"
proof -
  have "list_all (\<lambda>tm. find (\<lambda>x. oget x ''key'' = oget tm ''key'') allTemplates = Some tm) allTemplates"
    by code_simp
  then show "tm \<in> set allTemplates \<Longrightarrow> ?thesis" by (simp add: list_all_iff)
qed

lemma oget_amerge_list:
  "distinct (map fst qs) \<Longrightarrow> oget (amerge ps qs) k = (if map_of qs k = None then oget ps k else oget qs k)"
  by (cases "map_of qs k") (simp_all add: oget_def map_of_amerge map_add_def)

definition template_keys :: "string list" where
  "template_keys = [''key'', ''name'', ''description'', ''trigger'', ''template_mode'', ''title'', ''template_markdown'']"

lemma template_fields:
  "tm \<in> set allTemplates \<Longrightarrow>
     map fst tm = template_keys \<and>
     (starts_with ''alert'' (js_str (oget tm ''key'')) \<longleftrightarrow> getTriggerTarget (oget tm ''trigger'') = Some ''alert'') \<and>
     oget tm ''template_rich_text'' = Undef \<and> truthy (oget tm ''key'')"
proof -
  have "list_all (\<lambda>tm. map fst tm = template_keys \<and>
      (starts_with ''alert'' (js_str (oget tm ''key'')) \<longleftrightarrow> getTriggerTarget (oget tm ''trigger'') = Some ''alert'') \<and>
      oget tm ''template_rich_text'' = Undef \<and> truthy (oget tm ''key'')) allTemplates"
    by code_simp
  then show "tm \<in> set allTemplates \<Longrightarrow> ?thesis" by (simp add: list_all_iff)
qed

text \<open>An alert template has the template of its name as its own, with the same text as name.\<close>

lemma alert_templates:
  assumes "tm \<in> set allTemplates" "getTriggerTarget (oget tm ''trigger'') = Some ''alert''"
  shows "\<exists>a. alert_template t (oget tm ''key'') = Some a \<and> oget a ''name'' = Str (t (js_str (oget tm ''name'')))
       \<and> oget a ''template_key'' = oget tm ''key'' \<and> oget a ''enabled'' = Bool True"
proof -
  have "list_all (\<lambda>tm. getTriggerTarget (oget tm ''trigger'') = Some ''alert'' \<longrightarrow>
      (case find (\<lambda>a. oget a ''key'' = oget tm ''key'') alertTemplates of
         None \<Rightarrow> False | Some a \<Rightarrow> oget a ''name'' = oget tm ''name'')) allTemplates"
    by code_simp
  with assms obtain a where "find (\<lambda>a. oget a ''key'' = oget tm ''key'') alertTemplates = Some a"
    "oget a ''name'' = oget tm ''name''"
    by (auto simp: list_all_iff split: option.splits)
  with template_fields [OF assms(1)] show ?thesis
    by (simp add: alert_template_def oget_amerge_list)
qed

lemma form_set_setting [simp]: "form (setting (set_setting_form ps w)) = Obj ps"
  by (simp add: set_setting_form_def)

lemma set_setting_form_others [simp]:
  "channels (set_setting_form ps w) = channels w" "alerts (set_setting_form ps w) = alerts w"
  "createAlertVisible (set_setting_form ps w) = createAlertVisible w" "pending (set_setting_form ps w) = pending w"
  "createChannelVisible (set_setting_form ps w) = createChannelVisible w"
  by (simp_all add: set_setting_form_def)

text \<open>The fields of the form after the choice of a template.\<close>

definition filled_fields :: "(string \<Rightarrow> string) \<Rightarrow> jobj \<Rightarrow> jobj \<Rightarrow> jobj" where
  "filled_fields t tm ps = amerge (amerge ps tm)
      [(''name'', Str (t (js_str (oget tm ''name'')))), (''description'', Str (t (js_str (oget tm ''description'')))),
       (''title'', Str (t (js_str (oget tm ''title'')))), (''template_markdown'', oget tm ''template_markdown''),
       (''template_rich_text'', oget tm ''template_rich_text'')]"

lemma filled_field:
  assumes "tm \<in> set allTemplates"
  shows "oget (filled_fields t tm ps) k =
     (if k = ''name'' \<or> k = ''description'' \<or> k = ''title'' then Str (t (js_str (oget tm k)))
      else if k = ''template_rich_text'' then Undef
      else if k \<in> set template_keys then oget tm k else oget ps k)"
proof -
  note tf = template_fields [OF assms]
  have dist: "distinct (map fst tm)" using tf by (simp add: template_keys_def)
  have none: "map_of tm k = None \<longleftrightarrow> k \<notin> set template_keys" for k
    using tf map_of_eq_None_iff [of tm k] by (metis list.set_map)
  show ?thesis
    using tf by (simp add: filled_fields_def oget_amerge_list [OF dist] none) (auto simp: template_keys_def)
qed

lemma template_change:
  assumes "tm \<in> set allTemplates" "form (setting w) = Obj ps" "oget ps ''template_key'' = oget tm ''key''"
  shows "onTemplateChange t w =
     (if getTriggerTarget (oget tm ''trigger'') = Some ''alert''
      then onCreateAlertClick t (set_setting_form (filled_fields t tm ps) w) else set_setting_form (filled_fields t tm ps) w)"
proof -
  have "onTemplateChange t w =
     (if starts_with ''alert'' (js_str (oget tm ''key''))
      then onCreateAlertClick t (set_setting_form (filled_fields t tm ps) w) else set_setting_form (filled_fields t tm ps) w)"
    unfolding onTemplateChange_def Let_def assms(2) js_get_opt_Obj spread_js.simps assms(3)
      find_template [OF assms(1)] option.case filled_fields_def by (rule refl)
  then show ?thesis using template_fields [OF assms(1)] by simp
qed

text \<open>
  Choosing a template fills the form with its trigger, mode and translated texts and keeps every
  other field; an alert template moreover either links the listed alert of that name or opens the
  dialog for a new alert that has the same name and is enabled.
\<close>
theorem template_fills_form:
  fixes t :: "string \<Rightarrow> string"
  assumes "tm \<in> set allTemplates" "form (setting w) = Obj ps" "oget ps ''template_key'' = oget tm ''key''"
  defines "w' \<equiv> onTemplateChange t w"
  defines "f \<equiv> form (setting w')"
  shows "js_get_opt f ''trigger'' = oget tm ''trigger'' \<and> js_get_opt f ''template_mode'' = oget tm ''template_mode''
    \<and> js_get_opt f ''name'' = Str (t (js_str (oget tm ''name'')))
    \<and> js_get_opt f ''title'' = Str (t (js_str (oget tm ''title'')))
    \<and> js_get_opt f ''description'' = Str (t (js_str (oget tm ''description'')))
    \<and> js_get_opt f ''template_markdown'' = oget tm ''template_markdown''
    \<and> (\<forall>k. k \<notin> set template_keys \<union> {''template_rich_text'', ''alert_id''} \<longrightarrow> js_get_opt f k = oget ps k)
    \<and> (getTriggerTarget (oget tm ''trigger'') = Some ''alert'' \<longrightarrow>
        (case find_alert (js_get_opt f ''name'') (listed (alerts w)) of
           Some a \<Rightarrow> js_get_opt f ''alert_id'' = js_get_opt a ''_id'' \<and> createAlertVisible w' = createAlertVisible w
         | None \<Rightarrow> createAlertVisible w'
             \<and> js_get_opt (form (listing_store (alerts w'))) ''name'' = js_get_opt f ''name''
             \<and> js_get_opt (form (listing_store (alerts w'))) ''enabled'' = Bool True))
    \<and> (getTriggerTarget (oget tm ''trigger'') \<noteq> Some ''alert'' \<longrightarrow>
        alerts w' = alerts w \<and> createAlertVisible w' = createAlertVisible w \<and> js_get_opt f ''alert_id'' = oget ps ''alert_id'')"
proof -
  define qs where "qs = filled_fields t tm ps"
  note q = filled_field [OF assms(1), of t ps, folded qs_def]
  have vals: "oget qs ''trigger'' = oget tm ''trigger''" "oget qs ''template_mode'' = oget tm ''template_mode''"
    "oget qs ''template_markdown'' = oget tm ''template_markdown''" "oget qs ''alert_id'' = oget ps ''alert_id''"
    "oget qs ''name'' = Str (t (js_str (oget tm ''name'')))" "oget qs ''title'' = Str (t (js_str (oget tm ''title'')))"
    "oget qs ''description'' = Str (t (js_str (oget tm ''description'')))"
    "oget qs ''template_key'' = oget tm ''key''"
    using assms(3) by (simp_all add: q template_keys_def)
  have rest: "\<forall>k. k \<notin> set template_keys \<union> {''template_rich_text'', ''alert_id''} \<longrightarrow> oget qs k = oget ps k"
    by (auto simp: q) (simp_all add: template_keys_def)
  let ?w = "set_setting_form qs w"
  note w' = w'_def [unfolded template_change [OF assms(1-3)], folded qs_def]
  show ?thesis
  proof (cases "getTriggerTarget (oget tm ''trigger'') = Some ''alert''")
    case False
    then show ?thesis using vals rest by (simp add: w' f_def)
  next
    case True
    from alert_templates [OF assms(1) True, of t] obtain a where a: "alert_template t (oget tm ''key'') = Some a"
      "oget a ''name'' = Str (t (js_str (oget tm ''name'')))" "oget a ''enabled'' = Bool True" by blast
    show ?thesis
    proof (cases "find_alert (oget qs ''name'') (listed (alerts w))")
      case None
      then have "w' = ?w\<lparr>alerts := mutate_listing (ListingBase (SetForm (Obj a))) (alerts w), createAlertVisible := True\<rparr>"
        using True vals a by (simp add: w' onCreateAlertClick_def)
      with None True a vals rest show ?thesis by (simp add: f_def)
    next
      case (Some x)
      then have "w' = set_setting_form (aset ''alert_id'' (js_get_opt x ''_id'') qs) ?w"
        using True by (simp add: w' onCreateAlertClick_def)
      with Some True vals rest show ?thesis by (simp add: f_def)
    qed
  qed
qed

text \<open>
  No event of the form loads the alerts, and no other code does, so an alert that exists is never
  found: choosing an alert template always opens the dialog for another one.
\<close>

lemma alerts_kept: "listed (alerts (notify_step t e w)) = listed (alerts w)"
proof (cases e)
  case (FormAnswer i r)
  then show ?thesis
    by (simp add: onAnswer_form_def resume_def Let_def split: sum.split awaiting.split)
qed (auto simp: updateChannelIds_def onTemplateChange_def onCreateAlertClick_def Let_def split: option.split)

inductive notify_reachable :: "(string \<Rightarrow> string) \<Rightarrow> notify_form \<Rightarrow> bool" for t where
  opened: "listed a = Arr [] \<Longrightarrow> notify_reachable t (notify_init s c a)"
| event: "notify_reachable t w \<Longrightarrow> notify_reachable t (notify_step t e w)"

lemma alerts_never_listed: "notify_reachable t w \<Longrightarrow> listed (alerts w) = Arr []"
  by (induction rule: notify_reachable.induct)
     (simp_all add: alerts_kept, simp add: notify_init_def updateChannelIds_def)

definition example_form :: notify_form where
  "example_form = notify_init (example_state\<lparr>form := Obj [(''template_key'', Str ''task_finish''), (''enabled'', Bool True)]\<rparr>)
     \<lparr>listing_store = example_state, listed = Arr []\<rparr> \<lparr>listing_store = example_state, listed = Arr []\<rparr>"

theorem template_fills_form_witness:
  "js_get_opt (form (setting (onTemplateChange (\<lambda>k. k) example_form))) ''trigger'' = Str ''task_finish''
   \<and> js_get_opt (form (setting (onTemplateChange (\<lambda>k. k) example_form))) ''enabled'' = Bool True"
proof -
  have f: "form (setting example_form) = Obj [(''template_key'', Str ''task_finish''), (''enabled'', Bool True)]"
    by (simp add: example_form_def notify_init_def updateChannelIds_def example_state_def)
  have hd: "hd allTemplates \<in> set allTemplates" "oget (hd allTemplates) ''key'' = Str ''task_finish''"
    "oget (hd allTemplates) ''trigger'' = Str ''task_finish''"
    by (simp_all add: allTemplates_def)
  have "oget [(''template_key'', Str ''task_finish''), (''enabled'', Bool True)] ''template_key'' = oget (hd allTemplates) ''key''"
    by (simp add: hd(2))
  from template_fills_form [OF hd(1) f this, of "\<lambda>k. k"] show ?thesis
    by (simp add: hd(3) template_keys_def)
qed

section \<open>Providers of channels\<close>

record channel_provider =
  ptype :: string
  pname :: string
  picon :: "string list"
  smtpServer :: js
  smtpPort :: js
  docUrl :: "string \<Rightarrow> string"
  plocale :: string
  pdisabled :: bool

definition mail_provider :: "string \<Rightarrow> string list \<Rightarrow> string \<Rightarrow> int \<Rightarrow> (string \<Rightarrow> string) \<Rightarrow> string \<Rightarrow> bool \<Rightarrow> channel_provider" where
  "mail_provider n i server port url loc off =
     \<lparr>ptype = ''mail'', pname = n, picon = i, smtpServer = Str server, smtpPort = Num port, docUrl = url,
      plocale = loc, pdisabled = off\<rparr>"

definition im_provider :: "string \<Rightarrow> string list \<Rightarrow> (string \<Rightarrow> string) \<Rightarrow> string \<Rightarrow> channel_provider" where
  "im_provider n i url loc =
     \<lparr>ptype = ''im'', pname = n, picon = i, smtpServer = Undef, smtpPort = Undef, docUrl = url, plocale = loc,
      pdisabled = False\<rparr>"

text \<open>An address that depends on the language, or not.\<close>

definition by_locale :: "string \<Rightarrow> string \<Rightarrow> string \<Rightarrow> string" where
  "by_locale zh other l = (if l = ''zh'' then zh else other)"

definition mail_providers :: "channel_provider list" where
  "mail_providers =
     [mail_provider ''gmail'' [''svg'', ''gmail''] ''smtp.gmail.com'' 587
        (\<lambda>l. ''https://support.google.com/a/answer/2956491?hl='' @ l) ''en'' True,
      mail_provider ''outlook'' [''svg'', ''outlook''] ''smtp-mail.outlook.com'' 587
        (by_locale ''https://support.microsoft.com/zh-cn/office/outlook-com-%E7%9A%84-pop-imap-%E5%92%8C-smtp-%E8%AE%BE%E7%BD%AE-d088b986-291d-42b8-9564-9c414e2aa040''
           ''https://support.microsoft.com/en-us/office/pop-imap-and-smtp-settings-for-outlook-com-d088b986-291d-42b8-9564-9c414e2aa040'')
        ''en'' False,
      mail_provider ''qq'' [''fab'', ''qq''] ''smtp.qq.com'' 587
        (\<lambda>l. ''https://cloud.tencent.com/developer/article/2177098'') ''zh'' False,
      mail_provider ''163'' [''svg'', ''netease''] ''smtp.163.com'' 465
        (\<lambda>l. ''https://www.bilibili.com/read/cv32056718/'') ''zh'' False,
      mail_provider ''icloud'' [''fab'', ''apple''] ''smtp.mail.me.com'' 587
        (by_locale ''https://support.apple.com/zh-cn/102525'' ''https://support.apple.com/en-us/102525'') ''en'' False,
      mail_provider ''yahoo'' [''fab'', ''yahoo''] ''smtp.mail.yahoo.com'' 587
        (\<lambda>l. ''https://smartreach.io/blog/masterclass/smtp/yahoo-smtp-settings/'') ''en'' False,
      mail_provider ''zoho'' [''svg'', ''zoho''] ''smtp.zoho.com'' 587
        (\<lambda>l. ''https://www.zoho.com/mail/help/zoho-smtp.html'') ''en'' False,
      mail_provider ''aol'' [''svg'', ''aol''] ''smtp.aol.com'' 587
        (\<lambda>l. ''https://smartreach.io/blog/masterclass/smtp/aol-mail-settings/'') ''en'' False]"

definition im_providers :: "channel_provider list" where
  "im_providers =
     [im_provider ''dingtalk'' [''svg'', ''dingtalk''] (\<lambda>l. ''https://open.dingtalk.com/document/orgapp/custom-robot-access'') ''zh'',
      im_provider ''lark'' [''svg'', ''lark'']
        (by_locale ''https://open.feishu.cn/document/client-docs/bot-v3/add-custom-bot''
           ''https://open.larksuite.com/document/client-docs/bot-v3/add-custom-bot'') ''zh'',
      im_provider ''wechat_work'' [''svg'', ''wechat_work''] (\<lambda>l. ''https://developer.work.weixin.qq.com/document/path/91770'') ''zh'',
      im_provider ''slack'' [''svg'', ''slack''] (\<lambda>l. ''https://api.slack.com/messaging/webhooks'') ''en'',
      im_provider ''ms_teams'' [''svg'', ''ms_teams'']
        (\<lambda>l. ''https://learn.microsoft.com/'' @ (if l = ''zh'' then ''zh-cn'' else ''en-us'') @
           ''/microsoftteams/platform/webhooks-and-connectors/how-to/add-incoming-webhook'') ''en'',
      im_provider ''telegram'' [''fab'', ''telegram''] (\<lambda>l. ''https://core.telegram.org/bots/api'') ''en'',
      im_provider ''discord'' [''fab'', ''discord''] (\<lambda>l. ''https://discord.com/developers/docs/resources/webhook'') ''en'']"

definition allProviders :: "channel_provider list" where
  "allProviders = mail_providers @ im_providers"

text \<open>The comparison of \<open>providerOptionGroups\<close>, and the stable sort of arrays by a comparison.\<close>

definition compare_providers :: "string \<Rightarrow> channel_provider \<Rightarrow> channel_provider \<Rightarrow> int" where
  "compare_providers l a b =
     (if pdisabled a \<noteq> pdisabled b then (if pdisabled a then 1 else -1)
      else if plocale a = plocale b then 0
      else if plocale a = l then -1 else 1)"

definition provider_option :: "channel_provider \<Rightarrow> jobj" where
  "provider_option p =
     [(''value'', Str (pname p)), (''label'', Str (''views.notification.channels.providers.'' @ pname p)),
      (''icon'', strings (picon p)), (''disabled'', if pdisabled p then Bool True else Undef)]"

definition providerOptionGroups :: "string \<Rightarrow> (string \<times> channel_provider list) list" where
  "providerOptionGroups l =
     (let sorted = sort_by (compare_providers l) allProviders in
      map (\<lambda>ty. (ty, filter (\<lambda>p. ptype p = ty) sorted)) (rev (remdups (rev (map ptype sorted)))))"

definition activeProvider :: "js \<Rightarrow> channel_provider option" where
  "activeProvider f = find (\<lambda>p. Str (pname p) = js_get_opt f ''provider'') allProviders"

definition activeProviderOption :: "js \<Rightarrow> jobj" where
  "activeProviderOption f =
     (if js_get_opt f ''provider'' = Str ''custom'' then
        [(''value'', Str ''custom''), (''label'', Str ''views.notification.channels.providers.custom''),
         (''icon'', strings [''fa'', ''edit''])]
      else
        (case activeProvider f of
           None \<Rightarrow> [(''value'', Str []), (''label'', Str []), (''icon'', Arr [])]
         | Some p \<Rightarrow> provider_option p))"

definition getProviderIcon :: "string \<Rightarrow> string list option" where
  "getProviderIcon provider = map_option picon (find (\<lambda>p. pname p = provider) allProviders)"

text \<open>\<^verbatim>\<open>NotificationChannelForm.vue\<close>; the select has already put the chosen provider into the form.\<close>

definition provider_label :: "(string \<Rightarrow> string) \<Rightarrow> string \<Rightarrow> string" where
  "provider_label t n = t (''views.notification.channels.providers.'' @ n)"

definition onTypeChange :: "js \<Rightarrow> jobj" where
  "onTypeChange f = aset ''provider'' (Str ''custom'') (spread_js f)"

definition provider_payload :: "(string \<Rightarrow> string) \<Rightarrow> js \<Rightarrow> channel_provider \<Rightarrow> jobj" where
  "provider_payload t f p =
     (if ptype p = ''mail'' then
        [(''type'', Str (ptype p)), (''smtp_server'', smtpServer p), (''smtp_port'', smtpPort p)]
      else [(''type'', Str (ptype p)), (''webhook_url'', Str [])])
     @ (if \<not> truthy (js_get_opt f ''name'') \<or>
           list_ex (\<lambda>q. Str (provider_label t (pname q)) = js_get_opt f ''name'') allProviders
        then [(''name'', Str (provider_label t (pname p)))] else [])"

definition onProviderChange :: "(string \<Rightarrow> string) \<Rightarrow> js \<Rightarrow> js \<Rightarrow> js" where
  "onProviderChange t val f =
     (if val = Str ''custom'' then Obj (spread_js f)
      else (case activeProvider f of
              None \<Rightarrow> f
            | Some p \<Rightarrow> Obj (amerge (spread_js f) (provider_payload t f p))))"

text \<open>\<open>number\<close> is \<open>Number(port)\<close>, none for \<open>NaN\<close>.\<close>

definition onSmtpPortChange :: "(string \<Rightarrow> int option) \<Rightarrow> string \<Rightarrow> js \<Rightarrow> js" where
  "onSmtpPortChange number port f =
     (if port = [] then f
      else (case number port of None \<Rightarrow> f | Some n \<Rightarrow> Obj (aset ''smtp_port'' (Num n) (spread_js f))))"

definition hasProvider :: "js \<Rightarrow> bool" where
  "hasProvider f \<longleftrightarrow> (case activeProvider f of None \<Rightarrow> False | Some p \<Rightarrow> pname p \<noteq> ''custom'')"

lemma insert_by_mset: "mset (insert_by cmp x xs) = add_mset x (mset xs)"
  by (induction xs) auto

lemma sort_by_mset: "mset (sort_by cmp xs) = mset xs"
  unfolding sort_by_def by (induction xs) (simp_all add: insert_by_mset)

lemma option_groups:
  "map (\<lambda>(ty, ps). (ty, map pname ps)) (providerOptionGroups ''en'') =
     [(''mail'', [''outlook'', ''icloud'', ''yahoo'', ''zoho'', ''aol'', ''qq'', ''163'', ''gmail'']),
      (''im'', [''slack'', ''ms_teams'', ''telegram'', ''discord'', ''dingtalk'', ''lark'', ''wechat_work''])]"
  "map (\<lambda>(ty, ps). (ty, map pname ps)) (providerOptionGroups ''zh'') =
     [(''mail'', [''qq'', ''163'', ''outlook'', ''icloud'', ''yahoo'', ''zoho'', ''aol'', ''gmail'']),
      (''im'', [''dingtalk'', ''lark'', ''wechat_work'', ''slack'', ''ms_teams'', ''telegram'', ''discord''])]"
  by code_simp+

lemma group_members:
  "(ty, ps) \<in> set (providerOptionGroups l) \<Longrightarrow> mset ps = filter_mset (\<lambda>p. ptype p = ty) (mset allProviders)"
  by (auto simp: providerOptionGroups_def Let_def sort_by_mset)

lemma find_distinct: "distinct (map f xs) \<Longrightarrow> x \<in> set xs \<Longrightarrow> find (\<lambda>y. f y = f x) xs = Some x"
  by (induction xs) (auto simp: rev_image_eqI)

lemma provider_names: "distinct (map pname allProviders)"
  by code_simp

lemma find_provider: "p \<in> set allProviders \<Longrightarrow> find (\<lambda>q. Str (pname q) = Str (pname p)) allProviders = Some p"
  using find_distinct [OF provider_names] by simp

text \<open>
  Choosing a provider sets its type and server, replaces a name only if it was empty or the label of
  a provider, and keeps all other fields.
\<close>

lemma provider_chosen:
  assumes "p \<in> set allProviders" "oget ps ''provider'' = Str (pname p)" "pname p \<noteq> ''custom''"
  shows "onProviderChange t (Str (pname p)) (Obj ps) = Obj (amerge ps (provider_payload t (Obj ps) p))"
  using assms find_provider [OF assms(1)] by (simp add: onProviderChange_def activeProvider_def)

lemma provider_payload_name:
  "oget (amerge ps (provider_payload t (Obj ps) p)) ''name'' =
     (if \<not> truthy (oget ps ''name'') \<or>
         list_ex (\<lambda>q. Str (provider_label t (pname q)) = oget ps ''name'') allProviders
      then Str (provider_label t (pname p)) else oget ps ''name'')"
  by (simp add: provider_payload_def)

section \<open>Channels of a setting\<close>

record select_state =
  selectAll :: bool
  selectIntermediate :: bool
  selected_ids :: "js list"

definition updateSelectAll :: "js list \<Rightarrow> select_state \<Rightarrow> select_state" where
  "updateSelectAll ids s =
     (if ids = [] then s
      else if list_all (\<lambda>i. i \<in> set (selected_ids s)) ids
      then s\<lparr>selectAll := True, selectIntermediate := False\<rparr>
      else s\<lparr>selectAll := False, selectIntermediate := list_ex (\<lambda>i. i \<in> set (selected_ids s)) ids\<rparr>)"

definition onSelectAll :: "js list \<Rightarrow> bool \<Rightarrow> select_state \<Rightarrow> select_state" where
  "onSelectAll ids checked s =
     s\<lparr>selectAll := checked, selected_ids := (if checked then ids else []), selectIntermediate := False\<rparr>"

lemma select_all_stable: "ids \<noteq> [] \<Longrightarrow> updateSelectAll ids (onSelectAll ids b s) = onSelectAll ids b s"
  by (cases ids) (auto simp: updateSelectAll_def onSelectAll_def list_all_iff list_ex_iff)

lemma select_flags:
  "ids \<noteq> [] \<Longrightarrow> s' = updateSelectAll ids s \<Longrightarrow>
     (selectAll s' \<longleftrightarrow> set ids \<subseteq> set (selected_ids s)) \<and>
     (selectIntermediate s' \<longleftrightarrow> \<not> selectAll s' \<and> set ids \<inter> set (selected_ids s) \<noteq> {})"
  by (auto simp: updateSelectAll_def list_all_iff list_ex_iff)

end
