(* ===== verification/UI_Header.thy ===== *)
theory UI_Header
  imports UI_Form
begin

text \<open>
  The header of a table column: \<^verbatim>\<open>components/ui/table/TableHeader.vue\<close>, its dialog
  \<^verbatim>\<open>TableHeaderDialog.vue\<close>, \<^verbatim>\<open>TableHeaderDialogFilter.vue\<close>, \<^verbatim>\<open>TableHeaderDialogSort.vue\<close> and
  \<^verbatim>\<open>TableHeaderAction.vue\<close>, with \<^verbatim>\<open>components/ui/filter/filter.ts\<close>, on top of the list that they
  filter and sort (\<^verbatim>\<open>onHeaderChange\<close> of the list, in \<open>UI_Form\<close>).

  The three components keep copies of the same data: the header what is applied, the dialog what
  is being edited, and the filter what is typed and ticked. A step is an event of the user, or the
  timer of the debounced search; the watchers run after it.
\<close>

section \<open>State\<close>

definition defaultFilterCondition :: jobj where
  "defaultFilterCondition = [(''op'', Str FILTER_OP_NOT_SET), (''value'', Str [])]"

record header_column =
  hc_key :: string
  hasSort :: bool
  hasFilter :: bool
  allowFilterSearch :: bool
  allowFilterItems :: bool
  filterItems :: "(string \<times> js) list"

record header_state =
  dialog_visible :: bool
  filter_active :: bool
  filter_focused :: bool
  sort_active :: bool
  sort_focused :: bool
  sortData :: "jobj option"
  filterData :: "header_filter option"
  internalSort :: "jobj option"
  internalFilter :: "header_filter option"
  internalConditions :: "jobj list"
  internalSearchString :: js
  internalItems :: "js list"
  search_pending :: bool
  table_store :: base_state
  list_requests :: "service_request list"

definition header_init :: "base_state \<Rightarrow> header_state" where
  "header_init s =
     \<lparr>dialog_visible = False, filter_active = False, filter_focused = False, sort_active = False,
      sort_focused = False, sortData = None, filterData = None, internalSort = None, internalFilter = None,
      internalConditions = [defaultFilterCondition], internalSearchString = Undef, internalItems = [],
      search_pending = False, table_store = s, list_requests = []\<rparr>"

definition defaultInternalSort :: "header_column \<Rightarrow> jobj" where
  "defaultInternalSort col = [(''key'', Str (hc_key col))]"

section \<open>The header\<close>

text \<open>\<open>emit('change', column, sort, filter)\<close>, which the list handles.\<close>

definition emit_change ::
    "string \<Rightarrow> header_column \<Rightarrow> jobj option \<Rightarrow> header_filter option \<Rightarrow> header_state \<Rightarrow> header_state" where
  "emit_change endpoint col srt filt h =
     (case onHeaderChange endpoint (Str (hc_key col)) (allowFilterSearch col) (allowFilterItems col) srt filt (table_store h) of
        (s, r) \<Rightarrow> h\<lparr>table_store := s, list_requests := list_requests h @ [r]\<rparr>)"

definition header_hideDialog :: "header_state \<Rightarrow> header_state" where
  "header_hideDialog h = h\<lparr>dialog_visible := False, filter_focused := False, sort_focused := False\<rparr>"

definition clearDialog :: "string \<Rightarrow> header_column \<Rightarrow> header_state \<Rightarrow> header_state" where
  "clearDialog endpoint col h =
     emit_change endpoint col None None
       (header_hideDialog (h\<lparr>filter_active := False, sort_active := False, sortData := None, filterData := None\<rparr>))"

definition onDialogApply ::
    "string \<Rightarrow> header_column \<Rightarrow> jobj option \<Rightarrow> header_filter option \<Rightarrow> header_state \<Rightarrow> header_state" where
  "onDialogApply endpoint col srt filt h =
     (let h1 = h\<lparr>sort_active := sort_active h \<or> srt \<noteq> None, filter_active := filter_active h \<or> filt \<noteq> None,
                 sortData := srt, filterData := filt\<rparr> in
      if srt = None \<and> filt = None then clearDialog endpoint col h1
      else emit_change endpoint col srt filt (header_hideDialog h1))"

text \<open>The buttons of the header, with the direction and the filter shown in their tooltips.\<close>

definition header_actions :: "header_column \<Rightarrow> string list" where
  "header_actions col = (if hasSort col then [''sort''] else []) @ (if hasFilter col then [''filter''] else [])"

definition sort_icon :: "header_state \<Rightarrow> string" where
  "sort_icon h =
     (case sortData h of
        Some x \<Rightarrow> if oget x ''d'' = Str ''asc'' then ''sort-amount-up'' else ''sort-amount-down-alt''
      | None \<Rightarrow> ''sort-amount-down-alt'')"

definition sort_tooltip :: "header_state \<Rightarrow> string" where
  "sort_tooltip h =
     (case sortData h of
        Some x \<Rightarrow>
          if oget x ''d'' = Str ''asc'' then ''components.table.header.sort.tooltip.sortAscending''
          else if oget x ''d'' = Str ''dsc'' then ''components.table.header.sort.tooltip.sortDescending''
          else ''components.table.header.sort.tooltip.sort''
      | None \<Rightarrow> ''components.table.header.sort.tooltip.sort'')"

section \<open>The dialog\<close>

definition dialog_conditions :: "header_state \<Rightarrow> jobj list" where
  "dialog_conditions h =
     (case internalFilter h of
        None \<Rightarrow> [] | Some f \<Rightarrow> (case hf_conditions f of None \<Rightarrow> [] | Some cs \<Rightarrow> cs))"

definition dialog_search :: "header_state \<Rightarrow> js" where
  "dialog_search h = (case internalFilter h of None \<Rightarrow> Undef | Some f \<Rightarrow> hf_searchString f)"

definition dialog_items :: "header_state \<Rightarrow> js list" where
  "dialog_items h =
     (case internalFilter h of
        None \<Rightarrow> [] | Some f \<Rightarrow> (case hf_items f of None \<Rightarrow> [] | Some xs \<Rightarrow> xs))"

definition trueConditions :: "header_state \<Rightarrow> jobj list" where
  "trueConditions h = filter (\<lambda>d. oget d ''op'' \<noteq> Str FILTER_OP_NOT_SET) (dialog_conditions h)"

definition isEmptyFilter :: "header_state \<Rightarrow> bool" where
  "isEmptyFilter h \<longleftrightarrow> \<not> truthy (dialog_search h) \<and> trueConditions h = [] \<and> dialog_items h = []"

definition isApplyDisabled :: "header_state \<Rightarrow> bool" where
  "isApplyDisabled h \<longleftrightarrow> list_ex (\<lambda>d. \<not> truthy (oget d ''value'')) (trueConditions h)"

definition sort_or_default :: "header_column \<Rightarrow> jobj option \<Rightarrow> jobj" where
  "sort_or_default col srt = (case srt of None \<Rightarrow> clone_obj (defaultInternalSort col) | Some x \<Rightarrow> x)"

definition clear_dialog :: "string \<Rightarrow> header_column \<Rightarrow> header_state \<Rightarrow> header_state" where
  "clear_dialog endpoint col h =
     clearDialog endpoint col
       (h\<lparr>internalSort := Some (aset ''d'' Undef (sort_or_default col (internalSort h))), internalFilter := None\<rparr>)"

definition apply_dialog :: "string \<Rightarrow> header_column \<Rightarrow> header_state \<Rightarrow> header_state" where
  "apply_dialog endpoint col h =
     (if internalSort h = None \<and> isEmptyFilter h then clear_dialog endpoint col h
      else onDialogApply endpoint col (internalSort h) (internalFilter h) h)"

definition onSortChange :: "header_column \<Rightarrow> js \<Rightarrow> header_state \<Rightarrow> header_state" where
  "onSortChange col v h = h\<lparr>internalSort := Some (aset ''d'' v (sort_or_default col (internalSort h)))\<rparr>"

text \<open>\<^verbatim>\<open>TableHeaderDialogSort.vue\<close>: a direction, or none for the cleared and the unsorted choice.\<close>

definition sort_choice :: "string option \<Rightarrow> js" where
  "sort_choice v = (case v of None \<Rightarrow> Undef | Some d \<Rightarrow> if d = ''u'' then Undef else Str d)"

section \<open>The filter\<close>

definition typed_filter :: "header_state \<Rightarrow> header_filter" where
  "typed_filter h =
     \<lparr>hf_conditions = Some (internalConditions h), hf_items = Some (internalItems h),
      hf_searchString = internalSearchString h\<rparr>"

definition filteredItems :: "header_column \<Rightarrow> header_state \<Rightarrow> (string \<times> js) list" where
  "filteredItems col h =
     filter (\<lambda>(label, v). truthy (internalSearchString h) \<longrightarrow>
       str_includes (js_str (internalSearchString h)) (lower label)) (filterItems col)"

definition emit_filter :: "header_state \<Rightarrow> header_state" where
  "emit_filter h = h\<lparr>internalFilter := Some (typed_filter h)\<rparr>"

definition onItemsChange :: "js list \<Rightarrow> header_state \<Rightarrow> header_state" where
  "onItemsChange xs h = emit_filter (h\<lparr>internalItems := xs\<rparr>)"

definition search_timer :: "header_column \<Rightarrow> header_state \<Rightarrow> header_state" where
  "search_timer col h =
     (if search_pending h then
        emit_filter (h\<lparr>search_pending := False,
          internalItems := (if truthy (internalSearchString h) then map snd (filteredItems col h) else [])\<rparr>)
      else h)"

definition onSearch :: "js \<Rightarrow> header_state \<Rightarrow> header_state" where
  "onSearch v h = h\<lparr>internalSearchString := v, search_pending := True\<rparr>"

section \<open>Events and watchers\<close>

text \<open>
  When the dialog becomes visible it copies what the header has applied. A change of the search
  string or of the conditions of the dialog is copied into the filter.
\<close>

definition watch_visible :: "header_column \<Rightarrow> header_state \<Rightarrow> header_state \<Rightarrow> header_state" where
  "watch_visible col old h =
     (if dialog_visible h \<and> \<not> dialog_visible old then
        h\<lparr>internalSort := Some (clone_obj (sort_or_default col (sortData h))), internalFilter := filterData h\<rparr>
      else h)"

definition watch_filter :: "header_state \<Rightarrow> header_state \<Rightarrow> header_state" where
  "watch_filter old h =
     (let h1 = (if dialog_search h \<noteq> dialog_search old then h\<lparr>internalSearchString := dialog_search h\<rparr> else h) in
      if internalFilter h \<noteq> internalFilter old then
        h1\<lparr>internalConditions := (if dialog_conditions h = [] then [defaultFilterCondition] else dialog_conditions h)\<rparr>
      else h1)"

datatype header_event =
    ClickSort
  | ClickFilter
  | CancelDialog
  | ClickOutside
  | ClearDialog
  | ApplyDialog
  | SortChange "string option"
  | ItemsChange "js list"
  | Search js
  | SearchTimer
  | EnterKey

fun header_handler :: "string \<Rightarrow> header_column \<Rightarrow> header_event \<Rightarrow> header_state \<Rightarrow> header_state" where
  "header_handler e col ClickSort h = h\<lparr>dialog_visible := True, sort_focused := True\<rparr>"
| "header_handler e col ClickFilter h = h\<lparr>dialog_visible := True, filter_focused := True\<rparr>"
| "header_handler e col CancelDialog h = header_hideDialog h"
| "header_handler e col ClickOutside h = (if dialog_visible h then header_hideDialog h else h)"
| "header_handler e col ClearDialog h = clear_dialog e col h"
| "header_handler e col ApplyDialog h = apply_dialog e col h"
| "header_handler e col (SortChange v) h = onSortChange col (sort_choice v) h"
| "header_handler e col (ItemsChange xs) h = onItemsChange xs h"
| "header_handler e col (Search v) h = onSearch v h"
| "header_handler e col SearchTimer h = search_timer col h"
| "header_handler e col EnterKey h = apply_dialog e col h"

definition header_step :: "string \<Rightarrow> header_column \<Rightarrow> header_event \<Rightarrow> header_state \<Rightarrow> header_state" where
  "header_step e col ev h =
     (let h1 = header_handler e col ev h; h2 = watch_visible col h h1 in watch_filter h h2)"

inductive header_reachable :: "string \<Rightarrow> header_column \<Rightarrow> base_state \<Rightarrow> header_state \<Rightarrow> bool" for e col s where
  start: "header_reachable e col s (header_init s)"
| step: "header_reachable e col s h \<Longrightarrow> header_reachable e col s (header_step e col ev h)"

section \<open>What is applied is what is shown\<close>

definition applied_conditions :: "header_column \<Rightarrow> header_state \<Rightarrow> jobj list" where
  "applied_conditions col h =
     (case filterData h of
        None \<Rightarrow> [] | Some f \<Rightarrow> getFilterConditions (allowFilterSearch col) (allowFilterItems col) f)"

definition direction :: "jobj \<Rightarrow> js" where
  "direction x = oget x ''d''"

definition sort_shape :: "header_column \<Rightarrow> jobj \<Rightarrow> bool" where
  "sort_shape col x \<longleftrightarrow>
     x = [(''key'', Str (hc_key col))] \<or> x = [(''key'', Str (hc_key col)), (''d'', Undef)]
     \<or> (\<exists>d. x = [(''key'', Str (hc_key col)), (''d'', Str d)])"

lemma clone_shape:
  "clone_obj [(''key'', Str k)] = [(''key'', Str k)]"
  "clone_obj [(''key'', Str k), (''d'', Undef)] = [(''key'', Str k)]"
  "clone_obj [(''key'', Str k), (''d'', Str d)] = [(''key'', Str k), (''d'', Str d)]"
  by (simp_all add: clone_obj_def plainClone_eq)

lemma sort_shapeD:
  assumes "sort_shape col x"
  shows "oget x ''key'' = Str (hc_key col)" "sort_shape col (clone_obj x)" "direction (clone_obj x) = direction x"
    "sort_shape col (aset ''d'' (sort_choice v) x)"
  using assms by (auto simp: sort_shape_def direction_def clone_shape sort_choice_def split: option.split)

lemma find_index_app:
  "find_index p xs = Some i \<Longrightarrow> p y \<Longrightarrow> find p (xs[i := y]) = Some y"
proof (induction xs arbitrary: i)
  case (Cons x xs)
  then show ?case by (cases "p x") auto
qed simp

lemma find_append_new: "find_index p xs = None \<Longrightarrow> p y \<Longrightarrow> find p (xs @ [y]) = Some y"
  by (induction xs) (auto split: if_splits)

lemma sort_set:
  assumes "sort_shape col x"
  shows "map_option direction (sort_of (Str (hc_key col)) (tableListSort (setTableListSortByKey (Str (hc_key col)) (Some x) s)))
    = Some (direction x)"
  using sort_shapeD [OF assms] sort_shapeD(1) [OF sort_shapeD(2) [OF assms]]
  by (auto simp: setTableListSortByKey_def sort_of_def find_index_app find_append_new split: option.split)

lemma sort_set_keys:
  assumes "oget x ''key'' = k" "oget (clone_obj x) ''key'' = k" "distinct (sort_keys (tableListSort s))"
  shows "distinct (sort_keys (tableListSort (setTableListSortByKey k (Some x) s)))"
proof (cases "find_index (\<lambda>d. oget d ''key'' = k) (tableListSort s)")
  case None
  then have "k \<notin> set (sort_keys (tableListSort s))" by (auto simp: find_index_None sort_keys_def)
  with assms None show ?thesis by (simp add: setTableListSortByKey_def sort_keys_def)
next
  case (Some i)
  with find_index_Some [OF Some] have "sort_keys ((tableListSort s)[i := clone_obj x]) = sort_keys (tableListSort s)"
    using assms(2) by (simp add: sort_keys_def map_update) (metis list_update_id nth_map)
  with assms(3) Some show ?thesis by (simp add: setTableListSortByKey_def)
qed

lemma find_update_elsewhere:
  "find_index q xs = Some i \<Longrightarrow> (\<And>y. q y \<Longrightarrow> \<not> p y) \<Longrightarrow> q z \<Longrightarrow> find p (xs[i := z]) = find p xs"
proof (induction xs arbitrary: i)
  case (Cons x xs)
  then show ?case by (cases "q x") auto
qed simp

lemma sort_set_other:
  assumes "oget x ''key'' = k" "oget (clone_obj x) ''key'' = k" "k' \<noteq> k"
  shows "sort_of k' (tableListSort (setTableListSortByKey k (Some x) s)) = sort_of k' (tableListSort s)"
proof (cases "find_index (\<lambda>d. oget d ''key'' = k) (tableListSort s)")
  case None
  then show ?thesis
    using assms sort_of_other(2) [of x k' "tableListSort s" "[]"] by (simp add: setTableListSortByKey_def)
next
  case (Some i)
  then show ?thesis
    using assms find_update_elsewhere [OF Some, of "\<lambda>d. oget d ''key'' = k'" "clone_obj x"]
    by (simp add: setTableListSortByKey_def sort_of_def)
qed

lemma drop_key_sort:
  "sort_of k (drop_key k xs) = None" "k' \<noteq> k \<Longrightarrow> sort_of k' (drop_key k xs) = sort_of k' xs"
  "distinct (sort_keys xs) \<Longrightarrow> distinct (sort_keys (drop_key k xs))"
  by (induction xs) (auto simp: drop_key_def sort_of_def sort_keys_def)

text \<open>The store after a change of the header.\<close>

lemma getList_start_lists [simp]:
  "tableListFilter (fst (getList_start e s)) = tableListFilter s" "tableListSort (fst (getList_start e s)) = tableListSort s"
  by (simp_all add: getList_start_def)

lemma header_change_store:
  fixes e as ai filt s
  assumes srt: "\<And>x. srt = Some x \<Longrightarrow> sort_shape col x"
  defines "k \<equiv> Str (hc_key col)"
  defines "s' \<equiv> fst (onHeaderChange e k as ai srt filt s)"
  shows "with_key k (tableListFilter s') = map (aset ''key'' k) (case filt of None \<Rightarrow> [] | Some f \<Rightarrow> getFilterConditions as ai f)"
    and "k' \<noteq> k \<Longrightarrow> with_key k' (tableListFilter s') = with_key k' (tableListFilter s)"
    and "map_option direction (sort_of k (tableListSort s')) = map_option direction srt"
    and "k' \<noteq> k \<Longrightarrow> sort_of k' (tableListSort s') = sort_of k' (tableListSort s)"
    and "distinct (sort_keys (tableListSort s)) \<Longrightarrow> distinct (sort_keys (tableListSort s'))"
proof -
  define s1 where "s1 = (case filt of None \<Rightarrow> mutate (ResetTableListFilterByKey k) s
      | Some f \<Rightarrow> mutate (SetTableListFilterByKey k (getFilterConditions as ai f)) s)"
  define s2 where "s2 = (case srt of None \<Rightarrow> mutate (ResetTableListSortByKey k) s1
      | Some x \<Rightarrow> mutate (SetTableListSortByKey k (Some x)) s1)"
  have s': "tableListFilter s' = tableListFilter s1" "tableListSort s' = tableListSort s2"
    and s1: "tableListSort s1 = tableListSort s"
    by (cases srt; cases filt;
        simp add: s'_def s1_def s2_def onHeaderChange_def Let_def setTableListFilterByKey_def)+
  show "with_key k (tableListFilter s') = map (aset ''key'' k) (case filt of None \<Rightarrow> [] | Some f \<Rightarrow> getFilterConditions as ai f)"
    "k' \<noteq> k \<Longrightarrow> with_key k' (tableListFilter s') = with_key k' (tableListFilter s)"
    unfolding s' by (cases filt; simp add: s1_def setTableListFilterByKey_def with_key_drop_key with_key_set_key)+
  show "map_option direction (sort_of k (tableListSort s')) = map_option direction srt"
    unfolding s' using srt by (cases srt) (simp_all add: s2_def drop_key_sort sort_set k_def)
  show "k' \<noteq> k \<Longrightarrow> sort_of k' (tableListSort s') = sort_of k' (tableListSort s)"
    unfolding s' s1 [symmetric] using srt sort_shapeD
    by (cases srt) (auto simp: s2_def drop_key_sort k_def intro!: sort_set_other)
  show "distinct (sort_keys (tableListSort s)) \<Longrightarrow> distinct (sort_keys (tableListSort s'))"
    unfolding s' s1 [symmetric] using srt sort_shapeD
    by (cases srt) (auto simp: s2_def drop_key_sort k_def intro!: sort_set_keys)
qed

text \<open>The invariant: shapes of the sortings, the store as the header shows it, and the dialog.\<close>

definition header_shapes :: "header_column \<Rightarrow> header_state \<Rightarrow> bool" where
  "header_shapes col h \<longleftrightarrow>
     (\<forall>x. sortData h = Some x \<longrightarrow> sort_shape col x) \<and> (\<forall>x. internalSort h = Some x \<longrightarrow> sort_shape col x)"

definition header_synced :: "base_state \<Rightarrow> header_column \<Rightarrow> header_state \<Rightarrow> bool" where
  "header_synced s0 col h \<longleftrightarrow>
     with_key (Str (hc_key col)) (tableListFilter (table_store h)) = map (aset ''key'' (Str (hc_key col))) (applied_conditions col h)
     \<and> map_option direction (sort_of (Str (hc_key col)) (tableListSort (table_store h))) = map_option direction (sortData h)
     \<and> (\<forall>k. k \<noteq> Str (hc_key col) \<longrightarrow>
          with_key k (tableListFilter (table_store h)) = with_key k (tableListFilter s0) \<and>
          sort_of k (tableListSort (table_store h)) = sort_of k (tableListSort s0))"

definition header_focus :: "header_state \<Rightarrow> bool" where
  "header_focus h \<longleftrightarrow> (sort_focused h \<or> filter_focused h \<longrightarrow> dialog_visible h)"

lemma emit_change_fields [simp]:
  "sortData (emit_change e col a b h) = sortData h" "filterData (emit_change e col a b h) = filterData h"
  "internalSort (emit_change e col a b h) = internalSort h"
  "sort_focused (emit_change e col a b h) = sort_focused h" "filter_focused (emit_change e col a b h) = filter_focused h"
  "dialog_visible (emit_change e col a b h) = dialog_visible h"
  "table_store (emit_change e col a b h) = fst (onHeaderChange e (Str (hc_key col)) (allowFilterSearch col) (allowFilterItems col) a b (table_store h))"
  by (simp_all add: emit_change_def split: prod.split)

lemma hide_fields [simp]:
  "sortData (header_hideDialog h) = sortData h" "filterData (header_hideDialog h) = filterData h"
  "internalSort (header_hideDialog h) = internalSort h" "table_store (header_hideDialog h) = table_store h"
  "\<not> sort_focused (header_hideDialog h)" "\<not> filter_focused (header_hideDialog h)"
  by (simp_all add: header_hideDialog_def)

lemma emitted_synced:
  assumes "header_synced s0 col h" "sortData h' = srt" "filterData h' = filt" "table_store h' = table_store h"
    "\<And>x. srt = Some x \<Longrightarrow> sort_shape col x"
  shows "header_synced s0 col (emit_change e col srt filt h')"
  using assms header_change_store [of srt col]
  by (simp add: header_synced_def applied_conditions_def)

lemma clearDialog_ok:
  assumes "header_synced s0 col h" "header_shapes col h" "table_store h' = table_store h" "internalSort h' = internalSort h"
  shows "header_synced s0 col (clearDialog e col h') \<and> header_shapes col (clearDialog e col h') \<and> header_focus (clearDialog e col h')"
proof -
  have "header_synced s0 col (clearDialog e col h')"
    unfolding clearDialog_def using assms by (intro emitted_synced) simp_all
  with assms show ?thesis by (simp add: clearDialog_def header_shapes_def header_focus_def)
qed

lemma sort_or_default_shape:
  "(\<And>x. srt = Some x \<Longrightarrow> sort_shape col x) \<Longrightarrow> sort_shape col (sort_or_default col srt)"
  by (simp add: sort_or_default_def defaultInternalSort_def clone_shape sort_shape_def split: option.split)

lemma clear_dialog_ok:
  assumes "header_synced s0 col h" "header_shapes col h"
  shows "header_synced s0 col (clear_dialog e col h) \<and> header_shapes col (clear_dialog e col h) \<and> header_focus (clear_dialog e col h)"
proof -
  let ?h = "h\<lparr>internalSort := Some (aset ''d'' Undef (sort_or_default col (internalSort h))), internalFilter := None\<rparr>"
  have "sort_shape col (aset ''d'' (sort_choice None) (sort_or_default col (internalSort h)))"
    using assms(2) by (intro sort_shapeD sort_or_default_shape) (simp add: header_shapes_def)
  then have "header_shapes col ?h" using assms(2) by (simp add: header_shapes_def sort_choice_def)
  moreover have "header_synced s0 col ?h" using assms(1) by (simp add: header_synced_def applied_conditions_def)
  ultimately show ?thesis
    using clearDialog_ok [of s0 col ?h ?h e] by (simp add: clear_dialog_def)
qed

lemma apply_dialog_ok:
  assumes "header_synced s0 col h" "header_shapes col h"
  shows "header_synced s0 col (apply_dialog e col h) \<and> header_shapes col (apply_dialog e col h) \<and> header_focus (apply_dialog e col h)"
proof (cases "internalSort h = None")
  case True
  show ?thesis
  proof (cases "isEmptyFilter h")
    case False
    have "header_synced s0 col (onDialogApply e col None (internalFilter h) h)
      \<and> header_shapes col (onDialogApply e col None (internalFilter h) h) \<and> header_focus (onDialogApply e col None (internalFilter h) h)"
    proof (cases "internalFilter h")
      case None
      then show ?thesis
        using clearDialog_ok [OF assms] by (simp add: onDialogApply_def Let_def)
    next
      case (Some f)
      with assms show ?thesis
        by (auto simp: onDialogApply_def Let_def header_shapes_def header_focus_def intro!: emitted_synced [of s0 col h])
    qed
    with True False show ?thesis by (simp add: apply_dialog_def)
  qed (use True clear_dialog_ok [OF assms] in \<open>simp add: apply_dialog_def\<close>)
next
  case False
  with assms show ?thesis
    by (auto simp: apply_dialog_def onDialogApply_def Let_def header_shapes_def header_focus_def intro!: emitted_synced [of s0 col h])
qed

lemma header_handler_ok:
  assumes "header_synced s0 col h" "header_shapes col h" "header_focus h"
  shows "header_synced s0 col (header_handler e col ev h) \<and> header_shapes col (header_handler e col ev h)
    \<and> header_focus (header_handler e col ev h)"
proof (cases ev)
  case (SortChange v)
  have "sort_shape col (aset ''d'' (sort_choice v) (sort_or_default col (internalSort h)))"
    using assms(2) by (intro sort_shapeD sort_or_default_shape) (simp add: header_shapes_def)
  with assms SortChange show ?thesis
    by (simp add: onSortChange_def header_synced_def header_shapes_def header_focus_def applied_conditions_def)
next
  case ClearDialog
  then show ?thesis using clear_dialog_ok [OF assms(1,2)] by simp
next
  case ApplyDialog
  then show ?thesis using apply_dialog_ok [OF assms(1,2)] by simp
next
  case EnterKey
  then show ?thesis using apply_dialog_ok [OF assms(1,2)] by simp
qed (use assms in
    \<open>auto simp: header_synced_def header_shapes_def header_focus_def applied_conditions_def onItemsChange_def
       emit_filter_def onSearch_def search_timer_def\<close>)

lemma watchers_ok:
  fixes old
  assumes "header_synced s0 col h" "header_shapes col h" "header_focus h"
  defines "h' \<equiv> watch_filter old (watch_visible col old h)"
  shows "header_synced s0 col h' \<and> header_shapes col h' \<and> header_focus h'"
proof -
  have "sort_shape col (clone_obj (sort_or_default col (sortData h)))"
    using assms(2) by (intro sort_shapeD sort_or_default_shape) (simp add: header_shapes_def)
  then have "header_synced s0 col (watch_visible col old h) \<and> header_shapes col (watch_visible col old h)
      \<and> header_focus (watch_visible col old h)"
    using assms(1-3)
    by (simp add: watch_visible_def header_synced_def header_shapes_def header_focus_def applied_conditions_def)
  then show ?thesis
    by (simp add: h'_def watch_filter_def Let_def header_synced_def header_shapes_def header_focus_def applied_conditions_def)
qed

lemma header_step_ok:
  "header_synced s0 col h \<Longrightarrow> header_shapes col h \<Longrightarrow> header_focus h \<Longrightarrow>
   header_synced s0 col (header_step e col ev h) \<and> header_shapes col (header_step e col ev h) \<and> header_focus (header_step e col ev h)"
  using header_handler_ok [of s0 col h e ev] watchers_ok [of s0 col "header_handler e col ev h" h]
  by (simp add: header_step_def Let_def)

text \<open>
  C12: Whatever is clicked, typed, ticked, applied, cleared and debounced in the header of a column,
  the list is filtered by exactly the conditions and sorted in exactly the direction that the header
  shows as applied; the filters and sortings of all other columns stay as they were, and no button
  is focused while the dialog is closed.
\<close>
theorem header_shows_applied:
  assumes "header_reachable e col s0 h"
    and "with_key (Str (hc_key col)) (tableListFilter s0) = []" "sort_of (Str (hc_key col)) (tableListSort s0) = None"
  shows "with_key (Str (hc_key col)) (tableListFilter (table_store h)) = map (aset ''key'' (Str (hc_key col))) (applied_conditions col h)
    \<and> map_option direction (sort_of (Str (hc_key col)) (tableListSort (table_store h))) = map_option direction (sortData h)
    \<and> (\<forall>k. k \<noteq> Str (hc_key col) \<longrightarrow>
          with_key k (tableListFilter (table_store h)) = with_key k (tableListFilter s0) \<and>
          sort_of k (tableListSort (table_store h)) = sort_of k (tableListSort s0))
    \<and> (sort_focused h \<or> filter_focused h \<longrightarrow> dialog_visible h)"
proof -
  have "header_synced s0 col h \<and> header_shapes col h \<and> header_focus h"
    using assms(1)
  proof induction
    case start
    show ?case using assms(2,3)
      by (simp add: header_init_def header_synced_def header_shapes_def header_focus_def applied_conditions_def)
  next
    case (step h ev)
    then show ?case using header_step_ok by blast
  qed
  then show ?thesis by (simp add: header_synced_def header_focus_def)
qed

definition name_column :: header_column where
  "name_column = \<lparr>hc_key = ''name'', hasSort = True, hasFilter = True, allowFilterSearch = True, allowFilterItems = False,
     filterItems = []\<rparr>"

definition example_header :: header_state where
  "example_header =
     fold (header_step ''/tasks'' name_column)
       [ClickFilter, Search (Str ''x''), SearchTimer, SortChange (Some ''asc''), ApplyDialog] (header_init example_state)"

lemma example_header_reachable: "header_reachable ''/tasks'' name_column example_state example_header"
  unfolding example_header_def by (simp only: fold.simps comp_apply id_apply) (intro header_reachable.intros)

lemma example_state_lists: "tableListFilter example_state = []" "tableListSort example_state = []"
  by (simp_all add: example_state_def getDefaultStoreState_def loadNamespaceLocalStorage_def loadLocalStorage_def item_defs)

theorem header_shows_applied_witness:
  "map_option direction (sort_of (Str ''name'') (tableListSort (table_store example_header))) = map_option direction (sortData example_header)"
  using header_shows_applied [OF example_header_reachable]
  by (simp add: example_state_lists name_column_def with_key_def sort_of_def)

text \<open>
  Applying an untouched dialog does not clear anything: the dialog always has a sorting of its own,
  so the column is marked as sorted and the list gets a sorting without a direction.
\<close>

lemma opened_sort:
  "header_step e name_column ClickSort (header_init s) =
     (header_init s)\<lparr>dialog_visible := True, sort_focused := True, internalSort := Some [(''key'', Str ''name'')]\<rparr>"
  by (simp add: header_step_def Let_def watch_visible_def watch_filter_def header_init_def sort_or_default_def
      defaultInternalSort_def clone_shape name_column_def dialog_search_def)

lemma untouched_apply_sorts:
  assumes "tableListSort s = []"
  shows "let h = header_step e name_column ApplyDialog (header_step e name_column ClickSort (header_init s)) in
     sort_active h \<and> tableListSort (table_store h) = [[(''key'', Str ''name'')]]"
  unfolding opened_sort using assms
  by (simp add: header_step_def Let_def watch_visible_def watch_filter_def header_init_def apply_dialog_def
      onDialogApply_def emit_change_def onHeaderChange_def header_hideDialog_def name_column_def
      setTableListSortByKey_def getList_start_def)

text \<open>Clearing leaves the ticked items in the filter: ticking one more applies the old ones again.\<close>

lemma clear_keeps_items: "internalItems (header_step e col ClearDialog h) = internalItems h"
  by (simp add: header_step_def Let_def watch_visible_def watch_filter_def clear_dialog_def clearDialog_def
      emit_change_def header_hideDialog_def split: prod.split)

text \<open>The items are searched in lower case for the text as typed: a capital letter finds nothing.\<close>

lemma capital_finds_nothing:
  "filteredItems (name_column\<lparr>filterItems := [(''Node'', Num 1)]\<rparr>) ((header_init s)\<lparr>internalSearchString := Str ''No''\<rparr>) = []"
proof -
  have "lower ''Node'' = ''node''" by code_simp
  then show ?thesis by (simp add: filteredItems_def header_init_def name_column_def starts_with_def)
qed

end
