(* ===== verification/UI_NavMenu.thy ===== *)
theory UI_NavMenu
  imports UI_Store
begin

text \<open>
  The file menu of the editor: \<^verbatim>\<open>components/ui/file/FileEditorNavMenu.vue\<close> and the search of
  \<^verbatim>\<open>components/ui/file/FileEditor.vue\<close> (\<open>getFilteredFiles\<close>), with \<^verbatim>\<open>utils/file.ts\<close>.

  A click waits 200 ms for a second one; the timers that run are kept with the item of their click.
  The search works on the objects of the store: a directory that is shown gets its shown children
  as its children. \<open>cmp\<close> is the comparison of names in the user's language.
\<close>

section \<open>Files and directories\<close>

datatype file_item =
    File (item_name: string) (item_path: string)
  | Dir (item_name: string) (item_path: string) (item_children: "file_item list")

definition is_dir :: "file_item \<Rightarrow> bool" where
  "is_dir d \<longleftrightarrow> (case d of Dir _ _ _ \<Rightarrow> True | _ \<Rightarrow> False)"

definition compare_items :: "(string \<Rightarrow> string \<Rightarrow> int) \<Rightarrow> file_item \<Rightarrow> file_item \<Rightarrow> int" where
  "compare_items cmp a b =
     (if is_dir a \<and> \<not> is_dir b then -1
      else if \<not> is_dir a \<and> is_dir b then 1
      else cmp (item_name a) (item_name b))"

text \<open>
  The test of the filter, and the item as it is shown: none, or one whose children are the shown
  ones. Missing children count as none.
\<close>

definition name_matches :: "string \<Rightarrow> string \<Rightarrow> bool" where
  "name_matches q n \<longleftrightarrow> q = [] \<or> str_includes (lower q) (lower n)"

fun shown_item :: "(string \<Rightarrow> string \<Rightarrow> int) \<Rightarrow> string \<Rightarrow> file_item \<Rightarrow> file_item list" where
  "shown_item cmp q (File n p) = (if name_matches q n then [File n p] else [])"
| "shown_item cmp q (Dir n p cs) =
     (let children = sort_by (compare_items cmp) (concat (map (shown_item cmp q) cs)) in
      if q = [] \<or> children \<noteq> [] then [Dir n p children] else [])"

definition getFilteredFiles :: "(string \<Rightarrow> string \<Rightarrow> int) \<Rightarrow> string \<Rightarrow> file_item list \<Rightarrow> file_item list" where
  "getFilteredFiles cmp q items = sort_by (compare_items cmp) (concat (map (shown_item cmp q) items))"

text \<open>The store's items after a search: the shown ones have been changed in place.\<close>

definition searched_items :: "(string \<Rightarrow> string \<Rightarrow> int) \<Rightarrow> string \<Rightarrow> file_item list \<Rightarrow> file_item list" where
  "searched_items cmp q items = map (\<lambda>d. case shown_item cmp q d of [] \<Rightarrow> d | d' # _ \<Rightarrow> d') items"

fun dir_options :: "file_item \<Rightarrow> js list" where
  "dir_options (File n p) = []"
| "dir_options (Dir n p cs) =
     [Obj [(''label'', Str n), (''value'', Str p), (''children'', Arr (concat (map dir_options cs)))]]"

definition getDirectoryOptions :: "file_item list \<Rightarrow> js list" where
  "getDirectoryOptions items = concat (map dir_options items)"

definition getRootDirectoryOptions :: "(string \<Rightarrow> string) \<Rightarrow> file_item list \<Rightarrow> js list" where
  "getRootDirectoryOptions t items =
     [Obj [(''label'', Str (''~ ('' @ t ''components.file.rootDirectory'' @ '')'')), (''value'', Str ''~''),
           (''children'', Arr (getDirectoryOptions items))]]"

section \<open>The menu\<close>

datatype nav_emission =
    NodeClick file_item
  | NodeDbClick file_item
  | NodeDrop file_item file_item
  | MenuNewFile file_item string
  | MenuNewDirectory file_item string
  | MenuUploadFiles file_item
  | MenuRename file_item string
  | MenuClone file_item string
  | MenuDelete file_item
  | MenuCreateSpider file_item
  | MenuDeleteSpider file_item

record nav_menu =
  clicked :: bool
  click_item :: "file_item option"
  click_timers :: "file_item list"
  selectedCache :: "string \<Rightarrow> bool"
  dragCache :: "string \<Rightarrow> bool"
  isCtrlKeyPressed :: bool
  activeContextMenuItem :: "file_item option"
  contextMenuClicking :: bool
  context_timers :: nat
  expandedKeys :: "string list"
  emitted :: "nav_emission list"

definition nav_init :: nav_menu where
  "nav_init =
     \<lparr>clicked = False, click_item = None, click_timers = [], selectedCache = (\<lambda>k. False), dragCache = (\<lambda>k. False),
      isCtrlKeyPressed = False, activeContextMenuItem = None, contextMenuClicking = False, context_timers = 0,
      expandedKeys = [], emitted = []\<rparr>"

definition computedDefaultExpandedKeys :: "nav_menu \<Rightarrow> string list" where
  "computedDefaultExpandedKeys m = ''~'' # expandedKeys m"

definition addDefaultExpandedKey :: "string \<Rightarrow> nav_menu \<Rightarrow> nav_menu" where
  "addDefaultExpandedKey k m = (if k \<in> set (expandedKeys m) then m else m\<lparr>expandedKeys := expandedKeys m @ [k]\<rparr>)"

definition removeDefaultExpandedKey :: "string \<Rightarrow> nav_menu \<Rightarrow> nav_menu" where
  "removeDefaultExpandedKey k m = m\<lparr>expandedKeys := remove1 k (expandedKeys m)\<rparr>"

definition resetClickStatus :: "nav_menu \<Rightarrow> nav_menu" where
  "resetClickStatus m = m\<lparr>clicked := False, click_item := None, activeContextMenuItem := None\<rparr>"

definition emit_nav :: "nav_emission \<Rightarrow> nav_menu \<Rightarrow> nav_menu" where
  "emit_nav e m = m\<lparr>emitted := emitted m @ [e]\<rparr>"

definition updateSelectedMap :: "file_item \<Rightarrow> nav_menu \<Rightarrow> nav_menu" where
  "updateSelectedMap d m =
     (if item_path d = [] then m
      else m\<lparr>selectedCache :=
        (if isCtrlKeyPressed m then selectedCache m else (\<lambda>k. False))(item_path d := \<not> selectedCache m (item_path d))\<rparr>)"

definition onNodeClick :: "file_item \<Rightarrow> nav_menu \<Rightarrow> nav_menu" where
  "onNodeClick d m =
     (if clicked m \<and> map_option item_path (click_item m) = Some (item_path d) then
        (if is_dir d then m else resetClickStatus (updateSelectedMap d (emit_nav (NodeDbClick d) m)))
      else m\<lparr>click_item := Some d, clicked := True, click_timers := click_timers m @ [d]\<rparr>)"

definition click_timeout :: "nat \<Rightarrow> nav_menu \<Rightarrow> nav_menu" where
  "click_timeout i m =
     (if i < length (click_timers m) then
        (let d = click_timers m ! i;
             m1 = m\<lparr>click_timers := take i (click_timers m) @ drop (Suc i) (click_timers m)\<rparr> in
         resetClickStatus (if clicked m then updateSelectedMap d (emit_nav (NodeClick d) m1) else m1))
      else m)"

definition onNodeContextMenuShow :: "file_item \<Rightarrow> nav_menu \<Rightarrow> nav_menu" where
  "onNodeContextMenuShow d m =
     m\<lparr>contextMenuClicking := True, activeContextMenuItem := Some d, context_timers := Suc (context_timers m)\<rparr>"

definition context_timeout :: "nav_menu \<Rightarrow> nav_menu" where
  "context_timeout m =
     (if context_timers m = 0 then m else m\<lparr>contextMenuClicking := False, context_timers := context_timers m - 1\<rparr>)"

text \<open>The prompts refuse the old name; a cancelled prompt emits nothing.\<close>

definition onNodeContextMenuNewFile :: "file_item \<Rightarrow> string option \<Rightarrow> nav_menu \<Rightarrow> nav_menu" where
  "onNodeContextMenuNewFile d answer m = (case answer of None \<Rightarrow> m | Some v \<Rightarrow> emit_nav (MenuNewFile d v) m)"

definition onNodeContextMenuNewDirectory :: "file_item \<Rightarrow> string option \<Rightarrow> nav_menu \<Rightarrow> nav_menu" where
  "onNodeContextMenuNewDirectory d answer m =
     (case answer of None \<Rightarrow> m | Some v \<Rightarrow> emit_nav (MenuNewDirectory d v) m)"

definition onNodeContextMenuDelete :: "file_item \<Rightarrow> bool \<Rightarrow> nav_menu \<Rightarrow> nav_menu" where
  "onNodeContextMenuDelete d confirmed m = (if confirmed then emit_nav (MenuDelete d) m else m)"

definition onNodeContextMenuRename :: "file_item \<Rightarrow> string option \<Rightarrow> nav_menu \<Rightarrow> nav_menu" where
  "onNodeContextMenuRename d answer m =
     (case answer of None \<Rightarrow> m | Some v \<Rightarrow> if v \<noteq> item_name d then emit_nav (MenuRename d v) m else m)"

definition onNodeContextMenuClone :: "file_item \<Rightarrow> string option \<Rightarrow> nav_menu \<Rightarrow> nav_menu" where
  "onNodeContextMenuClone d answer m =
     (case answer of None \<Rightarrow> m | Some v \<Rightarrow> if v \<noteq> item_name d then emit_nav (MenuClone d v) m else m)"

definition onNodeDragEnter :: "file_item \<Rightarrow> nav_menu \<Rightarrow> nav_menu" where
  "onNodeDragEnter d m = (if item_path d = [] then m else m\<lparr>dragCache := (dragCache m)(item_path d := True)\<rparr>)"

definition onNodeDragLeave :: "file_item \<Rightarrow> nav_menu \<Rightarrow> nav_menu" where
  "onNodeDragLeave d m = (if item_path d = [] then m else m\<lparr>dragCache := (dragCache m)(item_path d := False)\<rparr>)"

definition onNodeDragEnd :: "nav_menu \<Rightarrow> nav_menu" where
  "onNodeDragEnd m = m\<lparr>dragCache := (\<lambda>k. False)\<rparr>"

definition isSelected :: "nav_menu \<Rightarrow> file_item \<Rightarrow> bool" where
  "isSelected m d \<longleftrightarrow> item_path d \<noteq> [] \<and> selectedCache m (item_path d)"

definition isDroppable :: "nav_menu \<Rightarrow> file_item \<Rightarrow> bool" where
  "isDroppable m d \<longleftrightarrow> item_path d \<noteq> [] \<and> dragCache m (item_path d)"

definition isShowContextMenu :: "nav_menu \<Rightarrow> file_item \<Rightarrow> bool" where
  "isShowContextMenu m d \<longleftrightarrow> map_option item_path (activeContextMenuItem m) = Some (item_path d)"

text \<open>\<open>allowDrop\<close>, for the path of the dragged item and of its parent.\<close>

definition allowDrop :: "string \<Rightarrow> string option \<Rightarrow> file_item \<Rightarrow> string \<Rightarrow> bool" where
  "allowDrop dragged parent d type \<longleftrightarrow>
     type = ''inner'' \<and> dragged \<noteq> item_path d \<and> parent \<noteq> Some (item_path d) \<and> is_dir d"

datatype nav_event =
    ClickNode file_item
  | ClickTimeout nat
  | ShowContextMenu file_item
  | HideContextMenu
  | ContextTimeout
  | RenameNode file_item "string option"
  | CloneNode file_item "string option"
  | NewFile file_item "string option"
  | NewDirectory file_item "string option"
  | UploadFiles file_item
  | DeleteNode file_item bool
  | CreateSpider file_item
  | DeleteSpider file_item
  | KeyDown string
  | KeyUp string
  | DragEnter file_item
  | DragLeave file_item
  | DragEnd
  | DropNode file_item file_item
  | ExpandNode file_item
  | CollapseNode file_item

definition is_ctrl :: "string \<Rightarrow> bool" where
  "is_ctrl k \<longleftrightarrow> k = ''Control'' \<or> k = ''Meta''"

fun nav_step :: "nav_event \<Rightarrow> nav_menu \<Rightarrow> nav_menu" where
  "nav_step (ClickNode d) m = onNodeClick d m"
| "nav_step (ClickTimeout i) m = click_timeout i m"
| "nav_step (ShowContextMenu d) m = onNodeContextMenuShow d m"
| "nav_step HideContextMenu m = m\<lparr>activeContextMenuItem := None\<rparr>"
| "nav_step ContextTimeout m = context_timeout m"
| "nav_step (RenameNode d answer) m = onNodeContextMenuRename d answer m"
| "nav_step (CloneNode d answer) m = onNodeContextMenuClone d answer m"
| "nav_step (NewFile d answer) m = onNodeContextMenuNewFile d answer m"
| "nav_step (NewDirectory d answer) m = onNodeContextMenuNewDirectory d answer m"
| "nav_step (UploadFiles d) m = emit_nav (MenuUploadFiles d) m"
| "nav_step (DeleteNode d confirmed) m = onNodeContextMenuDelete d confirmed m"
| "nav_step (CreateSpider d) m = emit_nav (MenuCreateSpider d) m"
| "nav_step (DeleteSpider d) m = emit_nav (MenuDeleteSpider d) m"
| "nav_step (KeyDown k) m = (if is_ctrl k then m\<lparr>isCtrlKeyPressed := True\<rparr> else m)"
| "nav_step (KeyUp k) m = (if is_ctrl k then m\<lparr>isCtrlKeyPressed := False\<rparr> else m)"
| "nav_step (DragEnter d) m = onNodeDragEnter d m"
| "nav_step (DragLeave d) m = onNodeDragLeave d m"
| "nav_step DragEnd m = onNodeDragEnd m"
| "nav_step (DropNode a b) m = emit_nav (NodeDrop a b) m"
| "nav_step (ExpandNode d) m = addDefaultExpandedKey (item_path d) m"
| "nav_step (CollapseNode d) m = removeDefaultExpandedKey (item_path d) m"

section \<open>Searching files\<close>

text \<open>The files of a tree, by name and path.\<close>

fun item_files :: "file_item \<Rightarrow> (string \<times> string) set" where
  "item_files (File n p) = {(n, p)}"
| "item_files (Dir n p cs) = (\<Union>c \<in> set cs. item_files c)"

lemma shown_files: "(\<Union>d' \<in> set (shown_item cmp q d). item_files d') = {f \<in> item_files d. name_matches q (fst f)}"
proof (induction d)
  case (File n p)
  then show ?case by auto
next
  case (Dir n p cs)
  let ?ch = "concat (map (shown_item cmp q) cs)"
  have "(\<Union>d' \<in> set ?ch. item_files d') = (\<Union>c \<in> set cs. \<Union>d' \<in> set (shown_item cmp q c). item_files d')" by auto
  also have "\<dots> = (\<Union>c \<in> set cs. {f \<in> item_files c. name_matches q (fst f)})" using Dir by (rule SUP_cong [OF refl])
  finally have files: "(\<Union>d' \<in> set ?ch. item_files d') = {f \<in> item_files (Dir n p cs). name_matches q (fst f)}" by auto
  show ?case
  proof (cases "q = [] \<or> ?ch \<noteq> []")
    case True
    then show ?thesis using files by (auto simp: Let_def)
  next
    case False
    then have "?ch = []" "shown_item cmp q (Dir n p cs) = []" by (auto simp: Let_def)
    with files show ?thesis by simp
  qed
qed

definition tree_files :: "file_item list \<Rightarrow> (string \<times> string) set" where
  "tree_files items = (\<Union>d \<in> set items. item_files d)"

lemma filtered_files: "tree_files (getFilteredFiles cmp q items) = {f \<in> tree_files items. name_matches q (fst f)}"
proof -
  have "tree_files (getFilteredFiles cmp q items) = (\<Union>d \<in> set items. \<Union>d' \<in> set (shown_item cmp q d). item_files d')"
    by (auto simp: tree_files_def getFilteredFiles_def)
  also have "\<dots> = {f \<in> tree_files items. name_matches q (fst f)}"
    unfolding shown_files tree_files_def by auto
  finally show ?thesis .
qed

lemma shown_single: "shown_item cmp q d = [] \<or> (\<exists>d'. shown_item cmp q d = [d'])"
  by (cases d) (auto simp: Let_def)

lemma searched_item_files:
  "item_files (case shown_item cmp q d of [] \<Rightarrow> d | d' # _ \<Rightarrow> d') =
     (if shown_item cmp q d = [] then item_files d else {f \<in> item_files d. name_matches q (fst f)})"
  using shown_single [of cmp q d] shown_files [of cmp q d] by auto

text \<open>A search shows a directory only with a file below it, unless nothing is searched for.\<close>

fun no_empty_dirs :: "file_item \<Rightarrow> bool" where
  "no_empty_dirs (File n p) = True"
| "no_empty_dirs (Dir n p cs) = (cs \<noteq> [] \<and> list_all no_empty_dirs cs)"

lemma shown_no_empty: "q \<noteq> [] \<Longrightarrow> list_all no_empty_dirs (shown_item cmp q d)"
  by (induction d) (auto simp: Let_def list_all_iff)

text \<open>
  C35: A search shows exactly the files whose name contains the text, wherever they are, and no
  directory without one. But it changes the directories of the store in place, so a later search, even
  for nothing, depends on it: of a directory at the top level in which the first search found a file
  it shows only the files that match both; of the other items at the top level, files and directories in
  which the first search found nothing, it shows the files that match the second search alone.
\<close>
theorem search_shows_matches:
  "tree_files (getFilteredFiles cmp q items) = {f \<in> tree_files items. name_matches q (fst f)}
   \<and> (q \<noteq> [] \<longrightarrow> list_all no_empty_dirs (getFilteredFiles cmp q items))
   \<and> tree_files (getFilteredFiles cmp q2 (searched_items cmp q items)) =
       (\<Union>d \<in> set items. {f \<in> item_files d. name_matches q2 (fst f) \<and> (shown_item cmp q d \<noteq> [] \<longrightarrow> name_matches q (fst f))})"
proof -
  have "list_all no_empty_dirs (getFilteredFiles cmp q items)" if "q \<noteq> []"
    using shown_no_empty [OF that] by (auto simp: getFilteredFiles_def list_all_iff)
  moreover have "tree_files (searched_items cmp q items) =
      (\<Union>d \<in> set items. {f \<in> item_files d. shown_item cmp q d \<noteq> [] \<longrightarrow> name_matches q (fst f)})"
    unfolding tree_files_def searched_items_def set_map image_image searched_item_files
    by (auto split: if_splits)
  ultimately show ?thesis by (auto simp: filtered_files)
qed

definition example_files :: "file_item list" where
  "example_files = [Dir ''d'' ''/d'' [File ''a'' ''/d/a'', File ''b'' ''/d/b'']]"

theorem search_shows_matches_witness:
  "tree_files (getFilteredFiles (\<lambda>x y. 0) ''a'' example_files) = {(''a'', ''/d/a'')}
   \<and> list_all no_empty_dirs (getFilteredFiles (\<lambda>x y. 0) ''a'' example_files)"
proof -
  have "{f \<in> tree_files example_files. name_matches ''a'' (fst f)} = {(''a'', ''/d/a'')}"
    by (auto simp: tree_files_def example_files_def name_matches_def lower_def lower_char_def starts_with_def)
  then show ?thesis
    using search_shows_matches [of "\<lambda>x y. 0" "''a''" example_files "[]"] by simp
qed

text \<open>After searching for one file of a directory and clearing the search, the others are gone.\<close>

lemma search_loses_files:
  "getFilteredFiles cmp [] (searched_items cmp ''a'' [Dir ''d'' ''/d'' [File ''a'' ''/d/a'', File ''b'' ''/d/b'']])
     = [Dir ''d'' ''/d'' [File ''a'' ''/d/a'']]"
  by (simp add: getFilteredFiles_def searched_items_def name_matches_def sort_by_def lower_def starts_with_def
      lower_char_def Let_def)

section \<open>Clicks and selection\<close>

inductive nav_reachable :: "nav_event list \<Rightarrow> nav_menu \<Rightarrow> bool" where
  start: "nav_reachable [] nav_init"
| step: "nav_reachable es m \<Longrightarrow> nav_reachable (es @ [e]) (nav_step e m)"

definition clicked_items :: "nav_event list \<Rightarrow> file_item list" where
  "clicked_items es = concat (map (\<lambda>e. case e of ClickNode d \<Rightarrow> [d] | _ \<Rightarrow> []) es)"

definition opened_items :: "nav_emission list \<Rightarrow> file_item list" where
  "opened_items es = concat (map (\<lambda>e. case e of NodeClick d \<Rightarrow> [d] | NodeDbClick d \<Rightarrow> [d] | _ \<Rightarrow> []) es)"

definition nav_ok :: "nav_event list \<Rightarrow> nav_menu \<Rightarrow> bool" where
  "nav_ok es m \<longleftrightarrow>
     (clicked m \<longrightarrow> click_item m \<noteq> None)
     \<and> set (click_timers m) \<subseteq> set (clicked_items es)
     \<and> set (opened_items (emitted m)) \<subseteq> set (clicked_items es)
     \<and> length (opened_items (emitted m)) + length (click_timers m) \<le> length (clicked_items es)
     \<and> (\<forall>d. NodeDbClick d \<in> set (emitted m) \<longrightarrow> \<not> is_dir d)
     \<and> distinct (expandedKeys m)"

lemma clicked_items_append [simp]:
  "clicked_items (es @ [e]) = clicked_items es @ (case e of ClickNode d \<Rightarrow> [d] | _ \<Rightarrow> [])"
  by (simp add: clicked_items_def)

lemma emit_nav_simps [simp]:
  "emitted (emit_nav e m) = emitted m @ [e]" "click_timers (emit_nav e m) = click_timers m" "clicked (emit_nav e m) = clicked m"
  "click_item (emit_nav e m) = click_item m" "expandedKeys (emit_nav e m) = expandedKeys m"
  by (simp_all add: emit_nav_def)

lemma select_simps [simp]:
  "emitted (updateSelectedMap d m) = emitted m" "click_timers (updateSelectedMap d m) = click_timers m"
  "clicked (updateSelectedMap d m) = clicked m" "click_item (updateSelectedMap d m) = click_item m"
  "expandedKeys (updateSelectedMap d m) = expandedKeys m"
  by (simp_all add: updateSelectedMap_def)

lemma reset_simps [simp]:
  "emitted (resetClickStatus m) = emitted m" "click_timers (resetClickStatus m) = click_timers m"
  "\<not> clicked (resetClickStatus m)" "click_item (resetClickStatus m) = None" "expandedKeys (resetClickStatus m) = expandedKeys m"
  by (simp_all add: resetClickStatus_def)

lemma opened_append [simp]:
  "opened_items (es @ [e]) = opened_items es @ (case e of NodeClick d \<Rightarrow> [d] | NodeDbClick d \<Rightarrow> [d] | _ \<Rightarrow> [])"
  by (simp add: opened_items_def)

lemma nav_step_ok: "nav_ok es m \<Longrightarrow> nav_ok (es @ [e]) (nav_step e m)"
proof (cases e)
  case (ClickNode d)
  then show "nav_ok es m \<Longrightarrow> ?thesis" by (auto simp: nav_ok_def onNodeClick_def)
next
  case (ClickTimeout i)
  assume ok: "nav_ok es m"
  show ?thesis
  proof (cases "i < length (click_timers m)")
    case True
    let ?rest = "take i (click_timers m) @ drop (Suc i) (click_timers m)"
    have mem: "click_timers m ! i \<in> set (click_timers m)" "set ?rest \<subseteq> set (click_timers m)"
      using True by (auto dest: in_set_takeD in_set_dropD)
    have len: "Suc (length ?rest) = length (click_timers m)" using True by simp
    show ?thesis
      using ok mem len by (auto simp: ClickTimeout True nav_ok_def click_timeout_def Let_def)
  next
    case False
    then show ?thesis using ok ClickTimeout by (simp add: nav_ok_def click_timeout_def)
  qed
qed (auto simp: nav_ok_def onNodeContextMenuShow_def context_timeout_def onNodeContextMenuRename_def
    onNodeContextMenuClone_def onNodeContextMenuNewFile_def
    onNodeContextMenuNewDirectory_def onNodeContextMenuDelete_def onNodeDragEnter_def onNodeDragLeave_def onNodeDragEnd_def addDefaultExpandedKey_def
    removeDefaultExpandedKey_def split: option.split)

lemma nav_reachable_ok: "nav_reachable es m \<Longrightarrow> nav_ok es m"
  by (induction rule: nav_reachable.induct)
     (simp_all add: nav_step_ok, simp add: nav_ok_def nav_init_def clicked_items_def opened_items_def)

text \<open>Without the control key at most one item is selected.\<close>

definition single_selected :: "nav_menu \<Rightarrow> bool" where
  "single_selected m \<longleftrightarrow> \<not> isCtrlKeyPressed m \<and> (\<forall>k l. selectedCache m k \<and> selectedCache m l \<longrightarrow> k = l)"

lemma single_select: "single_selected m \<Longrightarrow> single_selected (updateSelectedMap d m)"
  by (auto simp: single_selected_def updateSelectedMap_def)

lemma nav_step_single:
  assumes "single_selected m" "\<forall>k. e = KeyDown k \<longrightarrow> \<not> is_ctrl k"
  shows "single_selected (nav_step e m)"
proof (cases e)
  case (ClickNode d)
  show ?thesis using assms(1) single_select [of "emit_nav (NodeDbClick d) m" d]
    by (auto simp: ClickNode onNodeClick_def single_selected_def resetClickStatus_def emit_nav_def)
next
  case (ClickTimeout i)
  let ?m = "m\<lparr>click_timers := take i (click_timers m) @ drop (Suc i) (click_timers m)\<rparr>"
  show ?thesis using assms(1) single_select [of "emit_nav (NodeClick (click_timers m ! i)) ?m" "click_timers m ! i"]
    by (auto simp: ClickTimeout click_timeout_def Let_def single_selected_def resetClickStatus_def emit_nav_def)
qed (use assms in \<open>auto simp: single_selected_def onNodeContextMenuShow_def context_timeout_def onNodeContextMenuRename_def
    onNodeContextMenuClone_def onNodeContextMenuNewFile_def
    onNodeContextMenuNewDirectory_def onNodeContextMenuDelete_def onNodeDragEnter_def onNodeDragLeave_def onNodeDragEnd_def addDefaultExpandedKey_def
    removeDefaultExpandedKey_def emit_nav_def split: option.split\<close>)

text \<open>
  C36: However clicks, timers, menus, keys and drags interleave after the tree is loaded, only items that were clicked are
  opened, at most once per click, and only files by a double click; without the control key at
  most one item is ever selected, and no directory is kept as expanded twice.
\<close>
theorem clicks_accounted:
  assumes "nav_reachable es m"
  shows "set (opened_items (emitted m)) \<subseteq> set (clicked_items es)
    \<and> length (opened_items (emitted m)) + length (click_timers m) \<le> length (clicked_items es)
    \<and> (\<forall>d. NodeDbClick d \<in> set (emitted m) \<longrightarrow> \<not> is_dir d)
    \<and> distinct (expandedKeys m)
    \<and> ((\<forall>k. KeyDown k \<in> set es \<longrightarrow> \<not> is_ctrl k) \<longrightarrow>
        (\<forall>a b. isSelected m a \<and> isSelected m b \<longrightarrow> item_path a = item_path b))"
proof -
  have "single_selected m" if "\<forall>k. KeyDown k \<in> set es \<longrightarrow> \<not> is_ctrl k"
    using assms that
  proof induction
    case start
    then show ?case by (simp add: single_selected_def nav_init_def)
  next
    case (step es m e)
    then show ?case by (auto intro: nav_step_single)
  qed
  then show ?thesis
    using nav_reachable_ok [OF assms] by (auto simp: nav_ok_def single_selected_def isSelected_def)
qed

definition double_click :: "nav_event list" where
  "double_click = [ClickNode (File ''a'' ''/a''), ClickNode (File ''a'' ''/a''), ClickTimeout 0]"

lemma double_click_run: "emitted (fold nav_step double_click nav_init) = [NodeDbClick (File ''a'' ''/a'')]"
  by (simp add: double_click_def onNodeClick_def click_timeout_def nav_init_def is_dir_def updateSelectedMap_def
      emit_nav_def resetClickStatus_def Let_def)

lemma nav_reachable_fold: "nav_reachable es (fold nav_step es nav_init)"
  by (induction es rule: rev_induct) (auto intro: nav_reachable.intros)

theorem clicks_accounted_witness:
  "set (opened_items (emitted (fold nav_step double_click nav_init))) \<subseteq> set (clicked_items double_click)
   \<and> NodeDbClick (File ''a'' ''/a'') \<in> set (emitted (fold nav_step double_click nav_init)) \<and> \<not> is_dir (File ''a'' ''/a'')
   \<and> distinct (expandedKeys (fold nav_step double_click nav_init))"
  using clicks_accounted [OF nav_reachable_fold [of double_click]] by (simp add: double_click_run)

text \<open>A click on another item within 200 ms is lost: the first timer takes it for its own.\<close>

lemma second_click_lost:
  "emitted (fold nav_step [ClickNode (File ''a'' ''/a''), ClickNode (File ''b'' ''/b''), ClickTimeout 0, ClickTimeout 0] nav_init)
     = [NodeClick (File ''a'' ''/a'')]"
  by (simp add: onNodeClick_def click_timeout_def nav_init_def updateSelectedMap_def emit_nav_def resetClickStatus_def Let_def)

lemma not_into_itself: "\<not> allowDrop (item_path d) p d ty" "\<not> allowDrop q (Some (item_path d)) d ty"
  by (simp_all add: allowDrop_def)

end
