(* ===== verification/UI_Columns.thy ===== *)
theory UI_Columns
  imports UI_Tabs UI_Store "HOL-Library.Multiset" "HOL-Library.List_Lexorder" "HOL-Library.Char_ord"
begin

text \<open>
  The columns of a table and the dialog that chooses them:
  \<^verbatim>\<open>components/ui/drag/DraggableList.vue\<close>, \<^verbatim>\<open>components/ui/transfer/TransferPanel.vue\<close>,
  \<^verbatim>\<open>components/ui/transfer/Transfer.vue\<close>, \<^verbatim>\<open>components/ui/table/TableColumnsTransfer.vue\<close>,
  \<^verbatim>\<open>components/ui/table/column.ts\<close> and \<^verbatim>\<open>utils/table.ts\<close>.

  The columns that the table component has rendered are a list of contexts; the table component is
  not part of the program, so a rendering is an event that yields any contexts of the shown columns.
  \<open>number\<close> is \<open>Number\<close> on strings, with \<open>None\<close> for NaN.
\<close>

section \<open>Lists whose items can be dragged\<close>

record drag_item =
  ikey :: string
  ilabel :: string
  idisabled :: bool

record drag_list =
  dragging_item :: "drag_item option"
  target_item :: "drag_item option"

definition key_index :: "drag_item \<Rightarrow> drag_item list \<Rightarrow> nat option" where
  "key_index x items = find_index (\<lambda>y. ikey y = ikey x) items"

definition orderedItems :: "drag_item list \<Rightarrow> drag_list \<Rightarrow> drag_item list" where
  "orderedItems items dl =
     (case (dragging_item dl, target_item dl) of
        (Some x, Some y) \<Rightarrow>
          (case (key_index x items, key_index y items) of
             (Some i, Some j) \<Rightarrow>
               (let rest = take i items @ drop (Suc i) items in take j rest @ x # drop j rest)
           | _ \<Rightarrow> items)
      | _ \<Rightarrow> items)"

definition onDragStart :: "drag_item \<Rightarrow> drag_list \<Rightarrow> drag_list" where
  "onDragStart x dl = dl\<lparr>dragging_item := Some x\<rparr>"

definition onDragEnter :: "drag_item \<Rightarrow> drag_list \<Rightarrow> drag_list" where
  "onDragEnter x dl =
     (case dragging_item dl of
        None \<Rightarrow> dl
      | Some d \<Rightarrow> if ikey d = ikey x then dl else dl\<lparr>target_item := Some x\<rparr>)"

definition onDragLeave :: "drag_item \<Rightarrow> drag_list \<Rightarrow> drag_list" where
  "onDragLeave x dl =
     (if target_item dl \<noteq> None \<or> dragging_item dl = None \<or> map_option ikey (dragging_item dl) = Some (ikey x) then dl
      else dl\<lparr>target_item := None\<rparr>)"

definition idle_drag :: drag_list where
  "idle_drag = \<lparr>dragging_item = None, target_item = None\<rparr>"

text \<open>Letting go yields the items in their new order.\<close>

definition onDragEnd :: "drag_item list \<Rightarrow> drag_list \<Rightarrow> drag_item list \<times> drag_list" where
  "onDragEnd items dl = (orderedItems items dl, dl\<lparr>dragging_item := None, target_item := None\<rparr>)"

section \<open>The panels\<close>

record transfer_panel =
  search_text :: string
  isCheckedAll :: bool
  isIntermediate :: bool
  drag :: drag_list

definition new_panel :: transfer_panel where
  "new_panel = \<lparr>search_text = [], isCheckedAll = False, isIntermediate = False, drag = idle_drag\<rparr>"

definition panel_items :: "drag_item list \<Rightarrow> transfer_panel \<Rightarrow> drag_item list" where
  "panel_items items p =
     (if search_text p = [] then items
      else filter (\<lambda>d. str_includes (lower (search_text p)) (lower (ilabel d))) items)"

definition panel_summary :: "string list \<Rightarrow> drag_item list \<Rightarrow> string" where
  "panel_summary checked items = dec_nat (length checked) @ ''/'' @ dec_nat (length items)"

definition check_all_keys :: "drag_item list \<Rightarrow> bool \<Rightarrow> string list" where
  "check_all_keys items v = (if v then map ikey items else [])"

definition watch_checked :: "string list \<Rightarrow> drag_item list \<Rightarrow> transfer_panel \<Rightarrow> transfer_panel" where
  "watch_checked checked items p =
     p\<lparr>isCheckedAll := checked \<noteq> [] \<and> length checked = length items,
       isIntermediate := checked \<noteq> [] \<and> length checked < length items\<rparr>"

section \<open>Choosing columns\<close>

record table_column =
  ckey :: string
  clabel :: string
  cwidth :: js
  default_hidden :: bool
  disable_transfer :: bool

definition computedData :: "table_column list \<Rightarrow> drag_item list" where
  "computedData cs = map (\<lambda>c. \<lparr>ikey = ckey c, ilabel = clabel c, idisabled = disable_transfer c\<rparr>) cs"

record transfer =
  chosen :: "string list"
  leftChecked :: "string list"
  rightChecked :: "string list"
  left_panel :: transfer_panel
  right_panel :: transfer_panel

definition new_transfer :: "string list \<Rightarrow> transfer" where
  "new_transfer keys =
     \<lparr>chosen = keys, leftChecked = [], rightChecked = [], left_panel = new_panel, right_panel = new_panel\<rparr>"

text \<open>The last of several items with one key counts; a key without an item is undefined.\<close>

definition dataMap :: "drag_item list \<Rightarrow> string \<Rightarrow> drag_item option" where
  "dataMap items k = find (\<lambda>d. ikey d = k) (rev items)"

definition leftData :: "drag_item list \<Rightarrow> transfer \<Rightarrow> drag_item list" where
  "leftData items t = filter (\<lambda>d. ikey d \<notin> set (chosen t)) items"

definition rightData :: "drag_item list \<Rightarrow> transfer \<Rightarrow> drag_item option list" where
  "rightData items t = map (dataMap items) (chosen t)"

definition rightItems :: "drag_item list \<Rightarrow> transfer \<Rightarrow> drag_item list" where
  "rightItems items t = (case those (rightData items t) of None \<Rightarrow> [] | Some ds \<Rightarrow> ds)"

definition watch_left :: "drag_item list \<Rightarrow> transfer \<Rightarrow> transfer" where
  "watch_left items t = t\<lparr>left_panel := watch_checked (leftChecked t) (leftData items t) (left_panel t)\<rparr>"

definition watch_right :: "drag_item list \<Rightarrow> transfer \<Rightarrow> transfer" where
  "watch_right items t = t\<lparr>right_panel := watch_checked (rightChecked t) (rightItems items t) (right_panel t)\<rparr>"

definition onLeftCheck :: "drag_item list \<Rightarrow> string list \<Rightarrow> transfer \<Rightarrow> transfer" where
  "onLeftCheck items v t = watch_left items (t\<lparr>leftChecked := v\<rparr>)"

definition onRightCheck :: "drag_item list \<Rightarrow> string list \<Rightarrow> transfer \<Rightarrow> transfer" where
  "onRightCheck items v t = watch_right items (t\<lparr>rightChecked := v\<rparr>)"

definition onLeftMove :: "drag_item list \<Rightarrow> transfer \<Rightarrow> transfer" where
  "onLeftMove items t =
     (if rightChecked t = [] then t
      else watch_right items (t\<lparr>chosen := filter (\<lambda>k. k \<notin> set (rightChecked t)) (chosen t), rightChecked := []\<rparr>))"

definition onRightMove :: "drag_item list \<Rightarrow> transfer \<Rightarrow> transfer" where
  "onRightMove items t =
     (if leftChecked t = [] then t
      else watch_left items (t\<lparr>chosen := chosen t @ leftChecked t, leftChecked := []\<rparr>))"

definition onLeftDrag :: "drag_item list \<Rightarrow> transfer \<Rightarrow> transfer" where
  "onLeftDrag dragged t = t\<lparr>chosen := filter (\<lambda>k. k \<notin> ikey ` set dragged) (chosen t)\<rparr>"

definition onRightDrag :: "drag_item list \<Rightarrow> transfer \<Rightarrow> transfer" where
  "onRightDrag dragged t = t\<lparr>chosen := map ikey dragged\<rparr>"

text \<open>
  What a user does in one of the panels. An item is named by its place among the shown ones;
  a disabled one cannot be ticked.
\<close>

datatype panel_event =
    ToggleItem nat
  | ToggleAll bool
  | SearchItems string
  | StartDrag nat
  | EnterItem nat
  | LeaveItem nat
  | EndDrag

definition toggled :: "string \<Rightarrow> string list \<Rightarrow> string list" where
  "toggled k ks = (if k \<in> set ks then filter (\<lambda>l. l \<noteq> k) ks else ks @ [k])"

definition shown_items :: "drag_item list \<Rightarrow> transfer_panel \<Rightarrow> drag_item list" where
  "shown_items items p = orderedItems (panel_items items p) (drag p)"

definition on_panel_drag :: "drag_item list \<Rightarrow> panel_event \<Rightarrow> transfer_panel \<Rightarrow> transfer_panel" where
  "on_panel_drag items e p =
     (let shown = shown_items items p in
      case e of
        SearchItems s \<Rightarrow> p\<lparr>search_text := s\<rparr>
      | StartDrag i \<Rightarrow> if i < length shown then p\<lparr>drag := onDragStart (shown ! i) (drag p)\<rparr> else p
      | EnterItem i \<Rightarrow> if i < length shown then p\<lparr>drag := onDragEnter (shown ! i) (drag p)\<rparr> else p
      | LeaveItem i \<Rightarrow> if i < length shown then p\<lparr>drag := onDragLeave (shown ! i) (drag p)\<rparr> else p
      | EndDrag \<Rightarrow> p\<lparr>drag := snd (onDragEnd (panel_items items p) (drag p))\<rparr>
      | _ \<Rightarrow> p)"

definition panel_checked :: "drag_item list \<Rightarrow> panel_event \<Rightarrow> transfer_panel \<Rightarrow> string list \<Rightarrow> string list option" where
  "panel_checked items e p checked =
     (let shown = shown_items items p in
      case e of
        ToggleItem i \<Rightarrow>
          if i < length shown \<and> \<not> idisabled (shown ! i) then Some (toggled (ikey (shown ! i)) checked) else None
      | ToggleAll v \<Rightarrow> if items = [] then None else Some (check_all_keys items v)
      | _ \<Rightarrow> None)"

definition left_event :: "drag_item list \<Rightarrow> panel_event \<Rightarrow> transfer \<Rightarrow> transfer" where
  "left_event items e t =
     (case panel_checked (leftData items t) e (left_panel t) (leftChecked t) of
        Some v \<Rightarrow> onLeftCheck items v t
      | None \<Rightarrow>
          (let t' = t\<lparr>left_panel := on_panel_drag (leftData items t) e (left_panel t)\<rparr> in
           if e = EndDrag then onLeftDrag (fst (onDragEnd (panel_items (leftData items t) (left_panel t)) (drag (left_panel t)))) t'
           else t'))"

definition right_event :: "drag_item list \<Rightarrow> panel_event \<Rightarrow> transfer \<Rightarrow> transfer" where
  "right_event items e t =
     (case panel_checked (rightItems items t) e (right_panel t) (rightChecked t) of
        Some v \<Rightarrow> onRightCheck items v t
      | None \<Rightarrow>
          (let t' = t\<lparr>right_panel := on_panel_drag (rightItems items t) e (right_panel t)\<rparr> in
           if e = EndDrag then onRightDrag (fst (onDragEnd (panel_items (rightItems items t) (right_panel t)) (drag (right_panel t)))) t'
           else t'))"

section \<open>The columns of the table\<close>

record column_ctx =
  columnKey :: string
  ctx_type :: string
  ctx_width :: js

record column_view =
  dialog :: transfer
  columnsTransferVisible :: bool
  selected_keys :: "string list"
  rendered :: "column_ctx list"
  set_columns :: "column_ctx option list option"

text \<open>\<open>getColumnWidth\<close>: a width that is a text may end in \<open>px\<close>.\<close>

fun drop_px :: "string \<Rightarrow> string" where
  "drop_px (CHR ''p'' # CHR ''x'' # s) = s"
| "drop_px (c # s) = c # drop_px s"
| "drop_px [] = []"

definition getColumnWidth :: "(string \<Rightarrow> int option) \<Rightarrow> table_column \<Rightarrow> js" where
  "getColumnWidth number c =
     (case cwidth c of
        Str s \<Rightarrow> (case number (drop_px s) of None \<Rightarrow> Undef | Some n \<Rightarrow> Num n)
      | w \<Rightarrow> w)"

definition columnsMap :: "table_column list \<Rightarrow> string \<Rightarrow> table_column option" where
  "columnsMap cs k = find (\<lambda>c. ckey c = k) (rev cs)"

definition columnCtxMap :: "column_ctx list \<Rightarrow> string \<Rightarrow> column_ctx option" where
  "columnCtxMap xs k = find (\<lambda>x. columnKey x = k) (rev xs)"

definition fixed_total :: "(string \<Rightarrow> int option) \<Rightarrow> table_column list \<Rightarrow> int" where
  "fixed_total number cs = sum_list (map (\<lambda>c. case getColumnWidth number c of Num n \<Rightarrow> n | _ \<Rightarrow> 0) cs)"

definition auto_width :: "(string \<Rightarrow> int option) \<Rightarrow> table_column list \<Rightarrow> int option \<Rightarrow> int" where
  "auto_width number cs width =
     (case width of
        None \<Rightarrow> 0
      | Some w \<Rightarrow> if w = 0 then 0 else w - fixed_total number cs - 40 - 12)"

definition isColumnsEqual :: "string list \<Rightarrow> string list \<Rightarrow> bool" where
  "isColumnsEqual ks ls \<longleftrightarrow> join '','' (sort ks) = join '','' (sort ls)"

text \<open>
  The contexts of the columns with their widths set in place; a column that is not rendered has
  none, and setting its width throws.
\<close>

definition set_width :: "string \<Rightarrow> int \<Rightarrow> column_ctx list \<Rightarrow> column_ctx list" where
  "set_width k w xs =
     (case find_index (\<lambda>x. columnKey x = k) (rev xs) of
        None \<Rightarrow> xs
      | Some i \<Rightarrow> (let j = length xs - 1 - i in xs[j := (xs ! j)\<lparr>ctx_width := Num w\<rparr>]))"

fun size_columns :: "table_column list \<Rightarrow> int \<Rightarrow> string list \<Rightarrow> column_ctx list \<Rightarrow> bool \<times> column_ctx list" where
  "size_columns cs aw [] xs = (True, xs)"
| "size_columns cs aw (k # ks) xs =
     (if map_option cwidth (columnsMap cs k) = Some (Str ''auto'') \<and> aw \<noteq> 0 then
        (if columnCtxMap xs k = None then (False, xs)
         else size_columns cs aw ks (set_width k (max 400 aw) xs))
      else size_columns cs aw ks xs)"

definition selection_keys :: "column_ctx list \<Rightarrow> string list" where
  "selection_keys xs = map columnKey (filter (\<lambda>x. ctx_type x = ''selection'') xs)"

definition updateColumns ::
  "(string \<Rightarrow> int option) \<Rightarrow> table_column list \<Rightarrow> int option \<Rightarrow> string list \<Rightarrow> column_view \<Rightarrow> bool \<times> column_view" where
  "updateColumns number cs width ks v =
     (let keys = selection_keys (rendered v) @ ks;
          (ok, xs) = size_columns cs (auto_width number cs width) keys (rendered v);
          v1 = v\<lparr>rendered := xs\<rparr> in
      if \<not> ok then (False, v1)
      else (True,
        (if isColumnsEqual ks (selected_keys v) then v1\<lparr>set_columns := Some (map (columnCtxMap xs) keys)\<rparr> else v1)
          \<lparr>selected_keys := ks\<rparr>))"

definition defaultSelectedColumns :: "table_column list \<Rightarrow> table_column list" where
  "defaultSelectedColumns cs = filter (\<lambda>c. \<not> default_hidden c) cs"

definition initColumns :: "table_column list \<Rightarrow> string list" where
  "initColumns cs =
     (if length (defaultSelectedColumns cs) < length cs then map ckey (defaultSelectedColumns cs) else map ckey cs)"

definition new_view :: "table_column list \<Rightarrow> column_view" where
  "new_view cs =
     \<lparr>dialog = new_transfer (initColumns cs), columnsTransferVisible = False, selected_keys = initColumns cs,
      rendered = [], set_columns = None\<rparr>"

datatype column_event =
    ShowTransfer
  | CloseTransfer
  | ConfirmTransfer "int option"
  | MountedTimeout "int option"
  | LeftPanel panel_event
  | RightPanel panel_event
  | MoveLeft
  | MoveRight
  | TableRendered "column_ctx list"

definition onConfirm_columns ::
  "(string \<Rightarrow> int option) \<Rightarrow> table_column list \<Rightarrow> int option \<Rightarrow> column_view \<Rightarrow> column_view" where
  "onConfirm_columns number cs width v =
     (snd (updateColumns number cs width (chosen (dialog v)) v))\<lparr>columnsTransferVisible := False\<rparr>"

fun column_step :: "(string \<Rightarrow> int option) \<Rightarrow> table_column list \<Rightarrow> column_event \<Rightarrow> column_view \<Rightarrow> column_view" where
  "column_step number cs ShowTransfer v = v\<lparr>columnsTransferVisible := True\<rparr>"
| "column_step number cs CloseTransfer v = v\<lparr>columnsTransferVisible := False\<rparr>"
| "column_step number cs (ConfirmTransfer width) v = onConfirm_columns number cs width v"
| "column_step number cs (MountedTimeout width) v = snd (updateColumns number cs width (selected_keys v) v)"
| "column_step number cs (LeftPanel e) v = v\<lparr>dialog := left_event (computedData cs) e (dialog v)\<rparr>"
| "column_step number cs (RightPanel e) v = v\<lparr>dialog := right_event (computedData cs) e (dialog v)\<rparr>"
| "column_step number cs MoveLeft v = v\<lparr>dialog := onLeftMove (computedData cs) (dialog v)\<rparr>"
| "column_step number cs MoveRight v = v\<lparr>dialog := onRightMove (computedData cs) (dialog v)\<rparr>"
| "column_step number cs (TableRendered xs) v = v\<lparr>rendered := xs\<rparr>"

section \<open>Every column is on one side\<close>

text \<open>Dragging permutes the keys of a list, whatever is dragged where.\<close>

lemma key_index_key: "key_index x items = Some i \<Longrightarrow> i < length items \<and> ikey (items ! i) = ikey x"
  unfolding key_index_def by (drule find_index_Some) auto

lemma orderedItems_keys: "mset (map ikey (orderedItems items dl)) = mset (map ikey items)"
proof -
  have "mset (map ikey (take j (take i items @ drop (Suc i) items) @ x # drop j (take i items @ drop (Suc i) items)))
      = mset (map ikey items)" (is "mset (map ikey (take j ?rest @ x # drop j ?rest)) = _")
    if "key_index x items = Some i" for i j x
  proof -
    have i: "i < length items" "ikey (items ! i) = ikey x" using key_index_key [OF that] by auto
    have "mset (take j ?rest @ x # drop j ?rest) = mset ?rest + {#x#}"
      by (metis append_take_drop_id mset_append union_commute add_mset_add_single mset.simps(2) union_mset_add_mset_right)
    then have "mset (map ikey (take j ?rest @ x # drop j ?rest)) = image_mset ikey (mset ?rest) + {#ikey x#}"
      by (simp only: mset_map image_mset_union image_mset_single)
    also have "\<dots> = image_mset ikey (mset ?rest + {#items ! i#})" by (simp add: i(2))
    also have "\<dots> = mset (map ikey items)" by (simp only: mset_delete_nth [OF i(1)] mset_map)
    finally show ?thesis .
  qed
  then show ?thesis by (simp add: orderedItems_def Let_def split: option.split)
qed

lemma orderedItems_key_set: "ikey ` set (orderedItems items dl) = ikey ` set items"
  using arg_cong [OF orderedItems_keys [of items dl], of set_mset] by simp

lemma panel_items_subset: "set (panel_items items p) \<subseteq> set items"
  by (auto simp: panel_items_def)

lemma panel_items_distinct: "distinct (map ikey items) \<Longrightarrow> distinct (map ikey (panel_items items p))"
  by (auto simp: panel_items_def distinct_map intro: inj_on_subset)

lemma shown_item_key: "i < length (shown_items items p) \<Longrightarrow> ikey (shown_items items p ! i) \<in> ikey ` set items"
  using orderedItems_key_set [of "panel_items items p" "drag p"] panel_items_subset [of items p]
  by (fastforce simp: shown_items_def dest: nth_mem)

text \<open>The items of the right side are those of the chosen keys, if they are known.\<close>

lemma find_last_key: "k \<in> f ` set xs \<Longrightarrow> \<exists>d. find (\<lambda>d. f d = k) (rev xs) = Some d \<and> f d = k \<and> d \<in> set xs"
proof -
  have "\<exists>d. find (\<lambda>d. f d = k) ys = Some d \<and> f d = k \<and> d \<in> set ys" if "k \<in> f ` set ys" for ys
    using that by (induction ys) auto
  from this [of "rev xs"] show "k \<in> f ` set xs \<Longrightarrow> ?thesis" by simp
qed

lemma dataMap_Some: "k \<in> ikey ` set items \<Longrightarrow> \<exists>d. dataMap items k = Some d \<and> ikey d = k \<and> d \<in> set items"
  unfolding dataMap_def by (rule find_last_key)

lemma rightItems_keys:
  assumes "set (chosen t) \<subseteq> ikey ` set items"
  shows "map ikey (rightItems items t) = chosen t"
proof -
  have "\<exists>ds. those (map (dataMap items) ks) = Some ds \<and> map ikey ds = ks" if "set ks \<subseteq> ikey ` set items" for ks
    using that by (induction ks) (auto dest!: dataMap_Some)
  from this [OF assms] show ?thesis by (auto simp: rightItems_def rightData_def)
qed

definition transfer_ok :: "drag_item list \<Rightarrow> transfer \<Rightarrow> bool" where
  "transfer_ok items t \<longleftrightarrow>
     distinct (chosen t) \<and> set (chosen t) \<subseteq> ikey ` set items
     \<and> distinct (leftChecked t) \<and> set (leftChecked t) \<subseteq> ikey ` set items - set (chosen t)"

lemma transfer_ok_cong:
  "chosen t' = chosen t \<Longrightarrow> leftChecked t' = leftChecked t \<Longrightarrow> transfer_ok items t' = transfer_ok items t"
  by (simp add: transfer_ok_def)

lemma watch_simps [simp]:
  "chosen (watch_left items t) = chosen t" "leftChecked (watch_left items t) = leftChecked t"
  "chosen (watch_right items t) = chosen t" "leftChecked (watch_right items t) = leftChecked t"
  by (simp_all add: watch_left_def watch_right_def)

lemma leftData_keys: "ikey ` set (leftData items t) = ikey ` set items - set (chosen t)"
  by (auto simp: leftData_def)

lemma leftData_distinct: "distinct (map ikey items) \<Longrightarrow> distinct (map ikey (leftData items t))"
  by (auto simp: leftData_def distinct_map intro: inj_on_subset)

lemma toggled_props: "distinct ks \<Longrightarrow> distinct (toggled k ks)" "set (toggled k ks) \<subseteq> insert k (set ks)"
  by (auto simp: toggled_def)

lemma left_event_ok:
  assumes d: "distinct (map ikey items)" and ok: "transfer_ok items t"
  shows "transfer_ok items (left_event items e t)"
proof (cases "panel_checked (leftData items t) e (left_panel t) (leftChecked t)")
  case (Some v)
  have "distinct v \<and> set v \<subseteq> ikey ` set items - set (chosen t)"
  proof (cases e)
    case (ToggleItem i)
    then have i: "i < length (shown_items (leftData items t) (left_panel t))"
      and v: "v = toggled (ikey (shown_items (leftData items t) (left_panel t) ! i)) (leftChecked t)"
      using Some by (auto simp: panel_checked_def Let_def split: if_splits)
    have "ikey (shown_items (leftData items t) (left_panel t) ! i) \<in> ikey ` set items - set (chosen t)"
      using shown_item_key [OF i] unfolding leftData_keys .
    then show ?thesis using ok toggled_props v unfolding transfer_ok_def by blast
  next
    case (ToggleAll b)
    then have "v = check_all_keys (leftData items t) b"
      using Some by (auto simp: panel_checked_def Let_def split: if_splits)
    then show ?thesis using leftData_distinct [OF d, of t] leftData_keys [of items t]
      by (auto simp: check_all_keys_def)
  qed (use Some in \<open>auto simp: panel_checked_def Let_def\<close>)
  then show ?thesis using Some ok by (auto simp: left_event_def onLeftCheck_def transfer_ok_def)
next
  case None
  let ?s = "fst (onDragEnd (panel_items (leftData items t) (left_panel t)) (drag (left_panel t)))"
  have "ikey ` set ?s \<subseteq> ikey ` set items - set (chosen t)"
    using orderedItems_key_set [of "panel_items (leftData items t) (left_panel t)" "drag (left_panel t)"]
      image_mono [OF panel_items_subset [of "leftData items t" "left_panel t"], of ikey]
    by (simp add: onDragEnd_def leftData_keys)
  then have "filter (\<lambda>k. k \<notin> ikey ` set ?s) (chosen t) = chosen t" by (auto simp: filter_id_conv)
  then have "chosen (left_event items e t) = chosen t" "leftChecked (left_event items e t) = leftChecked t"
    using None by (simp_all add: left_event_def onLeftDrag_def Let_def)
  then show ?thesis using ok transfer_ok_cong by blast
qed

lemma right_event_ok:
  assumes d: "distinct (map ikey items)" and ok: "transfer_ok items t"
  shows "transfer_ok items (right_event items e t)"
proof (cases "panel_checked (rightItems items t) e (right_panel t) (rightChecked t)")
  case (Some v)
  then show ?thesis using ok by (simp add: right_event_def onRightCheck_def transfer_ok_def)
next
  case None
  let ?p = "panel_items (rightItems items t) (right_panel t)"
  let ?s = "fst (onDragEnd ?p (drag (right_panel t)))"
  have keys: "map ikey (rightItems items t) = chosen t"
    using ok by (intro rightItems_keys) (simp add: transfer_ok_def)
  have "mset (map ikey ?s) = mset (map ikey ?p)" unfolding onDragEnd_def fst_conv by (rule orderedItems_keys)
  moreover have "distinct (map ikey ?p)" using ok keys by (intro panel_items_distinct) (simp add: transfer_ok_def)
  ultimately have "distinct (map ikey ?s)" by (metis distinct_count_atmost_1 mset_eq_setD)
  moreover have "set (map ikey ?s) \<subseteq> set (chosen t)"
    using \<open>mset (map ikey ?s) = mset (map ikey ?p)\<close> panel_items_subset [of "rightItems items t" "right_panel t"] keys
    by (metis image_mono list.set_map mset_eq_setD)
  ultimately show ?thesis
    using ok None by (auto simp: right_event_def onRightDrag_def Let_def transfer_ok_def)
qed

lemma move_ok: "transfer_ok items t \<Longrightarrow> transfer_ok items (onLeftMove items t)"
  "transfer_ok items t \<Longrightarrow> transfer_ok items (onRightMove items t)"
  by (auto simp: transfer_ok_def onLeftMove_def onRightMove_def)

inductive columns_reachable :: "(string \<Rightarrow> int option) \<Rightarrow> table_column list \<Rightarrow> column_view \<Rightarrow> bool"
  for number cs where
  start: "columns_reachable number cs (new_view cs)"
| step: "columns_reachable number cs v \<Longrightarrow> columns_reachable number cs (column_step number cs e v)"

definition keys_ok :: "table_column list \<Rightarrow> string list \<Rightarrow> bool" where
  "keys_ok cs ks \<longleftrightarrow> distinct ks \<and> set ks \<subseteq> ckey ` set cs"

lemma computedData_keys: "map ikey (computedData cs) = map ckey cs" "ikey ` set (computedData cs) = ckey ` set cs"
  by (auto simp: computedData_def image_image)

lemma updateColumns_keys:
  "selected_keys (snd (updateColumns number cs width ks v)) \<in> {ks, selected_keys v}"
  "dialog (snd (updateColumns number cs width ks v)) = dialog v"
  by (simp_all add: updateColumns_def Let_def split: prod.split)

lemma initColumns_ok: "distinct (map ckey cs) \<Longrightarrow> keys_ok cs (initColumns cs)"
  by (auto simp: keys_ok_def initColumns_def defaultSelectedColumns_def distinct_map intro: inj_on_subset)

lemma column_step_ok:
  assumes d: "distinct (map ckey cs)" and t: "transfer_ok (computedData cs) (dialog v)" and k: "keys_ok cs (selected_keys v)"
  shows "transfer_ok (computedData cs) (dialog (column_step number cs e v)) \<and> keys_ok cs (selected_keys (column_step number cs e v))"
proof -
  have chosen: "keys_ok cs (chosen (dialog v))"
    using t by (simp add: transfer_ok_def keys_ok_def computedData_keys)
  have d': "distinct (map ikey (computedData cs))" by (simp add: computedData_keys d)
  show ?thesis
  proof (cases e)
    case (ConfirmTransfer width)
    then show ?thesis using t k chosen updateColumns_keys [of number cs width "chosen (dialog v)" v]
      by (auto simp: onConfirm_columns_def)
  next
    case (MountedTimeout width)
    then show ?thesis using t k updateColumns_keys [of number cs width "selected_keys v" v] by auto
  qed (simp_all add: t k left_event_ok [OF d'] right_event_ok [OF d'] move_ok)
qed

text \<open>
  C37: Whatever is ticked, searched, dragged, moved, confirmed and cancelled, and whatever the table
  renders, every column of a table is on exactly one side of the dialog, the ticked ones of the
  left side are on it, and the table shows distinct columns, each of them known.
\<close>
theorem columns_on_one_side:
  assumes "columns_reachable number cs v" "distinct (map ckey cs)"
  shows "mset (map ikey (leftData (computedData cs) (dialog v))) + mset (chosen (dialog v)) = mset (map ckey cs)
    \<and> set (leftChecked (dialog v)) \<subseteq> ikey ` set (leftData (computedData cs) (dialog v))
    \<and> distinct (selected_keys v)
    \<and> (\<forall>k \<in> set (selected_keys v). \<exists>c. columnsMap cs k = Some c \<and> ckey c = k)"
proof -
  have inv: "transfer_ok (computedData cs) (dialog v) \<and> keys_ok cs (selected_keys v)"
    using assms(1)
  proof induction
    case start
    then show ?case
      using initColumns_ok [OF assms(2)]
      by (simp add: new_view_def new_transfer_def transfer_ok_def keys_ok_def computedData_keys)
  next
    case (step v e)
    then show ?case using column_step_ok [OF assms(2)] by blast
  qed
  let ?l = "map ikey (leftData (computedData cs) (dialog v))"
  have "distinct (?l @ chosen (dialog v))" "set (?l @ chosen (dialog v)) = set (map ckey cs)"
    using inv leftData_distinct [of "computedData cs"] leftData_keys [of "computedData cs" "dialog v"] assms(2)
    by (auto simp: transfer_ok_def computedData_keys)
  then have "mset (?l @ chosen (dialog v)) = mset (map ckey cs)"
    using assms(2) by (simp only: set_eq_iff_mset_eq_distinct)
  moreover have "\<exists>c. columnsMap cs k = Some c \<and> ckey c = k" if "k \<in> set (selected_keys v)" for k
    using inv that find_last_key [of k ckey cs] by (auto simp: keys_ok_def columnsMap_def)
  ultimately show ?thesis
    using inv by (auto simp: transfer_ok_def keys_ok_def leftData_keys)
qed

definition example_columns :: "table_column list" where
  "example_columns =
     map (\<lambda>(k, w, h). \<lparr>ckey = k, clabel = k, cwidth = w, default_hidden = h, disable_transfer = False\<rparr>)
       [(''name'', Str ''150'', False), (''status'', Num 120, False), (''cmd'', Str ''auto'', False), (''node'', Undef, True)]"

lemma columns_reachable_fold: "columns_reachable number cs (fold (column_step number cs) es (new_view cs))"
  by (induction es rule: rev_induct) (auto intro: columns_reachable.intros)

theorem columns_on_one_side_witness:
  "mset (map ikey (leftData (computedData example_columns)
      (dialog (column_step (\<lambda>s. None) example_columns (LeftPanel (ToggleItem 0)) (new_view example_columns)))))
   + mset (chosen (dialog (column_step (\<lambda>s. None) example_columns (LeftPanel (ToggleItem 0)) (new_view example_columns))))
   = mset [''name'', ''status'', ''cmd'', ''node'']"
proof -
  have "columns_reachable (\<lambda>s. None) example_columns
      (column_step (\<lambda>s. None) example_columns (LeftPanel (ToggleItem 0)) (new_view example_columns))"
    by (intro columns_reachable.intros)
  moreover have "distinct (map ckey example_columns)" by (simp add: example_columns_def)
  ultimately show ?thesis using columns_on_one_side by (fastforce simp: example_columns_def)
qed

section \<open>Confirming a choice\<close>

text \<open>Columns that take the space left, and the widths set.\<close>

definition is_auto :: "table_column list \<Rightarrow> string \<Rightarrow> bool" where
  "is_auto cs k \<longleftrightarrow> map_option cwidth (columnsMap cs k) = Some (Str ''auto'')"

lemma set_width_keys [simp]: "map columnKey (set_width k w xs) = map columnKey xs"
proof -
  have "map columnKey (xs[j := (xs ! j)\<lparr>ctx_width := v\<rparr>]) = map columnKey xs" for j v
    by (cases "j < length xs") (simp_all add: map_update list_update_same_conv list_update_beyond)
  then show ?thesis by (simp add: set_width_def Let_def split: option.split)
qed

lemma columnCtxMap_None: "columnCtxMap xs k = None \<longleftrightarrow> k \<notin> set (map columnKey xs)"
  by (auto simp: columnCtxMap_def find_None_iff)

lemma columnCtxMap_key: "columnCtxMap xs k = Some x \<Longrightarrow> columnKey x = k"
  by (auto simp: columnCtxMap_def find_Some_iff)

lemma size_columns_keys: "map columnKey (snd (size_columns cs aw ks xs)) = map columnKey xs"
  by (induction cs aw ks xs rule: size_columns.induct) simp_all

lemma size_columns_ok:
  "fst (size_columns cs aw ks xs) \<longleftrightarrow> aw = 0 \<or> (\<forall>k \<in> set ks. is_auto cs k \<longrightarrow> k \<in> columnKey ` set xs)"
  by (induction cs aw ks xs rule: size_columns.induct)
     (auto simp: is_auto_def columnCtxMap_None simp del: set_map simp: set_map [symmetric])

lemma isColumnsEqual_refl: "mset ks = mset ls \<Longrightarrow> isColumnsEqual ks ls"
  unfolding isColumnsEqual_def by (metis sorted_list_of_multiset_mset)

text \<open>
  A confirmed choice is shown exactly if every chosen column of automatic width is rendered
  already, or no space is known; otherwise setting the width throws, and the table keeps its
  columns. So a column of automatic width that was hidden cannot be shown again. A choice of the
  same columns sets them in their new order, after the selection column.
\<close>
theorem confirm_shows_choice_iff:
  fixes number cs width v
  defines "v' \<equiv> column_step number cs (ConfirmTransfer width) v"
    and "ok \<equiv> auto_width number cs width = 0
      \<or> (\<forall>k \<in> set (selection_keys (rendered v) @ chosen (dialog v)). is_auto cs k \<longrightarrow> k \<in> columnKey ` set (rendered v))"
  shows "\<not> columnsTransferVisible v' \<and> dialog v' = dialog v
    \<and> selected_keys v' = (if ok then chosen (dialog v) else selected_keys v)
    \<and> (ok \<longrightarrow> mset (chosen (dialog v)) = mset (selected_keys v)
        \<longrightarrow> set (chosen (dialog v)) \<subseteq> columnKey ` set (rendered v)
        \<longrightarrow> map_option (map (map_option columnKey)) (set_columns v')
              = Some (map Some (selection_keys (rendered v) @ chosen (dialog v))))"
proof -
  let ?ks = "selection_keys (rendered v) @ chosen (dialog v)"
  let ?s = "size_columns cs (auto_width number cs width) ?ks (rendered v)"
  have s: "?s = (ok, snd ?s)" unfolding ok_def size_columns_ok [symmetric] by simp
  have keys: "map columnKey (snd ?s) = map columnKey (rendered v)" by (rule size_columns_keys)
  have v': "v' = (if \<not> ok then v\<lparr>rendered := snd ?s\<rparr>
      else (if isColumnsEqual (chosen (dialog v)) (selected_keys v)
            then v\<lparr>rendered := snd ?s, set_columns := Some (map (columnCtxMap (snd ?s)) ?ks)\<rparr>
            else v\<lparr>rendered := snd ?s\<rparr>)\<lparr>selected_keys := chosen (dialog v)\<rparr>)\<lparr>columnsTransferVisible := False\<rparr>"
    unfolding v'_def column_step.simps onConfirm_columns_def updateColumns_def Let_def
    by (subst s) simp
  have ctx: "map_option columnKey (columnCtxMap (snd ?s) k) = Some k" if "k \<in> columnKey ` set (rendered v)" for k
  proof -
    have "k \<in> set (map columnKey (snd ?s))" unfolding keys using that by simp
    then obtain x where "columnCtxMap (snd ?s) k = Some x"
      using columnCtxMap_None [of "snd ?s" k] by (cases "columnCtxMap (snd ?s) k") auto
    then show ?thesis using columnCtxMap_key by fastforce
  qed
  have sel: "set (selection_keys (rendered v)) \<subseteq> columnKey ` set (rendered v)" by (auto simp: selection_keys_def)
  have "map (map_option columnKey) (map (columnCtxMap (snd ?s)) ?ks) = map Some ?ks"
    if "set (chosen (dialog v)) \<subseteq> columnKey ` set (rendered v)"
    using that sel ctx by (auto simp: subset_iff)
  then show ?thesis unfolding v' using isColumnsEqual_refl by auto
qed

definition example_number :: "string \<Rightarrow> int option" where
  "example_number s = (if s = ''150'' then Some 150 else None)"

text \<open>A table whose column of automatic width was hidden, and is ticked and moved back.\<close>

definition example_view :: column_view where
  "example_view = (new_view example_columns)
     \<lparr>selected_keys := [''name'', ''status''],
      rendered := map (\<lambda>k. \<lparr>columnKey = k, ctx_type = ''default'', ctx_width = Num 100\<rparr>) [''name'', ''status''],
      dialog := (new_transfer [''name'', ''status''])\<lparr>leftChecked := [''cmd'']\<rparr>\<rparr>"

lemma example_auto_width: "auto_width example_number example_columns (Some 1000) \<noteq> 0"
  by code_simp

theorem confirm_shows_choice_iff_witness:
  "selected_keys (column_step example_number example_columns (ConfirmTransfer (Some 1000))
      (column_step example_number example_columns MoveRight example_view)) = [''name'', ''status'']
   \<and> chosen (dialog (column_step example_number example_columns (ConfirmTransfer (Some 1000))
      (column_step example_number example_columns MoveRight example_view))) = [''name'', ''status'', ''cmd'']"
proof -
  have c: "chosen (dialog (column_step example_number example_columns MoveRight example_view)) = [''name'', ''status'', ''cmd'']"
    "selected_keys (column_step example_number example_columns MoveRight example_view) = [''name'', ''status'']"
    "rendered (column_step example_number example_columns MoveRight example_view) = rendered example_view"
    by (simp_all add: example_view_def new_transfer_def onRightMove_def)
  have "is_auto example_columns ''cmd''" "''cmd'' \<notin> columnKey ` set (rendered example_view)"
    by (simp_all add: is_auto_def columnsMap_def example_columns_def example_view_def)
  then show ?thesis
    using confirm_shows_choice_iff [of example_number example_columns "Some 1000"
        "column_step example_number example_columns MoveRight example_view"] example_auto_width c by auto
qed

section \<open>Surprises\<close>

text \<open>Dragging in the right panel while it is searched removes the columns that are not shown.\<close>

lemma search_drag_removes:
  "chosen (fold (right_event (computedData example_columns))
      [SearchItems ''name'', StartDrag 0, EndDrag] (new_transfer [''name'', ''status'', ''cmd''])) = [''name'']"
  by code_simp

text \<open>Leaving an item never forgets it as the target, so letting go elsewhere still moves.\<close>

lemma leave_keeps_target: "onDragLeave x dl = dl"
  by (cases dl) (auto simp: onDragLeave_def)

text \<open>The box for all items ticks the disabled ones and those that are not shown, too.\<close>

lemma check_all_ticks_everything:
  "items \<noteq> [] \<Longrightarrow> panel_checked items (ToggleAll True) p ks = Some (map ikey items)"
  by (simp add: panel_checked_def check_all_keys_def Let_def)

text \<open>A cancelled choice is offered again.\<close>

lemma cancel_keeps_choice: "dialog (column_step number cs ShowTransfer (column_step number cs CloseTransfer v)) = dialog v"
  by simp

end
