(* ===== verification/UI_Task.thy ===== *)
theory UI_Task
  imports UI_Store
begin

text \<open>
  Tasks: \<^verbatim>\<open>utils/task.ts\<close>, \<^verbatim>\<open>constants/task.ts\<close>, what \<^verbatim>\<open>store/modules/task.ts\<close> has beyond the base store, and
  the page of a task's log, \<^verbatim>\<open>views/task/detail/tabs/TaskDetailTabLogs.vue\<close> with \<^verbatim>\<open>useTaskDetail.ts\<close> and
  \<^verbatim>\<open>TaskDetailActionsLogs.vue\<close>.

  The page is a state machine over visits: a visit has a number, its requests wait for their answers
  in any order, its interval and timers fire at any time, and it ends when the tab is left. What
  waits goes on after the visit, as promises do. A page of a log is a list of lines with the
  number of all lines; an answer that is an error, or undefined, is \<open>Inl\<close>.
\<close>

section \<open>Status, priority and mode\<close>

definition isCancellable :: "string option \<Rightarrow> bool" where
  "isCancellable status \<longleftrightarrow> status = Some ''pending'' \<or> status = Some ''assigned'' \<or> status = Some ''running''"

definition getPriorityLabel :: "(string \<Rightarrow> string) \<Rightarrow> int \<Rightarrow> string" where
  "getPriorityLabel t p =
     (if p \<le> 2 then t ''components.task.priority.high''
      else if p \<le> 4 then t ''components.task.priority.higher''
      else if p \<le> 6 then t ''components.task.priority.medium''
      else if p \<le> 8 then t ''components.task.priority.lower''
      else t ''components.task.priority.low'')"

definition priorityOptions :: "(string \<Rightarrow> string) \<Rightarrow> jobj list" where
  "priorityOptions t =
     map (\<lambda>p. [(''label'', Str (getPriorityLabel t p)), (''value'', Num p)]) [1, 3, 5, 7, 9]"

definition getModeOptions :: "(string \<Rightarrow> string) \<Rightarrow> jobj list" where
  "getModeOptions t =
     map (\<lambda>(v, l). [(''value'', Str v), (''label'', Str (t (''components.task.mode.label.'' @ l)))])
       [(''random'', ''randomNode''), (''all-nodes'', ''allNodes''), (''selected-nodes'', ''selectedNodes'')]"

definition getModeOptionsDict :: "(string \<Rightarrow> string) \<Rightarrow> js \<Rightarrow> jobj option" where
  "getModeOptionsDict t v = find (\<lambda>op. oget op ''value'' = v) (rev (getModeOptions t))"

definition getStatusOptions :: "(string \<Rightarrow> string) \<Rightarrow> jobj list" where
  "getStatusOptions t =
     map (\<lambda>(l, v). [(''label'', Str (t (''components.task.status.label.'' @ l))), (''value'', Str v)])
       [(''pending'', ''pending''), (''assigned'', ''assigned''), (''running'', ''running''), (''finished'', ''finished''),
        (''error'', ''error''), (''cancelled'', ''cancelled''), (''abnormal'', ''abnormal''),
        (''nodeDisconnected'', ''node_disconnected'')]"

text \<open>The nodes a task will run on; a random node is not known in advance.\<close>

definition getToRunNodes :: "string \<Rightarrow> js list option \<Rightarrow> jobj list option \<Rightarrow> jobj list" where
  "getToRunNodes mode nodeIds activeNodes =
     (if mode = ''all-nodes'' then (case activeNodes of None \<Rightarrow> [] | Some ns' \<Rightarrow> ns')
      else if mode = ''random'' then []
      else (case activeNodes of
              None \<Rightarrow> []
            | Some ns' \<Rightarrow>
                filter (\<lambda>n. case nodeIds of None \<Rightarrow> False | Some ids \<Rightarrow> oget n ''_id'' \<in> set ids) ns'))"

section \<open>The store\<close>

record task_state =
  logContent :: string
  logPage :: nat
  logSize :: nat
  logTotal :: nat
  logAutoUpdate :: bool
  dataDisplayAllFields :: bool

definition task_init :: task_state where
  "task_init =
     \<lparr>logContent = [], logPage = 1, logSize = 1000, logTotal = 0, logAutoUpdate = False, dataDisplayAllFields = False\<rparr>"

datatype task_mutation =
    SetLogContent string
  | ResetLogContent
  | SetLogPagination nat nat
  | ResetLogPagination
  | SetLogTotal nat
  | ResetLogTotal
  | EnableLogAutoUpdate
  | DisableLogAutoUpdate
  | SetDataDisplayAllFields bool

fun task_mutate :: "task_mutation \<Rightarrow> task_state \<Rightarrow> task_state" where
  "task_mutate (SetLogContent c) s = s\<lparr>logContent := c\<rparr>"
| "task_mutate ResetLogContent s = s\<lparr>logContent := []\<rparr>"
| "task_mutate (SetLogPagination p n) s = s\<lparr>logPage := p, logSize := n\<rparr>"
| "task_mutate ResetLogPagination s = s\<lparr>logPage := 1, logSize := 1000\<rparr>"
| "task_mutate (SetLogTotal n) s = s\<lparr>logTotal := n\<rparr>"
| "task_mutate ResetLogTotal s = s\<lparr>logTotal := 0\<rparr>"
| "task_mutate EnableLogAutoUpdate s = s\<lparr>logAutoUpdate := True\<rparr>"
| "task_mutate DisableLogAutoUpdate s = s\<lparr>logAutoUpdate := False\<rparr>"
| "task_mutate (SetDataDisplayAllFields b) s = s\<lparr>dataDisplayAllFields := b\<rparr>"

text \<open>The requests: a task's log, a task, and the ones of the store's own actions.\<close>

datatype task_call =
    GetLogs string nat nat
  | GetForm string
  | RunTask js
  | ListTasks base_state

fun task_request :: "task_call \<Rightarrow> service_request" where
  "task_request (GetLogs i p n) =
     get_request (''/tasks/'' @ i @ ''/logs'') (Obj [(''page'', Num (int p)), (''size'', Num (int n))])"
| "task_request (GetForm i) = get_request (''/tasks/'' @ i) Undef"
| "task_request (RunTask f) = post_request ''/tasks/run'' f"
| "task_request (ListTasks s) =
     get_request ''/tasks'' (Obj (amerge (tablePagination s)
       [(''filter'', json_stringify (Arr (map Obj (tableListFilter s))))]))"

section \<open>The page of a log\<close>

text \<open>Where a computation of the page waits, with the number of its visit.\<close>

datatype log_wait =
    BeforeLogs nat
  | BeforeForm nat
  | TickForm nat
  | TickLogs nat "string option"
  | PlainLogs
  | EndLogs

record log_page =
  task_store :: task_state
  task_status :: "string option"
  active_id :: string
  visit :: nat
  visiting :: bool
  intervals :: "nat list"
  enable_timers :: "nat list"
  auto_shown :: bool
  sync_timers :: nat
  log_waits :: "(log_wait \<times> task_call) list"

definition page_init :: "string \<Rightarrow> string option \<Rightarrow> log_page" where
  "page_init i status =
     \<lparr>task_store = task_init, task_status = status, active_id = i, visit = 0, visiting = False, intervals = [],
      enable_timers = [], auto_shown = False, sync_timers = 0, log_waits = []\<rparr>"

definition wait_for :: "log_wait \<Rightarrow> task_call \<Rightarrow> log_page \<Rightarrow> log_page" where
  "wait_for w c p = p\<lparr>log_waits := log_waits p @ [(w, c)]\<rparr>"

definition logs_call :: "log_page \<Rightarrow> task_call" where
  "logs_call p = GetLogs (active_id p) (logPage (task_store p)) (logSize (task_store p))"

text \<open>
  A commit, with the watchers of the page: a new pagination updates the log, a change of the
  automatic update is shown by the switch 100 ms later.
\<close>

definition commit_task :: "task_mutation \<Rightarrow> log_page \<Rightarrow> log_page" where
  "commit_task m p =
     (let p' = p\<lparr>task_store := task_mutate m (task_store p)\<rparr>;
          p'' = (if visiting p \<and> logAutoUpdate (task_store p') \<noteq> logAutoUpdate (task_store p)
                 then p'\<lparr>sync_timers := Suc (sync_timers p')\<rparr> else p') in
      case m of
        SetLogPagination _ _ \<Rightarrow> if visiting p \<and> active_id p \<noteq> [] then wait_for PlainLogs (logs_call p'') p'' else p''
      | _ \<Rightarrow> p'')"

text \<open>\<open>getLogs\<close> after its answer, and the rest of \<open>updateLogsFn\<close>.\<close>

definition getLogs_done :: "(string \<Rightarrow> string) \<Rightarrow> string list \<times> nat \<Rightarrow> log_page \<Rightarrow> log_page" where
  "getLogs_done md5 ans p =
     (let c = join [CHR 0x0A] (fst ans);
          p' = (if md5 (logContent (task_store p)) \<noteq> md5 c then commit_task (SetLogContent c) p else p) in
      commit_task (SetLogTotal (snd ans)) p')"

definition last_page :: "nat \<Rightarrow> nat \<Rightarrow> nat" where
  "last_page total' size' = (total' + size' - 1) div size'"

definition to_last_page :: "log_page \<Rightarrow> log_page" where
  "to_last_page p =
     (let s = task_store p in
      if logTotal s > logSize s * logPage s
      then commit_task (SetLogPagination (last_page (logTotal s) (logSize s)) (logSize s)) p else p)"

definition logs_end_done :: "(string \<Rightarrow> string) \<Rightarrow> string list \<times> nat \<Rightarrow> log_page \<Rightarrow> log_page" where
  "logs_end_done md5 ans p = to_last_page (getLogs_done md5 ans p)"

definition start_interval :: "nat \<Rightarrow> log_page \<Rightarrow> log_page" where
  "start_interval n p = (if isCancellable (task_status p) then p\<lparr>intervals := intervals p @ [n]\<rparr> else p)"

definition setupDetail :: "nat \<Rightarrow> log_page \<Rightarrow> log_page" where
  "setupDetail n p =
     (if task_status p = None \<or> task_status p = Some [] then wait_for (BeforeForm n) (GetForm (active_id p)) p
      else start_interval n p)"

text \<open>The hook before the tab is shown, after its log is there.\<close>

definition after_first_logs :: "nat \<Rightarrow> log_page \<Rightarrow> log_page" where
  "after_first_logs n p = setupDetail n (p\<lparr>enable_timers := enable_timers p @ [n]\<rparr>)"

definition visit_logs :: "log_page \<Rightarrow> log_page" where
  "visit_logs p =
     (if visiting p then p
      else (let p' = p\<lparr>visiting := True, visit := Suc (visit p), auto_shown := logAutoUpdate (task_store p), sync_timers := 0\<rparr> in
            if active_id p' = [] then after_first_logs (visit p') p'
            else wait_for (BeforeLogs (visit p')) (logs_call p') p'))"

definition leave_logs :: "log_page \<Rightarrow> log_page" where
  "leave_logs p =
     (if \<not> visiting p then p
      else fold commit_task [ResetLogContent, ResetLogPagination, ResetLogTotal, DisableLogAutoUpdate]
             (p\<lparr>visiting := False, intervals := filter (\<lambda>n. n \<noteq> visit p) (intervals p)\<rparr>))"

definition end_tick :: "nat \<Rightarrow> string option \<Rightarrow> log_page \<Rightarrow> log_page" where
  "end_tick n status p = (if isCancellable status then p else p\<lparr>intervals := filter (\<lambda>m. m \<noteq> n) (intervals p)\<rparr>)"

definition form_answered :: "log_wait \<Rightarrow> string option \<Rightarrow> log_page \<Rightarrow> log_page" where
  "form_answered w status p =
     (let p' = p\<lparr>task_status := status\<rparr> in
      case w of
        BeforeForm n \<Rightarrow> start_interval n p'
      | TickForm n \<Rightarrow>
          if logAutoUpdate (task_store p') \<and> active_id p' \<noteq> [] then wait_for (TickLogs n status) (logs_call p') p'
          else end_tick n status p'
      | _ \<Rightarrow> p)"

definition logs_answered :: "(string \<Rightarrow> string) \<Rightarrow> log_wait \<Rightarrow> string list \<times> nat \<Rightarrow> log_page \<Rightarrow> log_page" where
  "logs_answered md5 w ans p =
     (case w of
        BeforeLogs n \<Rightarrow> after_first_logs n (logs_end_done md5 ans p)
      | TickLogs n status \<Rightarrow> end_tick n status (logs_end_done md5 ans p)
      | PlainLogs \<Rightarrow> getLogs_done md5 ans p
      | EndLogs \<Rightarrow> logs_end_done md5 ans p
      | _ \<Rightarrow> p)"

datatype log_answer =
    LogsAnswer "string list" nat
  | FormAnswer "string option"
  | FailedAnswer

datatype log_event =
    VisitLogs
  | LeaveLogs
  | Answered nat log_answer
  | IntervalTick nat
  | EnableTimeout nat
  | SyncTimeout
  | PageChange nat
  | SizeChange nat
  | ActiveIdChange string
  | AutoUpdateChange bool
  | FormSet "string option"

definition is_form_wait :: "log_wait \<Rightarrow> bool" where
  "is_form_wait w \<longleftrightarrow> (case w of BeforeForm _ \<Rightarrow> True | TickForm _ \<Rightarrow> True | _ \<Rightarrow> False)"

definition answered :: "(string \<Rightarrow> string) \<Rightarrow> nat \<Rightarrow> log_answer \<Rightarrow> log_page \<Rightarrow> log_page" where
  "answered md5 i ans p =
     (if i < length (log_waits p) then
        (let w = fst (log_waits p ! i);
             p' = p\<lparr>log_waits := take i (log_waits p) @ drop (Suc i) (log_waits p)\<rparr> in
         case ans of
           FormAnswer status \<Rightarrow> if is_form_wait w then form_answered w status p' else p
         | LogsAnswer ls n \<Rightarrow> if is_form_wait w then p else logs_answered md5 w (ls, n) p'
         | FailedAnswer \<Rightarrow> p')
      else p)"

definition onPageChange_logs :: "nat \<Rightarrow> log_page \<Rightarrow> log_page" where
  "onPageChange_logs n p = commit_task (SetLogPagination n (logSize (task_store p))) p"

definition onSizeChange_logs :: "nat \<Rightarrow> log_page \<Rightarrow> log_page" where
  "onSizeChange_logs n p = commit_task (SetLogPagination (logPage (task_store p)) n) p"

definition onAutoUpdateChange :: "bool \<Rightarrow> log_page \<Rightarrow> log_page" where
  "onAutoUpdateChange b p = commit_task (if b then EnableLogAutoUpdate else DisableLogAutoUpdate) p"

definition watch_active_id :: "string \<Rightarrow> log_page \<Rightarrow> log_page" where
  "watch_active_id i p =
     (let p' = p\<lparr>active_id := i\<rparr> in
      if visiting p \<and> i \<noteq> active_id p \<and> i \<noteq> [] then wait_for EndLogs (logs_call p') p' else p')"

fun log_step :: "(string \<Rightarrow> string) \<Rightarrow> log_event \<Rightarrow> log_page \<Rightarrow> log_page" where
  "log_step md5 VisitLogs p = visit_logs p"
| "log_step md5 LeaveLogs p = leave_logs p"
| "log_step md5 (Answered i ans) p = answered md5 i ans p"
| "log_step md5 (IntervalTick n) p = (if n \<in> set (intervals p) then wait_for (TickForm n) (GetForm (active_id p)) p else p)"
| "log_step md5 (EnableTimeout n) p =
     (if n \<in> set (enable_timers p)
      then (let p' = p\<lparr>enable_timers := remove1 n (enable_timers p)\<rparr> in
            if isCancellable (task_status p') then commit_task EnableLogAutoUpdate p' else p')
      else p)"
| "log_step md5 SyncTimeout p =
     (if sync_timers p = 0 then p
      else p\<lparr>auto_shown := logAutoUpdate (task_store p), sync_timers := sync_timers p - 1\<rparr>)"
| "log_step md5 (PageChange n) p = (if visiting p then onPageChange_logs n p else p)"
| "log_step md5 (SizeChange n) p = (if visiting p then onSizeChange_logs n p else p)"
| "log_step md5 (ActiveIdChange i) p = watch_active_id i p"
| "log_step md5 (AutoUpdateChange b) p = (if visiting p then onAutoUpdateChange b p else p)"
| "log_step md5 (FormSet status) p = p\<lparr>task_status := status\<rparr>"

section \<open>Intervals and visits\<close>

definition setup_waits :: "nat \<Rightarrow> (log_wait \<times> task_call) list \<Rightarrow> (log_wait \<times> task_call) list" where
  "setup_waits n ws = filter (\<lambda>w. fst w = BeforeLogs n \<or> fst w = BeforeForm n) ws"

lemma setup_waits_simps [simp]:
  "setup_waits n [] = []" "setup_waits n (v @ w) = setup_waits n v @ setup_waits n w"
  "setup_waits n ((k, c) # w) = (if k = BeforeLogs n \<or> k = BeforeForm n then (k, c) # setup_waits n w else setup_waits n w)"
  by (simp_all add: setup_waits_def)

lemma wait_for_simps [simp]:
  "log_waits (wait_for w c p) = log_waits p @ [(w, c)]" "intervals (wait_for w c p) = intervals p"
  "visit (wait_for w c p) = visit p" "visiting (wait_for w c p) = visiting p" "task_store (wait_for w c p) = task_store p"
  "active_id (wait_for w c p) = active_id p" "task_status (wait_for w c p) = task_status p"
  "auto_shown (wait_for w c p) = auto_shown p" "sync_timers (wait_for w c p) = sync_timers p"
  by (simp_all add: wait_for_def)

lemma commit_task_simps [simp]:
  "intervals (commit_task m p) = intervals p" "visit (commit_task m p) = visit p" "visiting (commit_task m p) = visiting p"
  "active_id (commit_task m p) = active_id p" "task_store (commit_task m p) = task_mutate m (task_store p)"
  "task_status (commit_task m p) = task_status p" "auto_shown (commit_task m p) = auto_shown p"
  "setup_waits n (log_waits (commit_task m p)) = setup_waits n (log_waits p)"
  by (simp_all add: commit_task_def Let_def split: task_mutation.split)

lemma getLogs_done_simps [simp]:
  "intervals (getLogs_done md5 a p) = intervals p" "visit (getLogs_done md5 a p) = visit p"
  "visiting (getLogs_done md5 a p) = visiting p" "active_id (getLogs_done md5 a p) = active_id p"
  "task_status (getLogs_done md5 a p) = task_status p" "auto_shown (getLogs_done md5 a p) = auto_shown p"
  "setup_waits n (log_waits (getLogs_done md5 a p)) = setup_waits n (log_waits p)"
  by (simp_all add: getLogs_done_def Let_def)

lemma logs_end_done_simps [simp]:
  "intervals (logs_end_done md5 a p) = intervals p" "visit (logs_end_done md5 a p) = visit p"
  "visiting (logs_end_done md5 a p) = visiting p" "active_id (logs_end_done md5 a p) = active_id p"
  "task_status (logs_end_done md5 a p) = task_status p" "auto_shown (logs_end_done md5 a p) = auto_shown p"
  "setup_waits n (log_waits (logs_end_done md5 a p)) = setup_waits n (log_waits p)"
  by (simp_all add: logs_end_done_def to_last_page_def Let_def)

text \<open>How often a visit has an interval or is still setting one up.\<close>

definition visit_uses :: "nat \<Rightarrow> log_page \<Rightarrow> nat" where
  "visit_uses n p = count_list (intervals p) n + length (setup_waits n (log_waits p))"

lemma visit_uses_wait [simp]:
  "visit_uses n (wait_for w c p) = visit_uses n p + (if w = BeforeLogs n \<or> w = BeforeForm n then 1 else 0)"
  by (simp add: visit_uses_def)

lemma visit_uses_same [simp]:
  "visit_uses n (commit_task m p) = visit_uses n p" "visit_uses n (logs_end_done md5 a p) = visit_uses n p"
  "visit_uses n (getLogs_done md5 a p) = visit_uses n p"
  by (simp_all add: visit_uses_def)

lemma count_list_filter_le: "count_list (filter P xs) n \<le> count_list xs n"
  by (induction xs) auto

lemma start_interval_uses: "visit_uses m (start_interval n p) \<le> visit_uses m p + (if m = n then 1 else 0)"
  by (simp add: start_interval_def visit_uses_def)

lemma setupDetail_uses: "visit_uses m (setupDetail n p) \<le> visit_uses m p + (if m = n then 1 else 0)"
  using start_interval_uses [of m n p] by (auto simp: setupDetail_def split: if_splits)

lemma after_first_logs_uses: "visit_uses m (after_first_logs n p) \<le> visit_uses m p + (if m = n then 1 else 0)"
  using setupDetail_uses [of m n "p\<lparr>enable_timers := enable_timers p @ [n]\<rparr>"]
  by (simp add: after_first_logs_def visit_uses_def)

lemma end_tick_uses: "visit_uses m (end_tick n status p) \<le> visit_uses m p"
  by (simp add: end_tick_def visit_uses_def count_list_filter_le)

lemma setup_visits [simp]:
  "visit (start_interval n p) = visit p" "visit (setupDetail n p) = visit p" "visit (after_first_logs n p) = visit p"
  "visiting (start_interval n p) = visiting p" "visiting (setupDetail n p) = visiting p"
  "visiting (after_first_logs n p) = visiting p" "visit (end_tick n st p) = visit p" "visiting (end_tick n st p) = visiting p"
  by (simp_all add: start_interval_def setupDetail_def after_first_logs_def end_tick_def)

definition wait_uses :: "log_wait \<Rightarrow> nat \<Rightarrow> nat" where
  "wait_uses w m = (if w = BeforeLogs m \<or> w = BeforeForm m then 1 else 0)"

lemma logs_answered_uses: "visit_uses m (logs_answered md5 w a p) \<le> visit_uses m p + wait_uses w m"
proof (cases w)
  case (BeforeLogs n)
  then show ?thesis using after_first_logs_uses [of m n "logs_end_done md5 a p"]
    by (auto simp: logs_answered_def wait_uses_def split: if_splits)
next
  case (TickLogs n st)
  then show ?thesis using end_tick_uses [of m n st "logs_end_done md5 a p"] by (simp add: logs_answered_def)
qed (simp_all add: logs_answered_def)

lemma visit_uses_status [simp]: "visit_uses m (p\<lparr>task_status := st\<rparr>) = visit_uses m p"
  by (simp add: visit_uses_def)

lemma form_answered_uses: "visit_uses m (form_answered w st p) \<le> visit_uses m p + wait_uses w m"
proof (cases w)
  case (BeforeForm n)
  then show ?thesis using start_interval_uses [of m n "p\<lparr>task_status := st\<rparr>"]
    by (auto simp: form_answered_def wait_uses_def Let_def split: if_splits)
next
  case (TickForm n)
  then show ?thesis using end_tick_uses [of m n st "p\<lparr>task_status := st\<rparr>"] by (simp add: form_answered_def Let_def)
qed (simp_all add: form_answered_def Let_def)

lemma answered_visits [simp]:
  "visit (answered md5 i a p) = visit p" "visiting (answered md5 i a p) = visiting p"
  by (auto simp: answered_def logs_answered_def form_answered_def Let_def split: log_answer.split log_wait.split)

lemma remove_wait_uses:
  assumes "i < length (log_waits p)"
  shows "visit_uses m (p\<lparr>log_waits := take i (log_waits p) @ drop (Suc i) (log_waits p)\<rparr>) + wait_uses (fst (log_waits p ! i)) m
    = visit_uses m p"
proof -
  have "setup_waits m (log_waits p) = setup_waits m (take i (log_waits p) @ log_waits p ! i # drop (Suc i) (log_waits p))"
    by (simp add: id_take_nth_drop [OF assms, symmetric])
  then show ?thesis by (cases "log_waits p ! i") (simp add: visit_uses_def wait_uses_def)
qed

lemma answered_uses: "visit_uses m (answered md5 i a p) \<le> visit_uses m p"
proof (cases "i < length (log_waits p)")
  case True
  let ?p = "p\<lparr>log_waits := take i (log_waits p) @ drop (Suc i) (log_waits p)\<rparr>" and ?w = "fst (log_waits p ! i)"
  show ?thesis
    using remove_wait_uses [OF True, of m] logs_answered_uses [of m md5 ?w _ ?p] form_answered_uses [of m ?w _ ?p]
    by (cases a) (auto simp: answered_def Let_def True intro: order_trans)
qed (simp add: answered_def)

lemma leave_uses: "visit_uses m (leave_logs p) \<le> visit_uses m p"
  using count_list_filter_le [of "\<lambda>n. n \<noteq> visit p" "intervals p" m] by (simp add: leave_logs_def visit_uses_def)

lemma visit_logs_uses:
  "visit_uses m (visit_logs p) \<le> visit_uses m p + (if \<not> visiting p \<and> m = Suc (visit p) then 1 else 0)"
proof (cases "visiting p")
  case False
  let ?p = "p\<lparr>visiting := True, visit := Suc (visit p), auto_shown := logAutoUpdate (task_store p), sync_timers := 0\<rparr>"
  have same: "visit_uses m ?p = visit_uses m p" by (simp add: visit_uses_def)
  show ?thesis
  proof (cases "active_id p = []")
    case True
    then have "visit_logs p = after_first_logs (Suc (visit p)) ?p" using False by (simp add: visit_logs_def Let_def)
    then show ?thesis using after_first_logs_uses [of m "Suc (visit p)" ?p] same False by simp
  next
    case no_id: False
    then have "visit_logs p = wait_for (BeforeLogs (Suc (visit p))) (logs_call ?p) ?p"
      using False by (simp add: visit_logs_def Let_def)
    then show ?thesis using same False by simp
  qed
qed (simp add: visit_logs_def)

lemma log_step_uses:
  "visit_uses m (log_step md5 e p)
     \<le> visit_uses m p + (if e = VisitLogs \<and> \<not> visiting p \<and> m = Suc (visit p) then 1 else 0)"
proof (cases e)
  case VisitLogs
  then show ?thesis using visit_logs_uses [of m p] by simp
next
  case (Answered i a)
  then show ?thesis using answered_uses [of m md5 i a p] by simp
next
  case LeaveLogs
  then show ?thesis using leave_uses [of m p] by simp
qed (auto simp: onPageChange_logs_def onSizeChange_logs_def onAutoUpdateChange_def watch_active_id_def Let_def visit_uses_def)

lemma log_step_visits:
  "visit (log_step md5 e p) = (if e = VisitLogs \<and> \<not> visiting p then Suc (visit p) else visit p)"
  "visiting (log_step md5 e p) = (e = VisitLogs \<or> e \<noteq> LeaveLogs \<and> visiting p)"
  by (cases e; simp add: visit_logs_def leave_logs_def onPageChange_logs_def onSizeChange_logs_def onAutoUpdateChange_def
      watch_active_id_def Let_def)+

inductive log_reachable :: "(string \<Rightarrow> string) \<Rightarrow> log_page \<Rightarrow> bool" for md5 where
  start: "log_reachable md5 (page_init i status)"
| step: "log_reachable md5 p \<Longrightarrow> log_reachable md5 (log_step md5 e p)"

lemma reachable_uses: "log_reachable md5 p \<Longrightarrow> visit_uses m p \<le> (if m \<le> visit p then 1 else 0)"
proof (induction rule: log_reachable.induct)
  case (start i status)
  then show ?case by (simp add: page_init_def visit_uses_def)
next
  case (step p e)
  then show ?case using log_step_uses [of m md5 e p] by (auto simp: log_step_visits split: if_splits)
qed

text \<open>A visit that is over and has nothing left of its setup.\<close>

definition visit_over :: "nat \<Rightarrow> log_page \<Rightarrow> bool" where
  "visit_over n p \<longleftrightarrow> n \<le> visit p \<and> (n = visit p \<longrightarrow> \<not> visiting p) \<and> visit_uses n p = 0"

lemma visit_over_step: "visit_over n p \<Longrightarrow> visit_over n (log_step md5 e p)"
proof -
  assume over: "visit_over n p"
  have "visit_uses n (log_step md5 e p) = 0"
    using over log_step_uses [of n md5 e p] by (simp add: visit_over_def)
  moreover have "n \<le> visit (log_step md5 e p) \<and> (n = visit (log_step md5 e p) \<longrightarrow> \<not> visiting (log_step md5 e p))"
    using over unfolding visit_over_def log_step_visits by (cases "e = VisitLogs"; cases "visiting p") auto
  ultimately show ?thesis unfolding visit_over_def by blast
qed

lemma count_list_distinct: "(\<forall>n. count_list xs n \<le> 1) \<Longrightarrow> distinct xs"
proof (induction xs)
  case (Cons x xs)
  have "count_list xs n \<le> 1" for n using Cons.prems [rule_format, of n] by (simp split: if_splits)
  moreover have "count_list xs x = 0" using Cons.prems [rule_format, of x] by simp
  ultimately show ?case using Cons.IH by (simp add: count_list_0_iff)
qed simp

text \<open>
  C14: No visit of a log has two intervals, also while it is set up, and when the tab is left after
  its setup, then whatever happens later its interval never runs again.
\<close>
theorem intervals_end_with_visit:
  assumes "log_reachable md5 p"
  shows "distinct (intervals p) \<and> (\<forall>n \<in> set (intervals p). setup_waits n (log_waits p) = [])
    \<and> (visiting p \<longrightarrow> setup_waits (visit p) (log_waits p) = [] \<longrightarrow>
        (\<forall>es. visit p \<notin> set (intervals (fold (log_step md5) es (leave_logs p)))))"
proof -
  have one: "visit_uses n p \<le> 1" for n using reachable_uses [OF assms, of n] by (auto split: if_splits)
  have "distinct (intervals p)"
    using one by (intro count_list_distinct) (auto simp: visit_uses_def intro: order_trans [OF le_add1])
  moreover have "setup_waits n (log_waits p) = []" if "n \<in> set (intervals p)" for n
  proof -
    have "count_list (intervals p) n \<noteq> 0" using that by (simp add: count_list_0_iff)
    with one [of n] have "length (setup_waits n (log_waits p)) = 0" unfolding visit_uses_def by linarith
    then show ?thesis by simp
  qed
  moreover have "visit p \<notin> set (intervals (fold (log_step md5) es (leave_logs p)))"
    if "visiting p" "setup_waits (visit p) (log_waits p) = []" for es
  proof -
    have "visit_over (visit p) (leave_logs p)"
      using that by (simp add: visit_over_def leave_logs_def visit_uses_def count_list_0_iff)
    then have "visit_over (visit p) (fold (log_step md5) es (leave_logs p))"
      by (induction es rule: rev_induct) (auto intro: visit_over_step)
    then show ?thesis by (simp add: visit_over_def visit_uses_def count_list_0_iff)
  qed
  ultimately show ?thesis by blast
qed

text \<open>
  Leaving before the first answer, however, lets the setup start an interval that nothing stops
  while the task runs.
\<close>

lemma interval_leaks:
  "let p = fold (log_step md5) [VisitLogs, LeaveLogs, Answered 0 (LogsAnswer [] 0)] (page_init ''t'' (Some ''running''))
   in \<not> visiting p \<and> intervals p = [1] \<and> enable_timers p = [1]"
  by (simp add: Let_def page_init_def visit_logs_def leave_logs_def answered_def logs_answered_def is_form_wait_def
      after_first_logs_def setupDetail_def start_interval_def isCancellable_def logs_end_done_def to_last_page_def
      getLogs_done_def commit_task_def task_init_def logs_call_def wait_for_def)

text \<open>Any function on texts can stand for MD5 in an example.\<close>

definition plain_md5 :: "string \<Rightarrow> string" where
  "plain_md5 s = s"

definition quick_visit :: "(string \<Rightarrow> string) \<Rightarrow> log_page" where
  "quick_visit md5 = fold (log_step md5) [VisitLogs, Answered 0 (LogsAnswer [''a''] 1)] (page_init ''t'' (Some ''running''))"

lemma log_reachable_fold: "log_reachable md5 (fold (log_step md5) es (page_init i status))"
  by (induction es rule: rev_induct) (auto intro: log_reachable.intros)

lemma getLogs_done_shown: "md5 (logContent (task_store (getLogs_done md5 a p))) = md5 (join [CHR 0x0A] (fst a))"
  by (simp add: getLogs_done_def Let_def)

lemma getLogs_done_rest:
  "logTotal (task_store (getLogs_done md5 a p)) = snd a" "logPage (task_store (getLogs_done md5 a p)) = logPage (task_store p)"
  "logSize (task_store (getLogs_done md5 a p)) = logSize (task_store p)" "log_waits (getLogs_done md5 a p) = log_waits p"
  by (simp_all add: getLogs_done_def Let_def commit_task_def)

lemma logs_end_done_waits:
  "snd a \<le> logSize (task_store p) * logPage (task_store p) \<Longrightarrow> log_waits (logs_end_done md5 a p) = log_waits p"
  by (simp add: logs_end_done_def to_last_page_def Let_def getLogs_done_rest)

lemma quick_visit_state:
  "visiting (quick_visit md5)" "visit (quick_visit md5) = 1" "intervals (quick_visit md5) = [1]" "log_waits (quick_visit md5) = []"
  by (simp_all add: quick_visit_def page_init_def visit_logs_def answered_def logs_answered_def is_form_wait_def
      after_first_logs_def setupDetail_def start_interval_def isCancellable_def logs_end_done_waits task_init_def wait_for_def Let_def)

theorem intervals_end_with_visit_witness:
  "1 \<notin> set (intervals (fold (log_step plain_md5) [VisitLogs, Answered 0 (LogsAnswer [''a'', ''b''] 2), IntervalTick 1] (leave_logs (quick_visit plain_md5))))
   \<and> intervals (quick_visit plain_md5) = [1]"
proof -
  have r: "log_reachable plain_md5 (quick_visit plain_md5)" unfolding quick_visit_def by (rule log_reachable_fold)
  then have "\<forall>es. visit (quick_visit plain_md5) \<notin> set (intervals (fold (log_step plain_md5) es (leave_logs (quick_visit plain_md5))))"
    using intervals_end_with_visit [OF r] by (simp add: quick_visit_state)
  then show ?thesis by (metis quick_visit_state(2,3))
qed

section \<open>Following a log\<close>

text \<open>What the API answers for a log that has the lines \<open>ls\<close>: the lines of a page and the number of all.\<close>

definition page_lines :: "'a list \<Rightarrow> nat \<Rightarrow> nat \<Rightarrow> 'a list" where
  "page_lines ls pg sz = take sz (drop ((pg - 1) * sz) ls)"

definition log_server :: "string list \<Rightarrow> task_call \<Rightarrow> log_answer" where
  "log_server ls c = (case c of GetLogs _ pg sz \<Rightarrow> LogsAnswer (page_lines ls pg sz) (length ls) | _ \<Rightarrow> FailedAnswer)"

definition serve_log :: "(string \<Rightarrow> string) \<Rightarrow> string list \<Rightarrow> nat \<Rightarrow> log_page \<Rightarrow> log_page" where
  "serve_log md5 ls i p = log_step md5 (Answered i (log_server ls (snd (log_waits p ! i)))) p"

text \<open>The last line of a log is on its last page.\<close>

lemma last_page_bounds:
  assumes "0 < sz" "0 < n"
  shows "0 < last_page n sz" "(last_page n sz - 1) * sz < n" "n \<le> sz * last_page n sz"
proof -
  have eq: "n + sz - 1 = (n - 1) + sz" using assms by simp
  have p: "last_page n sz = Suc ((n - 1) div sz)" using assms(1) unfolding last_page_def eq
    by (simp add: div_add_self2 del: One_nat_def)
  then show "0 < last_page n sz" by simp
  have "(n - 1) div sz * sz \<le> n - 1" by (rule div_times_less_eq_dividend)
  then have "(n - 1) div sz * sz < n" using assms(2) by linarith
  then show "(last_page n sz - 1) * sz < n" unfolding p by simp
  have "n - 1 < sz + sz * ((n - 1) div sz)" using assms(1) by (rule dividend_less_times_div)
  then show "n \<le> sz * last_page n sz" unfolding p mult_Suc_right by linarith
qed

lemma page_lines_last:
  assumes "(pg - 1) * sz < length ls" "length ls \<le> sz * pg" "0 < pg"
  shows "page_lines ls pg sz \<noteq> [] \<and> last (page_lines ls pg sz) = last ls"
proof -
  have "sz * pg = (pg - 1) * sz + sz" using assms(3) by (cases pg) (simp_all add: algebra_simps)
  then have "page_lines ls pg sz = drop ((pg - 1) * sz) ls"
    using assms(2) by (simp add: page_lines_def)
  then show ?thesis using assms(1) by (simp add: last_drop)
qed

text \<open>The waits of an update of the end, and what such an update does after its answer.\<close>

definition end_update :: "log_wait \<Rightarrow> bool" where
  "end_update w \<longleftrightarrow> (case w of BeforeLogs _ \<Rightarrow> True | TickLogs _ _ \<Rightarrow> True | EndLogs \<Rightarrow> True | _ \<Rightarrow> False)"

definition after_update :: "log_wait \<Rightarrow> log_page \<Rightarrow> log_page" where
  "after_update w p = (case w of BeforeLogs n \<Rightarrow> after_first_logs n p | TickLogs n status \<Rightarrow> end_tick n status p | _ \<Rightarrow> p)"

definition setup_request :: "log_wait \<Rightarrow> log_page \<Rightarrow> (log_wait \<times> task_call) list" where
  "setup_request w p =
     (case w of
        BeforeLogs n \<Rightarrow>
          if task_status p = None \<or> task_status p = Some [] then [(BeforeForm n, GetForm (active_id p))] else []
      | _ \<Rightarrow> [])"

lemma end_update_done:
  "end_update w \<Longrightarrow> \<not> is_form_wait w \<and> logs_answered md5 w a p = after_update w (logs_end_done md5 a p)"
  by (cases w) (simp_all add: end_update_def is_form_wait_def logs_answered_def after_update_def)

lemma after_update_simps:
  "task_store (after_update w p) = task_store p" "active_id (after_update w p) = active_id p"
  "log_waits (after_update w p) = log_waits p @ setup_request w p"
  by (auto simp: after_update_def setup_request_def after_first_logs_def setupDetail_def start_interval_def end_tick_def
      split: log_wait.split)

text \<open>With the automatic update, a tick of the interval asks for the task and then for the end of the log.\<close>

lemma tick_follows:
  assumes "n \<in> set (intervals p)" "logAutoUpdate (task_store p)" "active_id p \<noteq> []"
  shows "log_waits (log_step md5 (Answered (length (log_waits p)) (FormAnswer status)) (log_step md5 (IntervalTick n) p))
    = log_waits p @ [(TickLogs n status, logs_call p)]"
  using assms by (simp add: answered_def is_form_wait_def form_answered_def logs_call_def Let_def)

lemma end_update_answered:
  assumes "i < length (log_waits p)" "log_waits p ! i = (w, logs_call p)" "end_update w"
    and "ws = take i (log_waits p) @ drop (Suc i) (log_waits p)" "pg = logPage (task_store p)" "sz = logSize (task_store p)"
  shows "serve_log md5 ls i p =
    after_update w (to_last_page (getLogs_done md5 (page_lines ls pg sz, length ls) (p\<lparr>log_waits := ws\<rparr>)))"
  using assms end_update_done [OF assms(3)]
  by (simp add: serve_log_def answered_def log_server_def logs_call_def logs_end_done_def Let_def)

lemma page_shown:
  assumes "(pg - 1) * sz < length ls" "0 < pg" "0 < sz"
  shows "page_lines ls pg sz \<noteq> []" "length ls \<le> sz * pg \<Longrightarrow> last (page_lines ls pg sz) = last ls"
    and "length ls \<le> sz * pg \<Longrightarrow> last ls \<in> set (page_lines (ls @ xs) pg sz)"
proof -
  show "page_lines ls pg sz \<noteq> []" using assms by (simp add: page_lines_def)
  show "length ls \<le> sz * pg \<Longrightarrow> last (page_lines ls pg sz) = last ls"
    using page_lines_last [OF assms(1) _ assms(2)] by blast
  assume l: "length ls \<le> sz * pg"
  have eq: "sz * pg = (pg - 1) * sz + sz" using assms(2) by (cases pg) (simp_all add: algebra_simps)
  have "page_lines (ls @ xs) pg sz = drop ((pg - 1) * sz) ls @ take (sz - (length ls - (pg - 1) * sz)) xs"
    using l assms(1) eq by (simp add: page_lines_def)
  moreover have "last ls \<in> set (drop ((pg - 1) * sz) ls)"
    using assms(1) by (metis drop_eq_Nil last_drop last_in_set leD)
  ultimately show "last ls \<in> set (page_lines (ls @ xs) pg sz)" by simp
qed

text \<open>
  C15: While the tab shows a task's log and its page is not changed meanwhile, following the log
  reaches its end and stops. Every tick of the interval with the automatic update on asks for the
  task and then updates the end, as do opening the tab and changing the task. An update of the end
  whose answer has more lines than fit up to the page shown goes to the last page and sends one request
  for it; when that is answered, of a log that may have grown since, the page is still that one, it
  holds the line that was the last, ends with the last line if the log has not outgrown the page, and no
  request is left of the update. Otherwise the page stays and nothing more is requested: it ends
  with the last line, or is empty if it lies behind the end of the log (a shorter task was opened).
\<close>

theorem following_shows_end:
  fixes md5 ls i p w
  defines "pg \<equiv> logPage (task_store p)" and "sz \<equiv> logSize (task_store p)" and "p1 \<equiv> serve_log md5 ls i p"
    and "lp \<equiv> last_page (length ls) (logSize (task_store p))" and "j \<equiv> length (log_waits p) - 1"
    and "ws \<equiv> take i (log_waits p) @ drop (Suc i) (log_waits p)"
  assumes "visiting p" "active_id p \<noteq> []" "i < length (log_waits p)" "log_waits p ! i = (w, logs_call p)" "end_update w"
    and "0 < sz" "0 < pg"
  shows "(\<forall>n status. n \<in> set (intervals p) \<longrightarrow> logAutoUpdate (task_store p) \<longrightarrow>
      log_waits (log_step md5 (Answered (length (log_waits p)) (FormAnswer status)) (log_step md5 (IntervalTick n) p))
        = log_waits p @ [(TickLogs n status, logs_call p)]) \<and>
    (if length ls > sz * pg then
       log_waits p1 = ws @ [(PlainLogs, GetLogs (active_id p) lp sz)] @ setup_request w p \<and>
       (\<forall>xs q. q = serve_log md5 (ls @ xs) j p1 \<longrightarrow>
          logPage (task_store q) = lp \<and> logTotal (task_store q) = length (ls @ xs) \<and>
          md5 (logContent (task_store q)) = md5 (join [CHR 0x0A] (page_lines (ls @ xs) lp sz)) \<and>
          last ls \<in> set (page_lines (ls @ xs) lp sz) \<and>
          (length (ls @ xs) \<le> sz * lp \<longrightarrow> last (page_lines (ls @ xs) lp sz) = last (ls @ xs)) \<and>
          log_waits q = ws @ setup_request w p)
     else
       logPage (task_store p1) = pg \<and> logTotal (task_store p1) = length ls \<and>
       md5 (logContent (task_store p1)) = md5 (join [CHR 0x0A] (page_lines ls pg sz)) \<and>
       (if (pg - 1) * sz < length ls then page_lines ls pg sz \<noteq> [] \<and> last (page_lines ls pg sz) = last ls
        else page_lines ls pg sz = []) \<and>
       log_waits p1 = ws @ setup_request w p)"
proof (intro conjI allI impI)
  show "log_waits (log_step md5 (Answered (length (log_waits p)) (FormAnswer status)) (log_step md5 (IntervalTick n) p))
      = log_waits p @ [(TickLogs n status, logs_call p)]"
    if "n \<in> set (intervals p)" "logAutoUpdate (task_store p)" for n status
    using tick_follows [OF that assms(8)] .
  let ?p = "p\<lparr>log_waits := ws\<rparr>"
  let ?g = "getLogs_done md5 (page_lines ls pg sz, length ls) ?p"
  have p1: "p1 = after_update w (to_last_page ?g)"
    unfolding p1_def by (rule end_update_answered [OF assms(9-11)]) (simp_all add: ws_def pg_def sz_def)
  have same: "setup_request w q = setup_request w p" if "active_id q = active_id p" "task_status q = task_status p" for q
    using that by (auto simp: setup_request_def split: log_wait.split)
  have g: "logPage (task_store ?g) = pg" "logSize (task_store ?g) = sz" "logTotal (task_store ?g) = length ls" "log_waits ?g = ws"
    "md5 (logContent (task_store ?g)) = md5 (join [CHR 0x0A] (page_lines ls pg sz))"
    by (simp_all add: getLogs_done_rest getLogs_done_shown pg_def sz_def)
  have j: "length ws = j" using assms(9) by (simp add: ws_def j_def)
  show "if length ls > sz * pg then
       log_waits p1 = ws @ [(PlainLogs, GetLogs (active_id p) lp sz)] @ setup_request w p \<and>
       (\<forall>xs q. q = serve_log md5 (ls @ xs) j p1 \<longrightarrow>
          logPage (task_store q) = lp \<and> logTotal (task_store q) = length (ls @ xs) \<and>
          md5 (logContent (task_store q)) = md5 (join [CHR 0x0A] (page_lines (ls @ xs) lp sz)) \<and>
          last ls \<in> set (page_lines (ls @ xs) lp sz) \<and>
          (length (ls @ xs) \<le> sz * lp \<longrightarrow> last (page_lines (ls @ xs) lp sz) = last (ls @ xs)) \<and>
          log_waits q = ws @ setup_request w p)
     else
       logPage (task_store p1) = pg \<and> logTotal (task_store p1) = length ls \<and>
       md5 (logContent (task_store p1)) = md5 (join [CHR 0x0A] (page_lines ls pg sz)) \<and>
       (if (pg - 1) * sz < length ls then page_lines ls pg sz \<noteq> [] \<and> last (page_lines ls pg sz) = last ls
        else page_lines ls pg sz = []) \<and>
       log_waits p1 = ws @ setup_request w p"
  proof (cases "length ls > sz * pg")
    case False
    then have "p1 = after_update w ?g" using p1 g by (simp add: to_last_page_def Let_def)
    moreover have "(pg - 1) * sz < length ls \<Longrightarrow> page_lines ls pg sz \<noteq> [] \<and> last (page_lines ls pg sz) = last ls"
      using page_shown(1,2) [of pg sz ls, OF _ assms(13,12)] False by (simp add: not_less)
    moreover have "\<not> (pg - 1) * sz < length ls \<Longrightarrow> page_lines ls pg sz = []" by (simp add: page_lines_def)
    ultimately show ?thesis using False g same [of ?g] by (simp add: after_update_simps)
  next
    case True
    have bounds: "0 < lp" "(lp - 1) * sz < length ls" "length ls \<le> sz * lp"
      using last_page_bounds [OF assms(12), of "length ls"] True unfolding lp_def sz_def by (cases ls; simp)+
    let ?c = "commit_task (SetLogPagination lp sz) ?g"
    have p1': "p1 = after_update w ?c" using True p1 g by (simp add: to_last_page_def Let_def lp_def sz_def)
    have waits: "log_waits p1 = ws @ (PlainLogs, GetLogs (active_id p) lp sz) # setup_request w p"
      using assms(7,8) g same [of ?c] by (simp add: p1' after_update_simps commit_task_def Let_def logs_call_def)
    have store: "logPage (task_store p1) = lp" by (simp add: p1' after_update_simps)
    have "logPage (task_store q) = lp \<and> logTotal (task_store q) = length (ls @ xs) \<and>
          md5 (logContent (task_store q)) = md5 (join [CHR 0x0A] (page_lines (ls @ xs) lp sz)) \<and>
          last ls \<in> set (page_lines (ls @ xs) lp sz) \<and>
          (length (ls @ xs) \<le> sz * lp \<longrightarrow> last (page_lines (ls @ xs) lp sz) = last (ls @ xs)) \<and>
          log_waits q = ws @ setup_request w p"
      if "q = serve_log md5 (ls @ xs) j p1" for xs q
    proof -
      have q: "q = getLogs_done md5 (page_lines (ls @ xs) lp sz, length (ls @ xs)) (p1\<lparr>log_waits := ws @ setup_request w p\<rparr>)"
        using that by (simp add: serve_log_def answered_def waits nth_append j [symmetric] log_server_def is_form_wait_def
            logs_answered_def Let_def)
      have "(lp - 1) * sz < length (ls @ xs)" using bounds(2) by simp
      note last = page_shown(2) [OF this bounds(1) assms(12)] and mem = page_shown(3) [OF bounds(2,1) assms(12) bounds(3)]
      show ?thesis
      proof (intro conjI impI)
        show "last (page_lines (ls @ xs) lp sz) = last (ls @ xs)" if "length (ls @ xs) \<le> sz * lp" by (rule last [OF that])
      qed (simp_all add: q getLogs_done_rest getLogs_done_shown store mem)
    qed
    note shown = this
    show ?thesis
      unfolding if_P [OF True] by (rule conjI, simp add: waits, intro allI impI, rule shown)
  qed
qed

definition long_log_page :: log_page where
  "long_log_page = (page_init ''t'' (Some ''running''))
     \<lparr>visiting := True, task_store := task_init\<lparr>logSize := 2, logAutoUpdate := True\<rparr>, intervals := [1],
       log_waits := [(TickLogs 1 (Some ''running''), GetLogs ''t'' 1 2)]\<rparr>"

text \<open>A tick finds three lines, two to a page, and a fourth has come when the second page is answered.\<close>

theorem following_shows_end_witness:
  "logPage (task_store (serve_log plain_md5 [''a'', ''b'', ''c'', ''d''] 0 (serve_log plain_md5 [''a'', ''b'', ''c''] 0 long_log_page))) = 2 \<and>
   plain_md5 (logContent (task_store (serve_log plain_md5 [''a'', ''b'', ''c'', ''d''] 0 (serve_log plain_md5 [''a'', ''b'', ''c''] 0 long_log_page))))
     = plain_md5 (join [CHR 0x0A] [''c'', ''d''])"
proof -
  have s: "logPage (task_store long_log_page) = 1" "logSize (task_store long_log_page) = 2" "visiting long_log_page"
    "active_id long_log_page = ''t''" "log_waits long_log_page = [(TickLogs 1 (Some ''running''), logs_call long_log_page)]"
    by (simp_all add: long_log_page_def task_init_def page_init_def logs_call_def)
  have l: "last_page (length [''a'', ''b'', ''c'']) 2 = 2" "page_lines ([''a'', ''b'', ''c''] @ [''d'']) 2 2 = [''c'', ''d'']"
    by (simp_all add: last_page_def page_lines_def)
  define q where "q = serve_log plain_md5 ([''a'', ''b'', ''c''] @ [''d'']) 0 (serve_log plain_md5 [''a'', ''b'', ''c''] 0 long_log_page)"
  note f = following_shows_end [of long_log_page 0 "TickLogs 1 (Some ''running'')" plain_md5 "[''a'', ''b'', ''c'']", unfolded s(1,2) l(1)]
  have "\<forall>xs q. q = serve_log plain_md5 ([''a'', ''b'', ''c''] @ xs) 0 (serve_log plain_md5 [''a'', ''b'', ''c''] 0 long_log_page) \<longrightarrow>
      logPage (task_store q) = 2 \<and>
      plain_md5 (logContent (task_store q)) = plain_md5 (join [CHR 0x0A] (page_lines ([''a'', ''b'', ''c''] @ xs) 2 2))"
    using f s by (simp add: end_update_def del: append_Cons)
  from this [rule_format, OF q_def] show ?thesis unfolding q_def l(2) by simp
qed

section \<open>The switch and the nodes\<close>

text \<open>Once its timers have run, the switch shows whether the log is updated automatically.\<close>

definition switch_ok :: "log_page \<Rightarrow> bool" where
  "switch_ok p \<longleftrightarrow> (visiting p \<and> sync_timers p = 0 \<longrightarrow> auto_shown p = logAutoUpdate (task_store p))"

lemma commit_task_sync:
  "sync_timers (commit_task m p) =
     (if visiting p \<and> logAutoUpdate (task_mutate m (task_store p)) \<noteq> logAutoUpdate (task_store p)
      then Suc (sync_timers p) else sync_timers p)"
  by (cases m) (simp_all add: commit_task_def Let_def)

lemma switch_commit [simp]: "switch_ok p \<Longrightarrow> switch_ok (commit_task m p)"
  by (auto simp: switch_ok_def commit_task_sync)

lemma switch_same [simp]:
  "switch_ok (p\<lparr>log_waits := ws\<rparr>) = switch_ok p" "switch_ok (p\<lparr>intervals := ns'\<rparr>) = switch_ok p"
  "switch_ok (p\<lparr>enable_timers := ns'\<rparr>) = switch_ok p" "switch_ok (p\<lparr>task_status := st\<rparr>) = switch_ok p"
  "switch_ok (p\<lparr>active_id := i\<rparr>) = switch_ok p" "switch_ok (wait_for w c p) = switch_ok p"
  by (simp_all add: switch_ok_def)

lemma switch_logs [simp]: "switch_ok p \<Longrightarrow> switch_ok (logs_end_done md5 a p)" "switch_ok p \<Longrightarrow> switch_ok (getLogs_done md5 a p)"
  by (simp_all add: logs_end_done_def to_last_page_def getLogs_done_def Let_def)

lemma switch_setup [simp]: "switch_ok p \<Longrightarrow> switch_ok (after_first_logs n p)" "switch_ok p \<Longrightarrow> switch_ok (start_interval n p)"
  "switch_ok p \<Longrightarrow> switch_ok (end_tick n st p)"
  by (simp_all add: after_first_logs_def setupDetail_def start_interval_def end_tick_def)

lemma switch_answered: "switch_ok p \<Longrightarrow> switch_ok (answered md5 i a p)"
  by (auto simp: answered_def logs_answered_def form_answered_def Let_def split: log_answer.split log_wait.split)

lemma switch_step: "switch_ok p \<Longrightarrow> switch_ok (log_step md5 e p)"
proof (cases e)
  case VisitLogs
  have "switch_ok (p\<lparr>visiting := True, visit := v, auto_shown := logAutoUpdate (task_store p), sync_timers := 0\<rparr>)" for v
    by (simp add: switch_ok_def)
  then show "switch_ok p \<Longrightarrow> ?thesis" by (simp add: VisitLogs visit_logs_def Let_def)
next
  case LeaveLogs
  then show "switch_ok p \<Longrightarrow> ?thesis" by (simp add: switch_ok_def leave_logs_def)
next
  case SyncTimeout
  then show "switch_ok p \<Longrightarrow> ?thesis" by (auto simp: switch_ok_def)
qed (simp_all add: switch_answered onPageChange_logs_def onSizeChange_logs_def onAutoUpdateChange_def watch_active_id_def Let_def)

lemma switch_settles: "log_reachable md5 p \<Longrightarrow> switch_ok p"
  by (induction rule: log_reachable.induct) (simp add: switch_ok_def page_init_def, rule switch_step)

text \<open>A task on all nodes runs on the active ones, and no task runs on a node that is not active.\<close>

lemma run_nodes_active: "set (getToRunNodes mode ids (Some ns')) \<subseteq> set ns'"
  by (auto simp: getToRunNodes_def split: option.splits if_splits)

text \<open>A priority between two offered ones has the label of one of them.\<close>

lemma priority_labels: "getPriorityLabel t p \<in> getPriorityLabel t ` {1, 3, 5, 7, 9}"
  by (simp add: getPriorityLabel_def)

end
