(* ===== verification/UI_Route.thy ===== *)
theory UI_Route
  imports UI_Variables UI_Access UI_Checkbox
begin

text \<open>
  The routes of the user interface, \<^verbatim>\<open>router/*.ts\<close> and \<^verbatim>\<open>router/index.ts\<close>, and what the code computes from
  them and from paths: \<^verbatim>\<open>utils/route.ts\<close> with \<^verbatim>\<open>utils/tree.ts\<close>. Components, icons and labels are left out of
  a route; its title is a key of the translation. A route without children and one with an empty
  list are not told apart. \<open>urljoin\<close> is a package.
\<close>

section \<open>Routes\<close>

datatype redirect = RedirectTo string | RedirectBelow string

datatype route = Route
  (rname: "string option") (rconcept: "string option") (rpath: string) (rtitle: "string option")
  (rredirect: "redirect option") (rchildren: "route list")

definition login_router :: "route list" where
  "login_router =
     [Route (Some ''Login'') None ''/login'' None None []]"

definition home_router :: "route list" where
  "home_router =
     [Route (Some ''Home'') (Some ''home'') ''/home'' (Some ''layouts.routes.home'') None []]"

definition node_router :: "route list" where
  "node_router =
     [Route (Some ''NodeList'') (Some ''node'') ''/nodes'' (Some ''layouts.routes.nodes.list.title'') None [],
      Route (Some ''NodeDetail'') (Some ''node'') ''/nodes/:id'' (Some ''layouts.routes.nodes.detail.title'') (Some (RedirectBelow ''overview''))
       [Route None None ''overview'' (Some ''layouts.routes.nodes.detail.tabs.overview'') None [],
        Route None None ''tasks'' (Some ''layouts.routes.nodes.detail.tabs.tasks'') None [],
        Route None None ''monitoring'' (Some ''layouts.routes.nodes.detail.tabs.monitoring'') None []]]"

definition project_router :: "route list" where
  "project_router =
     [Route (Some ''ProjectList'') (Some ''project'') ''/projects'' (Some ''layouts.routes.projects.list.title'') None [],
      Route (Some ''ProjectDetail'') (Some ''project'') ''/projects/:id'' (Some ''layouts.routes.projects.detail.title'') (Some (RedirectBelow ''overview''))
       [Route None None ''overview'' (Some ''layouts.routes.projects.detail.tabs.overview'') None [],
        Route None None ''spiders'' (Some ''layouts.routes.projects.detail.tabs.spiders'') None []]]"

definition spider_router :: "route list" where
  "spider_router =
     [Route (Some ''SpiderList'') (Some ''spider'') ''/spiders'' (Some ''layouts.routes.spiders.list.title'') None [],
      Route (Some ''SpiderDetail'') (Some ''spider'') ''/spiders/:id'' (Some ''layouts.routes.spiders.detail.title'') (Some (RedirectBelow ''overview''))
       [Route None None ''overview'' (Some ''layouts.routes.spiders.detail.tabs.overview'') None [],
        Route None None ''files'' (Some ''layouts.routes.spiders.detail.tabs.files'') None [],
        Route None None ''tasks'' (Some ''layouts.routes.spiders.detail.tabs.tasks'') None [],
        Route None None ''schedules'' (Some ''layouts.routes.spiders.detail.tabs.schedules'') None [],
        Route None None ''data'' (Some ''layouts.routes.spiders.detail.tabs.data'') None [],
        Route None None ''dependencies'' (Some ''layouts.routes.spiders.detail.tabs.dependencies'') None []]]"

definition task_router :: "route list" where
  "task_router =
     [Route (Some ''TaskList'') (Some ''task'') ''/tasks'' (Some ''layouts.routes.tasks.list.title'') None [],
      Route (Some ''TaskDetail'') (Some ''task'') ''/tasks/:id'' (Some ''layouts.routes.tasks.detail.title'') (Some (RedirectBelow ''overview''))
       [Route None None ''overview'' (Some ''layouts.routes.tasks.detail.tabs.overview'') None [],
        Route None None ''logs'' (Some ''layouts.routes.tasks.detail.tabs.logs'') None [],
        Route None None ''data'' (Some ''layouts.routes.tasks.detail.tabs.data'') None []]]"

definition schedule_router :: "route list" where
  "schedule_router =
     [Route (Some ''ScheduleList'') (Some ''schedule'') ''/schedules'' (Some ''layouts.routes.schedules.list.title'') None [],
      Route (Some ''ScheduleDetail'') (Some ''schedule'') ''/schedules/:id'' (Some ''layouts.routes.schedules.detail.title'') (Some (RedirectBelow ''overview''))
       [Route None None ''overview'' (Some ''layouts.routes.schedules.detail.tabs.overview'') None [],
        Route None None ''tasks'' (Some ''layouts.routes.schedules.detail.tabs.tasks'') None []]]"

definition user_router :: "route list" where
  "user_router =
     [Route (Some ''UserList'') (Some ''user'') ''/users'' (Some ''layouts.routes.users.list.title'') None [],
      Route (Some ''UserDetail'') (Some ''user'') ''/users/:id'' (Some ''layouts.routes.users.detail.title'') (Some (RedirectBelow ''overview''))
       [Route None None ''overview'' (Some ''layouts.routes.users.detail.tabs.overview'') None []]]"

definition role_router :: "route list" where
  "role_router =
     [Route (Some ''RoleList'') (Some ''role'') ''/roles'' (Some ''layouts.routes.roles.list.title'') None [],
      Route (Some ''RoleDetail'') (Some ''role'') ''/roles/:id'' (Some ''layouts.routes.roles.detail.title'') (Some (RedirectBelow ''overview''))
       [Route None None ''overview'' (Some ''layouts.routes.roles.detail.tabs.overview'') None [],
        Route None None ''pages'' (Some ''layouts.routes.roles.detail.tabs.pages'') None [],
        Route None None ''users'' (Some ''layouts.routes.roles.detail.tabs.users'') None []]]"

definition notification_router :: "route list" where
  "notification_router =
     [Route None (Some ''notification'') ''/notifications'' (Some ''layouts.routes.notifications.title'') (Some (RedirectBelow ''settings'')) [],
      Route (Some ''NotificationSettingList'') (Some ''notificationSetting'') ''/notifications/settings'' (Some ''layouts.routes.notifications.settings.list.title'') None [],
      Route (Some ''NotificationSettingDetail'') (Some ''notificationSetting'') ''/notifications/settings/:id'' (Some ''layouts.routes.notifications.settings.detail.title'') (Some (RedirectBelow ''overview''))
       [Route None None ''overview'' (Some ''layouts.routes.notifications.settings.detail.tabs.overview'') None [],
        Route None None ''mail'' (Some ''layouts.routes.notifications.settings.detail.tabs.mail'') None [],
        Route None None ''template'' (Some ''layouts.routes.notifications.settings.detail.tabs.template'') None [],
        Route None None ''channels'' (Some ''layouts.routes.notifications.settings.detail.tabs.channels'') None []],
      Route (Some ''NotificationChannelList'') (Some ''notificationChannel'') ''/notifications/channels'' (Some ''layouts.routes.notifications.channels.list.title'') None [],
      Route (Some ''NotificationChannelDetail'') (Some ''notificationChannel'') ''/notifications/channels/:id'' (Some ''layouts.routes.notifications.channels.detail.title'') (Some (RedirectBelow ''overview''))
       [Route None None ''overview'' (Some ''layouts.routes.notifications.channels.detail.tabs.overview'') None []],
      Route (Some ''NotificationRequestList'') (Some ''notificationRequest'') ''/notifications/requests'' (Some ''layouts.routes.notifications.requests.list.title'') None [],
      Route (Some ''NotificationAlertList'') (Some ''notificationAlert'') ''/notifications/alerts'' (Some ''layouts.routes.notifications.alerts.list.title'') None [],
      Route (Some ''NotificationAlertDetail'') (Some ''notificationAlert'') ''/notifications/alerts/:id'' (Some ''layouts.routes.notifications.alerts.detail.title'') (Some (RedirectBelow ''overview''))
       [Route (Some ''NotificationAlertDetailOverview'') None ''overview'' (Some ''layouts.routes.notifications.alerts.detail.tabs.overview'') None []]]"

definition git_router :: "route list" where
  "git_router =
     [Route (Some ''GitList'') (Some ''git'') ''/gits'' (Some ''layouts.routes.gits.list.title'') None [],
      Route (Some ''GitDetail'') (Some ''git'') ''/gits/:id'' (Some ''layouts.routes.gits.detail.title'') (Some (RedirectBelow ''overview''))
       [Route None None ''overview'' (Some ''layouts.routes.gits.detail.tabs.overview'') None [],
        Route None None ''files'' (Some ''layouts.routes.gits.detail.tabs.files'') None [],
        Route None None ''commits'' (Some ''layouts.routes.gits.detail.tabs.commits'') None [],
        Route None None ''changes'' (Some ''layouts.routes.gits.detail.tabs.changes'') None [],
        Route None None ''spiders'' (Some ''layouts.routes.gits.detail.tabs.spiders'') None []]]"

definition database_router :: "route list" where
  "database_router =
     [Route (Some ''DatabaseList'') (Some ''database'') ''/databases'' (Some ''layouts.routes.databases.list.title'') None [],
      Route (Some ''DatabaseDetail'') (Some ''database'') ''/databases/:id'' (Some ''layouts.routes.databases.detail.title'') (Some (RedirectBelow ''overview''))
       [Route None None ''overview'' (Some ''layouts.routes.databases.detail.tabs.overview'') None [],
        Route None None ''databases'' (Some ''layouts.routes.databases.detail.tabs.databases'') None [],
        Route None None ''console'' (Some ''layouts.routes.databases.detail.tabs.console'') None [],
        Route None None ''monitoring'' (Some ''layouts.routes.databases.detail.tabs.monitoring'') None []]]"

definition dependency_router :: "route list" where
  "dependency_router =
     [Route (Some ''DependencyList'') (Some ''dependency'') ''/dependencies'' (Some ''layouts.routes.dependencies.list.title'') None []]"

definition system_router :: "route list" where
  "system_router =
     [Route (Some ''SystemDetail'') (Some ''system'') ''/system'' (Some ''layouts.routes.system.title'') (Some (RedirectTo ''/system/customize''))
       [Route None None ''customize'' (Some ''layouts.routes.system.tabs.customize'') None [],
        Route None None ''models'' (Some ''layouts.routes.system.tabs.models'') None [],
        Route None None ''dependency'' (Some ''layouts.routes.system.tabs.dependency'') None [],
        Route None None ''environment'' (Some ''layouts.routes.system.tabs.environment'') None []]]"

definition misc_router :: "route list" where
  "misc_router =
     [Route (Some ''MySettings'') (Some ''myAccount'') ''/misc/my-account'' (Some ''layouts.routes.misc.tabs.myAccount'') None [],
      Route (Some ''Disclaimer'') (Some ''disclaimer'') ''/misc/disclaimer'' (Some ''layouts.routes.misc.tabs.disclaimer'') None [],
      Route (Some ''PAT'') (Some ''pat'') ''/misc/pat'' (Some ''layouts.routes.misc.tabs.pat'') None []]"

definition autoprobe_router :: "route list" where
  "autoprobe_router =
     [Route (Some ''AutoProbeList'') (Some ''autoprobe'') ''/autoprobes'' (Some ''layouts.routes.autoprobe.list.title'') None [],
      Route (Some ''AutoProbeDetail'') (Some ''autoprobe'') ''/autoprobes/:id'' (Some ''layouts.routes.autoprobe.detail.title'') (Some (RedirectBelow ''overview''))
       [Route None None ''overview'' (Some ''layouts.routes.autoprobe.detail.tabs.overview'') None [],
        Route None None ''tasks'' (Some ''layouts.routes.autoprobe.detail.tabs.tasks'') None [],
        Route None None ''patterns'' (Some ''layouts.routes.autoprobe.detail.tabs.patterns'') None []]]"

definition environment_router :: "route list" where
  "environment_router =
     [Route (Some ''EnvironmentList'') (Some ''environment'') ''/environments'' (Some ''layouts.routes.environments.list.title'') None []]"

definition token_router :: "route list" where
  "token_router =
     [Route (Some ''TokenList'') (Some ''token'') ''/tokens'' (Some ''layouts.routes.tokens.list.title'') None []]"

definition root_children :: "route list" where
  "root_children =
     home_router @ node_router @ project_router @ spider_router @ task_router @ schedule_router @ user_router @
     role_router @ notification_router @ git_router @ database_router @ dependency_router @ system_router @ misc_router"

definition getDefaultRoutes :: "route list" where
  "getDefaultRoutes =
     login_router @ [Route (Some ''Root'') None ''/'' None (Some (RedirectTo ''/home'')) root_children]"

definition getRootRoute :: "route list \<Rightarrow> route option" where
  "getRootRoute routes = find (\<lambda>r. rname r = Some ''Root'') routes"

fun getRouteByName :: "string \<Rightarrow> route list \<Rightarrow> route option" where
  "getRouteByName n [] = None"
| "getRouteByName n (Route m c p t d cs # rs) =
     (if m = Some n then Some (Route m c p t d cs)
      else (case getRouteByName n cs of Some r \<Rightarrow> Some r | None \<Rightarrow> getRouteByName n rs))"

definition addRoutes :: "route list \<Rightarrow> route \<Rightarrow> route" where
  "addRoutes rs r = Route (rname r) (rconcept r) (rpath r) (rtitle r) (rredirect r) (rchildren r @ rs)"

text \<open>The routes given to the router: further ones at the top, and further ones below the root.\<close>

fun add_to_root :: "route list \<Rightarrow> route list \<Rightarrow> route list" where
  "add_to_root rs [] = []"
| "add_to_root rs (x # xs) = (if rname x = Some ''Root'' then addRoutes rs x # xs else x # add_to_root rs xs)"

definition createRouter_routes :: "route list option \<Rightarrow> route list option \<Rightarrow> route list option \<Rightarrow> route list" where
  "createRouter_routes rootRoutes routes allRoutes =
     (let all1 = (case allRoutes of None \<Rightarrow> getDefaultRoutes | Some rs \<Rightarrow> rs);
          all2 = (case routes of None \<Rightarrow> all1 | Some rs \<Rightarrow> all1 @ rs) in
      case rootRoutes of None \<Rightarrow> all2 | Some rs \<Rightarrow> add_to_root rs all2)"

section \<open>Paths\<close>

text \<open>
  The pattern \<^verbatim>\<open>(\/[\w\/-]+)\/([0-9a-f]{24})\/([\w-]+)\<close> without regard to case: the leftmost match, with
  the longest first group.
\<close>

definition tab_char :: "char \<Rightarrow> bool" where
  "tab_char ch \<longleftrightarrow> is_word ch \<or> ch = CHR ''-''"

definition path_char :: "char \<Rightarrow> bool" where
  "path_char ch \<longleftrightarrow> tab_char ch \<or> ch = CHR ''/''"

definition hex_lower :: "char \<Rightarrow> bool" where
  "hex_lower ch \<longleftrightarrow> ch \<in> set ''0123456789abcdef''"

definition hex_any :: "char \<Rightarrow> bool" where
  "hex_any ch \<longleftrightarrow> ch \<in> set ''0123456789abcdefABCDEF''"

definition is_id :: "string \<Rightarrow> bool" where
  "is_id s \<longleftrightarrow> length s = 24 \<and> list_all hex_any s"

fun first_some :: "('a \<Rightarrow> 'b option) \<Rightarrow> 'a list \<Rightarrow> 'b option" where
  "first_some f [] = None"
| "first_some f (x # xs) = (case f x of None \<Rightarrow> first_some f xs | Some y \<Rightarrow> Some y)"

text \<open>A slash, an identifier, a slash and the longest tab name.\<close>

definition id_and_tab :: "string \<Rightarrow> (string \<times> string) option" where
  "id_and_tab s =
     (if s \<noteq> [] \<and> hd s = CHR ''/'' \<and> is_id (take 24 (tl s)) \<and> drop 24 (tl s) \<noteq> [] \<and> hd (drop 24 (tl s)) = CHR ''/''
         \<and> takeWhile tab_char (drop 25 (tl s)) \<noteq> []
      then Some (take 24 (tl s), takeWhile tab_char (drop 25 (tl s))) else None)"

definition match_here :: "string \<Rightarrow> (string \<times> string \<times> string) option" where
  "match_here s =
     (if s \<noteq> [] \<and> hd s = CHR ''/'' then
        first_some (\<lambda>n. map_option (\<lambda>(i, tab). (take (Suc n) s, i, tab)) (id_and_tab (drop (Suc n) s)))
          (rev [1..<Suc (length (takeWhile path_char (tl s)))])
      else None)"

definition route_match :: "string \<Rightarrow> (string \<times> string \<times> string) option" where
  "route_match path = first_some (\<lambda>k. match_here (drop k path)) [0..<length path]"

definition getRoutePath :: "string \<Rightarrow> string" where
  "getRoutePath path =
     (case route_match path of
        Some (p, _) \<Rightarrow> p
      | None \<Rightarrow> (let arr = split_on (CHR ''/'') path in if length arr < 3 then [] else join ''/'' (take 3 arr)))"

text \<open>The name of the tab; \<open>None\<close> when the path ends before it.\<close>

definition getTabName :: "string \<Rightarrow> string option" where
  "getTabName path =
     (case route_match path of
        Some (_, _, tab) \<Rightarrow> Some tab
      | None \<Rightarrow>
          (let arr = split_on (CHR ''/'') path in
           if length arr < 3 then Some [] else if length arr = 3 then None else Some (arr ! 3)))"

definition getPrimaryPath :: "string \<Rightarrow> string" where
  "getPrimaryPath path =
     (case route_match path of
        Some (p, _) \<Rightarrow> p
      | None \<Rightarrow> (let arr = split_on (CHR ''/'') path in if length arr \<le> 1 then path else CHR ''/'' # arr ! 1))"

section \<open>Menu items of the routes\<close>

record route_menu_item =
  rm_title :: string
  rm_path :: string
  rm_concept :: "string option"

definition concept_or :: "string option \<Rightarrow> string option \<Rightarrow> string option" where
  "concept_or a b = (case a of None \<Rightarrow> b | Some c \<Rightarrow> if c = [] then b else a)"

text \<open>\<open>normalizeTree\<close> with the handler of \<open>getRouteMenuItems\<close>: a route with the path and the concept it gets from above.\<close>

fun normalized_routes ::
  "(string \<Rightarrow> string \<Rightarrow> string) \<Rightarrow> string \<Rightarrow> string option \<Rightarrow> route \<Rightarrow> (string \<times> string option \<times> string option) list" where
  "normalized_routes urljoin p c (Route n k q t d cs) =
     (p, c, t) #
       concat (map (\<lambda>x. normalized_routes urljoin (urljoin p (rpath x)) (concept_or c (rconcept x)) x) cs)"

definition getRouteMenuItems :: "(string \<Rightarrow> string) \<Rightarrow> (string \<Rightarrow> string \<Rightarrow> string) \<Rightarrow> route_menu_item list" where
  "getRouteMenuItems t urljoin =
     map (\<lambda>(p, c, k). \<lparr>rm_title = (case k of None \<Rightarrow> [] | Some key \<Rightarrow> t key), rm_path = p, rm_concept = c\<rparr>)
       (concat (map (\<lambda>r. normalized_routes urljoin (rpath r) (rconcept r) r) getDefaultRoutes))"

definition getRouteMenuItemsMap :: "(string \<Rightarrow> string) \<Rightarrow> (string \<Rightarrow> string \<Rightarrow> string) \<Rightarrow> string \<Rightarrow> route_menu_item option" where
  "getRouteMenuItemsMap t urljoin p = find (\<lambda>i. rm_path i = p) (rev (getRouteMenuItems t urljoin))"

text \<open>The first run of 24 lower-case hexadecimal digits becomes \<^verbatim>\<open>:id\<close>.\<close>

fun replace_id :: "string \<Rightarrow> string" where
  "replace_id [] = []"
| "replace_id (ch # s) =
     (if length (take 24 (ch # s)) = 24 \<and> list_all hex_lower (take 24 (ch # s)) then '':id'' @ drop 24 (ch # s)
      else ch # replace_id s)"

definition getNavMenuItems :: "(string \<Rightarrow> string) \<Rightarrow> (string \<Rightarrow> string \<Rightarrow> string) \<Rightarrow> string \<Rightarrow> route_menu_item list" where
  "getNavMenuItems t urljoin path =
     (let parts = split_on (CHR ''/'') path;
          normalizedParts = split_on (CHR ''/'') (replace_id path) in
      List.map_filter (\<lambda>i.
          case getRouteMenuItemsMap t urljoin (join ''/'' (take i normalizedParts)) of
            None \<Rightarrow> None
          | Some entry \<Rightarrow> if rm_title entry = [] then None else Some (entry\<lparr>rm_path := join ''/'' (take i parts)\<rparr>))
        [1..<Suc (length normalizedParts)])"

text \<open>The parents of the paths of a menu; the last of several entries counts.\<close>

fun getMenuItemPathMap :: "(string \<Rightarrow> string \<Rightarrow> string) \<Rightarrow> string \<Rightarrow> menu_item \<Rightarrow> (string \<times> string) list" where
  "getMenuItemPathMap urljoin root (MenuItem t p h cs) =
     (let itemPath = (case p of Some q \<Rightarrow> if starts_with ''/'' q then q else urljoin root q | None \<Rightarrow> urljoin root []) in
      (itemPath, root) #
        (case cs of None \<Rightarrow> [] | Some xs \<Rightarrow> concat (map (getMenuItemPathMap urljoin itemPath) xs)))"

definition getAllMenuItemPathMap :: "(string \<Rightarrow> string \<Rightarrow> string) \<Rightarrow> menu_item list \<Rightarrow> string \<Rightarrow> string option" where
  "getAllMenuItemPathMap urljoin items p = map_of (rev (concat (map (getMenuItemPathMap urljoin ''/'') items))) p"

text \<open>The entry of the sidebar that is active for a path, and the group that is open.\<close>

definition activePath :: "(string \<Rightarrow> string option) \<Rightarrow> string \<Rightarrow> string" where
  "activePath m path = (if m path \<noteq> None then path else getPrimaryPath path)"

definition openedIndexes :: "(string \<Rightarrow> string option) \<Rightarrow> string \<Rightarrow> string list" where
  "openedIndexes m path = (case m (activePath m path) of None \<Rightarrow> [] | Some p \<Rightarrow> if p = [] then [] else [p])"

section \<open>Pages as options of a role\<close>

definition concept_group :: "route \<Rightarrow> string option" where
  "concept_group r =
     (case rconcept r of
        None \<Rightarrow> None
      | Some c \<Rightarrow>
          if c = [] \<or> c = ''notification'' then None
          else if starts_with ''notification'' c then Some ''notification'' else Some c)"

fun add_to_group :: "string \<Rightarrow> route \<Rightarrow> (string \<times> route list) list \<Rightarrow> (string \<times> route list) list" where
  "add_to_group c r [] = [(c, [r])]"
| "add_to_group c r ((d, rs) # g) = (if c = d then (d, rs @ [r]) # g else (d, rs) # add_to_group c r g)"

definition concept_groups :: "route list \<Rightarrow> (string \<times> route list) list" where
  "concept_groups routes =
     fold (\<lambda>r g. case concept_group r of None \<Rightarrow> g | Some c \<Rightarrow> add_to_group c r g) routes []"

definition json_text :: "string list \<Rightarrow> string" where
  "json_text xs = (case json_stringify (Arr (map Str xs)) of Str s \<Rightarrow> s | _ \<Rightarrow> [])"

definition tab_option :: "string \<Rightarrow> route \<Rightarrow> route \<Rightarrow> string check_option" where
  "tab_option concept r c =
     Option (json_text [concept, rpath r, rpath c]) (Str (rpath r @ ''/'' @ rpath c)) False []"

definition page_option :: "string \<Rightarrow> route \<Rightarrow> string check_option" where
  "page_option concept r =
     (case map (tab_option concept r) (rchildren r) of
        [c] \<Rightarrow> Option (json_text [concept, rpath r]) (ovalue c) False []
      | cs \<Rightarrow> Option (json_text [concept, rpath r]) (Str (rpath r)) False cs)"

definition single_concepts :: "string list" where
  "single_concepts = [''home'', ''dependency'', ''system'', ''myAccount'', ''pat'', ''disclaimer'']"

definition concept_option :: "string \<times> route list \<Rightarrow> string check_option" where
  "concept_option g =
     (let (concept, rs) = g; pages = map (page_option concept) rs in
      if concept \<in> set single_concepts then Option (json_text [concept]) (Str (rpath (hd rs))) False []
      else Option (json_text [concept]) Undef False
             (if concept = ''notification'' then filter (\<lambda>x. ovalue x \<noteq> Str ''/notifications'') pages else pages))"

definition route_options :: "route list \<Rightarrow> string check_option list" where
  "route_options routes = map concept_option (concept_groups routes)"

definition getRouteSelectOptions :: "string check_option list" where
  "getRouteSelectOptions =
     route_options (case find (\<lambda>r. rpath r = ''/'') getDefaultRoutes of None \<Rightarrow> [] | Some r \<Rightarrow> rchildren r)"

definition concept_label_keys :: "(string \<times> string) list" where
  "concept_label_keys =
     [(''home'', ''home''), (''node'', ''nodes''), (''project'', ''projects''), (''spider'', ''spiders''),
      (''schedule'', ''schedules''), (''task'', ''tasks''), (''git'', ''git''), (''database'', ''databases''),
      (''user'', ''users''), (''role'', ''permissions.children.roles''), (''token'', ''tokens''),
      (''dependency'', ''dependencies''), (''environment'', ''environment''), (''notification'', ''notification.title''),
      (''notificationSetting'', ''notification.settings''), (''notificationChannel'', ''notification.channels''),
      (''notificationRequest'', ''notification.requests''), (''notificationAlert'', ''notification.alerts''),
      (''system'', ''system''), (''misc'', ''misc.title''), (''myAccount'', ''misc.children.myAccount''),
      (''pat'', ''misc.children.pat''), (''disclaimer'', ''misc.children.disclaimer''), (''autoprobe'', ''autoprobe'')]"

definition getLabelByRouteConcept :: "(string \<Rightarrow> string) \<Rightarrow> string \<Rightarrow> string" where
  "getLabelByRouteConcept t concept =
     (case map_of concept_label_keys concept of None \<Rightarrow> [] | Some k \<Rightarrow> t (''router.menuItems.'' @ k))"

section \<open>Paths of details\<close>

lemma first_some_down:
  "1 \<le> n \<Longrightarrow> n \<le> m \<Longrightarrow> \<forall>k. n < k \<and> k \<le> m \<longrightarrow> f k = None \<Longrightarrow> f n = Some y \<Longrightarrow> first_some f (rev [1..<Suc m]) = Some y"
proof (induction m)
  case (Suc m)
  show ?case
  proof (cases "n = Suc m")
    case True
    then show ?thesis using Suc.prems by simp
  next
    case False
    then show ?thesis using Suc by simp
  qed
qed simp

lemma first_some_hd: "xs \<noteq> [] \<Longrightarrow> f (hd xs) = Some y \<Longrightarrow> first_some f xs = Some y"
  by (cases xs) simp_all

lemma id_and_tab_here:
  assumes "is_id i" "tab \<noteq> []" "list_all tab_char tab"
  shows "id_and_tab (CHR ''/'' # i @ CHR ''/'' # tab) = Some (i, tab)"
proof -
  have i: "length i = 24" using assms(1) by (simp add: is_id_def)
  have tab: "takeWhile tab_char tab = tab" using assms(3) by (simp add: takeWhile_eq_all_conv list_all_iff)
  have "drop 25 (i @ CHR ''/'' # tab) = tab" using i by simp
  then show ?thesis using i assms(1,2) by (simp add: id_and_tab_def tab del: takeWhile_eq_Nil_iff)
qed

lemma not_slash: "hex_any ch \<Longrightarrow> ch \<noteq> CHR ''/''" "tab_char ch \<Longrightarrow> ch \<noteq> CHR ''/''"
  by (auto simp: hex_any_def tab_char_def is_word_def)

lemma id_and_tab_None: "s = [] \<or> hd s \<noteq> CHR ''/'' \<Longrightarrow> id_and_tab s = None"
  by (auto simp: id_and_tab_def)

text \<open>Behind its slash the rest of a detail's path has no further identifier.\<close>

lemma id_and_tab_later:
  assumes "is_id i" "list_all tab_char tab" "0 < j"
  shows "id_and_tab (drop j (CHR ''/'' # i @ CHR ''/'' # tab)) = None"
proof -
  have i: "length i = 24" "\<forall>ch \<in> set i. ch \<noteq> CHR ''/''" using assms(1) not_slash(1) by (auto simp: is_id_def list_all_iff)
  have tab: "\<forall>ch \<in> set tab. ch \<noteq> CHR ''/''" using assms(2) not_slash(2) by (auto simp: list_all_iff)
  obtain k where j: "j = Suc k" using assms(3) by (cases j) auto
  consider "k < 24" | "k = 24" | "24 < k" by linarith
  then show ?thesis
  proof cases
    case 1
    then have "hd (drop j (CHR ''/'' # i @ CHR ''/'' # tab)) = i ! k" using i(1) by (simp add: j hd_append hd_drop_conv_nth)
    then show ?thesis using i 1 by (intro id_and_tab_None) auto
  next
    case 2
    then have "drop j (CHR ''/'' # i @ CHR ''/'' # tab) = CHR ''/'' # tab" using i(1) by (simp add: j)
    moreover have "drop 24 tab = [] \<or> hd (drop 24 tab) \<noteq> CHR ''/''"
      using tab by (metis hd_in_set in_set_dropD)
    ultimately show ?thesis by (auto simp: id_and_tab_def)
  next
    case 3
    then have "drop j (CHR ''/'' # i @ CHR ''/'' # tab) = drop (k - 25) tab"
      using i(1) 3 by (cases "k - 24") (auto simp: j intro!: arg_cong [of _ _ "\<lambda>n. drop n tab"])
    then show ?thesis using tab by (intro id_and_tab_None) (metis hd_in_set in_set_dropD)
  qed
qed

lemma route_match_detail:
  assumes "p \<noteq> []" "list_all path_char p" "is_id i" "tab \<noteq> []" "list_all tab_char tab"
  shows "route_match (CHR ''/'' # p @ CHR ''/'' # i @ CHR ''/'' # tab) = Some (CHR ''/'' # p, i, tab)"
proof -
  let ?rest = "CHR ''/'' # i @ CHR ''/'' # tab"
  let ?s = "CHR ''/'' # p @ ?rest"
  have hex: "path_char ch" if "hex_any ch" for ch
    using that by (auto simp: hex_any_def path_char_def tab_char_def is_word_def)
  have all: "takeWhile path_char (tl ?s) = p @ ?rest"
    using assms hex by (simp add: takeWhile_eq_all_conv is_id_def list_all_iff path_char_def ball_Un)
  let ?f = "\<lambda>n. map_option (\<lambda>(i, tab). (take (Suc n) ?s, i, tab)) (id_and_tab (drop (Suc n) ?s))"
  have "first_some ?f (rev [1..<Suc (length (p @ ?rest))]) = Some (CHR ''/'' # p, i, tab)"
  proof (rule first_some_down)
    show "1 \<le> length p" using assms(1) by (cases p) simp_all
    show "length p \<le> length (p @ ?rest)" by simp
    show "?f (length p) = Some (CHR ''/'' # p, i, tab)" by (simp add: id_and_tab_here [OF assms(3-5)])
    show "\<forall>k. length p < k \<and> k \<le> length (p @ ?rest) \<longrightarrow> ?f k = None"
      using id_and_tab_later [OF assms(3,5), of "k - length p" for k] by (auto simp del: drop_append simp: drop_append)
  qed
  then have "match_here ?s = Some (CHR ''/'' # p, i, tab)" unfolding match_here_def all by simp
  moreover have "hd [0..<length ?s] = 0" by (simp add: hd_upt del: upt_Suc)
  ultimately show ?thesis unfolding route_match_def by (intro first_some_hd) (simp_all del: upt_Suc)
qed

text \<open>Of the path of a detail, the code reads off the page and the tab it was made of.\<close>

lemma detail_path_parts:
  assumes "p \<noteq> []" "list_all path_char p" "is_id i" "tab \<noteq> []" "list_all tab_char tab"
  shows "getRoutePath (CHR ''/'' # p @ CHR ''/'' # i @ CHR ''/'' # tab) = CHR ''/'' # p"
    "getTabName (CHR ''/'' # p @ CHR ''/'' # i @ CHR ''/'' # tab) = Some tab"
    "getPrimaryPath (CHR ''/'' # p @ CHR ''/'' # i @ CHR ''/'' # tab) = CHR ''/'' # p"
  by (simp_all add: getRoutePath_def getTabName_def getPrimaryPath_def route_match_detail [OF assms])

section \<open>Options of a role\<close>

lemma json_text_inj [simp]: "json_text xs = json_text ys \<longleftrightarrow> xs = ys"
proof
  assume eq: "json_text xs = json_text ys"
  have plain: "plain (Arr (map Str zs))" for zs by (simp add: list_all_iff)
  have "\<exists>s. json_stringify (Arr (map Str zs)) = Str s" for zs by (simp add: json_stringify_def)
  then have "json_stringify (Arr (map Str xs)) = json_stringify (Arr (map Str ys))"
    using eq unfolding json_text_def by (metis js.simps)
  then have "map Str xs = map Str ys" using json_stringify_inj plain by blast
  then show "xs = ys" by (simp add: inj_map_eq_map inj_def)
qed simp

lemma add_to_group_keys: "fst ` set (add_to_group c r g) = insert c (fst ` set g)"
  by (induction c r g rule: add_to_group.induct) auto

lemma add_to_group_distinct: "distinct (map fst g) \<Longrightarrow> distinct (map fst (add_to_group c r g))"
proof (induction c r g rule: add_to_group.induct)
  case (2 c r d rs g)
  then show ?case using add_to_group_keys [of c r g] by auto
qed simp

lemma add_to_group_routes:
  "(d, rs) \<in> set (add_to_group c r g) \<Longrightarrow> distinct (map fst g) \<Longrightarrow>
     rs = (case map_of g d of None \<Rightarrow> [] | Some qs \<Rightarrow> qs) @ (if d = c then [r] else [])"
proof (induction c r g rule: add_to_group.induct)
  case (2 c r k qs g)
  have "map_of g k = None" using 2(3) by (simp add: map_of_eq_None_iff)
  have k: "k \<notin> fst ` set g" using 2(3) by simp
  show ?case
  proof (cases "c = k")
    case True
    then show ?thesis using 2(2,3) k by (auto simp: rev_image_eqI)
  next
    case False
    then have "(d, rs) = (k, qs) \<or> (d, rs) \<in> set (add_to_group c r g)" using 2(2) by simp
    then show ?thesis
    proof
      assume "(d, rs) = (k, qs)"
      then show ?thesis using False by simp
    next
      assume in_rest: "(d, rs) \<in> set (add_to_group c r g)"
      then have "d \<noteq> k" using k False add_to_group_keys [of c r g] by force
      then show ?thesis using 2(1) [OF False in_rest] 2(3) by simp
    qed
  qed
qed simp

text \<open>The groups: one per concept, each with the routes of its concept in order.\<close>

lemma concept_groups_keys: "fst ` set (concept_groups rs) = {c. \<exists>r \<in> set rs. concept_group r = Some c}"
proof (induction rs rule: rev_induct)
  case Nil
  then show ?case by (simp add: concept_groups_def)
next
  case (snoc r rs)
  have "concept_groups (rs @ [r]) = (case concept_group r of None \<Rightarrow> concept_groups rs | Some c \<Rightarrow> add_to_group c r (concept_groups rs))"
    by (simp add: concept_groups_def split: option.split)
  then show ?case using snoc by (auto simp: add_to_group_keys split: option.splits)
qed

lemma concept_groups_sound:
  "distinct (map fst (concept_groups rs)) \<and>
   (\<forall>(c, qs) \<in> set (concept_groups rs). qs = filter (\<lambda>r. concept_group r = Some c) rs)"
proof (induction rs rule: rev_induct)
  case Nil
  then show ?case by (simp add: concept_groups_def)
next
  case (snoc r rs)
  let ?g = "concept_groups rs"
  show ?case
  proof (cases "concept_group r")
    case None
    then show ?thesis using snoc by (auto simp: concept_groups_def)
  next
    case (Some c)
    have g: "concept_groups (rs @ [r]) = add_to_group c r ?g" using Some by (simp add: concept_groups_def)
    have "qs = filter (\<lambda>r. concept_group r = Some d) (rs @ [r])" if "(d, qs) \<in> set (add_to_group c r ?g)" for d qs
    proof -
      have qs: "qs = (case map_of ?g d of None \<Rightarrow> [] | Some qs \<Rightarrow> qs) @ (if d = c then [r] else [])"
        using add_to_group_routes [OF that] snoc by simp
      show ?thesis
      proof (cases "map_of ?g d")
        case None
        then have "d \<notin> fst ` set ?g" by (simp add: map_of_eq_None_iff)
        moreover have "d \<in> insert c (fst ` set ?g)" using that add_to_group_keys [of c r ?g] by force
        ultimately have "d = c" by simp
        have "filter (\<lambda>r. concept_group r = Some c) rs = []"
          using \<open>d \<notin> fst ` set ?g\<close> \<open>d = c\<close> by (auto simp: concept_groups_keys filter_empty_conv)
        then show ?thesis using qs None \<open>d = c\<close> Some by simp
      next
        case groups: (Some ps)
        then have "ps = filter (\<lambda>r. concept_group r = Some d) rs" using snoc map_of_SomeD by fastforce
        then show ?thesis using qs groups Some by auto
      qed
    qed
    then show ?thesis using snoc add_to_group_distinct by (auto simp: g)
  qed
qed

lemma root_groups:
  "concept_groups root_children =
     [(''home'', home_router), (''node'', node_router), (''project'', project_router), (''spider'', spider_router),
      (''task'', task_router), (''schedule'', schedule_router), (''user'', user_router), (''role'', role_router),
      (''notification'', tl notification_router), (''git'', git_router), (''database'', database_router),
      (''dependency'', dependency_router), (''system'', system_router), (''myAccount'', [misc_router ! 0]),
      (''disclaimer'', [misc_router ! 1]), (''pat'', [misc_router ! 2])]"
  by code_simp

lemma options_of_groups: "getRouteSelectOptions = map concept_option (concept_groups root_children)"
  by (simp add: getRouteSelectOptions_def route_options_def getDefaultRoutes_def login_router_def)

lemmas option_tables = root_groups home_router_def
  node_router_def project_router_def spider_router_def task_router_def schedule_router_def user_router_def
  role_router_def notification_router_def git_router_def database_router_def dependency_router_def system_router_def
  misc_router_def concept_option_def page_option_def tab_option_def single_concepts_def

lemma options_distinct: "distinct (ids getRouteSelectOptions)"
  by (simp add: options_of_groups option_tables ids_def)

text \<open>The leaves stand for different pages, and each tab of a page with tabs is one of them.\<close>

lemma options_values: "distinct (map ovalue (leaf_options getRouteSelectOptions))"
  by (simp add: options_of_groups option_tables)

lemma options_strings: "list_all (\<lambda>l. case ovalue l of Str s \<Rightarrow> True | _ \<Rightarrow> False) (leaf_options getRouteSelectOptions)"
  by (simp add: options_of_groups option_tables)

definition tab_pages :: "route list" where
  "tab_pages = filter (\<lambda>r. rname r \<noteq> Some ''SystemDetail'') root_children"

lemma options_of_tables:
  "list_all (\<lambda>r. list_all (\<lambda>c. Str (rpath r @ ''/'' @ rpath c) \<in> set (map ovalue (leaf_options getRouteSelectOptions))) (rchildren r))
     tab_pages"
  unfolding options_of_groups root_groups by (simp add: tab_pages_def root_children_def option_tables)

lemma options_offered:
  assumes "r \<in> set tab_pages" "c \<in> set (rchildren r)"
  shows "\<exists>l \<in> set (leaf_options getRouteSelectOptions). ovalue l = Str (rpath r @ ''/'' @ rpath c)"
  using options_of_tables assms unfolding list_all_iff by fastforce

text \<open>Every entry of the sidebar that leads to a page can be granted.\<close>

definition entry_paths :: "menu_item \<Rightarrow> string list" where
  "entry_paths i = (case mi_children i of None \<Rightarrow> [path_of i] | Some cs \<Rightarrow> map path_of cs)"

lemma sidebar_grantable:
  "list_all (\<lambda>i. list_all (\<lambda>p. Str p \<in> set (map ovalue (leaf_options getRouteSelectOptions))) (entry_paths i))
     getDefaultSidebarMenuItems"
  by (simp add: getDefaultSidebarMenuItems_def entry_paths_def item_def path_of_def options_of_groups option_tables)

end
