(* ===== verification/UI_Detail.thy ===== *)
theory UI_Detail
  imports UI_Route UI_Notification
begin

text \<open>
  The pages of one resource: \<^verbatim>\<open>layouts/content/detail/useDetail.ts\<close> and \<^verbatim>\<open>DetailLayout.vue\<close>, over the store
  of the resource (\<open>UI_Store\<close>) and the routes (\<open>UI_Route\<close>).

  A page shows the resource of its path, loads it into the form of the store and saves the form.
  The requests that are not answered yet are kept in the order in which they were sent; an answer
  may come to any of them. The router is a part of the state: the parameter and the path of the
  route, changed when a navigation arrives. Texts and translations are left out.
\<close>

section \<open>The page\<close>

text \<open>
  A request for the resource belongs to a selection that waits for it, or to nobody. Sent saves are
  pairs of an identifier and a form.
\<close>

record detail_page =
  kept :: base_state
  route_id :: string
  route_path :: string
  navLoading :: bool
  loading :: "(js \<times> bool) list"
  saves :: "(js \<times> js) list"
  called :: "string list"

definition activeId :: "detail_page \<Rightarrow> thrown + js" where
  "activeId d =
     (if route_id d \<noteq> [] then Inr (Str (route_id d))
      else (case js_get (form (kept d)) ''_id'' of
              Inl e \<Rightarrow> Inl e
            | Inr i \<Rightarrow> Inr (js_or i (Str []))))"

definition activeTabName :: "detail_page \<Rightarrow> string option" where
  "activeTabName d = getTabName (route_path d)"

definition primaryRoutePath :: "detail_page \<Rightarrow> string" where
  "primaryRoutePath d = getRoutePath (route_path d)"

text \<open>The entries of the selection: those of the list, and the resource of the page if it is not one of them.\<close>

definition detail_nav_item :: "js \<Rightarrow> thrown + jobj" where
  "detail_nav_item x =
     (case js_get x ''_id'' of
        Inl e \<Rightarrow> Inl e
      | Inr i \<Rightarrow> Inr [(''id'', i), (''label'', js_or (js_get_opt x ''name'') i), (''data'', x)])"

definition listed_items :: "detail_page \<Rightarrow> thrown + jobj list" where
  "listed_items d =
     (case navList (kept d) of
        Arr xs \<Rightarrow> map_try detail_nav_item xs
      | v \<Rightarrow> Inl (if nullish v then type_error (js_str v) ''map'' else ErrorObj ''state.navList.map is not a function''))"

definition navItems :: "detail_page \<Rightarrow> thrown + jobj list" where
  "navItems d =
     (case listed_items d of
        Inl e \<Rightarrow> Inl e
      | Inr entries \<Rightarrow>
          (case activeId d of
             Inl e \<Rightarrow> Inl e
           | Inr i \<Rightarrow>
               if list_ex (\<lambda>x. strict_eq (oget x ''id'') i) entries then Inr entries
               else (case js_get (form (kept d)) ''name'' of
                       Inl e \<Rightarrow> Inl e
                     | Inr nm \<Rightarrow> Inr ([(''id'', i), (''label'', js_or nm i), (''data'', form (kept d))] # entries))))"

text \<open>The tabs of the page: those whose route is among the routes of the user.\<close>

definition tab_allowed :: "session_info \<Rightarrow> detail_page \<Rightarrow> jobj \<Rightarrow> bool" where
  "tab_allowed c d tab =
     (if \<not> pro_edition c then True
      else (case me c of
              None \<Rightarrow> False
            | Some u \<Rightarrow>
                if root_admin u then True
                else (case user_routes u of
                        None \<Rightarrow> False
                      | Some rs \<Rightarrow> primaryRoutePath d @ ''/:id/'' @ js_str (oget tab ''id'') \<in> set rs)))"

definition detail_tabs :: "(string \<Rightarrow> string) \<Rightarrow> session_info \<Rightarrow> detail_page \<Rightarrow> jobj list" where
  "detail_tabs t c d =
     map (\<lambda>tab. aset ''disabled'' (Bool (oget tab ''id'' \<in> Str ` set (disabledTabKeys (kept d))))
            (aset ''title'' (Str (t (js_str (js_or (oget tab ''title'') (Str []))))) tab))
       (filter (tab_allowed c d) (nav_tabs (kept d)))"

section \<open>What happens on the page\<close>

text \<open>\<open>getForm\<close>: the request goes out at once.\<close>

definition getForm :: "bool \<Rightarrow> detail_page \<Rightarrow> detail_page" where
  "getForm waits d =
     (case activeId d of
        Inl e \<Rightarrow> if waits then d\<lparr>navLoading := False\<rparr> else d
      | Inr i \<Rightarrow> d\<lparr>loading := loading d @ [(i, waits)]\<rparr>)"

text \<open>The watcher of \<open>activeId\<close> compares it before and after a change.\<close>

definition watch_id :: "detail_page \<Rightarrow> detail_page \<Rightarrow> detail_page" where
  "watch_id before d =
     (case (activeId before, activeId d) of
        (Inr i, Inr j) \<Rightarrow> if i \<noteq> j \<and> truthy j then getForm False d else d
      | _ \<Rightarrow> d)"

text \<open>
  \<open>onNavSelect\<close> and \<open>onNavTabsSelect\<close>: where the router is sent. The navigation arrives later, and then
  a selection goes on with \<open>getForm\<close>.
\<close>

definition undefined_text :: "string option \<Rightarrow> string" where
  "undefined_text s = (case s of None \<Rightarrow> ''undefined'' | Some t \<Rightarrow> t)"

definition select_target :: "detail_page \<Rightarrow> string \<Rightarrow> string" where
  "select_target d i = primaryRoutePath d @ ''/'' @ i @ ''/'' @ undefined_text (activeTabName d)"

definition onNavSelect :: "detail_page \<Rightarrow> detail_page" where
  "onNavSelect d = d\<lparr>navLoading := True\<rparr>"

definition tab_target :: "detail_page \<Rightarrow> string \<Rightarrow> thrown + string" where
  "tab_target d tab =
     (case activeId d of Inl e \<Rightarrow> Inl e | Inr i \<Rightarrow> Inr (primaryRoutePath d @ ''/'' @ js_str i @ ''/'' @ tab))"

definition onBack :: "detail_page \<Rightarrow> string" where
  "onBack d = primaryRoutePath d"

definition arrive :: "string \<Rightarrow> string \<Rightarrow> detail_page \<Rightarrow> detail_page" where
  "arrive i path d = watch_id d (d\<lparr>route_id := i, route_path := path\<rparr>)"

definition onBeforeMount_detail :: "detail_page \<Rightarrow> detail_page" where
  "onBeforeMount_detail d = getForm False d"

text \<open>The answer to the \<open>n\<close>-th of the open requests.\<close>

definition answer_form :: "nat \<Rightarrow> thrown + js \<Rightarrow> detail_page \<Rightarrow> detail_page" where
  "answer_form n result d =
     (if n < length (loading d) then
        (let waits = snd (loading d ! n);
             d' = d\<lparr>kept := (case result of Inl e \<Rightarrow> kept d | Inr res \<Rightarrow> fst (getById_done res (kept d))),
                    loading := take n (loading d) @ drop (Suc n) (loading d),
                    navLoading := navLoading d \<and> \<not> waits\<rparr> in
         watch_id d d')
      else d)"

definition answer_list :: "js \<Rightarrow> detail_page \<Rightarrow> detail_page" where
  "answer_list result d =
     (case getNavList_done result (kept d) of Inl e \<Rightarrow> d | Inr s \<Rightarrow> d\<lparr>kept := s\<rparr>)"

text \<open>An edit in a tab of the page sets the form.\<close>

definition edit_form :: "js \<Rightarrow> detail_page \<Rightarrow> detail_page" where
  "edit_form v d = watch_id d (d\<lparr>kept := mutate (SetForm v) (kept d)\<rparr>)"

definition onSave :: "detail_page \<Rightarrow> detail_page" where
  "onSave d =
     (case activeId d of
        Inl e \<Rightarrow> d
      | Inr i \<Rightarrow> if truthy i then d\<lparr>saves := saves d @ [(i, form (kept d))]\<rparr> else d)"

definition saved :: "detail_page \<Rightarrow> detail_page" where
  "saved d = d\<lparr>called := called d @ afterSave (kept d)\<rparr>"

definition onBeforeUnmount_detail :: "detail_page \<Rightarrow> detail_page" where
  "onBeforeUnmount_detail d =
     (case activeTabName d of
        Some (ch # s) \<Rightarrow> d
      | _ \<Rightarrow> d\<lparr>kept := mutate ResetNavList (mutate ResetForm (kept d))\<rparr>)"

datatype detail_event =
    SelectResource string
  | SelectionArrived string string
  | Navigated string string
  | FormAnswer nat "thrown + js"
  | ListAnswer js
  | Edited js
  | SavePressed
  | SaveAnswered

fun detail_step :: "detail_event \<Rightarrow> detail_page \<Rightarrow> detail_page" where
  "detail_step (SelectResource i) d = onNavSelect d"
| "detail_step (SelectionArrived i path) d = getForm True (arrive i path d)"
| "detail_step (Navigated i path) d = arrive i path d"
| "detail_step (FormAnswer n result) d = answer_form n result d"
| "detail_step (ListAnswer result) d = answer_list result d"
| "detail_step (Edited v) d = edit_form v d"
| "detail_step SavePressed d = onSave d"
| "detail_step SaveAnswered d = saved d"

fun detail_run :: "detail_event list \<Rightarrow> detail_page \<Rightarrow> detail_page" where
  "detail_run [] d = d"
| "detail_run (e # es) d = detail_run es (detail_step e d)"

section \<open>The selection\<close>

lemma map_try_Inr: "map_try f xs = Inr ys \<Longrightarrow> length ys = length xs \<and> (\<forall>k < length xs. f (xs ! k) = Inr (ys ! k))"
proof (induction xs arbitrary: ys)
  case (Cons x xs)
  then obtain z zs where z: "f x = Inr z" "map_try f xs = Inr zs" "ys = z # zs" by (auto split: sum.splits)
  then show ?case using Cons.IH [of zs] by (auto simp: nth_Cons split: nat.split)
qed simp

lemma detail_nav_item_id: "detail_nav_item x = Inr y \<Longrightarrow> js_get x ''_id'' = Inr (oget y ''id'')"
  by (auto simp: detail_nav_item_def split: sum.splits)

text \<open>The resource of the page is always offered, and every resource of the list is.\<close>

lemma navItems_complete:
  assumes "navItems d = Inr entries" "activeId d = Inr i"
  shows "list_ex (\<lambda>x. strict_eq (oget x ''id'') i) entries \<or> oget (hd entries) ''id'' = i"
    and "navList (kept d) = Arr xs \<Longrightarrow> x \<in> set xs \<Longrightarrow> \<exists>y \<in> set entries. js_get x ''_id'' = Inr (oget y ''id'')"
proof -
  obtain es where es: "listed_items d = Inr es" using assms(1) by (auto simp: navItems_def split: sum.splits)
  then show "list_ex (\<lambda>x. strict_eq (oget x ''id'') i) entries \<or> oget (hd entries) ''id'' = i"
    using assms by (auto simp: navItems_def split: sum.splits if_splits)
  have sub: "set es \<subseteq> set entries" using assms es by (auto simp: navItems_def split: sum.splits if_splits)
  assume "navList (kept d) = Arr xs" "x \<in> set xs"
  then have "map_try detail_nav_item xs = Inr es" using es by (simp add: listed_items_def)
  moreover obtain k where k: "k < length xs" "xs ! k = x" using \<open>x \<in> set xs\<close> by (auto simp: in_set_conv_nth)
  ultimately have y: "detail_nav_item x = Inr (es ! k)" "es ! k \<in> set es" using map_try_Inr by force+
  then show "\<exists>y \<in> set entries. js_get x ''_id'' = Inr (oget y ''id'')"
    using sub detail_nav_item_id by (intro bexI [of _ "es ! k"]) auto
qed

text \<open>
  C38: Choosing another resource keeps the page and the tab: from any tab of a resource the router is
  sent to the same tab of the chosen one, and there the code reads off its path the same page and the
  same tab, and the page shows the chosen resource.
\<close>

theorem select_keeps_tab:
  assumes "route_path d = CHR ''/'' # p @ CHR ''/'' # i @ CHR ''/'' # tab"
    and "p \<noteq> []" "list_all path_char p" "is_id i" "tab \<noteq> []" "list_all tab_char tab" "is_id j"
    and "d' = detail_step (SelectionArrived j (select_target d j)) (detail_step (SelectResource j) d)"
  shows "select_target d j = CHR ''/'' # p @ CHR ''/'' # j @ CHR ''/'' # tab \<and>
    primaryRoutePath d' = primaryRoutePath d \<and> activeTabName d' = activeTabName d \<and> activeId d' = Inr (Str j) \<and>
    last (loading d') = (Str j, True) \<and> navLoading d'"
proof -
  note old = detail_path_parts [OF assms(2-4,5,6)] and new = detail_path_parts [OF assms(2,3,7,5,6)]
  have target: "select_target d j = CHR ''/'' # p @ CHR ''/'' # j @ CHR ''/'' # tab"
    using old by (simp add: select_target_def primaryRoutePath_def activeTabName_def assms(1) undefined_text_def)
  have j: "j \<noteq> []" using assms(7) by (auto simp: is_id_def)
  have "route_path d' = select_target d j \<and> route_id d' = j \<and> last (loading d') = (Str j, True) \<and> navLoading d'"
    using j by (auto simp: assms(8) onNavSelect_def arrive_def watch_id_def getForm_def activeId_def split: sum.split)
  then show ?thesis
    using old new j target by (simp add: primaryRoutePath_def activeTabName_def assms(1) activeId_def)
qed

section \<open>Saving\<close>

definition has_id :: "js \<Rightarrow> js \<Rightarrow> bool" where
  "has_id v i \<longleftrightarrow> js_get v ''_id'' = Inr i"

text \<open>
  What may happen for the form to be that of the page: the answers come in the order of their
  requests, each with the resource asked for, and edits keep the identifier.
\<close>

fun in_order :: "detail_page \<Rightarrow> detail_event \<Rightarrow> bool" where
  "in_order d (FormAnswer n (Inr (Obj ps))) \<longleftrightarrow> n = 0 \<and> loading d \<noteq> [] \<and> has_id (oget ps ''data'') (fst (hd (loading d)))"
| "in_order d (FormAnswer n result) \<longleftrightarrow> False"
| "in_order d (Edited v) \<longleftrightarrow> js_get v ''_id'' = js_get (form (kept d)) ''_id''"
| "in_order d (SelectionArrived i path) \<longleftrightarrow> i \<noteq> []"
| "in_order d (Navigated i path) \<longleftrightarrow> i \<noteq> []"
| "in_order d e \<longleftrightarrow> True"

fun all_in_order :: "detail_page \<Rightarrow> detail_event list \<Rightarrow> bool" where
  "all_in_order d [] \<longleftrightarrow> True"
| "all_in_order d (e # es) \<longleftrightarrow> in_order d e \<and> all_in_order (detail_step e d) es"

definition form_follows :: "detail_page \<Rightarrow> bool" where
  "form_follows d \<longleftrightarrow>
     route_id d \<noteq> [] \<and>
     (if loading d = [] then has_id (form (kept d)) (Str (route_id d)) else fst (last (loading d)) = Str (route_id d))"

lemma watch_id_same: "route_id d = route_id b \<Longrightarrow> route_id d \<noteq> [] \<Longrightarrow> watch_id b d = d"
  by (simp add: watch_id_def activeId_def)

lemma arrive_follows:
  "form_follows d \<Longrightarrow> i \<noteq> [] \<Longrightarrow> form_follows (arrive i path d)"
  by (auto simp: arrive_def watch_id_def activeId_def getForm_def form_follows_def)

lemma answer_form_first:
  assumes "loading d = q # qs"
  shows "loading (detail_step (FormAnswer 0 (Inr (Obj ps))) d) = qs \<or> route_id d = []"
    and "route_id d \<noteq> [] \<Longrightarrow> kept (detail_step (FormAnswer 0 (Inr (Obj ps))) d) = mutate (SetForm (oget ps ''data'')) (kept d)"
    and "route_id d \<noteq> [] \<Longrightarrow> route_id (detail_step (FormAnswer 0 (Inr (Obj ps))) d) = route_id d"
  using assms by (auto simp: answer_form_def watch_id_same getById_done_def)

lemma getForm_follows: "route_id d \<noteq> [] \<Longrightarrow> form_follows (getForm waits d)"
  by (simp add: getForm_def activeId_def form_follows_def)

lemma answer_follows:
  assumes "form_follows d" "in_order d (FormAnswer n result)"
  shows "form_follows (detail_step (FormAnswer n result) d)"
proof -
  obtain ps q qs where q: "result = Inr (Obj ps)" "loading d = q # qs" "n = 0" "has_id (oget ps ''data'') (fst q)"
    using assms(2) by (cases "(d, FormAnswer n result)" rule: in_order.cases; cases "loading d") auto
  have r: "route_id d \<noteq> []" using assms(1) by (simp add: form_follows_def)
  then show ?thesis
    using answer_form_first [OF q(2), of ps] assms(1) q by (auto simp: form_follows_def split: if_splits)
qed

lemma step_follows:
  assumes "form_follows d" "in_order d e"
  shows "form_follows (detail_step e d)"
proof -
  have r: "route_id d \<noteq> []" using assms(1) by (simp add: form_follows_def)
  show ?thesis
  proof (cases e)
    case (SelectionArrived i path)
    then have "form_follows (arrive i path d)" using assms by (simp add: arrive_follows)
    then have "route_id (arrive i path d) \<noteq> []" by (simp add: form_follows_def)
    then show ?thesis using SelectionArrived by (simp add: getForm_follows)
  next
    case (ListAnswer result)
    have "form s = form (kept d)" if "getNavList_done result (kept d) = Inr s" for s
      using that by (auto simp: getNavList_done_def Let_def split: sum.splits if_splits)
    then show ?thesis using assms(1) ListAnswer by (auto simp: answer_list_def form_follows_def split: sum.split)
  next
    case (Navigated i path)
    then show ?thesis using assms by (simp add: arrive_follows)
  next
    case (FormAnswer n result)
    then show ?thesis using assms answer_follows by blast
  qed (use assms r in \<open>auto simp: onNavSelect_def edit_form_def watch_id_same onSave_def saved_def form_follows_def
      has_id_def activeId_def\<close>)
qed

lemma run_follows: "form_follows d \<Longrightarrow> all_in_order d es \<Longrightarrow> form_follows (detail_run es d)"
  by (induction es arbitrary: d) (auto simp: step_follows)

text \<open>
  C17: When the answers come in order and edits keep the identifier, then whatever is selected,
  navigated to, edited and saved in between: once no request is open, the form is the one of the
  resource of the page, and a save sends it, once, under its own identifier.
\<close>

theorem save_matches_page:
  assumes "route_id d \<noteq> []" "all_in_order (onBeforeMount_detail d) es"
    and "d' = detail_run es (onBeforeMount_detail d)" "loading d' = []"
  shows "has_id (form (kept d')) (Str (route_id d')) \<and>
    saves (onSave d') = saves d' @ [(Str (route_id d'), form (kept d'))]"
proof -
  have "form_follows (onBeforeMount_detail d)"
    using assms(1) by (simp add: form_follows_def onBeforeMount_detail_def getForm_def activeId_def)
  then have "form_follows d'" using run_follows assms(2,3) by simp
  then show ?thesis using assms(4) by (simp add: form_follows_def onSave_def activeId_def)
qed

definition example_store :: base_state where
  "example_store = \<lparr>ns = ''spider'', dialogVisible_createEdit = True, activeDialogKey = None, form = Obj [],
     isSelectiveForm = False, selectedFormFields = [], readonlyFormFields = [], formList = [], newFormFn = (\<lambda>_. Obj []),
     confirmLoading = False, tableLoading = False, tableData = Arr [], tableTotal = Num 0, tablePagination = [],
     tableListFilter = [], tableListSort = [], sidebarCollapsed = False, actionsCollapsed = False,
     nav_tabs = [[(''id'', Str ''files''), (''title'', Str ''Files'')]], disabledTabKeys = [], navList = Arr [], afterSave = []\<rparr>"

definition id_a :: string where
  "id_a = ''65a000000000000000000001''"

definition id_b :: string where
  "id_b = ''65a000000000000000000002''"

definition example_page :: detail_page where
  "example_page = \<lparr>kept = example_store, route_id = id_a, route_path = ''/spiders/'' @ id_a @ ''/files'',
     navLoading = False, loading = [], saves = [], called = []\<rparr>"

definition resource :: "string \<Rightarrow> js" where
  "resource i = Obj [(''_id'', Str i), (''name'', Str ''n'')]"

definition found :: "string \<Rightarrow> thrown + js" where
  "found i = Inr (Obj [(''data'', resource i)])"

lemmas example_defs = example_store_def id_a_def id_b_def example_page_def resource_def found_def

lemmas page_defs = onBeforeMount_detail_def getForm_def activeId_def arrive_def watch_id_def answer_form_def getById_done_def
  onNavSelect_def onSave_def has_id_def edit_form_def

lemma select_keeps_tab_witness: "select_target example_page id_b = ''/spiders/'' @ id_b @ ''/files''"
  using select_keeps_tab [of example_page "''spiders''" id_a "''files''" id_b, OF _ _ _ _ _ _ _ refl]
  by (simp add: example_defs path_char_def tab_char_def is_word_def is_id_def hex_any_def)

definition ordinary_visit :: "detail_event list" where
  "ordinary_visit =
     [FormAnswer 0 (found id_a), SelectResource id_b, SelectionArrived id_b (''/spiders/'' @ id_b @ ''/files''),
      FormAnswer 0 (found id_b), SavePressed, FormAnswer 0 (found id_b)]"

lemma save_matches_page_witness:
  "\<exists>d. d = detail_run ordinary_visit (onBeforeMount_detail example_page) \<and> has_id (form (kept d)) (Str id_b) \<and>
     saves (onSave d) = [(Str id_b, resource id_b), (Str id_b, resource id_b)]"
proof -
  let ?d = "detail_run ordinary_visit (onBeforeMount_detail example_page)"
  have d: "route_id ?d = id_b \<and> loading ?d = [] \<and> saves ?d = [(Str id_b, resource id_b)] \<and> form (kept ?d) = resource id_b"
    by (simp add: ordinary_visit_def example_defs page_defs)
  have "all_in_order (onBeforeMount_detail example_page) ordinary_visit"
    by (simp add: ordinary_visit_def example_defs page_defs)
  then show ?thesis
    using save_matches_page [of example_page ordinary_visit ?d] d by (simp add: example_page_def id_a_def)
qed

text \<open>
  The answers are not tied to the page they were asked for: when the answer for the previous resource
  comes last, or the one for the chosen resource fails, a save overwrites the chosen resource with the
  form of the previous one.
\<close>

lemma late_answer_saves_other:
  "saves (detail_run
     [SelectResource id_b, SelectionArrived id_b (''/spiders/'' @ id_b @ ''/files''),
      FormAnswer 1 (found id_b), FormAnswer 1 (found id_b), FormAnswer 0 (found id_a), SavePressed]
     (onBeforeMount_detail example_page)) = [(Str id_b, resource id_a)]"
  by (simp add: example_defs page_defs)

lemma failed_answer_saves_other:
  "saves (detail_run
     [FormAnswer 0 (found id_a), SelectResource id_b, SelectionArrived id_b (''/spiders/'' @ id_b @ ''/files''),
      FormAnswer 0 (Inl e), FormAnswer 0 (Inl e), SavePressed]
     (onBeforeMount_detail example_page)) = [(Str id_b, resource id_a)]"
  by (simp add: example_defs page_defs)

text \<open>A path that ends behind the identifier has no tab, and a selection there leads to one named \<open>undefined\<close>.\<close>

lemma tab_name_missing:
  "getTabName ''/spiders/x'' = None"
  "select_target (example_page\<lparr>route_path := ''/spiders/x''\<rparr>) ''y'' = ''/spiders/x/y/undefined''"
  by code_simp+

section \<open>The pages of a role\<close>

lemma tab_pages_paths:
  "list_all (\<lambda>r. rpath r \<noteq> ''//:id'' \<and> list_all path_char (tl (take (length (rpath r) - 4) (rpath r)))) tab_pages"
  by (simp add: tab_pages_def root_children_def option_tables path_char_def tab_char_def is_word_def)

lemma tab_page_path:
  assumes "r \<in> set tab_pages" "rpath r = CHR ''/'' # p @ ''/:id''"
  shows "p \<noteq> []" "list_all path_char p"
  using tab_pages_paths assms unfolding list_all_iff by fastforce+

lemma model_values_are_strings: "\<exists>rs. updateModelValue getRouteSelectOptions st = map Str rs"
proof -
  have "\<exists>s. ovalue l = Str s" if "l \<in> set (leaf_options getRouteSelectOptions)" for l
    using options_strings that unfolding list_all_iff by (cases "ovalue l") force+
  then have "\<forall>v \<in> set (updateModelValue getRouteSelectOptions st). \<exists>s. v = Str s"
    by (auto simp: updateModelValue_def)
  then show ?thesis by (intro ex_map_conv [THEN iffD2]) blast
qed

lemma value_reported:
  assumes "l \<in> set (leaf_options getRouteSelectOptions)"
  shows "ovalue l \<in> set (updateModelValue getRouteSelectOptions st) \<longleftrightarrow> checked st (oid l)"
  using options_values assms by (auto simp: updateModelValue_def distinct_map inj_on_def)

text \<open>
  C16: What an administrator ticks for a role is what its users see. However the boxes of the pages are
  clicked, the routes that are stored for the role make a user of this role, who is not a root
  administrator, see a tab of a resource's page exactly when the box of that tab is ticked; there is such
  a box for each tab of each page, and it is ticked exactly when the clicks, taken as unions and
  differences of sets of tabs, leave it in.
\<close>

theorem role_pages_grant_tabs:
  assumes "set (map fst clicks) \<subseteq> set (nodes getRouteSelectOptions)" "clicks \<noteq> []"
    and "r \<in> set tab_pages" "rpath r = CHR ''/'' # p @ ''/:id''" "c \<in> set (rchildren r)"
    and "route_path d = CHR ''/'' # p @ CHR ''/'' # i @ CHR ''/'' # shown" "is_id i" "shown \<noteq> []" "list_all tab_char shown"
    and "oget tab ''id'' = Str (rpath c)"
  shows "\<exists>st rs l. run_clicks getRouteSelectOptions clicks (initializeState ca mv getRouteSelectOptions Map.empty, mv) = Some (st, map Str rs) \<and>
    l \<in> set (leaf_options getRouteSelectOptions) \<and> ovalue l = Str (rpath r @ ''/'' @ rpath c) \<and>
    tab_allowed \<lparr>pro_edition = True, me = Some \<lparr>root_admin = False, user_routes = Some rs\<rparr>\<rparr> d tab = checked st (oid l) \<and>
    checked st (oid l) = (l \<in> fold (\<lambda>(x, b). click x b) clicks {l \<in> set (leaf_options getRouteSelectOptions). starts_checked ca mv l})"
proof -
  let ?xs = getRouteSelectOptions
  obtain s where s: "run_clicks ?xs clicks (initializeState ca mv ?xs Map.empty, mv) = Some s"
      "checked_leaves ?xs (fst s) = fold (\<lambda>(x, b). click x b) clicks {l \<in> set (leaf_options ?xs). starts_checked ca mv l}"
      "snd s = updateModelValue ?xs (fst s)"
    using run_clicks_refines [OF options_distinct _ assms(1), of "(initializeState ca mv ?xs Map.empty, mv)"]
      initializeState_starts [OF options_distinct, of ca mv] assms(2) by auto
  obtain rs where rs: "snd s = map Str rs" using model_values_are_strings s(3) by metis
  obtain l where l: "l \<in> set (leaf_options ?xs)" "ovalue l = Str (rpath r @ ''/'' @ rpath c)"
    using options_offered [OF assms(3,5)] by blast
  have "primaryRoutePath d = CHR ''/'' # p"
    using detail_path_parts(1) [OF tab_page_path [OF assms(3,4)] assms(7-9)] by (simp add: primaryRoutePath_def assms(6))
  then have "tab_allowed \<lparr>pro_edition = True, me = Some \<lparr>root_admin = False, user_routes = Some rs\<rparr>\<rparr> d tab \<longleftrightarrow> Str (rpath r @ ''/'' @ rpath c) \<in> set (snd s)"
    by (auto simp: tab_allowed_def assms(4,10) rs)
  also have "\<dots> \<longleftrightarrow> checked (fst s) (oid l)"
    using value_reported [OF l(1), of "fst s"] l(2) s(3) by simp
  finally show ?thesis
    using s l rs by (intro exI [of _ "fst s"] exI [of _ rs] exI [of _ l]) (cases s, auto simp: checked_leaves_def set_eq_iff)
qed

definition files_box :: "string check_option" where
  "files_box = Option (json_text [''spider'', ''/spiders/:id'', ''files'']) (Str ''/spiders/:id/files'') False []"

definition data_box :: "string check_option" where
  "data_box = Option (json_text [''spider'', ''/spiders/:id'', ''data'']) (Str ''/spiders/:id/data'') False []"

lemma boxes_offered: "{files_box, data_box} \<subseteq> set (leaf_options getRouteSelectOptions)"
  by (simp add: files_box_def data_box_def options_of_groups option_tables)

lemma role_pages_grant_tabs_witness:
  "\<exists>st rs. run_clicks getRouteSelectOptions [(files_box, True), (data_box, False)]
       (initializeState False [] getRouteSelectOptions Map.empty, []) = Some (st, map Str rs) \<and>
     tab_allowed \<lparr>pro_edition = True, me = Some \<lparr>root_admin = False, user_routes = Some rs\<rparr>\<rparr> example_page
       [(''id'', Str ''files'')]"
proof -
  let ?clicks = "[(files_box, True), (data_box, False)]"
  let ?r = "spider_router ! 1"
  let ?c = "rchildren ?r ! 1"
  have boxes: "set (map fst ?clicks) \<subseteq> set (nodes getRouteSelectOptions)"
    using boxes_offered by (auto simp: leaves_in_nodes)
  have page: "?r \<in> set tab_pages" "rpath ?r = CHR ''/'' # ''spiders'' @ ''/:id''" "?c \<in> set (rchildren ?r)" "rpath ?c = ''files''"
    by (simp_all add: tab_pages_def root_children_def option_tables)
  have path: "route_path example_page = CHR ''/'' # ''spiders'' @ CHR ''/'' # id_a @ CHR ''/'' # ''files''" "is_id id_a"
      "list_all tab_char ''files''"
    by (simp_all add: example_defs is_id_def hex_any_def tab_char_def is_word_def)
  obtain st rs l where run: "run_clicks getRouteSelectOptions ?clicks (initializeState False [] getRouteSelectOptions Map.empty, []) = Some (st, map Str rs)"
      "l \<in> set (leaf_options getRouteSelectOptions)" "ovalue l = Str (rpath ?r @ ''/'' @ rpath ?c)"
      "tab_allowed \<lparr>pro_edition = True, me = Some \<lparr>root_admin = False, user_routes = Some rs\<rparr>\<rparr> example_page [(''id'', Str ''files'')] = checked st (oid l)"
      "checked st (oid l) = (l \<in> fold (\<lambda>(x, b). click x b) ?clicks {l \<in> set (leaf_options getRouteSelectOptions). starts_checked False [] l})"
    using role_pages_grant_tabs [OF boxes _ page(1,2,3) path(1,2) _ path(3), of "[(''id'', Str ''files'')]" False "[]"] page(4) by auto
  have "ovalue l = ovalue files_box" using run(3) page by (simp add: files_box_def)
  then have "l = files_box" using options_values run(2) boxes_offered by (auto simp: distinct_map inj_on_def)
  then have "checked st (oid l)"
    using run(5) by (simp add: click_def below_def files_box_def data_box_def)
  then show ?thesis using run(1,4) by blast
qed

end
