(* ===== verification/UI_AutoLink.thy ===== *)
theory UI_AutoLink
  imports UI_Route
begin

text \<open>
  \<^verbatim>\<open>components/ui/lexical/utils/autoLink.ts\<close>: addresses that become links while one types.

  A paragraph is the list of its nodes. The operations of the editor (Lexical, a package) that the code
  uses change this list: a text is split, a node is replaced, a link is replaced by its children. The
  package's pattern for URLs is the parameter \<open>url_exec\<close>. Whether the node counts as the first of its
  paragraph after it was replaced is a matter of the package, too: the parameter \<open>gone\<close>.
  The code calls \<open>onChange\<close> with the new and the old address; these calls are a list.
\<close>

section \<open>Matches\<close>

record link_match =
  m_index :: nat
  m_length :: nat
  m_text :: string
  m_url :: string
  m_attributes :: "(js \<times> js) option"

type_synonym link_matcher = "string \<Rightarrow> link_match option"

text \<open>\<open>EMAIL_MATCHER\<close>: the whole text is an address, of characters that are neither spaces nor at signs.\<close>

definition address_char :: "char \<Rightarrow> bool" where
  "address_char ch \<longleftrightarrow> \<not> is_space ch \<and> ch \<noteq> CHR ''@''"

definition email_match :: "string \<Rightarrow> bool" where
  "email_match s \<longleftrightarrow>
     (let user = takeWhile address_char s; rest = dropWhile address_char s in
      user \<noteq> [] \<and> rest \<noteq> [] \<and> hd rest = CHR ''@'' \<and> list_all address_char (tl rest) \<and>
      list_ex (\<lambda>i. tl rest ! i = CHR ''.'') [1..<length (tl rest) - 1])"

definition link_matchers :: "(string \<Rightarrow> (nat \<times> string) option) \<Rightarrow> link_matcher list" where
  "link_matchers url_exec =
     [(\<lambda>s. map_option (\<lambda>(i, w). \<lparr>m_index = i, m_length = length w, m_text = w, m_url = w, m_attributes = None\<rparr>) (url_exec s)),
      (\<lambda>s. if email_match s
           then Some \<lparr>m_index = 0, m_length = length s, m_text = s, m_url = ''mailto:'' @ s, m_attributes = None\<rparr> else None)]"

definition findFirstMatch :: "string \<Rightarrow> link_matcher list \<Rightarrow> link_match option" where
  "findFirstMatch s ms = first_some (\<lambda>m. m s) ms"

definition isSeparator :: "char \<Rightarrow> bool" where
  "isSeparator ch \<longleftrightarrow> ch \<in> set ''.,;'' \<or> is_space ch"

text \<open>The character at a position; a position outside of the text is no separator.\<close>

definition separator_at :: "string \<Rightarrow> nat \<Rightarrow> bool" where
  "separator_at s k \<longleftrightarrow> k < length s \<and> isSeparator (s ! k)"

definition endsWithSeparator :: "string \<Rightarrow> bool" where
  "endsWithSeparator s \<longleftrightarrow> s \<noteq> [] \<and> isSeparator (last s)"

definition startsWithSeparator :: "string \<Rightarrow> bool" where
  "startsWithSeparator s \<longleftrightarrow> s \<noteq> [] \<and> isSeparator (hd s)"

section \<open>Nodes\<close>

datatype inline =
    PlainText bool string
  | BreakNode
  | OtherLeaf
  | AutoLink string js js "inline list"
  | Elem "inline list"

fun inline_children :: "inline \<Rightarrow> inline list" where
  "inline_children (AutoLink u r t cs) = cs"
| "inline_children (Elem cs) = cs"
| "inline_children _ = []"

fun is_element :: "inline \<Rightarrow> bool" where
  "is_element (AutoLink u r t cs) \<longleftrightarrow> True"
| "is_element (Elem cs) \<longleftrightarrow> True"
| "is_element _ \<longleftrightarrow> False"

fun inline_text :: "inline \<Rightarrow> string" where
  "inline_text (PlainText b s) = s"
| "inline_text BreakNode = []"
| "inline_text OtherLeaf = []"
| "inline_text (AutoLink u r t cs) = concat (map inline_text cs)"
| "inline_text (Elem cs) = concat (map inline_text cs)"

definition nodes_text :: "inline list \<Rightarrow> string" where
  "nodes_text xs = concat (map inline_text xs)"

lemma child_smaller: "c \<in> set (inline_children x) \<Longrightarrow> size c < size x"
  by (cases x) (auto simp: size_list_estimation' less_Suc_eq_le)

function deep_last :: "inline \<Rightarrow> inline" where
  "deep_last x = (if inline_children x = [] then x else deep_last (last (inline_children x)))"
  by pat_completeness auto
termination by (relation "measure size") (simp_all add: child_smaller)

function deep_first :: "inline \<Rightarrow> inline" where
  "deep_first x = (if inline_children x = [] then x else deep_first (hd (inline_children x)))"
  by pat_completeness auto
termination by (relation "measure size") (simp_all add: child_smaller)

declare deep_last.simps [simp del] deep_first.simps [simp del]

text \<open>The neighbour that is looked at: of an element, its last or first descendant, if it has any.\<close>

definition seen_before :: "inline option \<Rightarrow> inline option" where
  "seen_before p =
     (case p of
        None \<Rightarrow> None
      | Some x \<Rightarrow> if \<not> is_element x then Some x
                  else if inline_children x = [] then None else Some (deep_last (last (inline_children x))))"

definition seen_after :: "inline option \<Rightarrow> inline option" where
  "seen_after p =
     (case p of
        None \<Rightarrow> None
      | Some x \<Rightarrow> if \<not> is_element x then Some x
                  else if inline_children x = [] then None else Some (deep_first (hd (inline_children x))))"

fun valid_before :: "inline option \<Rightarrow> bool" where
  "valid_before None \<longleftrightarrow> True"
| "valid_before (Some BreakNode) \<longleftrightarrow> True"
| "valid_before (Some (PlainText b s)) \<longleftrightarrow> endsWithSeparator s"
| "valid_before (Some x) \<longleftrightarrow> False"

fun valid_after :: "inline option \<Rightarrow> bool" where
  "valid_after None \<longleftrightarrow> True"
| "valid_after (Some BreakNode) \<longleftrightarrow> True"
| "valid_after (Some (PlainText b s)) \<longleftrightarrow> startsWithSeparator s"
| "valid_after (Some x) \<longleftrightarrow> False"

definition previous_sibling :: "inline list \<Rightarrow> nat \<Rightarrow> inline option" where
  "previous_sibling xs k = (if k = 0 then None else Some (xs ! (k - 1)))"

definition next_sibling :: "inline list \<Rightarrow> nat \<Rightarrow> inline option" where
  "next_sibling xs k = (if Suc k < length xs then Some (xs ! Suc k) else None)"

definition isPreviousNodeValid :: "inline list \<Rightarrow> nat \<Rightarrow> bool" where
  "isPreviousNodeValid xs k = valid_before (seen_before (previous_sibling xs k))"

definition isNextNodeValid :: "inline list \<Rightarrow> nat \<Rightarrow> bool" where
  "isNextNodeValid xs k = valid_after (seen_after (next_sibling xs k))"

section \<open>Making and changing links\<close>

definition isContentAroundIsValid :: "nat \<Rightarrow> nat \<Rightarrow> string \<Rightarrow> bool \<Rightarrow> bool \<Rightarrow> bool" where
  "isContentAroundIsValid matchStart matchEnd s before after \<longleftrightarrow>
     (if 0 < matchStart then separator_at s (matchStart - 1) else before) \<and>
     (if matchEnd < length s then separator_at s matchEnd else after)"

definition text_nodes :: "string \<Rightarrow> inline list" where
  "text_nodes s = (if s = [] then [] else [PlainText True s])"

definition new_link :: "link_match \<Rightarrow> inline" where
  "new_link m =
     AutoLink (m_url m) (case m_attributes m of None \<Rightarrow> Null | Some (r, t) \<Rightarrow> js_coalesce r Null)
       (case m_attributes m of None \<Rightarrow> Null | Some (r, t) \<Rightarrow> js_coalesce t Null) [PlainText True (m_text m)]"

text \<open>
  The loop of \<open>handleLinkCreation\<close>: \<open>rest\<close> is the text of \<open>remainingTextNode\<close>, \<open>s\<close> the text that is still to be
  searched, and the nodes made so far come before. The result is \<open>None\<close> when the loop does not end.
\<close>

partial_function (option) create_links ::
  "link_matcher list \<Rightarrow> string \<Rightarrow> bool \<Rightarrow> bool \<Rightarrow> bool \<Rightarrow> nat \<Rightarrow> string \<Rightarrow> string \<Rightarrow> inline list \<times> (js \<times> js) list \<Rightarrow>
     (inline list \<times> (js \<times> js) list) option"
where
  "create_links ms nodeText after gone before invalidMatchEnd rest s made =
     (case findFirstMatch s ms of
        None \<Rightarrow> Some (fst made @ text_nodes rest, snd made)
      | Some m \<Rightarrow>
          (let start = invalidMatchEnd + m_index m; stop = start + m_length m; s' = drop (m_index m + m_length m) s in
           if isContentAroundIsValid start stop nodeText before after then
             create_links ms nodeText after gone (if start = 0 then gone else before) 0 (drop stop rest) s'
               (fst made @ text_nodes (take start rest) @ [new_link m], snd made @ [(Str (m_url m), Null)])
           else create_links ms nodeText after gone before stop rest s' made))"

definition handleLinkCreation ::
  "link_matcher list \<Rightarrow> bool \<Rightarrow> inline list \<Rightarrow> nat \<Rightarrow> string \<Rightarrow> (inline list \<times> (js \<times> js) list) option" where
  "handleLinkCreation ms gone xs k s =
     map_option (\<lambda>(made, calls). (take k xs @ made @ drop (Suc k) xs, calls))
       (create_links ms s (isNextNodeValid xs k) gone (isPreviousNodeValid xs k) 0 s s ([], []))"

definition replaceWithChildren :: "inline list \<Rightarrow> nat \<Rightarrow> inline list" where
  "replaceWithChildren xs k = take k xs @ inline_children (xs ! k) @ drop (Suc k) xs"

fun simple_text :: "inline \<Rightarrow> bool" where
  "simple_text (PlainText b s) \<longleftrightarrow> b"
| "simple_text _ \<longleftrightarrow> False"

definition set_attribute :: "js \<Rightarrow> js \<Rightarrow> js \<times> (js \<times> js) list" where
  "set_attribute old new = (if old \<noteq> new then (js_or new Null, [(js_or new Null, old)]) else (old, []))"

definition handleLinkEdit ::
  "link_matcher list \<Rightarrow> inline list \<Rightarrow> nat \<Rightarrow> string \<Rightarrow> js \<Rightarrow> js \<Rightarrow> inline list \<Rightarrow> inline list \<times> (js \<times> js) list" where
  "handleLinkEdit ms xs k url rel target cs =
     (let plain_again = (replaceWithChildren xs k, [(Null, Str url)]) in
      if \<not> list_all simple_text cs then plain_again
      else (case findFirstMatch (nodes_text cs) ms of
              None \<Rightarrow> plain_again
            | Some m \<Rightarrow>
                if m_text m \<noteq> nodes_text cs then plain_again
                else if \<not> isPreviousNodeValid xs k \<or> \<not> isNextNodeValid xs k then plain_again
                else (let url_calls = (if url \<noteq> m_url m then [(Str (m_url m), Str url)] else []);
                          (rel', rel_calls) = (case m_attributes m of None \<Rightarrow> (rel, []) | Some (r, t) \<Rightarrow> set_attribute rel r);
                          (target', target_calls) = (case m_attributes m of None \<Rightarrow> (target, []) | Some (r, t) \<Rightarrow> set_attribute target t)
                      in (xs[k := AutoLink (m_url m) rel' target' cs], url_calls @ rel_calls @ target_calls))))"

text \<open>The neighbours of a text; the one before is replaced first, and the one after is found where it is then.\<close>

definition handleBadNeighbors :: "inline list \<Rightarrow> nat \<Rightarrow> string \<Rightarrow> inline list \<times> (js \<times> js) list" where
  "handleBadNeighbors xs k s =
     (let (ys, calls) = (case next_sibling xs k of
              Some (AutoLink u r t cs) \<Rightarrow>
                if \<not> endsWithSeparator s then (replaceWithChildren xs (Suc k), [(Null, Str u)]) else (xs, [])
            | _ \<Rightarrow> (xs, []))
      in case previous_sibling xs k of
           Some (AutoLink u r t cs) \<Rightarrow>
             if \<not> startsWithSeparator s then (replaceWithChildren ys (k - 1), (Null, Str u) # calls) else (ys, calls)
         | _ \<Rightarrow> (ys, calls))"

text \<open>
  The transforms that are registered with the editor, in any order on any nodes of the paragraph. For a
  text node the first two come one after the other; a text below a link leads to the third.
\<close>

datatype link_event = MakeLinks nat bool | CheckNeighbors nat | CheckLink nat

fun link_step :: "link_matcher list \<Rightarrow> link_event \<Rightarrow> inline list \<Rightarrow> inline list option" where
  "link_step ms (MakeLinks k gone) xs =
     (if k < length xs then
        (case xs ! k of
           PlainText b s \<Rightarrow> if b then map_option fst (handleLinkCreation ms gone xs k s) else Some xs
         | _ \<Rightarrow> Some xs)
      else Some xs)"
| "link_step ms (CheckNeighbors k) xs =
     (if k < length xs then (case xs ! k of PlainText b s \<Rightarrow> Some (fst (handleBadNeighbors xs k s)) | _ \<Rightarrow> Some xs) else Some xs)"
| "link_step ms (CheckLink k) xs =
     (if k < length xs then
        (case xs ! k of AutoLink u r t cs \<Rightarrow> Some (fst (handleLinkEdit ms xs k u r t cs)) | _ \<Rightarrow> Some xs)
      else Some xs)"

fun link_run :: "link_matcher list \<Rightarrow> link_event list \<Rightarrow> inline list \<Rightarrow> inline list option" where
  "link_run ms [] xs = Some xs"
| "link_run ms (e # es) xs = (case link_step ms e xs of None \<Rightarrow> None | Some ys \<Rightarrow> link_run ms es ys)"

section \<open>Linking keeps the text\<close>

text \<open>What matchers promise: a match is a piece of the text and not empty.\<close>

definition proper_match :: "string \<Rightarrow> link_match \<Rightarrow> bool" where
  "proper_match s m \<longleftrightarrow>
     0 < m_length m \<and> m_index m + m_length m \<le> length s \<and> m_text m = take (m_length m) (drop (m_index m) s)"

definition proper_matchers :: "link_matcher list \<Rightarrow> bool" where
  "proper_matchers ms \<longleftrightarrow> (\<forall>s m. findFirstMatch s ms = Some m \<longrightarrow> proper_match s m)"

lemma nodes_text_simps [simp]:
  "nodes_text [] = []" "nodes_text (x # xs) = inline_text x @ nodes_text xs" "nodes_text (xs @ ys) = nodes_text xs @ nodes_text ys"
  by (simp_all add: nodes_text_def)

lemma text_nodes_text [simp]: "nodes_text (text_nodes s) = s"
  by (simp add: text_nodes_def)

lemma children_text: "is_element x \<Longrightarrow> nodes_text (inline_children x) = inline_text x"
  by (cases x) (simp_all add: nodes_text_def)

text \<open>A link of a match: its address and its text.\<close>

definition links_of :: "inline list \<Rightarrow> (string \<times> string) set" where
  "links_of xs = {(u, nodes_text cs) | u r t cs. AutoLink u r t cs \<in> set xs}"

definition matched :: "link_matcher list \<Rightarrow> (string \<times> string) set" where
  "matched ms = {(m_url m, m_text m) | s m. findFirstMatch s ms = Some m}"

lemma links_simps [simp]:
  "links_of (xs @ ys) = links_of xs \<union> links_of ys" "links_of [] = {}" "links_of (text_nodes s) = {}"
  "links_of [new_link m] = {(m_url m, m_text m)}"
  by (auto simp: links_of_def text_nodes_def new_link_def)

lemma links_mono: "set xs \<subseteq> set ys \<Longrightarrow> links_of xs \<subseteq> links_of ys"
  unfolding links_of_def by blast

text \<open>The children of a link are texts, breaks and other nodes, but no links.\<close>

definition flat :: "inline list \<Rightarrow> bool" where
  "flat xs \<longleftrightarrow> (\<forall>x \<in> set xs. is_element x \<longrightarrow> list_all (\<lambda>c. \<not> is_element c) (inline_children x))"

lemma flat_simps [simp]: "flat []" "flat (xs @ ys) \<longleftrightarrow> flat xs \<and> flat ys" "flat (text_nodes s)" "flat [new_link m]"
  by (auto simp: flat_def text_nodes_def new_link_def)

text \<open>The loop ends, keeps the text and makes links of matches only.\<close>

lemma create_links_ok:
  assumes "proper_matchers ms" "s = drop off rest" "off \<le> length rest"
  shows "\<exists>made' calls. create_links ms whole after gone before off rest s made = Some (made', calls) \<and>
    nodes_text made' = nodes_text (fst made) @ rest \<and> links_of made' \<subseteq> links_of (fst made) \<union> matched ms \<and>
    (flat (fst made) \<longrightarrow> flat made')"
  using assms(2,3)
proof (induction s arbitrary: before off rest made rule: length_induct)
  case (1 s)
  show ?case
  proof (cases "findFirstMatch s ms")
    case None
    then show ?thesis by (subst create_links.simps) simp
  next
    case (Some m)
    define start where "start = off + m_index m"
    define stop where "stop = start + m_length m"
    define s' where "s' = drop (m_index m + m_length m) s"
    have m: "0 < m_length m" "m_index m + m_length m \<le> length s" "m_text m = take (m_length m) (drop (m_index m) s)"
      using assms(1) Some by (auto simp: proper_matchers_def proper_match_def)
    have stop: "stop \<le> length rest" "m_text m = take (m_length m) (drop start rest)" "s' = drop stop rest"
      using m 1(2,3) by (simp_all add: stop_def start_def s'_def ac_simps)
    have shorter: "length s' < length s" using m by (simp add: s'_def)
    have link: "(m_url m, m_text m) \<in> matched ms" using Some by (auto simp: matched_def)
    show ?thesis
    proof (cases "isContentAroundIsValid start stop whole before after")
      case True
      let ?before = "if start = 0 then gone else before"
      let ?made = "(fst made @ text_nodes (take start rest) @ [new_link m], snd made @ [(Str (m_url m), Null)])"
      have rest: "rest = take start rest @ m_text m @ drop stop rest"
        using stop by (metis append_take_drop_id add.commute drop_drop stop_def)
      have step: "create_links ms whole after gone before off rest s made =
          create_links ms whole after gone ?before 0 (drop stop rest) s' ?made"
        using Some True by (subst create_links.simps) (simp add: Let_def flip: start_def stop_def s'_def)
      obtain made' calls where made': "create_links ms whole after gone ?before 0 (drop stop rest) s' ?made = Some (made', calls)"
          "nodes_text made' = nodes_text (fst ?made) @ drop stop rest" "links_of made' \<subseteq> links_of (fst ?made) \<union> matched ms"
          "flat (fst ?made) \<longrightarrow> flat made'"
        using 1(1) shorter stop(3) by (metis drop0 zero_le)
      have "inline_text (new_link m) = m_text m" by (simp add: new_link_def)
      then have "nodes_text made' = nodes_text (fst made) @ rest" using made'(2) rest by simp
      moreover have "links_of made' \<subseteq> links_of (fst made) \<union> matched ms" using made'(3) link by auto
      moreover have "flat (fst made) \<longrightarrow> flat made'" using made'(4) by simp
      moreover have "create_links ms whole after gone before off rest s made = Some (made', calls)"
        using step made'(1) by (rule trans)
      ultimately show ?thesis by blast
    next
      case False
      then have "create_links ms whole after gone before off rest s made =
          create_links ms whole after gone before stop rest s' made"
        using Some by (subst create_links.simps) (simp add: Let_def flip: start_def stop_def s'_def)
      then show ?thesis using 1(1) shorter stop(1,3) by metis
    qed
  qed
qed

lemma made_in_place:
  assumes "k < length xs" "nodes_text made = inline_text (xs ! k)"
  shows "nodes_text (take k xs @ made @ drop (Suc k) xs) = nodes_text xs"
proof -
  have "nodes_text xs = nodes_text (take k xs @ xs ! k # drop (Suc k) xs)" using assms(1) by (simp add: id_take_nth_drop [symmetric])
  then show ?thesis using assms(2) by (simp add: nodes_text_def)
qed

lemma part_links: "links_of (take k xs) \<subseteq> links_of xs" "links_of (drop k xs) \<subseteq> links_of xs"
  by (auto intro!: links_mono dest: in_set_takeD in_set_dropD)

lemma flat_links: "flat xs \<Longrightarrow> k < length xs \<Longrightarrow> links_of (inline_children (xs ! k)) = {}"
proof -
  assume "flat xs" "k < length xs"
  then have "list_all (\<lambda>c. \<not> is_element c) (inline_children (xs ! k))"
    by (cases "is_element (xs ! k)"; cases "xs ! k") (auto simp: flat_def dest!: bspec [OF _ nth_mem])
  then show ?thesis by (auto simp: links_of_def list_all_iff)
qed

lemma replaced_text: "k < length xs \<Longrightarrow> is_element (xs ! k) \<Longrightarrow> nodes_text (replaceWithChildren xs k) = nodes_text xs"
  unfolding replaceWithChildren_def by (rule made_in_place) (simp_all add: children_text)

lemma replaced_links: "flat xs \<Longrightarrow> k < length xs \<Longrightarrow> links_of (replaceWithChildren xs k) \<subseteq> links_of xs"
  using part_links flat_links by (fastforce simp: replaceWithChildren_def)

text \<open>Each transform ends, keeps the text and has links of matches or of before only; the nodes stay flat.\<close>

definition step_ok :: "link_matcher list \<Rightarrow> inline list \<Rightarrow> inline list \<Rightarrow> bool" where
  "step_ok ms xs ys \<longleftrightarrow> nodes_text ys = nodes_text xs \<and> links_of ys \<subseteq> links_of xs \<union> matched ms \<and> flat ys"

lemma flat_part: "flat xs \<Longrightarrow> flat (take k xs)" "flat xs \<Longrightarrow> flat (drop k xs)"
  by (auto simp: flat_def dest: in_set_takeD in_set_dropD)

lemma create_step:
  assumes "proper_matchers ms" "flat xs" "k < length xs" "xs ! k = PlainText b s"
  shows "\<exists>ys calls. handleLinkCreation ms gone xs k s = Some (ys, calls) \<and> step_ok ms xs ys"
proof -
  obtain made calls where made: "create_links ms s (isNextNodeValid xs k) gone (isPreviousNodeValid xs k) 0 s s ([], []) = Some (made, calls)"
      "nodes_text made = s" "links_of made \<subseteq> matched ms" "flat made"
    using create_links_ok [OF assms(1), of s 0 s s "isNextNodeValid xs k" gone "isPreviousNodeValid xs k" "([], [])"] by auto
  let ?ys = "take k xs @ made @ drop (Suc k) xs"
  have "nodes_text ?ys = nodes_text xs" by (rule made_in_place) (simp_all add: assms(3,4) made(2))
  moreover have "links_of ?ys \<subseteq> links_of xs \<union> matched ms" using part_links made(3) by fastforce
  moreover have "flat ?ys" using made(4) flat_part [OF assms(2)] by simp
  ultimately show ?thesis using made(1) by (simp add: handleLinkCreation_def step_ok_def)
qed

lemma replaced_flat: "flat xs \<Longrightarrow> k < length xs \<Longrightarrow> flat (replaceWithChildren xs k)"
proof -
  assume xs: "flat xs" "k < length xs"
  then have "list_all (\<lambda>c. \<not> is_element c) (inline_children (xs ! k))"
    by (cases "is_element (xs ! k)"; cases "xs ! k") (auto simp: flat_def dest!: bspec [OF _ nth_mem])
  then have "flat (inline_children (xs ! k))" by (auto simp: flat_def list_all_iff)
  then show ?thesis using flat_part [OF xs(1)] by (simp add: replaceWithChildren_def)
qed

lemma replaced_ok: "flat xs \<Longrightarrow> k < length xs \<Longrightarrow> is_element (xs ! k) \<Longrightarrow> step_ok ms xs (replaceWithChildren xs k)"
  using replaced_text [of k xs] replaced_links [of xs k] replaced_flat [of xs k] by (simp add: step_ok_def le_supI1)

lemma handleLinkEdit_ok:
  assumes "flat xs" "k < length xs" "xs ! k = AutoLink u r t cs"
  shows "step_ok ms xs (fst (handleLinkEdit ms xs k u r t cs))"
proof -
  have again: "step_ok ms xs (replaceWithChildren xs k)" using assms by (simp add: replaced_ok)
  have kept: "step_ok ms xs (xs[k := AutoLink (m_url m) r' t' cs])"
    if "findFirstMatch (nodes_text cs) ms = Some m" "m_text m = nodes_text cs" for m r' t'
  proof -
    let ?y = "AutoLink (m_url m) r' t' cs"
    have ys: "xs[k := ?y] = take k xs @ [?y] @ drop (Suc k) xs" using assms(2) by (simp add: upd_conv_take_nth_drop)
    have "(m_url m, nodes_text cs) \<in> matched ms" unfolding matched_def using that by force
    then have "links_of [?y] \<subseteq> matched ms" by (simp add: links_of_def)
    moreover have "flat [?y]" using assms(1) nth_mem [OF assms(2)] assms(3) by (force simp: flat_def)
    moreover have "nodes_text (take k xs @ [?y] @ drop (Suc k) xs) = nodes_text xs"
      by (rule made_in_place) (simp_all add: assms(2,3))
    moreover have "links_of (take k xs @ [?y] @ drop (Suc k) xs) \<subseteq> links_of xs \<union> links_of [?y]"
      using part_links [where xs = xs] by (simp only: links_simps) blast
    ultimately show ?thesis unfolding ys step_ok_def using flat_part [OF assms(1)] by (simp only: flat_simps) blast
  qed
  show ?thesis using again kept by (auto simp: handleLinkEdit_def Let_def split: option.split prod.split)
qed

lemma step_ok_refl: "flat xs \<Longrightarrow> step_ok ms xs xs"
  by (simp add: step_ok_def)

lemma step_ok_trans: "step_ok ms xs ys \<Longrightarrow> step_ok ms ys zs \<Longrightarrow> step_ok ms xs zs"
  by (auto simp: step_ok_def)

lemma handleBadNeighbors_ok:
  assumes "flat xs" "k < length xs" "\<not> is_element (xs ! k)"
  shows "step_ok ms xs (fst (handleBadNeighbors xs k s))"
proof -
  define ys where "ys = (case next_sibling xs k of
      Some (AutoLink u r t cs) \<Rightarrow> if \<not> endsWithSeparator s then replaceWithChildren xs (Suc k) else xs | _ \<Rightarrow> xs)"
  have ys: "step_ok ms xs ys \<and> k < length ys \<and> take (Suc k) ys = take (Suc k) xs"
  proof (cases "\<exists>u r t cs. next_sibling xs k = Some (AutoLink u r t cs) \<and> \<not> endsWithSeparator s")
    case True
    then have "Suc k < length xs" "is_element (xs ! Suc k)" "ys = replaceWithChildren xs (Suc k)"
      by (auto simp: ys_def next_sibling_def split: if_splits)
    then show ?thesis using replaced_ok [OF assms(1)] by (auto simp: replaceWithChildren_def)
  next
    case False
    then have "ys = xs" by (auto simp: ys_def split: option.split inline.split)
    then show ?thesis using assms by (simp add: step_ok_refl)
  qed
  then have "flat ys" by (simp add: step_ok_def)
  have same: "0 < k \<Longrightarrow> ys ! (k - 1) = xs ! (k - 1)"
    using ys by (metis diff_less less_SucI less_Suc_eq nth_take zero_less_one)
  have "fst (handleBadNeighbors xs k s) = (case previous_sibling xs k of
      Some (AutoLink u r t cs) \<Rightarrow> if \<not> startsWithSeparator s then replaceWithChildren ys (k - 1) else ys | _ \<Rightarrow> ys)"
    by (auto simp: handleBadNeighbors_def ys_def Let_def split: option.split inline.split prod.split)
  also have "step_ok ms ys \<dots>"
    using \<open>flat ys\<close> same ys by (auto simp: previous_sibling_def step_ok_refl intro!: replaced_ok split: inline.split)
  finally show ?thesis using ys step_ok_trans by blast
qed

lemma link_run_ok:
  assumes "proper_matchers ms"
  shows "flat xs \<Longrightarrow> \<exists>ys. link_run ms es xs = Some ys \<and> step_ok ms xs ys"
proof (induction es arbitrary: xs)
  case (Cons e es)
  have "\<exists>ys. link_step ms e xs = Some ys \<and> step_ok ms xs ys"
  proof (cases e)
    case (MakeLinks k gone)
    then show ?thesis using create_step [OF assms Cons.prems, of k] Cons.prems step_ok_refl
      by (auto split: inline.split)
  next
    case (CheckNeighbors k)
    then show ?thesis using handleBadNeighbors_ok [OF Cons.prems, of k] Cons.prems step_ok_refl by (auto split: inline.split)
  next
    case (CheckLink k)
    then show ?thesis using handleLinkEdit_ok [OF Cons.prems, of k] Cons.prems step_ok_refl by (auto split: inline.split)
  qed
  then obtain ys where ys: "link_step ms e xs = Some ys" "step_ok ms xs ys" by blast
  then obtain zs where "link_run ms es ys = Some zs" "step_ok ms ys zs"
    using Cons.IH [of ys] by (auto simp: step_ok_def)
  then show ?case using ys step_ok_trans by auto
qed (simp add: step_ok_refl)

section \<open>The matchers of the editor\<close>

lemma link_matchers_match:
  assumes "findFirstMatch s (link_matchers url_exec) = Some m"
  shows "(\<exists>i. url_exec s = Some (i, m_text m) \<and> m_index m = i \<and> m_length m = length (m_text m) \<and> m_url m = m_text m) \<or>
    (email_match s \<and> m_index m = 0 \<and> m_length m = length s \<and> m_text m = s \<and> m_url m = ''mailto:'' @ s)"
  using assms by (auto simp: findFirstMatch_def link_matchers_def split: option.splits if_splits)

lemma email_nonempty: "email_match s \<Longrightarrow> s \<noteq> []"
  by (auto simp: email_match_def Let_def)

lemma link_matchers_proper:
  assumes "\<forall>s i w. url_exec s = Some (i, w) \<longrightarrow> w \<noteq> [] \<and> i + length w \<le> length s \<and> take (length w) (drop i s) = w"
  shows "proper_matchers (link_matchers url_exec)"
  unfolding proper_matchers_def proper_match_def
  using link_matchers_match assms email_nonempty by fastforce

text \<open>
  C39: Whatever transforms run on the nodes of a paragraph, in whatever order, they end, the paragraph
  still reads the same, and every link that was not there before leads where its text says: to its text, or
  to the mail address that its text is. The pattern for URLs is only asked to return a piece of the
  text that is not empty.
\<close>

theorem links_lead_where_they_say:
  assumes "\<forall>s i w. url_exec s = Some (i, w) \<longrightarrow> w \<noteq> [] \<and> i + length w \<le> length s \<and> take (length w) (drop i s) = w"
    and "flat xs"
  shows "\<exists>ys. link_run (link_matchers url_exec) es xs = Some ys \<and> nodes_text ys = nodes_text xs \<and>
    (\<forall>(u, w) \<in> links_of ys. (u, w) \<in> links_of xs \<or> u = w \<or> (u = ''mailto:'' @ w \<and> email_match w))"
proof -
  have matches: "u = w \<or> (u = ''mailto:'' @ w \<and> email_match w)" if "(u, w) \<in> matched (link_matchers url_exec)" for u w
    using that link_matchers_match unfolding matched_def by force
  obtain ys where ys: "link_run (link_matchers url_exec) es xs = Some ys" "step_ok (link_matchers url_exec) xs ys"
    using link_run_ok [OF link_matchers_proper [OF assms(1)] assms(2)] by blast
  then show ?thesis using matches unfolding step_ok_def by (intro exI [of _ ys]) auto
qed

section \<open>Examples\<close>

text \<open>A pattern that knows one address.\<close>

definition sample_exec :: "string \<Rightarrow> (nat \<times> string) option" where
  "sample_exec s = map_option (\<lambda>i. (i, ''x.io'')) (find (\<lambda>i. take 4 (drop i s) = ''x.io'') [0..<length s])"

lemma sample_exec_proper:
  "sample_exec s = Some (i, w) \<Longrightarrow> w \<noteq> [] \<and> i + length w \<le> length s \<and> take (length w) (drop i s) = w"
proof -
  assume "sample_exec s = Some (i, w)"
  then have w: "w = ''x.io''" and i: "i < length s" "take 4 (drop i s) = ''x.io''"
    by (auto simp: sample_exec_def find_Some_iff)
  have "length (take 4 (drop i s)) = 4" unfolding i(2) by simp
  then have "i + 4 \<le> length s" by simp
  then show ?thesis using w i(2) by (simp add: eval_nat_numeral)
qed

definition sample_text :: "inline list" where
  "sample_text = [PlainText True ''see x.io, or'', BreakNode, PlainText True ''me@x.org'']"

lemma links_lead_where_they_say_witness:
  "\<exists>ys. link_run (link_matchers sample_exec) [MakeLinks 0 True, CheckNeighbors 2, MakeLinks 4 True] sample_text = Some ys \<and>
     nodes_text ys = ''see x.io, orme@x.org'' \<and> links_of ys \<subseteq> {(u, w). u = w \<or> (u = ''mailto:'' @ w \<and> email_match w)}"
proof -
  have flat: "flat sample_text" by (simp add: sample_text_def flat_def)
  have "links_of sample_text = {}" "nodes_text sample_text = ''see x.io, orme@x.org''"
    by (simp_all add: sample_text_def links_of_def)
  then show ?thesis
    using links_lead_where_they_say [of sample_exec sample_text "[MakeLinks 0 True, CheckNeighbors 2, MakeLinks 4 True]", OF _ flat]
      sample_exec_proper by fastforce
qed

lemmas link_defs = handleLinkCreation_def create_links.simps findFirstMatch_def link_matchers_def sample_exec_def email_match_def
  address_char_def is_space_def isContentAroundIsValid_def separator_at_def isSeparator_def isPreviousNodeValid_def isNextNodeValid_def
  previous_sibling_def next_sibling_def seen_before_def seen_after_def text_nodes_def new_link_def handleBadNeighbors_def
  endsWithSeparator_def startsWithSeparator_def

lemma sample_links:
  "link_run (link_matchers sample_exec) [MakeLinks 0 True, CheckNeighbors 2, MakeLinks 4 True] sample_text =
     Some [PlainText True ''see '', AutoLink ''x.io'' Null Null [PlainText True ''x.io''], PlainText True '', or'', BreakNode,
       AutoLink ''mailto:me@x.org'' Null Null [PlainText True ''me@x.org'']]"
  by (simp add: link_defs sample_text_def upt_rec)

text \<open>
  After the first link of a text, the surroundings of a further match are looked up in the whole text, but at
  the position that the match has in the remaining text: an address inside of a word becomes a link. Only a
  later check of the neighbours undoes it.
\<close>

lemma second_match_checked_elsewhere:
  "link_run (link_matchers sample_exec) [MakeLinks 0 True] [PlainText True ''       x.io ax.iob''] =
     Some [PlainText True ''       '', AutoLink ''x.io'' Null Null [PlainText True ''x.io''], PlainText True '' a'',
       AutoLink ''x.io'' Null Null [PlainText True ''x.io''], PlainText True ''b'']"
  "link_run (link_matchers sample_exec) [MakeLinks 0 True] [PlainText True ''ax.iob''] = Some [PlainText True ''ax.iob'']"
  by (simp_all add: link_defs upt_rec)

end
