(* ===== verification/UI_Resources.thy ===== *)
theory UI_Resources
  imports UI_Access UI_Notification
begin

text \<open>
  The smaller stores: \<^verbatim>\<open>store/modules/common.ts\<close>, which knows the edition and the user, \<^verbatim>\<open>system.ts\<close>,
  \<^verbatim>\<open>node.ts\<close>, \<^verbatim>\<open>spider.ts\<close>, \<^verbatim>\<open>dataCollection.ts\<close> and \<^verbatim>\<open>autoprobe.ts\<close>, with \<^verbatim>\<open>utils/result.ts\<close>.

  The mutations are the constructors of a datatype per store. An action is the request it sends and what it
  does with the answer. What the stores share with all lists is \<open>base_state\<close> of \<open>UI_Store\<close>.
\<close>

section \<open>The common store\<close>

record common_state =
  lang :: string
  systemInfo :: js
  common_me :: js

definition common_init :: "local_storage \<Rightarrow> thrown + common_state" where
  "common_init ls =
     (let l = (case getItem ''lang'' ls of None \<Rightarrow> [] | Some s \<Rightarrow> s);
          info = (case getItem ''systemInfo'' ls of None \<Rightarrow> [] | Some s \<Rightarrow> s) in
      case json_parse (if info = [] then ''{}'' else info) of
        Inl e \<Rightarrow> Inl e
      | Inr v \<Rightarrow> Inr \<lparr>lang = (if l = [] then ''en'' else l), systemInfo = v, common_me = Undef\<rparr>)"

definition isPro :: "common_state \<Rightarrow> bool" where
  "isPro c \<longleftrightarrow> js_get_opt (systemInfo c) ''edition'' = Str ''global.edition.pro''"

datatype common_mutation = SetLang string | SetSystemInfo js | SetMe js | ResetMe

text \<open>A mutation that throws has changed nothing.\<close>

fun commit_common :: "common_mutation \<Rightarrow> common_state \<times> local_storage \<Rightarrow> thrown + common_state \<times> local_storage" where
  "commit_common (SetLang l) (c, ls) = Inr (c\<lparr>lang := l\<rparr>, ls)"
| "commit_common (SetSystemInfo info) (c, ls) =
     (case plainClone info of
        Inl e \<Rightarrow> Inl e
      | Inr v \<Rightarrow> Inr (c\<lparr>systemInfo := v\<rparr>, setItem ''systemInfo'' (js_str (json_stringify info)) ls))"
| "commit_common (SetMe v) (c, ls) = Inr (c\<lparr>common_me := v\<rparr>, ls)"
| "commit_common ResetMe (c, ls) = Inr (c\<lparr>common_me := Undef\<rparr>, ls)"

fun common_run :: "common_mutation list \<Rightarrow> common_state \<times> local_storage \<Rightarrow> thrown + common_state \<times> local_storage" where
  "common_run [] w = Inr w"
| "common_run (m # ms) w = (case commit_common m w of Inl e \<Rightarrow> Inl e | Inr w' \<Rightarrow> common_run ms w')"

definition getSystemInfo_done :: "js \<Rightarrow> common_state \<times> local_storage \<Rightarrow> thrown + common_state \<times> local_storage" where
  "getSystemInfo_done res w = (case js_get res ''data'' of Inl e \<Rightarrow> Inl e | Inr v \<Rightarrow> commit_common (SetSystemInfo v) w)"

definition getMe_done :: "js \<Rightarrow> common_state \<times> local_storage \<Rightarrow> thrown + common_state \<times> local_storage" where
  "getMe_done res w = (case js_get res ''data'' of Inl e \<Rightarrow> Inl e | Inr v \<Rightarrow> commit_common (SetMe v) w)"

datatype common_call = AskSystemInfo | AskMe | PutMe js | ChangeMyPassword js

fun common_request :: "common_call \<Rightarrow> service_request" where
  "common_request AskSystemInfo = get_request ''/system-info'' Undef"
| "common_request AskMe = get_request ''/users/me'' Undef"
| "common_request (PutMe u) = put_request ''/users/me'' u"
| "common_request (ChangeMyPassword pw) = post_request ''/users/me/change-password'' (Obj [(''password'', pw)])"

text \<open>What the permission of routes reads of this store (\<open>UI_Access\<close>).\<close>

definition js_strings :: "js \<Rightarrow> string list option" where
  "js_strings v = (case v of Arr xs \<Rightarrow> Some (List.map_filter (\<lambda>x. case x of Str s \<Rightarrow> Some s | _ \<Rightarrow> None) xs) | _ \<Rightarrow> None)"

definition session_of :: "common_state \<Rightarrow> session_info" where
  "session_of c =
     \<lparr>pro_edition = isPro c,
      me = (if truthy (common_me c)
            then Some \<lparr>root_admin = truthy (js_get_opt (common_me c) ''root_admin''),
                       user_routes = js_strings (js_get_opt (common_me c) ''routes'')\<rparr> else None)\<rparr>"

section \<open>Settings\<close>

definition getDefaultSetting :: "string \<Rightarrow> js" where
  "getDefaultSetting key = Obj [(''key'', Str key), (''value'', Obj [])]"

datatype system_mutation = SetSetting string js | ResetSetting string | SetSettings jobj | ResetSettings

fun system_mutate :: "system_mutation \<Rightarrow> jobj \<Rightarrow> jobj" where
  "system_mutate (SetSetting key v) s = aset key (js_or v (getDefaultSetting key)) s"
| "system_mutate (ResetSetting key) s = aset key (getDefaultSetting key) s"
| "system_mutate (SetSettings ps) s = ps"
| "system_mutate ResetSettings s = []"

definition getSetting_done :: "string \<Rightarrow> js \<Rightarrow> jobj \<Rightarrow> thrown + jobj" where
  "getSetting_done key res s =
     (case js_get res ''data'' of
        Inl e \<Rightarrow> Inl e
      | Inr data \<Rightarrow>
          (let setting = js_or data (getDefaultSetting key) in
           case (if truthy (js_get_opt setting ''value'') then Inr setting else set_property ''value'' (Obj []) setting) of
             Inl e \<Rightarrow> Inl e
           | Inr v \<Rightarrow> Inr (system_mutate (SetSetting key v) s)))"

definition getSetting_request :: "string \<Rightarrow> service_request" where
  "getSetting_request key = get_request (''/settings/'' @ key) Undef"

definition saveSetting_request :: "string \<Rightarrow> js \<Rightarrow> thrown + service_request" where
  "saveSetting_request key v =
     (case js_get v ''_id'' of
        Inl e \<Rightarrow> Inl e
      | Inr i \<Rightarrow> Inr ((if truthy i then put_request else post_request) (''/settings/'' @ key) (Obj [(''data'', v)])))"

section \<open>Nodes and spiders\<close>

record node_state =
  nodeMetricsMap :: js
  allNodes :: js

definition node_init :: node_state where
  "node_init = \<lparr>nodeMetricsMap = Obj [], allNodes = Arr []\<rparr>"

definition getNodeMetrics_request :: "base_state \<Rightarrow> service_request" where
  "getNodeMetrics_request s =
     get_request ''/nodes/metrics'' (Obj
       [(''page'', oget (tablePagination s) ''page''), (''size'', oget (tablePagination s) ''size''),
        (''filter'', json_stringify (Arr (map Obj (tableListFilter s))))])"

definition getNodeMetrics_done :: "js \<Rightarrow> node_state \<Rightarrow> thrown + node_state" where
  "getNodeMetrics_done res s = (case js_get res ''data'' of Inl e \<Rightarrow> Inl e | Inr v \<Rightarrow> Inr (s\<lparr>nodeMetricsMap := v\<rparr>))"

definition getAllNodes_done :: "js \<Rightarrow> node_state \<Rightarrow> thrown + node_state" where
  "getAllNodes_done res s = (case js_get res ''data'' of Inl e \<Rightarrow> Inl e | Inr v \<Rightarrow> Inr (s\<lparr>allNodes := js_or v (Arr [])\<rparr>))"

text \<open>The list of spiders is requested without its sort, and the marker of loading is left alone.\<close>

definition spider_list_request :: "base_state \<Rightarrow> service_request" where
  "spider_list_request s =
     get_request ''/spiders'' (Obj (amerge (tablePagination s)
       [(''filter'', json_stringify (Arr (map Obj (tableListFilter s))))]))"

definition spider_list_done :: "js \<Rightarrow> base_state \<Rightarrow> thrown + base_state" where
  "spider_list_done result s =
     (case normalize_list result of
        Inl e \<Rightarrow> Inl e
      | Inr res \<Rightarrow> Inr (mutate (SetTableData (js_or (js_get_opt res ''data'') (Arr [])) (js_get_opt res ''total'')) s))"

datatype select_option = SelectOption js "select_option list option"

record database_meta =
  db_name :: js
  db_tables :: "js list option"

definition table_options :: "js list \<Rightarrow> select_option list" where
  "table_options ts = map (\<lambda>t. SelectOption t None) ts"

definition databaseTableSelectOptions :: "database_meta list option option \<Rightarrow> select_option list" where
  "databaseTableSelectOptions metadata =
     (case metadata of
        Some (Some [d]) \<Rightarrow> (case db_tables d of None \<Rightarrow> [] | Some ts \<Rightarrow> table_options ts)
      | Some (Some ds) \<Rightarrow>
          List.map_filter (\<lambda>d. case db_tables d of
              None \<Rightarrow> None
            | Some ts \<Rightarrow> if ts = [] then None else Some (SelectOption (db_name d) (Some (table_options ts)))) ds
      | _ \<Rightarrow> [])"

section \<open>Results\<close>

text \<open>The fields of results: the keys of all objects, each once, in the order in which they come.\<close>

fun result_keys :: "js \<Rightarrow> thrown + string list" where
  "result_keys (Obj ps) = Inr (map fst ps)"
| "result_keys (Arr xs) = Inr (map dec_nat [0..<length xs])"
| "result_keys Null = Inl (ErrorObj ''Cannot convert undefined or null to object'')"
| "result_keys _ = Inr []"

definition getFieldsFromData :: "js list \<Rightarrow> thrown + string list" where
  "getFieldsFromData data =
     (case map_try result_keys data of Inl e \<Rightarrow> Inl e | Inr kss \<Rightarrow> Inr (rev (remdups (rev (concat kss)))))"

record collection_state =
  resultTableData :: js
  resultTableTotal :: js
  resultTablePagination :: jobj
  resultTableFilter :: "jobj list"
  resultDialogVisible :: bool
  resultDialogContent :: string
  resultDialogType :: "string option"
  resultDialogKey :: string
  dedupFieldsDialogVisible :: bool

definition collection_init :: collection_state where
  "collection_init =
     \<lparr>resultTableData = Arr [], resultTableTotal = Num 0, resultTablePagination = getDefaultPagination, resultTableFilter = [],
      resultDialogVisible = False, resultDialogContent = [], resultDialogType = None, resultDialogKey = [],
      dedupFieldsDialogVisible = False\<rparr>"

datatype collection_mutation =
    SetResultTableData js js
  | ResetResultTableData
  | SetResultTablePagination jobj
  | ResetResultTablePagination
  | SetResultTableFilter "jobj list"
  | ResetResultTableFilter
  | SetResultDialogVisible bool
  | SetResultDialogContent string
  | ResetResultDialogContent
  | SetResultDialogType "string option"
  | ResetResultDialogType
  | SetResultDialogKey string
  | ResetResultDialogKey
  | SetDedupFieldsDialogVisible bool

fun collection_mutate :: "collection_mutation \<Rightarrow> collection_state \<Rightarrow> collection_state" where
  "collection_mutate (SetResultTableData d n) s = s\<lparr>resultTableData := d, resultTableTotal := n\<rparr>"
| "collection_mutate ResetResultTableData s = s\<lparr>resultTableData := Arr [], resultTableTotal := Num 0\<rparr>"
| "collection_mutate (SetResultTablePagination p) s = s\<lparr>resultTablePagination := p\<rparr>"
| "collection_mutate ResetResultTablePagination s = s\<lparr>resultTablePagination := getDefaultPagination\<rparr>"
| "collection_mutate (SetResultTableFilter f) s = s\<lparr>resultTableFilter := f\<rparr>"
| "collection_mutate ResetResultTableFilter s = s\<lparr>resultTableFilter := []\<rparr>"
| "collection_mutate (SetResultDialogVisible b) s = s\<lparr>resultDialogVisible := b\<rparr>"
| "collection_mutate (SetResultDialogContent x) s = s\<lparr>resultDialogContent := x\<rparr>"
| "collection_mutate ResetResultDialogContent s = s\<lparr>resultDialogContent := []\<rparr>"
| "collection_mutate (SetResultDialogType x) s = s\<lparr>resultDialogType := x\<rparr>"
| "collection_mutate ResetResultDialogType s = s\<lparr>resultDialogType := None\<rparr>"
| "collection_mutate (SetResultDialogKey x) s = s\<lparr>resultDialogKey := x\<rparr>"
| "collection_mutate ResetResultDialogKey s = s\<lparr>resultDialogKey := []\<rparr>"
| "collection_mutate (SetDedupFieldsDialogVisible b) s = s\<lparr>dedupFieldsDialogVisible := b\<rparr>"

definition getResultData_request :: "string \<Rightarrow> js \<Rightarrow> service_request" where
  "getResultData_request i params = get_request (''/spiders/'' @ i @ ''/results'') params"

definition getResultData_done :: "js \<Rightarrow> collection_state \<Rightarrow> thrown + collection_state" where
  "getResultData_done result s =
     (case normalize_list result of
        Inl e \<Rightarrow> Inl e
      | Inr res \<Rightarrow> Inr (collection_mutate (SetResultTableData (js_or (js_get_opt res ''data'') (Arr [])) (js_get_opt res ''total'')) s))"

section \<open>Automatic probes\<close>

record autoprobe_state =
  ap_form :: js
  pagePattern :: js
  pagePatternData :: js

datatype autoprobe_call = RunProbe string | CancelProbe string | AskPattern string | AskPatternData string

fun autoprobe_request :: "autoprobe_call \<Rightarrow> service_request" where
  "autoprobe_request (RunProbe i) = post_request (''/ai/autoprobes/'' @ i @ ''/tasks'') Undef"
| "autoprobe_request (CancelProbe i) = post_request (''/ai/autoprobes/tasks/'' @ i @ ''/cancel'') Undef"
| "autoprobe_request (AskPattern i) = get_request (''/ai/autoprobes/'' @ i @ ''/pattern'') Undef"
| "autoprobe_request (AskPatternData i) = get_request (''/ai/autoprobes/'' @ i @ ''/pattern/results'') Undef"

definition set_in_form :: "string \<Rightarrow> js \<Rightarrow> autoprobe_state \<Rightarrow> autoprobe_state" where
  "set_in_form k v s = (if truthy (ap_form s) then s\<lparr>ap_form := Obj (aset k v (spread_js (ap_form s)))\<rparr> else s)"

definition getPagePattern_done :: "js \<Rightarrow> autoprobe_state \<Rightarrow> thrown + autoprobe_state" where
  "getPagePattern_done res s =
     (case js_get res ''data'' of
        Inl e \<Rightarrow> Inl e
      | Inr v \<Rightarrow> Inr (set_in_form ''page_pattern'' v (s\<lparr>pagePattern := v\<rparr>)))"

fun structured_data :: "js list \<Rightarrow> jobj \<Rightarrow> thrown + jobj" where
  "structured_data [] acc = Inr acc"
| "structured_data (x # xs) acc =
     (case js_get x ''pattern_id'' of
        Inl e \<Rightarrow> Inl e
      | Inr i \<Rightarrow> structured_data xs
          (if truthy i \<and> js_get_opt x ''data'' \<noteq> Undef then aset (js_str i) (js_get_opt x ''data'') acc else acc))"

text \<open>The commit of the data comes before the loop that may throw.\<close>

definition getPagePatternData_done :: "js \<Rightarrow> autoprobe_state \<Rightarrow> autoprobe_state \<times> thrown option" where
  "getPagePatternData_done res s =
     (case js_get res ''data'' of
        Inl e \<Rightarrow> (s, Some e)
      | Inr v \<Rightarrow>
          (let s' = s\<lparr>pagePatternData := v\<rparr> in
           case structured_data (case v of Arr xs \<Rightarrow> xs | _ \<Rightarrow> []) [] of
             Inl e \<Rightarrow> (s', Some e)
           | Inr d \<Rightarrow> (set_in_form ''page_data'' (Obj d) s', None)))"

section \<open>Properties\<close>

lemma parse_stored:
  assumes "wf_js v" "v \<noteq> Undef"
  shows "json_parse (js_str (json_stringify v)) = Inr (jnorm v)" "js_str (json_stringify v) \<noteq> []"
proof -
  show parse: "json_parse (js_str (json_stringify v)) = Inr (jnorm v)"
    using assms by (simp add: json_stringify_def json_parse_ser all_ws_def)
  have "json_parse [] \<noteq> Inr w" for w by code_simp
  then show "js_str (json_stringify v) \<noteq> []" using parse by metis
qed

text \<open>
  The stored system information is the one in memory, unless the last one set was \<open>undefined\<close>: then the
  text \<open>undefined\<close> is stored.
\<close>

definition info_stored :: "common_state \<times> local_storage \<Rightarrow> bool" where
  "info_stored w \<longleftrightarrow> (\<exists>c. common_init (snd w) = Inr c \<and> systemInfo c = systemInfo (fst w))"

definition info_wf :: "common_mutation \<Rightarrow> bool" where
  "info_wf m \<longleftrightarrow> (case m of SetSystemInfo i \<Rightarrow> wf_js i | _ \<Rightarrow> True)"

fun last_info :: "common_mutation list \<Rightarrow> js option" where
  "last_info [] = None"
| "last_info (m # ms) =
     (case last_info ms of
        None \<Rightarrow> (case m of SetSystemInfo i \<Rightarrow> Some i | _ \<Rightarrow> None)
      | Some i \<Rightarrow> Some i)"

definition info_kept :: "bool \<Rightarrow> common_state \<times> local_storage \<Rightarrow> bool" where
  "info_kept lost w \<longleftrightarrow>
     (if lost then systemInfo (fst w) = Undef \<and> getItem ''systemInfo'' (snd w) = Some ''undefined'' else info_stored w)"

lemma undefined_text: "js_str (json_stringify Undef) = ''undefined''"
  by code_simp

lemma undefined_not_parsed: "isl (json_parse ''undefined'')"
  by code_simp

lemma commit_common_kept:
  assumes "info_kept lost w" "info_wf m"
  shows "\<exists>w'. commit_common m w = Inr w' \<and>
    info_kept (case m of SetSystemInfo i \<Rightarrow> i = Undef | _ \<Rightarrow> lost) w'"
proof (cases m)
  case (SetSystemInfo i)
  then have i: "wf_js i" using assms(2) by (simp add: info_wf_def)
  obtain c ls where w: "w = (c, ls)" by (cases w)
  let ?ls = "setItem ''systemInfo'' (js_str (json_stringify i)) ls"
  show ?thesis
  proof (cases "i = Undef")
    case True
    then show ?thesis by (simp add: SetSystemInfo w plainClone_def info_kept_def item_defs undefined_text)
  next
    case False
    have "\<exists>c'. common_init ?ls = Inr c' \<and> systemInfo c' = jnorm i"
      using parse_stored [OF i False] by (simp add: common_init_def Let_def item_defs)
    then show ?thesis using i False by (simp add: SetSystemInfo w plainClone_eq info_kept_def info_stored_def)
  qed
qed (use assms in \<open>cases w; auto simp: info_kept_def info_stored_def split: if_splits\<close>)+

lemma common_run_kept:
  "info_kept lost w \<Longrightarrow> list_all info_wf ms \<Longrightarrow>
   \<exists>w'. common_run ms w = Inr w' \<and> info_kept (case last_info ms of None \<Rightarrow> lost | Some i \<Rightarrow> i = Undef) w'"
proof (induction ms arbitrary: lost w)
  case (Cons m ms)
  then obtain w' where w': "commit_common m w = Inr w'" "info_kept (case m of SetSystemInfo i \<Rightarrow> i = Undef | _ \<Rightarrow> lost) w'"
    using commit_common_kept [of lost w m] by auto
  from Cons.IH [OF w'(2)] Cons.prems(2) obtain w2 where "common_run ms w' = Inr w2"
    "info_kept (case last_info ms of None \<Rightarrow> (case m of SetSystemInfo i \<Rightarrow> i = Undef | _ \<Rightarrow> lost) | Some i \<Rightarrow> i = Undef) w2"
    by auto
  then show ?case using w'(1) by (cases m; cases "last_info ms") simp_all
qed simp

text \<open>
  C40: The edition survives a reload, unless an answer had no system information. From whatever was stored
  when the program started, any mutations of the common store succeed. If the last system information
  set, if any was, is a value, a program that starts from the storage they leave has the same
  system information, the same edition and, once the user is known again, permits the same routes.
  If it is \<open>undefined\<close>, as an answer without data gives it, the next program does not start.
\<close>

theorem edition_survives_reload:
  assumes "common_init ls = Inr c" "list_all info_wf ms"
  shows "\<exists>c' ls'. common_run ms (c, ls) = Inr (c', ls') \<and>
    (if last_info ms = Some Undef then systemInfo c' = Undef \<and> isl (common_init ls')
     else \<exists>c2. common_init ls' = Inr c2 \<and> systemInfo c2 = systemInfo c' \<and> isPro c2 = isPro c' \<and>
       (\<forall>path. isAllowedRoutePath (session_of (c2\<lparr>common_me := common_me c'\<rparr>)) path = isAllowedRoutePath (session_of c') path))"
proof -
  have "info_kept False (c, ls)" using assms(1) by (simp add: info_kept_def info_stored_def)
  from common_run_kept [OF this assms(2)] obtain w' where w': "common_run ms (c, ls) = Inr w'"
    "info_kept (case last_info ms of None \<Rightarrow> False | Some i \<Rightarrow> i = Undef) w'" by blast
  show ?thesis
  proof (cases "last_info ms = Some Undef")
    case True
    then have "systemInfo (fst w') = Undef" "getItem ''systemInfo'' (snd w') = Some ''undefined''"
      using w'(2) by (simp_all add: info_kept_def)
    moreover from this have "isl (common_init (snd w'))"
      using undefined_not_parsed by (auto simp: common_init_def Let_def isl_def)
    ultimately show ?thesis using w'(1) True by (intro exI [of _ "fst w'"] exI [of _ "snd w'"]) simp
  next
    case False
    then have "info_stored w'" using w'(2) by (auto simp: info_kept_def split: option.splits)
    then obtain c2 where c2: "common_init (snd w') = Inr c2" "systemInfo c2 = systemInfo (fst w')"
      by (auto simp: info_stored_def)
    then have "isPro c2 = isPro (fst w')" by (simp add: isPro_def)
    moreover from this have "session_of (c2\<lparr>common_me := common_me (fst w')\<rparr>) = session_of (fst w')"
      by (simp add: session_of_def isPro_def)
    ultimately show ?thesis using w' c2 False
      by (intro exI [of _ "fst w'"] exI [of _ "snd w'"]) simp
  qed
qed

definition pro_info :: js where
  "pro_info = Obj [(''edition'', Str ''global.edition.pro'')]"

lemma edition_survives_reload_witness:
  "\<exists>c' ls' c2. common_run [SetSystemInfo pro_info, SetMe (Obj [(''routes'', Arr [Str ''/nodes''])])]
       (\<lparr>lang = ''en'', systemInfo = Obj [], common_me = Undef\<rparr>, Map.empty) = Inr (c', ls') \<and>
     common_init ls' = Inr c2 \<and> isPro c2 = isPro c'"
proof -
  have init: "common_init Map.empty = Inr \<lparr>lang = ''en'', systemInfo = Obj [], common_me = Undef\<rparr>" by code_simp
  have given: "list_all info_wf [SetSystemInfo pro_info, SetMe (Obj [(''routes'', Arr [Str ''/nodes''])])]"
    "last_info [SetSystemInfo pro_info, SetMe (Obj [(''routes'', Arr [Str ''/nodes''])])] \<noteq> Some Undef"
    by (simp_all add: info_wf_def pro_info_def)
  show ?thesis using edition_survives_reload [OF init given(1)] given(2) by (auto simp del: last_info.simps common_run.simps)
qed

text \<open>
  An answer without data is stored as the text \<open>undefined\<close>: the program that is shown goes on, but the next
  one does not start.
\<close>

lemma undefined_info_breaks_start:
  "\<exists>ls'. getSystemInfo_done (Str ''<html>'') (c, ls) = Inr (c\<lparr>systemInfo := Undef\<rparr>, ls') \<and> isl (common_init ls')"
  using undefined_not_parsed
  by (auto simp: getSystemInfo_done_def plainClone_def common_init_def Let_def item_defs isl_def undefined_text split: sum.splits)

text \<open>A setting that was read has a value, whatever was answered, and a default one is read for nothing.\<close>

theorem setting_has_value:
  assumes "getSetting_done key res s = Inr s'"
  shows "\<exists>v. map_of s' key = Some v \<and> (truthy (js_get_opt v ''value'') \<or> (\<exists>xs. v = Arr xs)) \<and>
    (\<not> truthy (js_get_opt res ''data'') \<longrightarrow> v = getDefaultSetting key) \<and> (\<forall>k. k \<noteq> key \<longrightarrow> map_of s' k = map_of s k)"
proof -
  obtain data where data: "js_get res ''data'' = Inr data" using assms by (auto simp: getSetting_done_def split: sum.splits)
  then have opt: "js_get_opt res ''data'' = data" by (simp add: js_get_opt_def)
  have default: "truthy (js_get_opt (getDefaultSetting key) ''value'')" by (simp add: getDefaultSetting_def)
  obtain v where v: "(if truthy (js_get_opt (js_or data (getDefaultSetting key)) ''value'') then Inr (js_or data (getDefaultSetting key))
      else set_property ''value'' (Obj []) (js_or data (getDefaultSetting key))) = Inr v" "s' = aset key (js_or v (getDefaultSetting key)) s"
    using assms data by (auto simp: getSetting_done_def Let_def split: sum.splits if_splits)
  show ?thesis
  proof (cases "truthy data")
    case False
    then have "js_or data (getDefaultSetting key) = getDefaultSetting key" by (simp add: js_or_def)
    then have "v = getDefaultSetting key" using v(1) default by simp
    then show ?thesis using v(2) default by (simp add: js_or_def)
  next
    case True
    then have d: "js_or data (getDefaultSetting key) = data" by (simp add: js_or_def)
    then have "truthy (js_get_opt v ''value'') \<or> (\<exists>xs. v = Arr xs)"
      using v(1) by (cases data) (auto simp: set_property_def split: if_splits)
    moreover have "truthy v"
      using v(1) d True by (cases data) (auto simp: set_property_def split: if_splits)
    ultimately show ?thesis using v(2) True opt by (simp add: js_or_def)
  qed
qed

text \<open>Every table is offered once, in the order of the databases.\<close>

fun option_leaves :: "select_option \<Rightarrow> js list" where
  "option_leaves (SelectOption v None) = [v]"
| "option_leaves (SelectOption v (Some cs)) = concat (map option_leaves cs)"

lemma table_options_leaves: "concat (map option_leaves (table_options ts)) = ts"
  by (induction ts) (simp_all add: table_options_def)

lemma tables_offered:
  "concat (map option_leaves (databaseTableSelectOptions (Some (Some ds)))) =
     concat (map (\<lambda>d. case db_tables d of None \<Rightarrow> [] | Some ts \<Rightarrow> ts) ds)"
proof -
  let ?group = "\<lambda>d. case db_tables d of None \<Rightarrow> None
      | Some ts \<Rightarrow> if ts = [] then None else Some (SelectOption (db_name d) (Some (table_options ts)))"
  have groups: "concat (map option_leaves (List.map_filter ?group es)) =
      concat (map (\<lambda>d. case db_tables d of None \<Rightarrow> [] | Some ts \<Rightarrow> ts) es)" for es
    by (induction es) (auto simp: List.map_filter_simps table_options_leaves split: option.split)
  consider "\<exists>d. ds = [d]" | "databaseTableSelectOptions (Some (Some ds)) = List.map_filter ?group ds"
    by (cases ds rule: list.exhaust; cases "tl ds") (auto simp: databaseTableSelectOptions_def)
  then show ?thesis
  proof cases
    case 1
    then show ?thesis by (auto simp: databaseTableSelectOptions_def table_options_leaves split: option.split)
  next
    case 2
    then show ?thesis using groups by simp
  qed
qed

text \<open>The fields are the keys of the objects; a \<open>null\<close> among the results throws.\<close>

lemma map_try_Inr_iff: "(\<exists>ys. map_try f xs = Inr ys) \<longleftrightarrow> (\<forall>x \<in> set xs. \<exists>y. f x = Inr y)"
  by (induction xs) (auto split: sum.splits)

lemma fields_total: "(\<exists>ks. getFieldsFromData data = Inr ks) \<longleftrightarrow> Null \<notin> set data"
proof -
  have "(\<exists>ks. result_keys x = Inr ks) \<longleftrightarrow> x \<noteq> Null" for x by (cases x) auto
  then show ?thesis using map_try_Inr_iff [of result_keys data] by (auto simp: getFieldsFromData_def split: sum.splits)
qed

text \<open>The data of the patterns is found under their identifiers.\<close>

lemma structured_other:
  "structured_data xs acc = Inr d \<Longrightarrow> \<forall>x \<in> set xs. js_str (js_get_opt x ''pattern_id'') \<noteq> k \<Longrightarrow> oget d k = oget acc k"
proof (induction xs acc rule: structured_data.induct)
  case (2 x xs acc)
  then show ?case by (auto simp: js_get_opt_def split: sum.splits if_splits)
qed simp

lemma structured_found:
  assumes "structured_data (xs @ x # ys) acc = Inr d" "js_get x ''pattern_id'' = Inr i" "truthy i"
    "js_get_opt x ''data'' \<noteq> Undef" "\<forall>y \<in> set ys. js_str (js_get_opt y ''pattern_id'') \<noteq> js_str i"
  shows "oget d (js_str i) = js_get_opt x ''data''"
  using assms(1)
proof (induction xs acc rule: structured_data.induct)
  case (1 acc)
  then show ?case using assms(2-4) structured_other [of ys _ d "js_str i"] assms(5) by simp
next
  case (2 z zs acc)
  then show ?case by (auto split: sum.splits)
qed

text \<open>The sort of a list of spiders is not sent.\<close>

lemma spider_sort_not_sent: "spider_list_request (s\<lparr>tableListSort := x\<rparr>) = spider_list_request s"
  by (simp add: spider_list_request_def)

end
