(* ===== verification/Spec2Isabelle.thy ===== *)
theory Spec2Isabelle
  imports Mcp_Server UI_Tabs UI_Access UI_Request UI_Store UI_Chat UI_Form UI_Debounce
    UI_Dependency UI_Checkbox UI_File UI_Stats UI_Table_Edit UI_Database UI_Git UI_Login
    UI_Variables UI_Notify_Form UI_Header UI_NavMenu UI_Columns UI_Task UI_Route UI_Detail UI_AutoLink
    UI_Resources
begin

text \<open>
  A verification library for the TypeScript code of AstianGO Hub: the MCP server, through which
  language models use the hub, and the logic of the web user interface.

  \<^bold>\<open>The program.\<close> The MCP server (\<^verbatim>\<open>mcp/src\<close>) reads its configuration, builds an HTTP client
  for the API of the hub, registers tools and prompts and serves calls. The user interface
  (\<^verbatim>\<open>frontend/astiango-hub-ui/src\<close>) keeps its state in stores, fills them through services that
  send HTTP requests, and keeps parts of them in the browser's local storage.

  \<^bold>\<open>Foundations.\<close> \<^verbatim>\<open>Hub_Prelude\<close> holds the shared automation and lemmas on association lists and
  strings; \<^verbatim>\<open>Hub_JS\<close> the JavaScript values (\<open>js\<close>) and the operators the code uses on them
  (\<open>truthy\<close>, \<open>js_or\<close>, \<open>??\<close>, property access, spread, string conversion); \<^verbatim>\<open>Hub_JSON\<close>
  \<open>JSON.stringify\<close> and \<open>JSON.parse\<close>, with the proof that parsing inverts printing up to the JSON
  normal form, and \<open>plainClone\<close>; \<^verbatim>\<open>Hub_IO\<close> a world-passing monad with errors and the log of the
  requests sent.

  \<^bold>\<open>The MCP server.\<close> \<^verbatim>\<open>Mcp_Config\<close>: \<^verbatim>\<open>security.ts\<close> and \<^verbatim>\<open>config.ts\<close>. \<^verbatim>\<open>Mcp_Client\<close>: \<^verbatim>\<open>client.ts\<close>,
  every method and both interceptors, and the locales \<open>read_effects\<close> and \<open>http_effects\<close> that say
  what a computation over the client may send. \<^verbatim>\<open>Mcp_Tool\<close>: what all tool modules share. One
  theory per module of \<^verbatim>\<open>tools/\<close> (\<^verbatim>\<open>Mcp_Spiders\<close>, \<^verbatim>\<open>Mcp_Tasks\<close>, \<^verbatim>\<open>Mcp_Nodes\<close>, \<^verbatim>\<open>Mcp_Schedules\<close>,
  \<^verbatim>\<open>Mcp_Projects\<close>, \<^verbatim>\<open>Mcp_Databases\<close>, \<^verbatim>\<open>Mcp_Git\<close>, \<^verbatim>\<open>Mcp_Stats\<close>, \<^verbatim>\<open>Mcp_AI\<close>, \<^verbatim>\<open>Mcp_System\<close>) with each handler.
  \<^verbatim>\<open>Mcp_Prompts\<close>: the prompts. \<^verbatim>\<open>Mcp_Server\<close>: \<^verbatim>\<open>tools.ts\<close> and \<^verbatim>\<open>index.ts\<close>, sessions of arbitrary
  calls, and the properties of the server as a whole: a read-only session writes nothing, a
  destructive tool without its confirmation changes nothing and with it sends one request, the
  handlers are total and report every failure, and what they answer parses back to the response. Each theory of
  tools ends with the table of the requests of its tools that answer with the response
  (\<open>spider_requests\<close>, \<open>task_requests\<close> and so on).

  \<^bold>\<open>The user interface.\<close> \<^verbatim>\<open>UI_Storage\<close>: \<^verbatim>\<open>utils/storage.ts\<close>, with the locale \<open>settings_store\<close>
  interpreted on the raw storage and on JSON values. \<^verbatim>\<open>UI_Layout\<close>: \<^verbatim>\<open>store/modules/layout.ts\<close>;
  \<^verbatim>\<open>UI_Tabs\<close>: \<^verbatim>\<open>layouts/components/TabsView.vue\<close> as a state machine over it. \<^verbatim>\<open>UI_Access\<close>: the
  router guard, the permissions of routes and the sidebar. \<^verbatim>\<open>UI_Login\<close>: \<^verbatim>\<open>Login.vue\<close> and the logout, composed
  with the guard; the prompt for a new password can be cancelled, which leaves the tokens stored. \<^verbatim>\<open>UI_Request\<close>: \<^verbatim>\<open>services/request.ts\<close>
  as a state machine of concurrent requests that share one renewal of the session, with the logins, logouts
  and changes of the storage that come between them. \<^verbatim>\<open>UI_Store\<close>:
  \<^verbatim>\<open>utils/store.ts\<close>, the store behind every list page, with the service calls. \<^verbatim>\<open>UI_Chat\<close>: the
  assistant, \<^verbatim>\<open>useAssistantConsole.ts\<close> and \<^verbatim>\<open>AssistantConsole.vue\<close>, from the pieces of the answer's stream to the
  messages shown.

  \<^bold>\<open>Forms and lists.\<close> \<^verbatim>\<open>UI_Loading\<close>: the locale \<open>loading_flag\<close> of everything that is marked as loading,
  interpreted on the flags of the stores. \<^verbatim>\<open>UI_Form\<close>: \<^verbatim>\<open>useForm.ts\<close>, \<^verbatim>\<open>formTable.ts\<close> and \<^verbatim>\<open>useList.ts\<close>, the
  confirmation of a dialog with its timer, requests and watchers. \<^verbatim>\<open>UI_Debounce\<close>: \<^verbatim>\<open>utils/debounce.ts\<close> as a
  step relation, with safety and the progress of every caller. \<^verbatim>\<open>UI_Dependency\<close>:
  \<^verbatim>\<open>store/modules/dependency.ts\<close>, its eight flags and three tables (locale \<open>answered_table\<close>).
  \<^verbatim>\<open>UI_Checkbox\<close>: \<^verbatim>\<open>CheckboxTree.vue\<close>, refined from a set of checked leaves; its loop up to the root
  is the partial function \<open>ascend\<close>, which ends because the identifiers are distinct. \<^verbatim>\<open>UI_Stats\<close>:
  \<^verbatim>\<open>utils/stats.ts\<close>; its loop over days, \<open>span_from\<close>, ends when the end is a date of the calendar.

  \<^bold>\<open>Files, databases and repositories.\<close> \<^verbatim>\<open>UI_File\<close>: \<^verbatim>\<open>store/utils/file.ts\<close>, \<^verbatim>\<open>FileTab.vue\<close> and
  \<^verbatim>\<open>FileEditor.vue\<close>, the editor's buffer against the store. \<^verbatim>\<open>UI_Table\<close> and \<^verbatim>\<open>UI_Table_Edit\<close>: the editor of
  database tables (\<^verbatim>\<open>components/core/database/tables\<close>, \<^verbatim>\<open>DatabaseTableDetail.vue\<close>, \<^verbatim>\<open>utils/database.ts\<close>), and what
  the operations of a commit do to the rows of the database, with the conversion of every cell to the type of its
  column. \<^verbatim>\<open>UI_Database\<close>: \<^verbatim>\<open>store/modules/database.ts\<close> and
  \<^verbatim>\<open>DatabaseSidebar.vue\<close>, whose selection decides which table is created, renamed or dropped. \<^verbatim>\<open>UI_Git\<close>:
  \<^verbatim>\<open>store/modules/git.ts\<close> with the locale \<open>answered_slots\<close>, and the handlers of the pages of a repository.

  \<^bold>\<open>Notifications.\<close> \<^verbatim>\<open>UI_Notification\<close>: \<^verbatim>\<open>utils/notification.ts\<close>, its variables, templates and warnings,
  and the stores of settings, channels and alerts. \<^verbatim>\<open>UI_Variables\<close>: the template text as the rich text
  editor keeps it (\<^verbatim>\<open>components/ui/lexical\<close>), whose variables are found by repeated rounds of
  \<open>highlight\<close>; the theorem \<open>highlighting_settles\<close> shows that as many rounds as the longest text has characters
  are enough. \<^verbatim>\<open>UI_Notify_Form\<close>: the forms of settings and channels.

  \<^bold>\<open>Widgets.\<close> \<^verbatim>\<open>UI_Header\<close>: the header of a list's column with its dialog of search, filter and sort
  (\<^verbatim>\<open>TableHeader.vue\<close>, \<^verbatim>\<open>TableHeaderDialog.vue\<close>), composed with the conditions of the list store. \<^verbatim>\<open>UI_NavMenu\<close>:
  the file menu of the editor with its search. \<^verbatim>\<open>UI_Columns\<close>: the choice of a table's columns, from the lists that
  can be dragged to the widths that are set. \<^verbatim>\<open>UI_Task\<close>: tasks and the page of a task's log, whose visits, requests and
  intervals interleave.

  \<^bold>\<open>Routes and pages.\<close> \<^verbatim>\<open>UI_Route\<close>: the route tables of \<^verbatim>\<open>router\<close> as data, and \<^verbatim>\<open>utils/route.ts\<close>, which reads page and
  tab off a path and makes the options of a role from the tables. \<^verbatim>\<open>UI_Detail\<close>: \<^verbatim>\<open>useDetail.ts\<close> and \<^verbatim>\<open>DetailLayout.vue\<close>,
  the page of one resource, whose answers come in any order. The theorem \<open>role_pages_grant_tabs\<close> composes
  the tables, the checkbox tree, the stored routes and the tabs of the page. \<^verbatim>\<open>UI_AutoLink\<close>: \<^verbatim>\<open>autoLink.ts\<close>, which
  turns addresses in a text into links by transforms of a paragraph. \<^verbatim>\<open>UI_Resources\<close>: the smaller stores, among
  them the common one, whose edition and user decide what \<open>UI_Access\<close> permits.

  \<^bold>\<open>Conventions.\<close> A value of the language is a \<open>js\<close>, an object an association list in the order
  of its properties. A thrown exception is \<open>Inl\<close>. Numbers are integers: the code modelled here
  uses numbers as counts, sizes and identifiers. Code outside the repository is a parameter: the
  HTTP transport and the API server (\<open>transport\<close>), the file system, the URL parser, MD5, the
  translation, the clock. \<open>settle\<close> takes fuel for the redirections of the router, and the theorem
  \<open>guard_settles\<close> shows that two steps are enough.

  \<^bold>\<open>Not modelled.\<close> The validation of arguments by the MCP SDK against the tool schemas, rendering,
  translations, icons and declarative tables (menus, columns), the
  tree and table components of third parties, stores whose actions only pass answers on, and the parts of
  the program in other languages.
\<close>

end
